(* ===== verification/Prelude.thy ===== *)
theory Prelude
  imports Main "HOL-Library.AList"
begin

section \<open>Shared vocabulary of the development\<close>

text \<open>
  What the components share: results and state-passing actions (a thrown exception is
  the left injection of a sum), JavaScript's insertion-ordered \<open>Map\<close> and \<open>Set\<close> as
  association lists and distinct lists, decimal printing, and the generic lemmas on them.
  The collections \<open>result_simps\<close> and \<open>jsmap_simps\<close> carry the component proofs.
\<close>

named_theorems result_simps
named_theorems jsmap_simps

subsection \<open>Results: a value or a thrown exception\<close>

definition bind_r :: "'e + 'a \<Rightarrow> ('a \<Rightarrow> 'e + 'b) \<Rightarrow> 'e + 'b" where
  "bind_r r f = (case r of Inl e \<Rightarrow> Inl e | Inr a \<Rightarrow> f a)"

lemma bind_r_Inl [simp, result_simps]: "bind_r (Inl e) f = Inl e"
  by (simp add: bind_r_def)

lemma bind_r_Inr [simp, result_simps]: "bind_r (Inr a) f = f a"
  by (simp add: bind_r_def)

lemma bind_r_eq_Inr [result_simps]:
  "bind_r r f = Inr b \<longleftrightarrow> (\<exists>a. r = Inr a \<and> f a = Inr b)"
  by (cases r) auto

lemma bind_r_eq_Inl [result_simps]:
  "bind_r r f = Inl e \<longleftrightarrow> r = Inl e \<or> (\<exists>a. r = Inr a \<and> f a = Inl e)"
  by (cases r) auto

lemma bind_r_cong [fundef_cong]:
  "r = r' \<Longrightarrow> (\<And>a. r' = Inr a \<Longrightarrow> f a = g a) \<Longrightarrow> bind_r r f = bind_r r' g"
  by (cases r') auto

subsection \<open>Actions: code that reads and writes state and may throw\<close>

text \<open>
  A method that mutates fields and may throw is a function from the state to the outcome
  and the state it leaves behind: what was written before a throw stays written.
\<close>

type_synonym ('s, 'e, 'a) act = "'s \<Rightarrow> ('e + 'a) \<times> 's"

definition ret :: "'a \<Rightarrow> ('s, 'e, 'a) act" where
  "ret a = (\<lambda>s. (Inr a, s))"

definition throw :: "'e \<Rightarrow> ('s, 'e, 'a) act" where
  "throw e = (\<lambda>s. (Inl e, s))"

definition bind_a :: "('s, 'e, 'a) act \<Rightarrow> ('a \<Rightarrow> ('s, 'e, 'b) act) \<Rightarrow> ('s, 'e, 'b) act" where
  "bind_a m f = (\<lambda>s. case m s of (Inl e, s') \<Rightarrow> (Inl e, s') | (Inr a, s') \<Rightarrow> f a s')"

definition reads :: "('s \<Rightarrow> 'a) \<Rightarrow> ('s, 'e, 'a) act" where
  "reads f = (\<lambda>s. (Inr (f s), s))"

definition writes :: "('s \<Rightarrow> 's) \<Rightarrow> ('s, 'e, unit) act" where
  "writes f = (\<lambda>s. (Inr (), f s))"

definition lift_r :: "'e + 'a \<Rightarrow> ('s, 'e, 'a) act" where
  "lift_r r = (\<lambda>s. (r, s))"

text \<open>A \<^verbatim>\<open>try { m } finally { f }\<close> block whose \<open>finally\<close> part does not throw.\<close>

definition finally_a :: "('s, 'e, 'a) act \<Rightarrow> ('s \<Rightarrow> 's) \<Rightarrow> ('s, 'e, 'a) act" where
  "finally_a m f = (\<lambda>s. case m s of (r, s') \<Rightarrow> (r, f s'))"

lemma ret_apply [simp, result_simps]: "ret a s = (Inr a, s)"
  by (simp add: ret_def)

lemma throw_apply [simp, result_simps]: "throw e s = (Inl e, s)"
  by (simp add: throw_def)

lemma reads_apply [simp, result_simps]: "reads f s = (Inr (f s), s)"
  by (simp add: reads_def)

lemma writes_apply [simp, result_simps]: "writes f s = (Inr (), f s)"
  by (simp add: writes_def)

lemma lift_r_apply [simp, result_simps]: "lift_r r s = (r, s)"
  by (simp add: lift_r_def)

lemma bind_a_Inr [simp, result_simps]: "m s = (Inr a, s') \<Longrightarrow> bind_a m f s = f a s'"
  by (simp add: bind_a_def)

lemma bind_a_Inl [simp, result_simps]: "m s = (Inl e, s') \<Longrightarrow> bind_a m f s = (Inl e, s')"
  by (simp add: bind_a_def)

lemma bind_a_eq:
  "bind_a m f s = (case m s of (Inl e, s') \<Rightarrow> (Inl e, s') | (Inr a, s') \<Rightarrow> f a s')"
  by (simp add: bind_a_def)

lemma bind_a_assoc: "bind_a (bind_a m f) g = bind_a m (\<lambda>x. bind_a (f x) g)"
  by (rule ext) (simp add: bind_a_eq split: prod.splits sum.splits)

lemma finally_a_apply [simp, result_simps]: "finally_a m f s = (fst (m s), f (snd (m s)))"
  by (simp add: finally_a_def split_beta)

subsection \<open>JavaScript's Map: insertion order, one entry per key\<close>

text \<open>
  \<^verbatim>\<open>m.set(k, v)\<close> overwrites in place or appends, \<^verbatim>\<open>m.get(k)\<close> is
  \<open>map_of\<close>, \<^verbatim>\<open>m.delete(k)\<close> drops the entry, and iteration follows insertion order.
\<close>

type_synonym ('k, 'v) jsmap = "('k \<times> 'v) list"

abbreviation map_set :: "'k \<Rightarrow> 'v \<Rightarrow> ('k, 'v) jsmap \<Rightarrow> ('k, 'v) jsmap" where
  "map_set \<equiv> AList.update"

abbreviation map_delete :: "'k \<Rightarrow> ('k, 'v) jsmap \<Rightarrow> ('k, 'v) jsmap" where
  "map_delete \<equiv> AList.delete"

abbreviation map_get :: "('k, 'v) jsmap \<Rightarrow> 'k \<Rightarrow> 'v option" where
  "map_get \<equiv> map_of"

abbreviation map_keys :: "('k, 'v) jsmap \<Rightarrow> 'k list" where
  "map_keys m \<equiv> map fst m"

abbreviation map_values :: "('k, 'v) jsmap \<Rightarrow> 'v list" where
  "map_values m \<equiv> map snd m"

text \<open>Every map the program builds has one entry per key.\<close>

definition jsmap_ok :: "('k, 'v) jsmap \<Rightarrow> bool" where
  "jsmap_ok m \<longleftrightarrow> distinct (map_keys m)"

text \<open>\<^verbatim>\<open>new Map(pairs)\<close>: later pairs overwrite earlier ones.\<close>

definition map_from :: "('k \<times> 'v) list \<Rightarrow> ('k, 'v) jsmap" where
  "map_from ps = fold (\<lambda>(k, v). map_set k v) ps []"

lemma map_get_set [simp, jsmap_simps]:
  "map_get (map_set k v m) k' = (if k' = k then Some v else map_get m k')"
  by (simp add: update_conv')

lemma map_get_delete [simp, jsmap_simps]:
  "map_get (map_delete k m) k' = (if k' = k then None else map_get m k')"
  by (simp add: delete_conv')

lemma jsmap_ok_Nil [simp, intro, jsmap_simps]: "jsmap_ok []"
  by (simp add: jsmap_ok_def)

lemma jsmap_ok_set [simp, intro, jsmap_simps]: "jsmap_ok m \<Longrightarrow> jsmap_ok (map_set k v m)"
  by (simp add: jsmap_ok_def distinct_update)

lemma jsmap_ok_delete [simp, intro, jsmap_simps]: "jsmap_ok m \<Longrightarrow> jsmap_ok (map_delete k m)"
  by (simp add: jsmap_ok_def distinct_delete)

lemma map_keys_set [jsmap_simps]:
  "map_keys (map_set k v m) = (if k \<in> set (map_keys m) then map_keys m else map_keys m @ [k])"
  by (simp add: update_keys)

lemma set_map_keys_set [simp, jsmap_simps]: "set (map_keys (map_set k v m)) = insert k (set (map_keys m))"
  by (auto simp: map_keys_set)

lemma jsmap_ok_get_iff: "jsmap_ok m \<Longrightarrow> map_get m k = Some v \<longleftrightarrow> (k, v) \<in> set m"
  by (simp add: jsmap_ok_def)

lemma map_get_None_iff: "map_get m k = None \<longleftrightarrow> k \<notin> set (map_keys m)"
  by (auto simp: map_of_eq_None_iff)

lemma in_map_values_iff:
  "jsmap_ok m \<Longrightarrow> v \<in> set (map_values m) \<longleftrightarrow> (\<exists>k. map_get m k = Some v)"
  by (force simp: jsmap_ok_get_iff)

lemma fold_map_set_get:
  "map_get (fold (\<lambda>(k, v). map_set k v) ps m) = map_get m ++ map_of (rev ps)"
proof (induction ps arbitrary: m)
  case Nil
  then show ?case by simp
next
  case (Cons p ps)
  then show ?case
    by (cases p) (simp add: update_conv' map_of_append map_add_assoc [symmetric]
        map_add_upd_left [symmetric] fun_upd_def [symmetric])
qed

lemma fold_map_set_ok: "jsmap_ok m \<Longrightarrow> jsmap_ok (fold (\<lambda>(k, v). map_set k v) ps m)"
  by (induction ps arbitrary: m) auto

lemma fold_map_set_keys:
  "set (map_keys (fold (\<lambda>(k, v). map_set k v) ps m)) = set (map_keys m) \<union> set (map fst ps)"
proof (induction ps arbitrary: m)
  case Nil
  then show ?case by simp
next
  case (Cons p ps)
  then show ?case by (cases p) (simp only: fold_simps split set_map_keys_set, auto)
qed

lemma jsmap_ok_map_from [simp, intro, jsmap_simps]: "jsmap_ok (map_from ps)"
  by (simp add: map_from_def fold_map_set_ok)

lemma map_get_map_from [jsmap_simps]: "map_get (map_from ps) = map_of (rev ps)"
  by (simp add: map_from_def fold_map_set_get)

lemma set_map_keys_map_from [simp, jsmap_simps]: "set (map_keys (map_from ps)) = set (map fst ps)"
  unfolding map_from_def by (simp only: fold_map_set_keys, simp)

text \<open>With distinct keys nothing is overwritten and the order is the list's own.\<close>

lemma fold_map_set_distinct:
  "distinct (map fst (m @ ps)) \<Longrightarrow> fold (\<lambda>(k, v). map_set k v) ps m = m @ ps"
proof (induction ps arbitrary: m)
  case Nil
  then show ?case by simp
next
  case (Cons p ps)
  obtain k v where p: "p = (k, v)" by (cases p)
  from Cons.prems p have "k \<notin> fst ` set m" by auto
  then have upd: "map_set k v m = m @ [(k, v)]"
    by (induction m) (auto split: if_splits)
  from Cons.prems p have "distinct (map fst ((m @ [(k, v)]) @ ps))" by simp
  then have "fold (\<lambda>(k, v). map_set k v) ps (m @ [(k, v)]) = (m @ [(k, v)]) @ ps"
    by (rule Cons.IH)
  then show ?case using p upd by simp
qed

lemma map_from_distinct [jsmap_simps]: "distinct (map fst ps) \<Longrightarrow> map_from ps = ps"
  unfolding map_from_def using fold_map_set_distinct [of "[]" ps] by simp

subsection \<open>JavaScript's Set: insertion order, no duplicates\<close>

type_synonym 'a jsset = "'a list"

definition set_add :: "'a \<Rightarrow> 'a jsset \<Rightarrow> 'a jsset" where
  "set_add x xs = (if x \<in> set xs then xs else xs @ [x])"

definition set_delete :: "'a \<Rightarrow> 'a jsset \<Rightarrow> 'a jsset" where
  "set_delete x xs = filter (\<lambda>y. y \<noteq> x) xs"

definition set_from :: "'a list \<Rightarrow> 'a jsset" where
  "set_from xs = fold set_add xs []"

lemma set_set_add [simp, jsmap_simps]: "set (set_add x xs) = insert x (set xs)"
  by (auto simp: set_add_def)

lemma distinct_set_add [simp, jsmap_simps]: "distinct (set_add x xs) = distinct xs"
  by (simp add: set_add_def)

lemma set_set_delete [simp, jsmap_simps]: "set (set_delete x xs) = set xs - {x}"
  by (auto simp: set_delete_def)

lemma distinct_set_delete [simp, jsmap_simps]: "distinct xs \<Longrightarrow> distinct (set_delete x xs)"
  by (simp add: set_delete_def)

lemma set_delete_add [simp, jsmap_simps]: "x \<notin> set xs \<Longrightarrow> set_delete x (set_add x xs) = xs"
  by (auto simp: set_delete_def set_add_def intro: filter_True)

lemma set_fold_set_add: "set (fold set_add xs ys) = set xs \<union> set ys"
  by (induction xs arbitrary: ys) auto

lemma distinct_fold_set_add: "distinct ys \<Longrightarrow> distinct (fold set_add xs ys)"
  by (induction xs arbitrary: ys) auto

lemma set_set_from [simp, jsmap_simps]: "set (set_from xs) = set xs"
  by (simp add: set_from_def set_fold_set_add)

lemma distinct_set_from [simp, jsmap_simps]: "distinct (set_from xs)"
  by (simp add: set_from_def distinct_fold_set_add)

subsection \<open>Decimal printing, as template literals print integers\<close>

definition digit_char :: "nat \<Rightarrow> char" where
  "digit_char d = char_of (48 + d)"

fun show_nat :: "nat \<Rightarrow> string" where
  "show_nat n = (if n < 10 then [digit_char n] else show_nat (n div 10) @ [digit_char (n mod 10)])"

declare show_nat.simps [simp del]

definition show_int :: "int \<Rightarrow> string" where
  "show_int i = (if i < 0 then ''-'' @ show_nat (nat (- i)) else show_nat (nat i))"

text \<open>\<^verbatim>\<open>parts.join(sep)\<close>\<close>

fun join :: "string \<Rightarrow> string list \<Rightarrow> string" where
  "join sep [] = []"
| "join sep [x] = x"
| "join sep (x # y # xs) = x @ sep @ join sep (y # xs)"

text \<open>\<^verbatim>\<open>s.split(d)\<close> for a separator of one character\<close>

fun split_on :: "char \<Rightarrow> string \<Rightarrow> string list" where
  "split_on d [] = [[]]"
| "split_on d (c # cs) =
     (if c = d then [] # split_on d cs
      else case split_on d cs of [] \<Rightarrow> [[c]] | w # ws \<Rightarrow> (c # w) # ws)"

subsection \<open>Lists\<close>

lemma find_Some_in: "List.find P xs = Some x \<Longrightarrow> x \<in> set xs \<and> P x"
  by (induction xs) (auto split: if_splits)

lemma find_distinct_key:
  assumes "distinct (map f xs)" and "x \<in> set xs"
  shows "List.find (\<lambda>y. f y = f x) xs = Some x"
  using assms by (induction xs) (auto simp: rev_image_eqI)

lemma map_of_map_key:
  assumes "distinct (map f xs)" and "x \<in> set xs"
  shows "map_of (map (\<lambda>y. (f y, g y)) xs) (f x) = Some (g x)"
  using assms by (induction xs) (auto simp: rev_image_eqI)

lemma map_of_map_key_None:
  "k \<notin> f ` set xs \<Longrightarrow> map_of (map (\<lambda>y. (f y, g y)) xs) k = None"
  by (induction xs) auto

lemma map_of_rev_distinct: "distinct (map fst ps) \<Longrightarrow> map_of (rev ps) = map_of ps"
proof (induction ps)
  case Nil
  then show ?case by simp
next
  case (Cons p ps)
  then have "map_of ps (fst p) = None" by (simp add: map_get_None_iff)
  with Cons show ?case
    by (auto simp: map_of_append map_add_def fun_eq_iff split: option.splits)
qed

lemma sum_list_map_ge:
  fixes c :: int
  shows "(\<And>x. x \<in> set xs \<Longrightarrow> f x \<le> c) \<Longrightarrow> sum_list (map f xs) \<le> c * int (length xs)"
  by (induction xs) (auto simp: algebra_simps intro!: add_mono)

lemma sum_update:
  fixes f :: "'a \<Rightarrow> nat"
  assumes "i < length ws"
  shows "sum_list (map f (ws[i := w])) + f (ws ! i) = sum_list (map f ws) + f w"
  using assms
proof (induction ws arbitrary: i)
  case (Cons x xs)
  then show ?case by (cases i) (simp_all add: add.assoc)
qed simp

end
