(* ===== verification/Errors.thy ===== *)
theory Errors
  imports Prelude
begin

section \<open>Exceptions (domain/errors.ts) and their HTTP status (api/server.ts)\<close>

text \<open>
  Every \<^verbatim>\<open>throw\<close> of the program is a value of \<open>err\<close>: one constructor per class of
  \<^verbatim>\<open>domain/errors.ts\<close>, \<open>JsError\<close> for a plain \<^verbatim>\<open>new Error(message)\<close>
  and \<open>JsTypeError\<close> for a \<^verbatim>\<open>TypeError\<close> the runtime raises. \<open>Unmodelled\<close> is not
  an exception of the program: it marks the few evaluations the model does not follow
  (a name inherited from \<^verbatim>\<open>Object.prototype\<close>, the shortest decimal form of a
  fractional number), and no handler of the model catches it.
\<close>

datatype failure_reason =
    Validation
  | Timeout
  | HandlerError
  | TransitionDenied
  | ConstraintViolation
  | MaxRetriesExceeded

fun failure_reason_str :: "failure_reason \<Rightarrow> string" where
  "failure_reason_str Validation = ''validation''"
| "failure_reason_str Timeout = ''timeout''"
| "failure_reason_str HandlerError = ''handler_error''"
| "failure_reason_str TransitionDenied = ''transition_denied''"
| "failure_reason_str ConstraintViolation = ''constraint_violation''"
| "failure_reason_str MaxRetriesExceeded = ''max_retries_exceeded''"

datatype err =
    JobflowError (err_arg_code: string) string
  | ValidationError string "string list"
  | TransitionError string
  | NotFoundError string string
  | ExecutionError failure_reason string
  | ConcurrencyError string
  | JsError string
  | JsTypeError string
  | Unmodelled string

type_synonym 'a res = "err + 'a"

text \<open>The \<^verbatim>\<open>name\<close>, \<^verbatim>\<open>code\<close> and \<^verbatim>\<open>message\<close> fields the constructors set.\<close>

fun err_name :: "err \<Rightarrow> string" where
  "err_name (JobflowError c m) = ''JobflowError''"
| "err_name (ValidationError m ds) = ''ValidationError''"
| "err_name (TransitionError m) = ''TransitionError''"
| "err_name (NotFoundError e i) = ''NotFoundError''"
| "err_name (ExecutionError r m) = ''ExecutionError''"
| "err_name (ConcurrencyError m) = ''ConcurrencyError''"
| "err_name (JsError m) = ''Error''"
| "err_name (JsTypeError m) = ''TypeError''"
| "err_name (Unmodelled m) = ''''"

fun err_code :: "err \<Rightarrow> string option" where
  "err_code (JobflowError c m) = Some c"
| "err_code (ValidationError m ds) = Some ''VALIDATION_ERROR''"
| "err_code (TransitionError m) = Some ''TRANSITION_DENIED''"
| "err_code (NotFoundError e i) = Some ''NOT_FOUND''"
| "err_code (ExecutionError r m) = Some ''EXECUTION_ERROR''"
| "err_code (ConcurrencyError m) = Some ''CONCURRENCY_CONFLICT''"
| "err_code (JsError m) = None"
| "err_code (JsTypeError m) = None"
| "err_code (Unmodelled m) = None"

fun err_message :: "err \<Rightarrow> string" where
  "err_message (JobflowError c m) = m"
| "err_message (ValidationError m ds) = m"
| "err_message (TransitionError m) = m"
| "err_message (NotFoundError e i) = e @ '' not found: '' @ i"
| "err_message (ExecutionError r m) = m"
| "err_message (ConcurrencyError m) = m"
| "err_message (JsError m) = m"
| "err_message (JsTypeError m) = m"
| "err_message (Unmodelled m) = m"

text \<open>The error handler of \<^verbatim>\<open>buildApp\<close>: the status and the body of the reply.\<close>

record error_reply =
  reply_status :: nat
  reply_error :: string
  reply_code :: string

definition error_status :: "err \<Rightarrow> nat" where
  "error_status e =
     (if err_name e = ''ValidationError'' then 400
      else if err_name e = ''NotFoundError'' then 404
      else if err_name e = ''JobflowError'' \<and> err_code e = Some ''UNAUTHORIZED'' then 401
      else 500)"

definition error_handler :: "err \<Rightarrow> error_reply" where
  "error_handler e =
     \<lparr>reply_status = error_status e, reply_error = err_message e,
      reply_code = (case err_code e of Some c \<Rightarrow> c | None \<Rightarrow> ''INTERNAL_ERROR'')\<rparr>"

text \<open>
  The handler dispatches on the error's \<^emph>\<open>name\<close>, so of the domain's own errors only two
  classes get a client status: a denied transition, a lock conflict, a blocked constraint and
  an exceeded quota are all reported as 500.
\<close>

lemma error_status_domain [simp]:
  "error_status (ValidationError m ds) = 400"
  "error_status (NotFoundError en i) = 404"
  "error_status (TransitionError m) = 500"
  "error_status (ConcurrencyError m) = 500"
  "error_status (ExecutionError r m) = 500"
  "error_status (JsError m) = 500"
  "error_status (JsTypeError m) = 500"
  by (simp_all add: error_status_def)

text \<open>
  \<^verbatim>\<open>try ... catch (e)\<close>: the handler runs in the state the exception left behind.
\<close>

definition is_unmodelled :: "err \<Rightarrow> bool" where
  "is_unmodelled e = (case e of Unmodelled m \<Rightarrow> True | _ \<Rightarrow> False)"

definition catch_a :: "('s, err, 'a) act \<Rightarrow> (err \<Rightarrow> ('s, err, 'a) act) \<Rightarrow> ('s, err, 'a) act" where
  "catch_a m h s =
     (case m s of
        (Inl e, s') \<Rightarrow> if is_unmodelled e then (Inl e, s') else h e s'
      | (Inr a, s') \<Rightarrow> (Inr a, s'))"

definition catch_r :: "'a res \<Rightarrow> (err \<Rightarrow> 'a res) \<Rightarrow> 'a res" where
  "catch_r r h = (case r of Inl e \<Rightarrow> if is_unmodelled e then Inl e else h e | Inr a \<Rightarrow> Inr a)"

lemma catch_r_Inr [simp]: "catch_r (Inr a) h = Inr a"
  by (simp add: catch_r_def)

lemma is_unmodelled_simps [simp]:
  "is_unmodelled (Unmodelled m)"
  "\<not> is_unmodelled (JsError m)" "\<not> is_unmodelled (JsTypeError m)"
  "\<not> is_unmodelled (ValidationError m ds)" "\<not> is_unmodelled (NotFoundError en i)"
  "\<not> is_unmodelled (TransitionError m)" "\<not> is_unmodelled (ExecutionError r m)"
  "\<not> is_unmodelled (ConcurrencyError m)" "\<not> is_unmodelled (JobflowError c m)"
  by (simp_all add: is_unmodelled_def)

text \<open>
  Parsing steps: \<open>None\<close> is a parser that has not answered within its fuel, an answer is an
  exception or a value and the rest of the input.
\<close>

definition bind_p ::
    "('a \<times> 's) res option \<Rightarrow> ('a \<Rightarrow> 's \<Rightarrow> ('b \<times> 's) res option) \<Rightarrow> ('b \<times> 's) res option" where
  "bind_p m f =
     (case m of
        None \<Rightarrow> None
      | Some (Inl e) \<Rightarrow> Some (Inl e)
      | Some (Inr (a, ts)) \<Rightarrow> f a ts)"

definition ret_p :: "'a \<Rightarrow> 's \<Rightarrow> ('a \<times> 's) res option" where
  "ret_p a ts = Some (Inr (a, ts))"

end
