(* ===== verification/JsValue.thy ===== *)
theory JsValue
  imports Complex_Main "HOL-Library.Log_Nat" Errors
begin

section \<open>JavaScript numbers and values\<close>

text \<open>
  The values a run's context, task outputs and constraint expressions range over, with the
  conversions of the language the program applies to them: \<^verbatim>\<open>Number(v)\<close>,
  \<^verbatim>\<open>Boolean(v)\<close>, \<^verbatim>\<open>String(v)\<close> and loose equality \<^verbatim>\<open>==\<close>.
  A number is an IEEE-754 double: \<open>Fin r\<close> a finite value (\<open>Fin 0\<close> is \<open>+0\<close>),
  \<open>NZero\<close> the negative zero, and every arithmetic result is rounded to nearest-even by
  \<open>to_double\<close>. Objects and arrays carry an address, because \<^verbatim>\<open>==\<close> compares
  them by identity. Strings are sequences of code units below 256.
\<close>

subsection \<open>Doubles\<close>

datatype jsnum = NaN | PInf | NInf | NZero | Fin rat

definition pow2 :: "int \<Rightarrow> rat" where
  "pow2 k = (if 0 \<le> k then 2 ^ nat k else 1 / 2 ^ nat (- k))"

text \<open>The exponent of the leading bit of a positive rational.\<close>

definition ilog2 :: "rat \<Rightarrow> int" where
  "ilog2 a =
     (let nd = quotient_of a;
          k = int (floorlog 2 (nat (fst nd))) - int (floorlog 2 (nat (snd nd)))
      in if pow2 k \<le> a then k else k - 1)"

definition round_half_even :: "rat \<Rightarrow> int" where
  "round_half_even r =
     (let f = \<lfloor>r\<rfloor>; d = r - of_int f
      in if d < 1 / 2 then f
         else if 1 / 2 < d then f + 1
         else if even f then f else f + 1)"

text \<open>Rounding to nearest, ties to even, with gradual underflow and overflow to infinity.\<close>

definition to_double :: "rat \<Rightarrow> jsnum" where
  "to_double r =
     (if r = 0 then Fin 0
      else let a = \<bar>r\<bar>;
               e = max (ilog2 a - 52) (- 1074);
               v = of_int (round_half_even (a / pow2 e)) * pow2 e
           in if pow2 1024 \<le> v then (if r < 0 then NInf else PInf)
              else if v = 0 then (if r < 0 then NZero else Fin 0)
              else Fin (if r < 0 then - v else v))"

definition num_val :: "jsnum \<Rightarrow> rat" where
  "num_val n = (case n of Fin r \<Rightarrow> r | _ \<Rightarrow> 0)"

definition num_is_neg :: "jsnum \<Rightarrow> bool" where
  "num_is_neg n = (case n of Fin r \<Rightarrow> r < 0 | NZero \<Rightarrow> True | NInf \<Rightarrow> True | _ \<Rightarrow> False)"

definition num_is_zero :: "jsnum \<Rightarrow> bool" where
  "num_is_zero n = (n = NZero \<or> n = Fin 0)"

definition num_is_inf :: "jsnum \<Rightarrow> bool" where
  "num_is_inf n = (n = PInf \<or> n = NInf)"

definition signed_zero :: "bool \<Rightarrow> jsnum" where
  "signed_zero neg = (if neg then NZero else Fin 0)"

definition signed_inf :: "bool \<Rightarrow> jsnum" where
  "signed_inf neg = (if neg then NInf else PInf)"

fun num_neg :: "jsnum \<Rightarrow> jsnum" where
  "num_neg NaN = NaN"
| "num_neg PInf = NInf"
| "num_neg NInf = PInf"
| "num_neg NZero = Fin 0"
| "num_neg (Fin r) = (if r = 0 then NZero else Fin (- r))"

definition num_add :: "jsnum \<Rightarrow> jsnum \<Rightarrow> jsnum" where
  "num_add a b =
     (if a = NaN \<or> b = NaN then NaN
      else if num_is_inf a \<and> num_is_inf b then (if a = b then a else NaN)
      else if num_is_inf a then a
      else if num_is_inf b then b
      else if a = NZero \<and> b = NZero then NZero
      else to_double (num_val a + num_val b))"

definition num_sub :: "jsnum \<Rightarrow> jsnum \<Rightarrow> jsnum" where
  "num_sub a b = num_add a (num_neg b)"

definition num_mul :: "jsnum \<Rightarrow> jsnum \<Rightarrow> jsnum" where
  "num_mul a b =
     (let neg = (num_is_neg a \<noteq> num_is_neg b)
      in if a = NaN \<or> b = NaN then NaN
         else if num_is_inf a \<or> num_is_inf b
         then (if num_is_zero a \<or> num_is_zero b then NaN else signed_inf neg)
         else if num_is_zero a \<or> num_is_zero b then signed_zero neg
         else to_double (num_val a * num_val b))"

definition num_div :: "jsnum \<Rightarrow> jsnum \<Rightarrow> jsnum" where
  "num_div a b =
     (let neg = (num_is_neg a \<noteq> num_is_neg b)
      in if a = NaN \<or> b = NaN then NaN
         else if num_is_inf a then (if num_is_inf b then NaN else signed_inf neg)
         else if num_is_inf b then signed_zero neg
         else if num_is_zero b then (if num_is_zero a then NaN else signed_inf neg)
         else if num_is_zero a then signed_zero neg
         else to_double (num_val a / num_val b))"

definition num_lt :: "jsnum \<Rightarrow> jsnum \<Rightarrow> bool" where
  "num_lt a b =
     (if a = NaN \<or> b = NaN then False
      else if a = PInf \<or> b = NInf then False
      else if a = NInf \<or> b = PInf then True
      else num_val a < num_val b)"

definition num_le :: "jsnum \<Rightarrow> jsnum \<Rightarrow> bool" where
  "num_le a b = (a \<noteq> NaN \<and> b \<noteq> NaN \<and> \<not> num_lt b a)"

definition num_eq :: "jsnum \<Rightarrow> jsnum \<Rightarrow> bool" where
  "num_eq a b =
     (a \<noteq> NaN \<and> b \<noteq> NaN \<and>
      (if num_is_inf a \<or> num_is_inf b then a = b else num_val a = num_val b))"

subsection \<open>Number(string)\<close>

definition is_ws :: "char \<Rightarrow> bool" where
  "is_ws c = (of_char c \<in> {9, 10, 11, 12, 13, 32, 160 :: nat})"

definition is_digit :: "char \<Rightarrow> bool" where
  "is_digit c = (48 \<le> (of_char c :: nat) \<and> (of_char c :: nat) \<le> 57)"

definition is_alpha :: "char \<Rightarrow> bool" where
  "is_alpha c =
     (let n = (of_char c :: nat) in (65 \<le> n \<and> n \<le> 90) \<or> (97 \<le> n \<and> n \<le> 122))"

text \<open>\<^verbatim>\<open>s.includes(needle)\<close>\<close>

definition str_includes :: "string \<Rightarrow> string \<Rightarrow> bool" where
  "str_includes s needle =
     list_ex (\<lambda>k. take (length needle) (drop k s) = needle) [0..<Suc (length s)]"

definition trim :: "string \<Rightarrow> string" where
  "trim s = rev (dropWhile is_ws (rev (dropWhile is_ws s)))"

definition digit_val :: "char \<Rightarrow> nat" where
  "digit_val c =
     (let n = of_char c in if n \<le> 57 then n - 48 else if n \<le> 90 then n - 55 else n - 87)"

definition digits_val :: "nat \<Rightarrow> string \<Rightarrow> nat" where
  "digits_val base s = foldl (\<lambda>v c. base * v + digit_val c) 0 s"

definition radix_literal :: "nat \<Rightarrow> string \<Rightarrow> jsnum" where
  "radix_literal base ds =
     (if ds \<noteq> [] \<and> list_all (\<lambda>c. (is_digit c \<or> is_alpha c) \<and> digit_val c < base) ds
      then to_double (of_nat (digits_val base ds)) else NaN)"

definition take_sign :: "string \<Rightarrow> bool \<times> string" where
  "take_sign s =
     (case s of [] \<Rightarrow> (False, [])
      | c # t \<Rightarrow> if c = CHR ''-'' then (True, t) else if c = CHR ''+'' then (False, t) else (False, s))"

definition decimal_literal :: "string \<Rightarrow> rat option" where
  "decimal_literal s =
     (let ip = takeWhile is_digit s;
          r1 = dropWhile is_digit s;
          dot = (r1 \<noteq> [] \<and> hd r1 = CHR ''.'');
          fp = (if dot then takeWhile is_digit (tl r1) else []);
          r2 = (if dot then dropWhile is_digit (tl r1) else r1);
          m = (of_nat (digits_val 10 (ip @ fp)) / 10 ^ length fp :: rat)
      in if ip = [] \<and> fp = [] then None
         else (case r2 of [] \<Rightarrow> Some m
           | c # t \<Rightarrow>
               if c \<noteq> CHR ''e'' \<and> c \<noteq> CHR ''E'' then None
               else (case take_sign t of (neg, ds) \<Rightarrow>
                 if ds = [] \<or> \<not> list_all is_digit ds then None
                 else let k = digits_val 10 ds
                      in Some (if neg then m / 10 ^ k else m * 10 ^ k))))"

definition str_to_num :: "string \<Rightarrow> jsnum" where
  "str_to_num str =
     (let s = trim str in
      if s = [] then Fin 0
      else if take 2 s \<in> {''0x'', ''0X''} then radix_literal 16 (drop 2 s)
      else if take 2 s \<in> {''0o'', ''0O''} then radix_literal 8 (drop 2 s)
      else if take 2 s \<in> {''0b'', ''0B''} then radix_literal 2 (drop 2 s)
      else (case take_sign s of (neg, u) \<Rightarrow>
        if u = ''Infinity'' then signed_inf neg
        else (case decimal_literal u of
            None \<Rightarrow> NaN
          | Some m \<Rightarrow> if neg then num_neg (to_double m) else to_double m)))"

subsection \<open>Values and their conversions\<close>

text \<open>
  \<open>Loc\<close> addresses objects that came with the input, \<open>Fresh\<close> those a handler allocates; the
  other constructors address the objects the constraint validator wraps around a run's context
  and task outputs.
\<close>

datatype addr = Loc nat | Fresh nat | EvalRoot | CtxRoot | OutputRoot | TaskRoot string

datatype jsval =
    VUndef
  | VNull
  | VBool bool
  | VNum jsnum
  | VStr string
  | VArr addr "jsval list"
  | VObj addr "(string \<times> jsval) list"

type_synonym jsobj = "(string \<times> jsval) list"

definition is_object :: "jsval \<Rightarrow> bool" where
  "is_object v = (case v of VArr a xs \<Rightarrow> True | VObj a fs \<Rightarrow> True | _ \<Rightarrow> False)"

definition value_addr :: "jsval \<Rightarrow> addr option" where
  "value_addr v = (case v of VArr a xs \<Rightarrow> Some a | VObj a fs \<Rightarrow> Some a | _ \<Rightarrow> None)"

fun to_boolean :: "jsval \<Rightarrow> bool" where
  "to_boolean VUndef = False"
| "to_boolean VNull = False"
| "to_boolean (VBool b) = b"
| "to_boolean (VNum n) = (n \<noteq> NaN \<and> n \<noteq> NZero \<and> n \<noteq> Fin 0)"
| "to_boolean (VStr s) = (s \<noteq> [])"
| "to_boolean (VArr a xs) = True"
| "to_boolean (VObj a fs) = True"

text \<open>
  Number-to-string: integers below \<open>10\<^sup>21\<close> print all their digits; the shortest round-trip
  form of other finite values is outside the model.
\<close>

definition num_to_string :: "jsnum \<Rightarrow> string res" where
  "num_to_string n =
     (case n of
        NaN \<Rightarrow> Inr ''NaN''
      | PInf \<Rightarrow> Inr ''Infinity''
      | NInf \<Rightarrow> Inr ''-Infinity''
      | NZero \<Rightarrow> Inr ''0''
      | Fin r \<Rightarrow> if of_int \<lfloor>r\<rfloor> = r \<and> \<bar>r\<bar> < 10 ^ 21 then Inr (show_int \<lfloor>r\<rfloor>)
                 else Inl (Unmodelled ''number to string''))"

text \<open>
  \<^verbatim>\<open>String(v)\<close>. An object prints as \<^verbatim>\<open>[object Object]\<close> unless it has an own
  (non-callable) property \<^verbatim>\<open>toString\<close>, which makes the conversion throw; an array
  joins its elements with commas, \<^verbatim>\<open>null\<close> and \<^verbatim>\<open>undefined\<close> printing as nothing.
\<close>

fun to_string :: "jsval \<Rightarrow> string res" and elem_strings :: "jsval list \<Rightarrow> string list res" where
  "to_string VUndef = Inr ''undefined''"
| "to_string VNull = Inr ''null''"
| "to_string (VBool b) = Inr (if b then ''true'' else ''false'')"
| "to_string (VNum n) = num_to_string n"
| "to_string (VStr s) = Inr s"
| "to_string (VArr a xs) = bind_r (elem_strings xs) (\<lambda>ss. Inr (join '','' ss))"
| "to_string (VObj a fs) =
     (if map_of fs ''toString'' \<noteq> None
      then Inl (JsTypeError ''Cannot convert object to primitive value'')
      else Inr ''[object Object]'')"
| "elem_strings [] = Inr []"
| "elem_strings (x # xs) =
     bind_r (if x = VUndef \<or> x = VNull then Inr [] else to_string x)
       (\<lambda>s. bind_r (elem_strings xs) (\<lambda>ss. Inr (s # ss)))"

text \<open>\<^verbatim>\<open>Number(v)\<close>: objects go through their string form.\<close>

fun to_number :: "jsval \<Rightarrow> jsnum res" where
  "to_number VUndef = Inr NaN"
| "to_number VNull = Inr (Fin 0)"
| "to_number (VBool b) = Inr (Fin (if b then 1 else 0))"
| "to_number (VNum n) = Inr n"
| "to_number (VStr s) = Inr (str_to_num s)"
| "to_number (VArr a xs) = bind_r (to_string (VArr a xs)) (\<lambda>s. Inr (str_to_num s))"
| "to_number (VObj a fs) = bind_r (to_string (VObj a fs)) (\<lambda>s. Inr (str_to_num s))"

text \<open>Loose equality on primitives, then on all values.\<close>

definition prim_num :: "jsval \<Rightarrow> jsnum" where
  "prim_num v = (case to_number v of Inr n \<Rightarrow> n | Inl e \<Rightarrow> NaN)"

definition nullish :: "jsval \<Rightarrow> bool" where
  "nullish v = (v = VUndef \<or> v = VNull)"

definition prim_eq :: "jsval \<Rightarrow> jsval \<Rightarrow> bool" where
  "prim_eq a b =
     (if nullish a \<or> nullish b then nullish a \<and> nullish b
      else case (a, b) of
        (VStr s, VStr t) \<Rightarrow> s = t
      | (VBool x, VBool y) \<Rightarrow> x = y
      | _ \<Rightarrow> num_eq (prim_num a) (prim_num b))"

definition loose_eq :: "jsval \<Rightarrow> jsval \<Rightarrow> bool res" where
  "loose_eq a b =
     (if is_object a \<and> is_object b then Inr (value_addr a = value_addr b)
      else if nullish a \<or> nullish b then Inr (nullish a \<and> nullish b)
      else if is_object a then bind_r (to_string a) (\<lambda>s. Inr (prim_eq (VStr s) b))
      else if is_object b then bind_r (to_string b) (\<lambda>s. Inr (prim_eq a (VStr s)))
      else Inr (prim_eq a b))"

subsection \<open>Property access\<close>

text \<open>
  \<^verbatim>\<open>obj[p]\<close> on a plain object or an array: own properties first. A name that only the
  prototype has evaluates to a built-in function, which the model does not follow.
\<close>

definition object_prototype_names :: "string list" where
  "object_prototype_names =
     [''constructor'', ''__defineGetter__'', ''__defineSetter__'', ''hasOwnProperty'',
      ''__lookupGetter__'', ''__lookupSetter__'', ''isPrototypeOf'', ''propertyIsEnumerable'',
      ''toString'', ''valueOf'', ''__proto__'', ''toLocaleString'']"

definition array_prototype_names :: "string list" where
  "array_prototype_names =
     [''at'', ''concat'', ''copyWithin'', ''fill'', ''find'', ''findIndex'', ''findLast'',
      ''findLastIndex'', ''lastIndexOf'', ''pop'', ''push'', ''reverse'', ''shift'', ''unshift'',
      ''slice'', ''sort'', ''splice'', ''includes'', ''indexOf'', ''join'', ''keys'', ''entries'',
      ''values'', ''forEach'', ''filter'', ''flat'', ''flatMap'', ''map'', ''every'', ''some'',
      ''reduce'', ''reduceRight'', ''toReversed'', ''toSorted'', ''toSpliced'', ''with'']"

definition obj_get :: "jsobj \<Rightarrow> string \<Rightarrow> jsval res" where
  "obj_get fs p =
     (case map_of fs p of
        Some v \<Rightarrow> Inr v
      | None \<Rightarrow> if p \<in> set object_prototype_names then Inl (Unmodelled p) else Inr VUndef)"

definition arr_get :: "jsval list \<Rightarrow> string \<Rightarrow> jsval res" where
  "arr_get xs p =
     (if p = ''length'' then Inr (VNum (to_double (of_nat (length xs))))
      else if p \<noteq> [] \<and> list_all is_digit p \<and> p = show_nat (digits_val 10 p)
      then Inr (let i = digits_val 10 p in if i < length xs then xs ! i else VUndef)
      else if p \<in> set object_prototype_names \<or> p \<in> set array_prototype_names
      then Inl (Unmodelled p)
      else Inr VUndef)"

subsection \<open>Facts the components use\<close>

lemma num_eq_refl: "a \<noteq> NaN \<Longrightarrow> num_eq a a"
  by (simp add: num_eq_def)

lemma num_eq_sym: "num_eq a b = num_eq b a"
  by (auto simp: num_eq_def)

lemma num_cmp_NaN [simp]:
  "\<not> num_lt NaN b" "\<not> num_lt a NaN" "\<not> num_le NaN b" "\<not> num_le a NaN"
  "\<not> num_eq NaN b" "\<not> num_eq a NaN"
  by (simp_all add: num_lt_def num_le_def num_eq_def)

lemma loose_eq_undef_prim [simp]:
  "loose_eq VUndef (VBool b) = Inr False"
  "loose_eq VUndef (VNum n) = Inr False"
  "loose_eq VUndef (VStr s) = Inr False"
  "loose_eq VUndef VNull = Inr True"
  by (simp_all add: loose_eq_def is_object_def nullish_def)

lemma loose_eq_str [simp]: "loose_eq (VStr s) (VStr t) = Inr (s = t)"
  by (simp add: loose_eq_def is_object_def nullish_def prim_eq_def)

lemma pow2_pos [simp]: "0 < pow2 k"
  by (simp add: pow2_def)

lemma pow2_eq_powi: "pow2 k = 2 powi k"
  by (simp add: pow2_def power_int_def field_simps)

lemma pow2_nonpos: "k \<le> 0 \<Longrightarrow> pow2 k = 1 / 2 ^ nat (- k)"
  by (cases "k = 0") (simp_all add: pow2_def)

lemma round_half_even_int [simp]: "round_half_even (of_int n) = n"
  by (simp add: round_half_even_def Let_def)

lemma floorlog_lower: "0 < n \<Longrightarrow> 2 ^ (floorlog 2 n - 1) \<le> n"
  using floorlog_bounds [of n 2] by auto

lemma floorlog_upper: "0 < n \<Longrightarrow> n < 2 ^ floorlog 2 n"
  using floorlog_bounds [of n 2] by auto

lemma floorlog_pos: "0 < n \<Longrightarrow> 0 < floorlog 2 n"
  by (simp add: floorlog_def)

lemma ilog2_lower:
  assumes "0 < a"
  shows "pow2 (ilog2 a) \<le> a"
proof -
  obtain n d where nd: "quotient_of a = (n, d)" by (cases "quotient_of a")
  have d: "0 < d" using nd by (rule quotient_of_denom_pos)
  have a: "a = of_int n / of_int d" using nd by (rule quotient_of_div)
  have n: "0 < n" using assms a d by (simp add: zero_less_divide_iff)
  define kn where "kn = floorlog 2 (nat n)"
  define kd where "kd = floorlog 2 (nat d)"
  define k where "k = int kn - int kd"
  have kn0: "0 < kn" using n by (simp add: kn_def floorlog_pos)
  have "2 ^ (kn - 1) \<le> nat n" using n floorlog_lower [of "nat n"] by (simp add: kn_def)
  then have "int (2 ^ (kn - 1)) \<le> n" using n by linarith
  then have "rat_of_int (int (2 ^ (kn - 1))) \<le> of_int n" by (simp only: of_int_le_iff)
  then have ln: "(2 :: rat) powi (int kn - 1) \<le> of_int n"
    using kn0 by (simp add: power_int_def nat_diff_distrib)
  have "nat d < 2 ^ kd" using d floorlog_upper [of "nat d"] by (simp add: kd_def)
  then have "d \<le> int (2 ^ kd)" using d by linarith
  then have "rat_of_int d \<le> rat_of_int (int (2 ^ kd))" by (simp only: of_int_le_iff)
  then have ud: "of_int d \<le> (2 :: rat) powi int kd" by (simp add: power_int_def)
  have "(2 :: rat) powi (k - 1) = 2 powi (int kn - 1) / 2 powi int kd"
    by (simp add: k_def power_int_diff)
  also have "\<dots> \<le> of_int n / of_int d"
    using ln ud d n by (intro frac_le) auto
  finally have "pow2 (k - 1) \<le> a" by (simp add: a pow2_eq_powi)
  then show ?thesis
    by (simp add: ilog2_def nd k_def kn_def kd_def Let_def)
qed

text \<open>Integers below \<open>2\<^sup>53\<close> are doubles: no arithmetic on counts and small amounts rounds.\<close>

lemma to_double_int:
  assumes "\<bar>n\<bar> < 2 ^ 53"
  shows "to_double (of_int n) = Fin (of_int n)"
proof (cases "n = 0")
  case True
  then show ?thesis by (simp add: to_double_def)
next
  case False
  define a :: rat where "a = of_int \<bar>n\<bar>"
  have a0: "0 < a" using False by (simp add: a_def)
  have "rat_of_int \<bar>n\<bar> < of_int (2 ^ 53)" using assms by (simp only: of_int_less_iff)
  then have lt: "a < 2 powi 53" by (simp add: a_def power_int_def)
  have "2 powi ilog2 a < (2 :: rat) powi 53"
    using ilog2_lower [OF a0] lt by (simp add: pow2_eq_powi)
  then have "ilog2 a < 53"
    using power_int_increasing [of 53 "ilog2 a" "2 :: rat"] by fastforce
  define e where "e = max (ilog2 a - 52) (- 1074)"
  have pe: "pow2 e = 1 / 2 ^ nat (- e)"
    using \<open>ilog2 a < 53\<close> by (intro pow2_nonpos) (simp add: e_def)
  have "a / pow2 e = of_int (\<bar>n\<bar> * 2 ^ nat (- e))"
    by (simp add: a_def pe)
  then have v: "of_int (round_half_even (a / pow2 e)) * pow2 e = a"
    by (simp only: round_half_even_int) (simp add: a_def pe)
  have "a < pow2 1024"
    using lt power_int_increasing [of 53 1024 "2 :: rat"] by (simp add: pow2_eq_powi)
  moreover have "to_double (of_int n) =
      (let v = of_int (round_half_even (a / pow2 e)) * pow2 e
       in if pow2 1024 \<le> v then (if n < 0 then NInf else PInf)
          else if v = 0 then (if n < 0 then NZero else Fin 0)
          else Fin (if n < 0 then - v else v))"
    using False by (simp add: to_double_def a_def e_def Let_def)
  ultimately have "to_double (of_int n) = Fin (if n < 0 then - a else a)"
    using a0 by (simp only: v Let_def if_False) simp
  then show ?thesis by (simp add: a_def)
qed

lemma to_double_nat: "n < 2 ^ 53 \<Longrightarrow> to_double (of_nat n) = Fin (of_nat n)"
  using to_double_int [of "int n"] by simp

end
