(* ===== verification/Domain.thy ===== *)
theory Domain
  imports JsValue
begin

section \<open>The domain model (domain/*.ts)\<close>

text \<open>
  The types every component shares, one record per interface and one datatype per enum of
  \<^verbatim>\<open>src/src/domain\<close>, and the pure functions that live beside them: the retry policy,
  the task-run constructor, the definition clone and the priority order. A field that may be
  absent is an \<open>option\<close>. Record selectors carry a short prefix of their interface, because
  Isabelle's selectors share one name space.
\<close>

subsection \<open>Identifiers, states, statuses (types.ts)\<close>

type_synonym job_id = string
type_synonym workflow_id = string
type_synonym run_id = string
type_synonym task_id = string
type_synonym iso_date = string

datatype workflow_state =
    Draft | Pending | Running | Waiting | Completed | Failed | Cancelled | DeadLettered

fun workflow_state_str :: "workflow_state \<Rightarrow> string" where
  "workflow_state_str Draft = ''draft''"
| "workflow_state_str Pending = ''pending''"
| "workflow_state_str Running = ''running''"
| "workflow_state_str Waiting = ''waiting''"
| "workflow_state_str Completed = ''completed''"
| "workflow_state_str Failed = ''failed''"
| "workflow_state_str Cancelled = ''cancelled''"
| "workflow_state_str DeadLettered = ''dead_lettered''"

datatype task_status =
    TQueued | TRunning | TSucceeded | TFailed | TSkipped | TRetrying

fun task_status_str :: "task_status \<Rightarrow> string" where
  "task_status_str TQueued = ''queued''"
| "task_status_str TRunning = ''running''"
| "task_status_str TSucceeded = ''succeeded''"
| "task_status_str TFailed = ''failed''"
| "task_status_str TSkipped = ''skipped''"
| "task_status_str TRetrying = ''retrying''"

lemma workflow_state_str_inject [simp]:
  "workflow_state_str a = workflow_state_str b \<longleftrightarrow> a = b"
  by (cases a; cases b) simp_all

lemma task_status_str_inject [simp]: "task_status_str a = task_status_str b \<longleftrightarrow> a = b"
  by (cases a; cases b) simp_all

record retry_policy =
  maxAttempts :: int
  initialDelayMs :: int
  backoffMultiplier :: rat
  maxDelayMs :: int

record transition_rule =
  rule_from :: workflow_state
  rule_to :: workflow_state
  rule_event :: string
  rule_guard :: "string option"

subsection \<open>Job definitions (job-definition.ts)\<close>

record task_definition =
  td_id :: string
  td_name :: string
  td_handler :: string
  td_timeoutMs :: int
  td_optional :: "bool option"
  td_dependsOn :: "string list option"

datatype severity = Warn | Block

record job_constraint =
  jc_id :: string
  jc_expression :: string
  jc_severity :: severity

record job_definition =
  jd_id :: job_id
  jd_name :: string
  jd_version :: int
  jd_description :: "string option"
  jd_tasks :: "task_definition list"
  jd_constraints :: "job_constraint list"
  jd_retryPolicy :: retry_policy
  jd_allowedTransitions :: "string list"
  jd_metadata :: "(string \<times> string) list"
  jd_createdAt :: iso_date
  jd_updatedAt :: iso_date

text \<open>\<^verbatim>\<open>t.dependsOn ?? []\<close>, the form every reader of the field uses.\<close>

definition td_deps :: "task_definition \<Rightarrow> string list" where
  "td_deps t = (case td_dependsOn t of None \<Rightarrow> [] | Some ds \<Rightarrow> ds)"

definition cloneJobDefinition :: "job_definition \<Rightarrow> job_definition" where
  "cloneJobDefinition def =
     def\<lparr>jd_tasks := map (\<lambda>t. t\<lparr>td_dependsOn :=
            (case td_dependsOn t of Some ds \<Rightarrow> Some (map id ds) | None \<Rightarrow> None)\<rparr>) (jd_tasks def),
         jd_constraints := map (\<lambda>c. c) (jd_constraints def),
         jd_metadata := map (\<lambda>m. m) (jd_metadata def)\<rparr>"

subsection \<open>Task runs (task.ts)\<close>

record task_run =
  tr_id :: task_id
  tr_runId :: run_id
  tr_definitionTaskId :: string
  tr_handler :: string
  tr_status :: task_status
  tr_attempt :: nat
  tr_startedAt :: "iso_date option"
  tr_finishedAt :: "iso_date option"
  tr_output :: "jsobj option"
  tr_errorMessage :: "string option"

definition createTaskRun :: "task_id \<Rightarrow> run_id \<Rightarrow> string \<Rightarrow> string \<Rightarrow> task_run" where
  "createTaskRun i runId definitionTaskId handler =
     \<lparr>tr_id = i, tr_runId = runId, tr_definitionTaskId = definitionTaskId, tr_handler = handler,
      tr_status = TQueued, tr_attempt = 0, tr_startedAt = None, tr_finishedAt = None,
      tr_output = None, tr_errorMessage = None\<rparr>"

subsection \<open>Workflow instances and runs (workflow-instance.ts)\<close>

record history_entry =
  he_at :: iso_date
  he_from :: workflow_state
  he_to :: workflow_state
  he_event :: string
  he_actor :: string
  he_note :: "string option"

record workflow_instance =
  wf_id :: workflow_id
  wf_jobId :: job_id
  wf_runId :: run_id
  wf_state :: workflow_state
  wf_currentTaskId :: "string option"
  wf_context :: jsobj
  wf_tasks :: "task_run list"
  wf_history :: "history_entry list"
  wf_version :: nat
  wf_createdAt :: iso_date
  wf_updatedAt :: iso_date

record job_run =
  jr_id :: run_id
  jr_jobId :: job_id
  jr_workflowId :: workflow_id
  jr_status :: workflow_state
  jr_startedAt :: iso_date
  jr_finishedAt :: "iso_date option"
  jr_trigger :: string
  jr_input :: jsobj

subsection \<open>Domain events (events.ts)\<close>

datatype domain_event =
    JobRegistered job_id iso_date
  | RunStarted run_id job_id iso_date
  | RunCompleted run_id iso_date
  | WorkflowTransitioned run_id workflow_state workflow_state string iso_date
  | TaskStarted run_id string nat iso_date
  | TaskFinished run_id string bool iso_date
  | TaskRetryScheduled run_id string nat nat iso_date
  | RunFailed run_id failure_reason iso_date
  | RunDeadLettered run_id iso_date

subsection \<open>Priorities (priority.ts)\<close>

datatype run_priority = Low | Normal | High | Critical

fun priority_num :: "run_priority \<Rightarrow> int" where
  "priority_num Low = 1"
| "priority_num Normal = 5"
| "priority_num High = 10"
| "priority_num Critical = 20"

definition comparePriority :: "run_priority \<Rightarrow> run_priority \<Rightarrow> int" where
  "comparePriority a b = priority_num b - priority_num a"

lemma priority_num_inject [simp]: "priority_num a = priority_num b \<longleftrightarrow> a = b"
  by (cases a; cases b) simp_all

instantiation run_priority :: linorder
begin

definition less_eq_run_priority :: "run_priority \<Rightarrow> run_priority \<Rightarrow> bool" where
  "a \<le> b \<longleftrightarrow> priority_num a \<le> priority_num b"

definition less_run_priority :: "run_priority \<Rightarrow> run_priority \<Rightarrow> bool" where
  "a < b \<longleftrightarrow> priority_num a < priority_num b"

instance
  by standard (auto simp: less_eq_run_priority_def less_run_priority_def)

end

subsection \<open>The retry policy (retry-policy.ts)\<close>

definition DEFAULT_RETRY_POLICY :: retry_policy where
  "DEFAULT_RETRY_POLICY =
     \<lparr>maxAttempts = 3, initialDelayMs = 500, backoffMultiplier = 2, maxDelayMs = 30000\<rparr>"

text \<open>
  \<^verbatim>\<open>Math.pow\<close>, \<^verbatim>\<open>Math.floor\<close> and \<^verbatim>\<open>Math.min\<close> on doubles; the power of a
  finite base is the correctly rounded one.
\<close>

definition math_pow :: "rat \<Rightarrow> nat \<Rightarrow> jsnum" where
  "math_pow b n = to_double (b ^ n)"

definition math_floor :: "jsnum \<Rightarrow> jsnum" where
  "math_floor n = (case n of Fin r \<Rightarrow> Fin (of_int \<lfloor>r\<rfloor>) | _ \<Rightarrow> n)"

definition math_min :: "jsnum \<Rightarrow> jsnum \<Rightarrow> jsnum" where
  "math_min a b =
     (if a = NaN \<or> b = NaN then NaN
      else if num_is_zero a \<and> num_is_zero b then signed_zero (a = NZero \<or> b = NZero)
      else if num_lt b a then b else a)"

definition computeBackoffDelay :: "retry_policy \<Rightarrow> int \<Rightarrow> jsnum" where
  "computeBackoffDelay policy attempt =
     (if attempt \<le> 0 then to_double (of_int (initialDelayMs policy))
      else let raw = num_mul (to_double (of_int (initialDelayMs policy)))
                       (math_pow (backoffMultiplier policy) (nat (attempt - 1)))
           in math_min (math_floor raw) (to_double (of_int (maxDelayMs policy))))"

definition shouldRetry :: "retry_policy \<Rightarrow> int \<Rightarrow> bool" where
  "shouldRetry policy attempt = (attempt < maxAttempts policy)"

subsection \<open>Facts about the domain functions\<close>

lemma td_deps_simps [simp]:
  "td_dependsOn t = None \<Longrightarrow> td_deps t = []"
  "td_dependsOn t = Some ds \<Longrightarrow> td_deps t = ds"
  by (simp_all add: td_deps_def)

lemma createTaskRun_fields [simp]:
  "tr_id (createTaskRun i r d h) = i"
  "tr_runId (createTaskRun i r d h) = r"
  "tr_definitionTaskId (createTaskRun i r d h) = d"
  "tr_handler (createTaskRun i r d h) = h"
  "tr_status (createTaskRun i r d h) = TQueued"
  "tr_attempt (createTaskRun i r d h) = 0"
  "tr_output (createTaskRun i r d h) = None"
  by (simp_all add: createTaskRun_def)

text \<open>A clone is equal in value: the copy loses nothing.\<close>

lemma cloneJobDefinition_eq: "cloneJobDefinition def = def"
proof -
  have "t\<lparr>td_dependsOn :=
      (case td_dependsOn t of Some ds \<Rightarrow> Some (map id ds) | None \<Rightarrow> None)\<rparr> = t" for t :: task_definition
    by (cases t) (simp split: option.splits)
  then show ?thesis by (simp add: cloneJobDefinition_def map_idI)
qed

lemma comparePriority_less_iff: "comparePriority a b < 0 \<longleftrightarrow> b < a"
  by (simp add: comparePriority_def less_run_priority_def)

text \<open>
  Under an integral multiplier, and while the product stays an exact double, the delay is the
  textbook capped exponential.
\<close>

lemma num_mul_int:
  assumes "0 \<le> a" and "0 \<le> b" and "a < 2 ^ 53" and "b < 2 ^ 53" and "a * b < 2 ^ 53"
  shows "num_mul (to_double (of_int a)) (to_double (of_int b)) = Fin (of_int (a * b))"
proof -
  have d: "to_double (of_int a) = Fin (of_int a)" "to_double (of_int b) = Fin (of_int b)"
    using assms by (simp_all add: to_double_int)
  have "to_double (of_int (a * b)) = Fin (of_int (a * b))"
    using assms by (intro to_double_int) (simp add: abs_mult)
  with assms show ?thesis
    by (auto simp: d num_mul_def num_is_inf_def num_is_zero_def num_is_neg_def num_val_def
        signed_zero_def)
qed

lemma math_min_int:
  "math_min (Fin (of_int a)) (Fin (of_int b)) = Fin (of_int (min a b))"
  by (auto simp: math_min_def num_is_zero_def num_lt_def num_val_def signed_zero_def min_def)

lemma computeBackoffDelay_exact:
  assumes mult: "backoffMultiplier p = of_int m"
    and "1 \<le> m" and "0 \<le> initialDelayMs p" and "0 \<le> maxDelayMs p" and "maxDelayMs p < 2 ^ 53"
    and "1 \<le> k" and "initialDelayMs p < 2 ^ 53" and "m ^ nat (k - 1) < 2 ^ 53"
    and "initialDelayMs p * m ^ nat (k - 1) < 2 ^ 53"
  shows "computeBackoffDelay p k =
           Fin (of_int (min (initialDelayMs p * m ^ nat (k - 1)) (maxDelayMs p)))"
proof -
  have "math_pow (of_int m) (nat (k - 1)) = to_double (of_int (m ^ nat (k - 1)))"
    by (simp add: math_pow_def)
  moreover have "0 \<le> m ^ nat (k - 1)" using assms by simp
  ultimately have "num_mul (to_double (of_int (initialDelayMs p))) (math_pow (of_int m) (nat (k - 1)))
      = Fin (of_int (initialDelayMs p * m ^ nat (k - 1)))"
    using assms by (simp only: num_mul_int)
  moreover have "to_double (of_int (maxDelayMs p)) = Fin (of_int (maxDelayMs p))"
    using assms by (simp add: to_double_int)
  ultimately show ?thesis
    using assms by (simp only: computeBackoffDelay_def mult Let_def math_floor_def
        jsnum.case floor_of_int math_min_int) simp
qed

text \<open>
  C11. The backoff delay of attempt \<open>k\<close> is the initial delay times the multiplier to the power
  \<open>k - 1\<close>, capped by the maximal delay, computed without rounding while the product is below
  \<open>2 ^ 53\<close>; before the first attempt it is the initial delay.
\<close>

theorem backoff_is_capped_exponential:
  assumes "backoffMultiplier p = of_int m" and "1 \<le> m" and "0 \<le> initialDelayMs p"
    and "0 \<le> maxDelayMs p" and "maxDelayMs p < 2 ^ 53" and "initialDelayMs p < 2 ^ 53"
    and "m ^ nat (k - 1) < 2 ^ 53" and "initialDelayMs p * m ^ nat (k - 1) < 2 ^ 53"
  shows "computeBackoffDelay p k =
           (if k \<le> 0 then Fin (of_int (initialDelayMs p))
            else Fin (of_int (min (initialDelayMs p * m ^ nat (k - 1)) (maxDelayMs p))))"
proof (cases "k \<le> 0")
  case True
  then show ?thesis using assms by (simp add: computeBackoffDelay_def to_double_int)
next
  case False
  then have "1 \<le> k" by simp
  then show ?thesis using assms by (simp add: computeBackoffDelay_exact)
qed

theorem backoff_is_capped_exponential_witness:
  "computeBackoffDelay DEFAULT_RETRY_POLICY 0 = Fin 500 \<and>
   computeBackoffDelay DEFAULT_RETRY_POLICY 3 = Fin 2000 \<and>
   computeBackoffDelay DEFAULT_RETRY_POLICY 9 = Fin 30000"
  using backoff_is_capped_exponential [of DEFAULT_RETRY_POLICY 2 0]
    backoff_is_capped_exponential [of DEFAULT_RETRY_POLICY 2 3]
    backoff_is_capped_exponential [of DEFAULT_RETRY_POLICY 2 9]
  by (simp add: DEFAULT_RETRY_POLICY_def)

end
