(* ===== verification/Graph.thy ===== *)
theory Graph
  imports Prelude
begin

section \<open>Depth-first search for dependency cycles\<close>

text \<open>
  \<^verbatim>\<open>JobDefinitionValidator.validateDependencyOrder\<close> and
  \<^verbatim>\<open>DagPlanner.assertAcyclic\<close> run the same search: a set of finished nodes, a set of
  nodes on the current path, and an exception at a node met again on the path. It is written
  once here over a dependency map and proved to decide acyclicity; the two callers wrap it
  with their own exception. The source adds a node to \<^verbatim>\<open>visiting\<close> only when it is not
  in it and deletes it after the node's dependencies, so the set at a call is the list of the
  callers' nodes, which the model passes down.
\<close>

type_synonym dep_map = "(string, string list) jsmap"

definition deps_of :: "dep_map \<Rightarrow> string \<Rightarrow> string list" where
  "deps_of g i = (case map_get g i of None \<Rightarrow> [] | Some ds \<Rightarrow> ds)"

definition dep_rel :: "dep_map \<Rightarrow> (string \<times> string) set" where
  "dep_rel g = {(x, y). y \<in> set (deps_of g x)}"

lemma deps_of_unknown: "i \<notin> set (map_keys g) \<Longrightarrow> deps_of g i = []"
  by (simp add: deps_of_def map_get_None_iff [THEN iffD2])

lemma deps_of_key: "y \<in> set (deps_of g x) \<Longrightarrow> x \<in> set (map_keys g)"
  using deps_of_unknown [of x g] by fastforce

lemma card_keys_Cons:
  assumes "i \<in> set (map_keys g)" and "i \<notin> set visiting"
  shows "card (set (map_keys g) - set (i # visiting)) < card (set (map_keys g) - set visiting)"
  using assms by (intro psubset_card_mono) auto

text \<open>
  It ends: either the path takes in a new key of the map, or the node has no dependencies.
\<close>

function (sequential)
  dfs_visit :: "dep_map \<Rightarrow> string list \<Rightarrow> string jsset \<Rightarrow> string \<Rightarrow> string + string jsset"
  and dfs_visits :: "dep_map \<Rightarrow> string list \<Rightarrow> string jsset \<Rightarrow> string list \<Rightarrow> string + string jsset"
where
  "dfs_visit g visiting visited i =
     (if i \<in> set visited then Inr visited
      else if i \<in> set visiting then Inl i
      else bind_r (dfs_visits g (i # visiting) visited (deps_of g i))
             (\<lambda>visited'. Inr (set_add i visited')))"
| "dfs_visits g visiting visited [] = Inr visited"
| "dfs_visits g visiting visited (d # ds) =
     bind_r (dfs_visit g visiting visited d) (\<lambda>visited'. dfs_visits g visiting visited' ds)"
  by pat_completeness auto

termination
proof (relation "measures
    [case_sum (\<lambda>(g, visiting, visited, i). card (set (map_keys g) - set visiting))
              (\<lambda>(g, visiting, visited, ds). card (set (map_keys g) - set visiting)),
     case_sum (\<lambda>(g, visiting, visited, i). 1)
              (\<lambda>(g, visiting, visited, ds). 2 * length ds)]", goal_cases)
  case 1
  then show ?case by simp
next
  case (2 g visiting visited i)
  show ?case
  proof (cases "i \<in> set (map_keys g)")
    case True
    with 2 show ?thesis using card_keys_Cons [of i g visiting] by auto
  next
    case False
    then have "set (map_keys g) - set (i # visiting) = set (map_keys g) - set visiting"
      by auto
    with False show ?thesis by (simp add: deps_of_unknown)
  qed
qed auto

declare dfs_visit.simps [simp del]

subsection \<open>A reported node lies on a cycle\<close>

lemma dfs_cycle:
  shows "dfs_visit g visiting visited i = Inl c \<Longrightarrow>
           (\<And>v. v \<in> set visiting \<Longrightarrow> (v, i) \<in> (dep_rel g)\<^sup>+) \<Longrightarrow> (c, c) \<in> (dep_rel g)\<^sup>+"
    and "dfs_visits g visiting visited ds = Inl c \<Longrightarrow>
           (\<And>v d. v \<in> set visiting \<Longrightarrow> d \<in> set ds \<Longrightarrow> (v, d) \<in> (dep_rel g)\<^sup>+) \<Longrightarrow>
           (c, c) \<in> (dep_rel g)\<^sup>+"
proof (induction g visiting visited i and g visiting visited ds rule: dfs_visit_dfs_visits.induct)
  case (1 g visiting visited i)
  show ?case
  proof (cases "i \<in> set visiting")
    case True
    with "1.prems" show ?thesis by (simp add: dfs_visit.simps split: if_splits)
  next
    case False
    with "1.prems"(1) have nv: "i \<notin> set visited"
      and rec: "dfs_visits g (i # visiting) visited (deps_of g i) = Inl c"
      by (auto simp: dfs_visit.simps bind_r_eq_Inl split: if_splits)
    have "(v, d) \<in> (dep_rel g)\<^sup>+" if "v \<in> set (i # visiting)" "d \<in> set (deps_of g i)" for v d
    proof -
      have "(i, d) \<in> dep_rel g" using that by (simp add: dep_rel_def)
      with that "1.prems"(2) [of v] show ?thesis by (auto intro: trancl_into_trancl)
    qed
    then show ?thesis using "1.IH" nv False rec by blast
  qed
next
  case (3 g visiting visited d ds)
  then show ?case by (auto simp: bind_r_eq_Inl)
qed simp

subsection \<open>A finished search leaves a closed, cycle-free set\<close>

definition dfs_done :: "dep_map \<Rightarrow> string set \<Rightarrow> bool" where
  "dfs_done g V \<longleftrightarrow>
     (\<forall>x \<in> V. set (deps_of g x) \<subseteq> V) \<and> (\<forall>x \<in> V. (x, x) \<notin> (dep_rel g)\<^sup>+)"

lemma dfs_done_empty [simp]: "dfs_done g {}"
  by (simp add: dfs_done_def)

lemma dfs_done_trancl:
  assumes "dfs_done g V" and "(x, y) \<in> (dep_rel g)\<^sup>+" and "x \<in> V"
  shows "y \<in> V"
  using assms(2,3,1) by (induction rule: trancl_induct) (auto simp: dfs_done_def dep_rel_def)

lemma dfs_done_insert:
  assumes V: "dfs_done g V" and deps: "set (deps_of g i) \<subseteq> V" and "i \<notin> V"
  shows "dfs_done g (insert i V)"
proof -
  have "(i, i) \<notin> (dep_rel g)\<^sup>+"
  proof
    assume "(i, i) \<in> (dep_rel g)\<^sup>+"
    then obtain d where d: "(i, d) \<in> dep_rel g" "(d, i) \<in> (dep_rel g)\<^sup>*"
      by (auto dest: tranclD)
    have "d \<in> V" using d deps by (auto simp: dep_rel_def)
    moreover from this d(2) have "i \<in> V"
      using dfs_done_trancl [OF V] by (auto simp: rtrancl_eq_or_trancl)
    ultimately show False using \<open>i \<notin> V\<close> by simp
  qed
  then show ?thesis using V deps by (auto simp: dfs_done_def)
qed

lemma dfs_result:
  shows "dfs_visit g visiting visited i = Inr visited' \<Longrightarrow> dfs_done g (set visited) \<Longrightarrow>
           set visited \<inter> set visiting = {} \<Longrightarrow>
           dfs_done g (set visited') \<and> insert i (set visited) \<subseteq> set visited' \<and>
           set visited' \<inter> set visiting = {}"
    and "dfs_visits g visiting visited ds = Inr visited' \<Longrightarrow> dfs_done g (set visited) \<Longrightarrow>
           set visited \<inter> set visiting = {} \<Longrightarrow>
           dfs_done g (set visited') \<and> set ds \<union> set visited \<subseteq> set visited' \<and>
           set visited' \<inter> set visiting = {}"
proof (induction g visiting visited i and g visiting visited ds arbitrary: visited' and visited'
    rule: dfs_visit_dfs_visits.induct)
  case (1 g visiting visited i)
  show ?case
  proof (cases "i \<in> set visited")
    case True
    with "1.prems" show ?thesis by (auto simp: dfs_visit.simps)
  next
    case False
    with "1.prems"(1) obtain w where nv: "i \<notin> set visiting"
      and rec: "dfs_visits g (i # visiting) visited (deps_of g i) = Inr w"
      and res: "visited' = set_add i w"
      by (auto simp: dfs_visit.simps bind_r_eq_Inr split: if_splits)
    have w: "dfs_done g (set w) \<and> set (deps_of g i) \<union> set visited \<subseteq> set w \<and>
        set w \<inter> set (i # visiting) = {}"
      using "1.IH" [OF False nv rec "1.prems"(2)] "1.prems"(3) False by auto
    then have "dfs_done g (insert i (set w))" by (intro dfs_done_insert) auto
    with w nv res show ?thesis by auto
  qed
next
  case (3 g visiting visited d ds)
  then obtain w where w: "dfs_visit g visiting visited d = Inr w"
    and rest: "dfs_visits g visiting w ds = Inr visited'"
    by (auto simp: bind_r_eq_Inr)
  have "dfs_done g (set w) \<and> insert d (set visited) \<subseteq> set w \<and> set w \<inter> set visiting = {}"
    using "3.IH"(1) [OF w "3.prems"(2,3)] .
  then show ?case using "3.IH"(2) [OF w rest] by auto
qed auto

subsection \<open>The search decides acyclicity\<close>

theorem dfs_acyclic_iff:
  "(\<exists>visited. dfs_visits g [] [] (map_keys g) = Inr visited) \<longleftrightarrow> acyclic (dep_rel g)"
proof
  assume "\<exists>visited. dfs_visits g [] [] (map_keys g) = Inr visited"
  then obtain visited where "dfs_visits g [] [] (map_keys g) = Inr visited" ..
  then have V: "dfs_done g (set visited)" "set (map_keys g) \<subseteq> set visited"
    using dfs_result(2) by fastforce+
  show "acyclic (dep_rel g)"
  proof (rule acyclicI, rule allI, rule notI)
    fix x assume cyc: "(x, x) \<in> (dep_rel g)\<^sup>+"
    then obtain y where "(x, y) \<in> dep_rel g" by (auto dest: tranclD)
    then have "x \<in> set (map_keys g)"
      using deps_of_key [of y g x] by (simp add: dep_rel_def)
    with V cyc show False by (auto simp: dfs_done_def)
  qed
next
  assume ac: "acyclic (dep_rel g)"
  show "\<exists>visited. dfs_visits g [] [] (map_keys g) = Inr visited"
  proof (cases "dfs_visits g [] [] (map_keys g)")
    case (Inl c)
    then have "(c, c) \<in> (dep_rel g)\<^sup>+" by (rule dfs_cycle(2)) simp
    with ac show ?thesis by (simp add: acyclic_def)
  qed simp
qed

text \<open>On an acyclic map the relation is finite, hence well-founded both ways.\<close>

lemma finite_dep_rel: "finite (dep_rel g)"
proof -
  have "dep_rel g \<subseteq> (\<Union>x \<in> set (map_keys g). {x} \<times> set (deps_of g x))"
    using deps_of_key by (fastforce simp: dep_rel_def)
  then show ?thesis by (rule finite_subset) simp
qed

lemma wf_dep_rel: "acyclic (dep_rel g) \<Longrightarrow> wf ((dep_rel g)\<inverse>)"
  by (simp add: finite_dep_rel finite_acyclic_wf_converse)

end
