(* ===== verification/JobValidation.thy ===== *)
theory JobValidation
  imports Domain Graph
begin

section \<open>Job definition validation (validators/job-definition-validator.ts)\<close>

text \<open>
  \<open>validate\<close> collects every problem of a definition before it throws, in the order the
  source pushes them; \<open>validateDependencyOrder\<close> runs the cycle search of \<open>Graph\<close> over the
  definition's tasks. The abstract specification is \<open>well_formed_job\<close>, a statement about the
  task graph that mentions neither traversal; the two validators together decide it.
\<close>

subsection \<open>The validator\<close>

definition dep_errors :: "string \<Rightarrow> string set \<Rightarrow> string \<Rightarrow> string list" where
  "dep_errors taskId taskIds dep =
     (if dep \<notin> taskIds then [''task '' @ taskId @ '': depends on unknown task '' @ dep] else []) @
     (if dep = taskId then [''task '' @ taskId @ '': cannot depend on itself''] else [])"

definition validateTask :: "task_definition \<Rightarrow> string set \<Rightarrow> string list \<Rightarrow> string list" where
  "validateTask task taskIds errors =
     errors @
     (if td_timeoutMs task \<le> 0 then [''task '' @ td_id task @ '': timeoutMs must be positive''] else []) @
     concat (map (dep_errors (td_id task) taskIds) (td_deps task))"

fun validate_tasks ::
    "string set \<Rightarrow> string jsset \<Rightarrow> string list \<Rightarrow> task_definition list \<Rightarrow> string list" where
  "validate_tasks allTaskIds seen errors [] = errors"
| "validate_tasks allTaskIds seen errors (task # tasks) =
     (if td_id task \<in> set seen
      then validate_tasks allTaskIds seen (errors @ [''duplicate task id: '' @ td_id task]) tasks
      else validate_tasks allTaskIds (set_add (td_id task) seen)
             (validateTask task allTaskIds errors) tasks)"

definition validation_errors :: "job_definition \<Rightarrow> string list" where
  "validation_errors def =
     (let errors0 = (if jd_tasks def = [] then [''job must define at least one task''] else []);
          allTaskIds = set (map td_id (jd_tasks def));
          errors1 = validate_tasks allTaskIds [] errors0 (jd_tasks def)
      in errors1 @ (if maxAttempts (jd_retryPolicy def) < 1
                    then [''retryPolicy.maxAttempts must be >= 1''] else []))"

definition validate :: "job_definition \<Rightarrow> unit res" where
  "validate def =
     (let errors = validation_errors def
      in if errors \<noteq> [] then Inl (ValidationError ''job definition validation failed'' errors)
         else Inr ())"

text \<open>\<^verbatim>\<open>new Map(tasks.map((t) => [t.id, t]))\<close>, read only for its dependencies.\<close>

definition task_dep_map :: "task_definition list \<Rightarrow> dep_map" where
  "task_dep_map tasks = map_from (map (\<lambda>t. (td_id t, td_deps t)) tasks)"

definition validateDependencyOrder :: "task_definition list \<Rightarrow> unit res" where
  "validateDependencyOrder tasks =
     (case dfs_visits (task_dep_map tasks) [] [] (map td_id tasks) of
        Inl i \<Rightarrow> Inl (ValidationError ''circular task dependency detected'' [i])
      | Inr visited \<Rightarrow> Inr ())"

subsection \<open>What a well-formed job is\<close>

definition depends :: "task_definition list \<Rightarrow> (string \<times> string) set" where
  "depends tasks = {(td_id t, d) | t d. t \<in> set tasks \<and> d \<in> set (td_deps t)}"

definition tasks_ok :: "task_definition list \<Rightarrow> bool" where
  "tasks_ok tasks \<longleftrightarrow>
     distinct (map td_id tasks) \<and>
     (\<forall>t \<in> set tasks. 0 < td_timeoutMs t \<and> set (td_deps t) \<subseteq> set (map td_id tasks) - {td_id t})"

definition well_formed_job :: "job_definition \<Rightarrow> bool" where
  "well_formed_job def \<longleftrightarrow>
     jd_tasks def \<noteq> [] \<and> tasks_ok (jd_tasks def) \<and> acyclic (depends (jd_tasks def)) \<and>
     1 \<le> maxAttempts (jd_retryPolicy def)"

subsection \<open>The collected errors\<close>

lemma dep_errors_Nil [simp]: "dep_errors i ids d = [] \<longleftrightarrow> d \<in> ids \<and> d \<noteq> i"
  by (simp add: dep_errors_def)

lemma validateTask_eq:
  "validateTask t ids es = es @ validateTask t ids []"
  by (simp add: validateTask_def)

lemma validateTask_Nil:
  "validateTask t ids [] = [] \<longleftrightarrow> 0 < td_timeoutMs t \<and> set (td_deps t) \<subseteq> ids - {td_id t}"
  by (auto simp: validateTask_def)

lemma validate_tasks_Nil:
  "validate_tasks ids seen es tasks = [] \<longleftrightarrow>
     es = [] \<and> distinct (map td_id tasks) \<and> set (map td_id tasks) \<inter> set seen = {} \<and>
     (\<forall>t \<in> set tasks. 0 < td_timeoutMs t \<and> set (td_deps t) \<subseteq> ids - {td_id t})"
proof (induction tasks arbitrary: seen es)
  case Nil
  then show ?case by simp
next
  case (Cons t tasks)
  have "validateTask t ids es = [] \<longleftrightarrow>
      es = [] \<and> 0 < td_timeoutMs t \<and> set (td_deps t) \<subseteq> ids - {td_id t}"
    by (subst validateTask_eq) (simp add: validateTask_Nil)
  then show ?case by (auto simp: Cons.IH)
qed

lemma validate_ok_iff:
  "validate def = Inr () \<longleftrightarrow>
     jd_tasks def \<noteq> [] \<and> tasks_ok (jd_tasks def) \<and> 1 \<le> maxAttempts (jd_retryPolicy def)"
  by (auto simp: validate_def validation_errors_def validate_tasks_Nil tasks_ok_def Let_def
      linorder_not_less)

lemma validate_cases:
  "validate def = Inr () \<or>
   (\<exists>es. es \<noteq> [] \<and> validate def = Inl (ValidationError ''job definition validation failed'' es))"
  by (simp add: validate_def Let_def)

subsection \<open>The dependency order\<close>

lemma map_keys_task_dep_map:
  "distinct (map td_id tasks) \<Longrightarrow> map_keys (task_dep_map tasks) = map td_id tasks"
  by (simp add: task_dep_map_def map_from_distinct comp_def)

lemma deps_of_task_dep_map:
  "distinct (map td_id tasks) \<Longrightarrow> t \<in> set tasks \<Longrightarrow> deps_of (task_dep_map tasks) (td_id t) = td_deps t"
  by (simp add: deps_of_def task_dep_map_def map_from_distinct comp_def map_of_map_key)

lemma dep_rel_task_dep_map:
  assumes "distinct (map td_id tasks)"
  shows "dep_rel (task_dep_map tasks) = depends tasks"
proof -
  have "x \<in> td_id ` set tasks" if "y \<in> set (deps_of (task_dep_map tasks) x)" for x y
    using deps_of_key [OF that] assms by (simp only: map_keys_task_dep_map set_map)
  then show ?thesis
    using assms by (fastforce simp: dep_rel_def depends_def deps_of_task_dep_map)
qed

lemma validateDependencyOrder_iff:
  assumes "distinct (map td_id tasks)"
  shows "validateDependencyOrder tasks = Inr () \<longleftrightarrow> acyclic (depends tasks)"
  using dfs_acyclic_iff [of "task_dep_map tasks"] assms
  by (auto simp: validateDependencyOrder_def map_keys_task_dep_map dep_rel_task_dep_map
      simp del: set_map split: sum.splits)

lemma validated_iff:
  "bind_r (validate def) (\<lambda>_. validateDependencyOrder (jd_tasks def)) = Inr () \<longleftrightarrow>
     well_formed_job def"
  using validateDependencyOrder_iff [of "jd_tasks def"]
  by (auto simp: bind_r_eq_Inr validate_ok_iff well_formed_job_def tasks_ok_def)

text \<open>The node named in the exception is on a cycle of the definition.\<close>

lemma validateDependencyOrder_error:
  assumes "distinct (map td_id tasks)" and "validateDependencyOrder tasks = Inl e"
  obtains i where "e = ValidationError ''circular task dependency detected'' [i]"
    and "(i, i) \<in> (depends tasks)\<^sup>+"
proof -
  from assms(2) obtain i where "dfs_visits (task_dep_map tasks) [] [] (map td_id tasks) = Inl i"
    and e: "e = ValidationError ''circular task dependency detected'' [i]"
    by (auto simp: validateDependencyOrder_def split: sum.splits)
  from this(1) have "(i, i) \<in> (dep_rel (task_dep_map tasks))\<^sup>+"
    by (rule dfs_cycle(2)) simp
  then show ?thesis using that e assms(1) by (simp add: dep_rel_task_dep_map)
qed

lemma acyclic_depends_wf: "acyclic (depends tasks) \<Longrightarrow> wf ((depends tasks)\<inverse>)"
proof (rule finite_acyclic_wf_converse)
  have "depends tasks = (\<Union>t \<in> set tasks. {td_id t} \<times> set (td_deps t))"
    by (auto simp: depends_def)
  then show "finite (depends tasks)" by simp
qed

subsection \<open>What validation promises\<close>

text \<open>
  C7. The two validation steps of \<open>JobService.register\<close> accept exactly the well-formed jobs:
  at least one task, distinct task ids, positive timeouts, dependencies that name other tasks
  of the job, at least one attempt, and no dependency cycle.
\<close>

theorem validation_accepts_iff_well_formed:
  "bind_r (validate def) (\<lambda>_. validateDependencyOrder (jd_tasks def)) = Inr () \<longleftrightarrow>
     well_formed_job def"
  by (rule validated_iff)

text \<open>
  A rejection by the dependency check is justified: the task it names lies on a cycle of the
  dependency relation.
\<close>

theorem dependency_error_names_cycle:
  assumes "validate def = Inr ()" and "validateDependencyOrder (jd_tasks def) = Inl e"
  shows "\<exists>i. e = ValidationError ''circular task dependency detected'' [i] \<and>
             (i, i) \<in> (depends (jd_tasks def))\<^sup>+"
proof -
  have "distinct (map td_id (jd_tasks def))" using assms(1) by (simp add: validate_ok_iff tasks_ok_def)
  from validateDependencyOrder_error [OF this assms(2)] show ?thesis by blast
qed

definition ring_task :: "string \<Rightarrow> string \<Rightarrow> task_definition" where
  "ring_task i d =
     \<lparr>td_id = i, td_name = i, td_handler = ''noop'', td_timeoutMs = 10, td_optional = None,
      td_dependsOn = Some [d]\<rparr>"

definition ring_job :: job_definition where
  "ring_job =
     \<lparr>jd_id = ''ring'', jd_name = ''ring'', jd_version = 1, jd_description = None,
      jd_tasks = [ring_task ''a'' ''b'', ring_task ''b'' ''c'', ring_task ''c'' ''a''],
      jd_constraints = [], jd_retryPolicy = DEFAULT_RETRY_POLICY,
      jd_allowedTransitions = [], jd_metadata = [],
      jd_createdAt = ''2026-01-15'', jd_updatedAt = ''2026-01-15''\<rparr>"

theorem dependency_error_names_cycle_witness:
  "(''a'', ''a'') \<in> (depends (jd_tasks ring_job))\<^sup>+"
proof -
  have "validate ring_job = Inr ()"
    by (simp add: validate_ok_iff tasks_ok_def ring_job_def ring_task_def DEFAULT_RETRY_POLICY_def)
  moreover have "validateDependencyOrder (jd_tasks ring_job) =
      Inl (ValidationError ''circular task dependency detected'' [''a''])"
    by code_simp
  ultimately show ?thesis using dependency_error_names_cycle [of ring_job] by fastforce
qed

end
