(* ===== verification/DagPlanner.thy ===== *)
theory DagPlanner
  imports JobValidation "HOL-Library.While_Combinator"
begin

section \<open>The DAG planner (engine/dag-planner.ts)\<close>

text \<open>
  \<open>buildGraph\<close> turns a task list into a map of nodes and rejects cycles; \<open>topologicalLevels\<close>
  peels the graph level by level with in-degree counters; \<open>criticalPath\<close> finds the longest
  chain of dependencies with a memo table. The \<^verbatim>\<open>while\<close> loop over the ready list is a
  \<open>while_option\<close> (\<open>None\<close> would be a loop that never ends, and is proved impossible); the
  recursion of \<open>longestFrom\<close> takes fuel, and more fuel than the graph has nodes is proved
  enough on the acyclic graphs \<open>buildGraph\<close> lets through.
\<close>

subsection \<open>The graph\<close>

record dag_node =
  dn_taskId :: string
  dn_dependsOn :: "string list"
  dn_weightMs :: int

record dag_plan =
  plan_levels :: "string list list"
  plan_criticalPath :: "string list"
  plan_estimatedMs :: int

type_synonym dag = "(string, dag_node) jsmap"

definition dag_node_of :: "task_definition \<Rightarrow> dag_node" where
  "dag_node_of t = \<lparr>dn_taskId = td_id t, dn_dependsOn = td_deps t, dn_weightMs = td_timeoutMs t\<rparr>"

definition dag_of :: "task_definition list \<Rightarrow> dag" where
  "dag_of tasks = map_from (map (\<lambda>t. (td_id t, dag_node_of t)) tasks)"

definition dag_deps :: "dag \<Rightarrow> dep_map" where
  "dag_deps g = map (\<lambda>(i, n). (i, dn_dependsOn n)) g"

definition assertAcyclic :: "dag \<Rightarrow> unit res" where
  "assertAcyclic g =
     (case dfs_visits (dag_deps g) [] [] (map_keys g) of
        Inl i \<Rightarrow> Inl (JsError (''cycle detected at task '' @ i))
      | Inr visited \<Rightarrow> Inr ())"

definition buildGraph :: "task_definition list \<Rightarrow> dag res" where
  "buildGraph tasks = (let g = dag_of tasks in bind_r (assertAcyclic g) (\<lambda>_. Inr g))"

subsection \<open>Levels\<close>

type_synonym degrees = "(string, int) jsmap"

definition degree :: "degrees \<Rightarrow> string \<Rightarrow> int" where
  "degree m i = (case map_get m i of None \<Rightarrow> 0 | Some d \<Rightarrow> d)"

definition initial_degrees :: "dag \<Rightarrow> degrees" where
  "initial_degrees g =
     (let zeros = fold (\<lambda>i m. map_set i 0 m) (map_keys g) []
      in fold (\<lambda>n m. map_set (dn_taskId n) (int (length (dn_dependsOn n))) m) (map_values g) zeros)"

text \<open>The inner loop for one finished node \<open>i\<close> and one entry of the graph.\<close>

definition release_one :: "string \<Rightarrow> string \<times> dag_node \<Rightarrow> degrees \<times> string jsset \<Rightarrow> degrees \<times> string jsset" where
  "release_one i entry st =
     (case entry of (taskId, node) \<Rightarrow> case st of (inDegree, nxt) \<Rightarrow>
        if i \<notin> set (dn_dependsOn node) then (inDegree, nxt)
        else let deg = degree inDegree taskId - 1
             in (map_set taskId deg inDegree, if deg = 0 then set_add taskId nxt else nxt))"

definition release :: "dag \<Rightarrow> string \<Rightarrow> degrees \<times> string jsset \<Rightarrow> degrees \<times> string jsset" where
  "release g i st = fold (release_one i) g st"

type_synonym level_state = "string list \<times> degrees \<times> string list list"

definition level_body :: "dag \<Rightarrow> level_state \<Rightarrow> level_state" where
  "level_body g st =
     (case st of (ready, inDegree, levels) \<Rightarrow>
        case fold (release g) ready (inDegree, []) of (inDegree', nxt) \<Rightarrow>
          (nxt, inDegree', levels @ [ready]))"

definition level_start :: "dag \<Rightarrow> level_state" where
  "level_start g =
     (let inDegree = initial_degrees g
      in (filter (\<lambda>i. degree inDegree i = 0) (map_keys g), inDegree, []))"

definition topologicalLevels :: "dag \<Rightarrow> string list list option" where
  "topologicalLevels g =
     map_option (\<lambda>(ready, inDegree, levels). levels)
       (while_option (\<lambda>(ready, inDegree, levels). ready \<noteq> []) (level_body g) (level_start g))"

subsection \<open>The critical path\<close>

type_synonym cost_path = "int \<times> string list"

fun longestFrom ::
    "nat \<Rightarrow> dag \<Rightarrow> string \<Rightarrow> (string, cost_path) jsmap \<Rightarrow> (cost_path \<times> (string, cost_path) jsmap) option"
  and longestDeps ::
    "nat \<Rightarrow> dag \<Rightarrow> string list \<Rightarrow> cost_path \<Rightarrow> (string, cost_path) jsmap \<Rightarrow>
     (cost_path \<times> (string, cost_path) jsmap) option"
where
  "longestFrom 0 g i memo = None"
| "longestFrom (Suc fuel) g i memo =
     (case map_get memo i of
        Some cached \<Rightarrow> Some (cached, memo)
      | None \<Rightarrow>
          (case map_get g i of
             None \<Rightarrow> Some ((0, []), memo)
           | Some node \<Rightarrow>
               (case longestDeps fuel g (dn_dependsOn node) (0, []) memo of
                  None \<Rightarrow> None
                | Some (bestChild, memo') \<Rightarrow>
                    let result = (dn_weightMs node + fst bestChild, snd bestChild @ [i])
                    in Some (result, map_set i result memo'))))"
| "longestDeps fuel g [] best memo = Some (best, memo)"
| "longestDeps fuel g (dep # deps) best memo =
     (case longestFrom fuel g dep memo of
        None \<Rightarrow> None
      | Some (child, memo') \<Rightarrow>
          longestDeps fuel g deps (if fst best < fst child then child else best) memo')"

fun best_over :: "nat \<Rightarrow> dag \<Rightarrow> string list \<Rightarrow> cost_path \<Rightarrow> (string, cost_path) jsmap \<Rightarrow> cost_path option" where
  "best_over fuel g [] best memo = Some best"
| "best_over fuel g (i # is) best memo =
     (case longestFrom fuel g i memo of
        None \<Rightarrow> None
      | Some (result, memo') \<Rightarrow>
          best_over fuel g is (if fst best < fst result then result else best) memo')"

definition path_fuel :: "dag \<Rightarrow> nat" where
  "path_fuel g = Suc (length g)"

definition criticalPath :: "dag \<Rightarrow> string list option" where
  "criticalPath g = map_option snd (best_over (path_fuel g) g (map_keys g) (0, []) [])"

definition node_weight :: "dag \<Rightarrow> string \<Rightarrow> int" where
  "node_weight g i = (case map_get g i of None \<Rightarrow> 0 | Some n \<Rightarrow> dn_weightMs n)"

text \<open>\<open>None\<close> inside the result is a planner that does not return.\<close>

definition plan :: "task_definition list \<Rightarrow> dag_plan option res" where
  "plan tasks =
     bind_r (buildGraph tasks) (\<lambda>g. Inr
       (case topologicalLevels g of
          None \<Rightarrow> None
        | Some levels \<Rightarrow>
            map_option (\<lambda>path.
                \<lparr>plan_levels = levels, plan_criticalPath = path,
                 plan_estimatedMs = foldl (\<lambda>acc i. acc + node_weight g i) 0 path\<rparr>)
              (criticalPath g)))"

subsection \<open>The graph of a task list\<close>

text \<open>The entry of a key, with the node's id equal to the key.\<close>

definition dag_ok :: "dag \<Rightarrow> bool" where
  "dag_ok g \<longleftrightarrow> jsmap_ok g \<and> (\<forall>(i, n) \<in> set g. dn_taskId n = i)"

definition dag_dep :: "dag \<Rightarrow> string \<Rightarrow> string list" where
  "dag_dep g i = deps_of (dag_deps g) i"

lemma map_keys_dag_deps [simp]: "map_keys (dag_deps g) = map_keys g"
  by (auto simp: dag_deps_def)

lemma fold_map_set_subset: "set (fold (\<lambda>(k, v). map_set k v) ps m) \<subseteq> set m \<union> set ps"
proof (induction ps arbitrary: m)
  case Nil
  then show ?case by simp
next
  case (Cons p ps)
  have "set (map_set (fst p) (snd p) m) \<subseteq> insert p (set m)"
    by (induction m) (auto split: if_splits)
  with Cons.IH [of "map_set (fst p) (snd p) m"] show ?case by (auto simp: split_beta)
qed

lemma dag_ok_dag_of: "dag_ok (dag_of tasks)"
  using fold_map_set_subset [of "map (\<lambda>t. (td_id t, dag_node_of t)) tasks" "[]"]
  by (auto simp: dag_ok_def dag_of_def map_from_def [symmetric] dag_node_of_def)

lemma dag_dep_entry:
  assumes "dag_ok g" and "(i, n) \<in> set g"
  shows "dag_dep g i = dn_dependsOn n"
proof -
  have "distinct (map fst (dag_deps g))" using assms by (simp add: dag_ok_def jsmap_ok_def)
  moreover have "(i, dn_dependsOn n) \<in> set (dag_deps g)" using assms by (force simp: dag_deps_def)
  ultimately have "map_get (dag_deps g) i = Some (dn_dependsOn n)" by simp
  then show ?thesis by (simp add: dag_dep_def deps_of_def)
qed

lemma dag_deps_dag_of: "dag_deps (dag_of tasks) = task_dep_map tasks"
proof -
  have upd: "map (\<lambda>(i, n). (i, dn_dependsOn n)) (map_set k v m) =
      map_set k (dn_dependsOn v) (map (\<lambda>(i, n). (i, dn_dependsOn n)) m)" for k v and m :: dag
    by (induction m) auto
  have "map (\<lambda>(i, n). (i, dn_dependsOn n))
      (fold (\<lambda>(k, v). map_set k v) (map (\<lambda>t. (td_id t, dag_node_of t)) tasks) m) =
      fold (\<lambda>(k, v). map_set k v) (map (\<lambda>t. (td_id t, td_deps t)) tasks)
        (map (\<lambda>(i, n). (i, dn_dependsOn n)) m)" for m
    by (induction tasks arbitrary: m) (auto simp: upd dag_node_of_def)
  then show ?thesis by (simp add: dag_deps_def dag_of_def task_dep_map_def map_from_def)
qed

lemma assertAcyclic_iff: "assertAcyclic g = Inr () \<longleftrightarrow> acyclic (dep_rel (dag_deps g))"
  using dfs_acyclic_iff [of "dag_deps g"]
  by (auto simp: assertAcyclic_def simp del: set_map split: sum.splits)

lemma buildGraph_Inr_iff:
  "buildGraph tasks = Inr g \<longleftrightarrow> g = dag_of tasks \<and> acyclic (dep_rel (task_dep_map tasks))"
  by (auto simp: buildGraph_def Let_def bind_r_eq_Inr assertAcyclic_iff dag_deps_dag_of)

subsection \<open>Degrees\<close>

lemma degree_set [simp]: "degree (map_set k v m) i = (if i = k then v else degree m i)"
  by (simp add: degree_def)

lemma degree_fold_set:
  assumes "distinct (map fst ps)"
  shows "degree (fold (\<lambda>(k, v). map_set k v) ps m) i =
           (case map_of ps i of None \<Rightarrow> degree m i | Some v \<Rightarrow> v)"
  using assms
  by (simp add: degree_def fold_map_set_get map_of_rev_distinct map_add_def split: option.splits)

lemma degree_initial:
  assumes "dag_ok g"
  shows "degree (initial_degrees g) i = int (length (dag_dep g i))"
proof -
  let ?zeros = "fold (\<lambda>i m. map_set i 0 m) (map_keys g) []"
  have z: "degree (fold (\<lambda>i m. map_set i 0 m) ks m) i = 0" if "degree m i = 0" for ks and m :: degrees
    using that by (induction ks arbitrary: m) simp_all
  have ids: "map dn_taskId (map_values g) = map_keys g"
    using assms by (auto simp: dag_ok_def)
  let ?ps = "map (\<lambda>n. (dn_taskId n, int (length (dn_dependsOn n)))) (map_values g)"
  have fold_ps: "fold (\<lambda>n m. map_set (dn_taskId n) (int (length (dn_dependsOn n))) m) ns m =
      fold (\<lambda>(k, v). map_set k v) (map (\<lambda>n. (dn_taskId n, int (length (dn_dependsOn n)))) ns) m"
    for ns and m :: degrees
    by (induction ns arbitrary: m) simp_all
  have keys: "map fst ?ps = map_keys g" using ids by (simp add: comp_def)
  have dps: "distinct (map fst ?ps)"
    using assms unfolding keys by (simp add: dag_ok_def jsmap_ok_def)
  have "degree (initial_degrees g) i =
      (case map_of ?ps i of None \<Rightarrow> degree ?zeros i | Some v \<Rightarrow> v)"
    by (simp only: initial_degrees_def Let_def fold_ps degree_fold_set [OF dps])
  also have "\<dots> = int (length (dag_dep g i))"
  proof (cases "i \<in> set (map_keys g)")
    case True
    then obtain n where n: "(i, n) \<in> set g" by auto
    with assms have "(i, int (length (dn_dependsOn n))) \<in> set ?ps"
      by (force simp: dag_ok_def)
    with dps have "map_of ?ps i = Some (int (length (dn_dependsOn n)))" by (rule map_of_is_SomeI)
    with n assms show ?thesis by (simp add: dag_dep_entry)
  next
    case False
    then have "map_of ?ps i = None" using keys by (simp add: map_get_None_iff del: map_map)
    moreover have "dag_dep g i = []" using False by (simp add: dag_dep_def deps_of_unknown)
    ultimately show ?thesis using z [of "[]"] by (simp add: degree_def)
  qed
  finally show ?thesis .
qed


subsection \<open>Releasing the dependants of finished nodes\<close>

lemma release_one_fold:
  assumes "jsmap_ok h" and "fold (release_one i) h (m, nxt) = (m', nxt')"
  shows "(\<forall>k. degree m' k =
             degree m k - (if \<exists>n. (k, n) \<in> set h \<and> i \<in> set (dn_dependsOn n) then 1 else 0)) \<and>
         set nxt' = set nxt \<union> {k. (\<exists>n. (k, n) \<in> set h \<and> i \<in> set (dn_dependsOn n)) \<and> degree m k = 1} \<and>
         (distinct nxt \<longrightarrow> distinct nxt')"
  using assms
proof (induction h arbitrary: m nxt)
  case Nil
  then show ?case by simp
next
  case (Cons e h)
  obtain t node where e: "e = (t, node)" by (cases e)
  define m1 where "m1 = (if i \<in> set (dn_dependsOn node) then map_set t (degree m t - 1) m else m)"
  define n1 where "n1 = (if i \<in> set (dn_dependsOn node) \<and> degree m t = 1 then set_add t nxt else nxt)"
  have "release_one i e (m, nxt) = (m1, n1)"
    by (simp add: e release_one_def m1_def n1_def Let_def)
  then have r: "fold (release_one i) h (m1, n1) = (m', nxt')" using Cons.prems(2) by simp
  have ok: "jsmap_ok h" and t: "\<And>n. (t, n) \<notin> set h"
    using Cons.prems(1) by (force simp: jsmap_ok_def e)+
  note IH = Cons.IH [OF ok r]
  have "degree m' k = degree m k -
      (if \<exists>n. (k, n) \<in> set (e # h) \<and> i \<in> set (dn_dependsOn n) then 1 else 0)" for k
    using IH t by (auto simp: m1_def e)
  moreover have "set nxt' = set nxt \<union>
      {k. (\<exists>n. (k, n) \<in> set (e # h) \<and> i \<in> set (dn_dependsOn n)) \<and> degree m k = 1}"
    using IH t by (auto simp: m1_def n1_def e split: if_splits)
  moreover have "distinct nxt \<longrightarrow> distinct nxt'" using IH by (simp add: n1_def)
  ultimately show ?case by blast
qed

text \<open>One finished node: its dependants lose one, those at one become ready.\<close>

lemma release_spec:
  assumes "dag_ok g" and "release g i (m, nxt) = (m', nxt')"
  shows "(\<forall>k. degree m' k = degree m k - (if i \<in> set (dag_dep g k) then 1 else 0)) \<and>
         set nxt' = set nxt \<union> {k. i \<in> set (dag_dep g k) \<and> degree m k = 1} \<and>
         (distinct nxt \<longrightarrow> distinct nxt')"
proof -
  have "(\<exists>n. (k, n) \<in> set g \<and> i \<in> set (dn_dependsOn n)) \<longleftrightarrow> i \<in> set (dag_dep g k)" for k
  proof
    assume "\<exists>n. (k, n) \<in> set g \<and> i \<in> set (dn_dependsOn n)"
    then show "i \<in> set (dag_dep g k)" using assms(1) by (auto simp: dag_dep_entry)
  next
    assume i: "i \<in> set (dag_dep g k)"
    then have "k \<in> set (map_keys (dag_deps g))" by (intro deps_of_key) (simp add: dag_dep_def)
    then obtain n where "(k, n) \<in> set g" by auto
    with i assms(1) show "\<exists>n. (k, n) \<in> set g \<and> i \<in> set (dn_dependsOn n)"
      by (auto simp: dag_dep_entry)
  qed
  then show ?thesis
    using release_one_fold [of g i m nxt m' nxt'] assms by (simp add: release_def dag_ok_def)
qed

text \<open>A node that loses \<open>a\<close> now and \<open>c\<close> later reaches zero at one of the two, and only if something is taken off.\<close>

lemma reaches_zero:
  fixes d :: int and a c :: nat
  assumes "a \<le> 1" and "int (a + c) \<le> d \<or> a + c = 0"
  shows "(a = 1 \<and> d = 1) \<or> (c \<noteq> 0 \<and> d - int a = int c) \<longleftrightarrow> a + c \<noteq> 0 \<and> d = int (a + c)"
  using assms by auto

text \<open>A whole ready list of distinct nodes.\<close>

lemma release_fold:
  assumes "dag_ok g" and "distinct is" and "fold (release g) is (m, nxt) = (m', nxt')"
    and "\<And>k. int (card (set is \<inter> set (dag_dep g k))) \<le> degree m k \<or> set is \<inter> set (dag_dep g k) = {}"
  shows "(\<forall>k. degree m' k = degree m k - int (card (set is \<inter> set (dag_dep g k)))) \<and>
         set nxt' = set nxt \<union>
           {k. set is \<inter> set (dag_dep g k) \<noteq> {} \<and> degree m k = int (card (set is \<inter> set (dag_dep g k)))} \<and>
         (distinct nxt \<longrightarrow> distinct nxt')"
  using assms(2-)
proof (induction "is" arbitrary: m nxt)
  case Nil
  then show ?case by simp
next
  case (Cons i js)
  obtain m1 n1 where r1: "release g i (m, nxt) = (m1, n1)" by (cases "release g i (m, nxt)")
  with Cons.prems have r2: "fold (release g) js (m1, n1) = (m', nxt')" by simp
  note S = release_spec [OF assms(1) r1]
  let ?c = "\<lambda>k. card (set js \<inter> set (dag_dep g k))"
  define a where "a = (\<lambda>k. if i \<in> set (dag_dep g k) then 1 else 0 :: nat)"
  have card: "card (set (i # js) \<inter> set (dag_dep g k)) = a k + ?c k" for k
    using Cons.prems(1) by (simp add: a_def Int_insert_left)
  have m1: "degree m1 k = degree m k - int (a k)" for k using S by (simp add: a_def)
  have empty: "set js \<inter> set (dag_dep g k) = {} \<longleftrightarrow> ?c k = 0"
    "set (i # js) \<inter> set (dag_dep g k) = {} \<longleftrightarrow> a k + ?c k = 0" for k
    by (simp, simp only: card [symmetric]) simp
  note bound = Cons.prems(3) [unfolded card empty(2)]
  have IH: "(\<forall>k. degree m' k = degree m1 k - int (?c k)) \<and>
      set nxt' = set n1 \<union> {k. ?c k \<noteq> 0 \<and> degree m1 k = int (?c k)} \<and> (distinct n1 \<longrightarrow> distinct nxt')"
  proof -
    have "int (?c k) \<le> degree m1 k \<or> ?c k = 0" for k using bound [of k] unfolding m1 by linarith
    from Cons.IH [OF _ r2] this show ?thesis using Cons.prems(1) unfolding empty(1) by simp
  qed
  have "k \<in> set nxt' \<longleftrightarrow> k \<in> set nxt \<or> a k + ?c k \<noteq> 0 \<and> degree m k = int (a k + ?c k)" for k
  proof -
    have le: "a k \<le> 1" by (simp add: a_def)
    have "k \<in> set nxt' \<longleftrightarrow> k \<in> set n1 \<or> ?c k \<noteq> 0 \<and> degree m k - int (a k) = int (?c k)"
      using IH m1 [of k] by simp
    moreover have "k \<in> set n1 \<longleftrightarrow> k \<in> set nxt \<or> a k = 1 \<and> degree m k = 1"
      using S by (simp add: a_def)
    ultimately show ?thesis unfolding reaches_zero [OF le bound [of k], symmetric] by (simp only: disj_assoc)
  qed
  then have "set nxt' = set nxt \<union> {k. a k + ?c k \<noteq> 0 \<and> degree m k = int (a k + ?c k)}"
    by (intro set_eqI) (simp only: Un_iff mem_Collect_eq)
  moreover have "degree m' k = degree m k - int (a k + ?c k)" for k using IH m1 [of k] by simp
  moreover have "distinct nxt \<longrightarrow> distinct nxt'" using IH S by blast
  ultimately show ?case unfolding card empty(2) by blast
qed


subsection \<open>The invariant of the level loop\<close>

definition layered :: "dag \<Rightarrow> string list list \<Rightarrow> bool" where
  "layered g levels \<longleftrightarrow>
     (\<forall>xs l ys. levels = xs @ l # ys \<longrightarrow> (\<forall>i \<in> set l. set (dag_dep g i) \<subseteq> set (concat xs)))"

definition level_inv :: "dag \<Rightarrow> level_state \<Rightarrow> bool" where
  "level_inv g st \<longleftrightarrow>
     (case st of (ready, m, levels) \<Rightarrow>
        distinct (concat levels @ ready) \<and>
        set (concat levels @ ready) \<subseteq> set (map_keys g) \<and>
        (\<forall>k. degree m k = int (length (dag_dep g k)) - int (card (set (concat levels) \<inter> set (dag_dep g k)))) \<and>
        (\<forall>k \<in> set (map_keys g). k \<in> set (concat levels @ ready) \<longleftrightarrow> degree m k = 0) \<and>
        layered g levels)"

lemma card_Int_le_length: "card (A \<inter> set xs) \<le> length xs"
  by (metis Int_lower2 List.finite_set card_length card_mono le_trans)

lemma all_counted_iff:
  "int (length xs) - int (card (A \<inter> set xs)) = 0 \<longleftrightarrow> distinct xs \<and> set xs \<subseteq> A"
proof
  assume "int (length xs) - int (card (A \<inter> set xs)) = 0"
  then have eq: "length xs = card (A \<inter> set xs)" by simp
  have le: "card (A \<inter> set xs) \<le> card (set xs)" by (simp add: card_mono)
  have "card (set xs) = length xs" using eq le card_length [of xs] by linarith
  then have "distinct xs" by (rule card_distinct)
  moreover have "A \<inter> set xs = set xs"
    using eq \<open>card (set xs) = length xs\<close> by (intro card_subset_eq) auto
  ultimately show "distinct xs \<and> set xs \<subseteq> A" by blast
next
  assume "distinct xs \<and> set xs \<subseteq> A"
  then show "int (length xs) - int (card (A \<inter> set xs)) = 0"
    by (simp add: Int_absorb1 distinct_card)
qed

lemma layered_snoc:
  "layered g (levels @ [l]) \<longleftrightarrow>
     layered g levels \<and> (\<forall>i \<in> set l. set (dag_dep g i) \<subseteq> set (concat levels))"
proof
  assume L: "layered g (levels @ [l])"
  have "layered g levels"
    unfolding layered_def
  proof (intro allI impI)
    fix xs l' ys assume "levels = xs @ l' # ys"
    then have "levels @ [l] = xs @ l' # (ys @ [l])" by simp
    then show "\<forall>i \<in> set l'. set (dag_dep g i) \<subseteq> set (concat xs)"
      using L unfolding layered_def by blast
  qed
  moreover have "\<forall>i \<in> set l. set (dag_dep g i) \<subseteq> set (concat levels)"
    using L unfolding layered_def by blast
  ultimately show "layered g levels \<and> (\<forall>i \<in> set l. set (dag_dep g i) \<subseteq> set (concat levels))" ..
next
  assume R: "layered g levels \<and> (\<forall>i \<in> set l. set (dag_dep g i) \<subseteq> set (concat levels))"
  show "layered g (levels @ [l])"
    unfolding layered_def
  proof (intro allI impI)
    fix xs l' ys assume "levels @ [l] = xs @ l' # ys"
    then show "\<forall>i \<in> set l'. set (dag_dep g i) \<subseteq> set (concat xs)"
      using R by (cases ys rule: rev_cases) (auto simp: layered_def)
  qed
qed

lemma level_inv_start: "dag_ok g \<Longrightarrow> level_inv g (level_start g)"
  by (auto simp: level_inv_def level_start_def Let_def degree_initial layered_def dag_ok_def
      jsmap_ok_def intro: distinct_filter)

lemma dag_dep_key: "set (dag_dep g k) \<noteq> {} \<Longrightarrow> k \<in> set (map_keys g)"
  using deps_of_unknown [of k "dag_deps g"] by (auto simp: dag_dep_def)

text \<open>What one level does to the degrees, and the level it makes ready.\<close>

lemma card_done_ready:
  assumes "level_inv g (ready, m, levels)"
  shows "card (set (concat levels @ ready) \<inter> set (dag_dep g k)) =
     card (set (concat levels) \<inter> set (dag_dep g k)) + card (set ready \<inter> set (dag_dep g k))"
  using assms unfolding level_inv_def
  by (subst card_Un_disjoint [symmetric]) (auto simp: Int_Un_distrib2)

lemma level_release:
  assumes ok: "dag_ok g" and inv: "level_inv g (ready, m, levels)"
    and r: "fold (release g) ready (m, []) = (m', nxt)"
  shows "degree m' k = degree m k - int (card (set ready \<inter> set (dag_dep g k)))" and "degree m' k \<le> degree m k"
    and "k \<in> set nxt \<longleftrightarrow> degree m k \<noteq> 0 \<and> degree m' k = 0" and "distinct nxt" and "set nxt \<subseteq> set (map_keys g)"
proof -
  let ?D = "\<lambda>k. set (dag_dep g k)"
  have deg: "degree m k = int (length (dag_dep g k)) - int (card (set (concat levels) \<inter> ?D k))" for k
    using inv unfolding level_inv_def by auto
  have dist: "distinct ready" using inv by (simp add: level_inv_def)
  have bound: "int (card (set ready \<inter> ?D k)) \<le> degree m k" for k
    using card_Int_le_length [of "set (concat levels @ ready)" "dag_dep g k"] deg [of k] card_done_ready [OF inv, of k]
    by linarith
  have F: "(\<forall>k. degree m' k = degree m k - int (card (set ready \<inter> ?D k))) \<and>
      set nxt = {k. set ready \<inter> ?D k \<noteq> {} \<and> degree m k = int (card (set ready \<inter> ?D k))} \<and> distinct nxt"
    using release_fold [OF ok dist r] bound by simp
  then show d: "degree m' k = degree m k - int (card (set ready \<inter> ?D k))" and "distinct nxt" by blast+
  then show "degree m' k \<le> degree m k" by simp
  have n: "k \<in> set nxt \<longleftrightarrow> set ready \<inter> ?D k \<noteq> {} \<and> degree m k = int (card (set ready \<inter> ?D k))" for k
    using F by blast
  have "set ready \<inter> ?D k \<noteq> {} \<longleftrightarrow> card (set ready \<inter> ?D k) \<noteq> 0" by simp
  then show "k \<in> set nxt \<longleftrightarrow> degree m k \<noteq> 0 \<and> degree m' k = 0" using d n [of k] by linarith
  show "set nxt \<subseteq> set (map_keys g)"
  proof
    fix k assume "k \<in> set nxt"
    then have "set ready \<inter> ?D k \<noteq> {}" using n [of k] by simp
    then have "?D k \<noteq> {}" by auto
    then show "k \<in> set (map_keys g)" by (rule dag_dep_key)
  qed
qed

lemma level_inv_step:
  assumes ok: "dag_ok g" and inv: "level_inv g (ready, m, levels)"
  shows "level_inv g (level_body g (ready, m, levels))"
proof -
  let ?P = "set (concat levels)" and ?D = "\<lambda>k. set (dag_dep g k)"
  obtain m' nxt where r: "fold (release g) ready (m, []) = (m', nxt)"
    by (cases "fold (release g) ready (m, [])")
  note L = level_release [OF ok inv r]
  from inv have dist: "distinct (concat levels @ ready)"
    and sub: "set (concat levels @ ready) \<subseteq> set (map_keys g)"
    and deg: "\<And>k. degree m k = int (length (dag_dep g k)) - int (card (?P \<inter> ?D k))"
    and zero: "\<And>k. k \<in> set (map_keys g) \<Longrightarrow> k \<in> set (concat levels @ ready) \<longleftrightarrow> degree m k = 0"
    and resp: "layered g levels"
    unfolding level_inv_def by auto
  have degF: "degree m' k = int (length (dag_dep g k)) - int (card (set (concat (levels @ [ready])) \<inter> ?D k))" for k
    using L(1) [of k] deg [of k] card_done_ready [OF inv, of k] by simp
  have zero': "k \<in> set (concat (levels @ [ready]) @ nxt) \<longleftrightarrow> degree m' k = 0"
    if "k \<in> set (map_keys g)" for k
  proof -
    have "k \<in> set (concat (levels @ [ready]) @ nxt) \<longleftrightarrow> degree m k = 0 \<or> k \<in> set nxt"
      using zero [OF that] by auto
    moreover have "0 \<le> degree m' k"
      using degF [of k] card_Int_le_length [of "set (concat (levels @ [ready]))" "dag_dep g k"] by linarith
    ultimately show ?thesis using L(2,3) [of k] by linarith
  qed
  have "k \<notin> set (concat levels @ ready)" if "k \<in> set nxt" for k
    using that L(3) [of k] L(5) zero [of k] by blast
  then have "distinct (concat (levels @ [ready]) @ nxt)"
    using dist L(4) by auto
  moreover have "?D k \<subseteq> ?P" if "k \<in> set ready" for k
  proof -
    have "degree m k = 0" using that sub zero [of k] by auto
    then show ?thesis using deg [of k] all_counted_iff by metis
  qed
  then have "layered g (levels @ [ready])" using resp by (simp only: layered_snoc) blast
  moreover have "set (concat (levels @ [ready]) @ nxt) \<subseteq> set (map_keys g)"
    using sub L(5) by auto
  ultimately show ?thesis
    using zero' degF r unfolding level_inv_def level_body_def by (simp only: prod.case) blast
qed


subsection \<open>The level loop ends and its result\<close>

lemma level_step_measure:
  assumes "level_inv g (ready, m, levels)" and "ready \<noteq> []"
  shows "length g - length (concat (levels @ [ready])) < length g - length (concat levels)"
proof -
  have "length (concat levels @ ready) = card (set (concat levels @ ready))"
    using assms(1) by (intro distinct_card [symmetric]) (simp add: level_inv_def)
  also have "\<dots> \<le> card (set (map_keys g))"
    using assms(1) by (intro card_mono) (auto simp: level_inv_def)
  also have "\<dots> \<le> length g" using card_length [of "map_keys g"] by simp
  finally have "length (concat levels) + length ready \<le> length g" by simp
  moreover have "0 < length ready" using assms(2) by simp
  moreover have "length (concat (levels @ [ready])) = length (concat levels) + length ready" by simp
  ultimately show ?thesis by linarith
qed

lemma topologicalLevels_terminates:
  assumes "dag_ok g"
  shows "\<exists>st. while_option (\<lambda>(ready, m, levels). ready \<noteq> []) (level_body g) (level_start g) = Some st"
proof (rule measure_while_option_Some
    [where P = "level_inv g" and f = "\<lambda>(ready, m, levels). length g - length (concat levels)"])
  fix st assume inv: "level_inv g st" and cont: "case st of (ready, m, levels) \<Rightarrow> ready \<noteq> []"
  obtain ready m levels where st: "st = (ready, m, levels)" by (cases st)
  have "level_inv g (level_body g st)"
    using level_inv_step [OF assms] inv st by simp
  moreover have "(case level_body g st of (ready, m, levels) \<Rightarrow> length g - length (concat levels))
      < (case st of (ready, m, levels) \<Rightarrow> length g - length (concat levels))"
    using level_step_measure inv cont st by (simp add: level_body_def split: prod.splits)
  ultimately show "level_inv g (level_body g st) \<and>
      (case level_body g st of (ready, m, levels) \<Rightarrow> length g - length (concat levels))
      < (case st of (ready, m, levels) \<Rightarrow> length g - length (concat levels))" ..
next
  show "level_inv g (level_start g)" using assms by (rule level_inv_start)
qed

lemma topologicalLevels_result:
  assumes "dag_ok g"
  obtains levels m where "topologicalLevels g = Some levels" and "level_inv g ([], m, levels)"
proof -
  obtain st where st: "while_option (\<lambda>(ready, m, levels). ready \<noteq> []) (level_body g) (level_start g) = Some st"
    using topologicalLevels_terminates [OF assms] ..
  have "level_inv g st"
    by (rule while_option_rule [where P = "level_inv g", OF _ st])
      (use assms level_inv_step level_inv_start in \<open>auto split: prod.splits\<close>)
  moreover obtain ready m levels where s: "st = (ready, m, levels)" by (cases st)
  moreover have "ready = []" using while_option_stop [OF st] s by simp
  ultimately show ?thesis using that st by (simp add: topologicalLevels_def)
qed

lemma levels_members:
  assumes "dag_ok g" and "level_inv g ([], m, levels)" and "k \<in> set (map_keys g)"
  shows "k \<in> set (concat levels) \<longleftrightarrow>
           distinct (dag_dep g k) \<and> set (dag_dep g k) \<subseteq> set (concat levels)"
proof -
  have deg: "degree m k =
      int (length (dag_dep g k)) - int (card (set (concat levels) \<inter> set (dag_dep g k)))"
    using assms(2) unfolding level_inv_def by blast
  have "\<forall>k \<in> set (map_keys g). k \<in> set (concat levels @ []) \<longleftrightarrow> degree m k = 0"
    using assms(2) unfolding level_inv_def by blast
  then have "k \<in> set (concat levels) \<longleftrightarrow> degree m k = 0"
    using assms(3) by (simp only: append_Nil2)
  then show ?thesis by (simp only: deg all_counted_iff)
qed

text \<open>Without repeated and without unknown dependencies, an acyclic graph is used up.\<close>

lemma levels_complete:
  assumes ok: "dag_ok g" and inv: "level_inv g ([], m, levels)"
    and ac: "acyclic (dep_rel (dag_deps g))"
    and dist: "\<And>k. distinct (dag_dep g k)"
    and known: "\<And>k. set (dag_dep g k) \<subseteq> set (map_keys g)"
  shows "set (concat levels) = set (map_keys g)"
proof
  show "set (concat levels) \<subseteq> set (map_keys g)" using inv by (simp add: level_inv_def)
  have "k \<in> set (map_keys g) \<longrightarrow> k \<in> set (concat levels)" for k
  proof (induction k rule: wf_induct_rule [OF wf_dep_rel [OF ac]])
    case (1 k)
    have "set (dag_dep g k) \<subseteq> set (concat levels)"
    proof
      fix d assume d: "d \<in> set (dag_dep g k)"
      then have "(d, k) \<in> (dep_rel (dag_deps g))\<inverse>" by (simp add: dep_rel_def dag_dep_def)
      with 1 have "d \<in> set (map_keys g) \<longrightarrow> d \<in> set (concat levels)" by blast
      with d known [of k] show "d \<in> set (concat levels)" by blast
    qed
    then show ?case using levels_members [OF ok inv] dist by blast
  qed
  then show "set (map_keys g) \<subseteq> set (concat levels)" by blast
qed

end
