(* ===== verification/CriticalPath.thy ===== *)
theory CriticalPath
  imports DagPlanner
begin

section \<open>Critical paths and the guarantees of a plan\<close>

text \<open>
  A dependency path lists tasks so that each is a dependency of the next. \<open>longestFrom\<close> is
  shown to return a path of the greatest total weight ending in its node (whatever the sign of
  the weights), its memo table to hold only such paths, and its fuel to be enough on acyclic
  graphs, because a path of an acyclic graph repeats no task. The last part states what
  \<open>plan\<close> promises about a task list.
\<close>

subsection \<open>Longest paths\<close>

definition dep_path :: "dag \<Rightarrow> string list \<Rightarrow> bool" where
  "dep_path g p \<longleftrightarrow> set p \<subseteq> set (map_keys g) \<and> successively (\<lambda>d i. d \<in> set (dag_dep g i)) p"

definition path_cost :: "dag \<Rightarrow> string list \<Rightarrow> int" where
  "path_cost g p = sum_list (map (node_weight g) p)"

definition is_longest :: "dag \<Rightarrow> string \<Rightarrow> cost_path \<Rightarrow> bool" where
  "is_longest g i r \<longleftrightarrow>
     (if i \<in> set (map_keys g)
      then snd r \<noteq> [] \<and> last (snd r) = i \<and> dep_path g (snd r) \<and> path_cost g (snd r) = fst r \<and>
           (\<forall>q. q \<noteq> [] \<and> last q = i \<and> dep_path g q \<longrightarrow> path_cost g q \<le> fst r)
      else r = (0, []))"

definition memo_ok :: "dag \<Rightarrow> (string, cost_path) jsmap \<Rightarrow> bool" where
  "memo_ok g memo \<longleftrightarrow> (\<forall>i r. map_get memo i = Some r \<longrightarrow> is_longest g i r)"

lemma memo_ok_Nil [simp]: "memo_ok g []"
  by (simp add: memo_ok_def)

lemma dep_path_Nil [simp]: "dep_path g []"
  by (simp add: dep_path_def)

lemma path_cost_simps [simp]:
  "path_cost g [] = 0" "path_cost g (p @ [i]) = path_cost g p + node_weight g i"
  by (simp_all add: path_cost_def)

lemma dep_path_snoc:
  "dep_path g (p @ [i]) \<longleftrightarrow>
     i \<in> set (map_keys g) \<and> dep_path g p \<and> (p = [] \<or> last p \<in> set (dag_dep g i))"
  by (auto simp: dep_path_def successively_append_iff)

lemma is_longest_upper:
  assumes "is_longest g i r" and "q \<noteq> []" and "last q = i" and "dep_path g q"
  shows "path_cost g q \<le> fst r"
proof -
  have "i \<in> set (map_keys g)" using assms(2-) last_in_set by (fastforce simp: dep_path_def)
  then show ?thesis using assms by (simp add: is_longest_def)
qed

text \<open>What the loop over the dependencies returns makes the node's own result the longest.\<close>

definition is_best :: "dag \<Rightarrow> string list \<Rightarrow> cost_path \<Rightarrow> cost_path \<Rightarrow> bool" where
  "is_best g ds start b \<longleftrightarrow>
     (b = start \<or> (\<exists>d \<in> set ds. is_longest g d b)) \<and> fst start \<le> fst b \<and>
     (\<forall>q. q \<noteq> [] \<and> last q \<in> set ds \<and> dep_path g q \<longrightarrow> path_cost g q \<le> fst b)"

lemma is_best_Nil [simp]: "is_best g [] b b"
  by (simp add: is_best_def)

lemma is_best_Cons:
  assumes "is_longest g d child" and "is_best g ds (if fst best < fst child then child else best) b"
  shows "is_best g (d # ds) best b"
proof -
  have "path_cost g q \<le> fst b" if "q \<noteq> []" "last q = d" "dep_path g q" for q
    using is_longest_upper [OF assms(1) that] assms(2) by (auto simp: is_best_def split: if_splits)
  then show ?thesis using assms by (auto simp: is_best_def split: if_splits)
qed

lemma is_longest_node:
  assumes ok: "dag_ok g" and n: "map_get g i = Some node"
    and best: "is_best g (dn_dependsOn node) (0, []) b"
  shows "is_longest g i (dn_weightMs node + fst b, snd b @ [i])"
proof -
  have key: "i \<in> set (map_keys g)" using n by (metis map_get_None_iff option.distinct(1))
  have deps: "dag_dep g i = dn_dependsOn node"
    using ok n by (intro dag_dep_entry) (auto simp: dag_ok_def jsmap_ok_get_iff)
  have w: "node_weight g i = dn_weightMs node" using n by (simp add: node_weight_def)
  have b: "b = (0, []) \<or> snd b \<noteq> [] \<and> last (snd b) \<in> set (dag_dep g i) \<and> dep_path g (snd b) \<and>
      path_cost g (snd b) = fst b"
    using best unfolding is_best_def is_longest_def deps by (auto split: if_splits)
  have up: "path_cost g q \<le> dn_weightMs node + fst b"
    if q: "q \<noteq> []" "last q = i" "dep_path g q" for q
  proof -
    obtain p where p: "q = p @ [i]" using q by (metis append_butlast_last_id)
    have "path_cost g p \<le> fst b"
    proof (cases "p = []")
      case True
      then show ?thesis using best by (simp add: is_best_def)
    next
      case False
      then have d: "last p \<in> set (dn_dependsOn node)" "dep_path g p"
        using q(3) p deps by (auto simp: dep_path_snoc)
      then show ?thesis using best False by (simp add: is_best_def)
    qed
    then show ?thesis using p w by simp
  qed
  show ?thesis using key b up w by (auto simp: is_longest_def dep_path_snoc)
qed
lemma longest_correct:
  assumes "dag_ok g"
  shows "memo_ok g memo \<Longrightarrow> longestFrom fuel g i memo = Some (r, memo') \<Longrightarrow>
           is_longest g i r \<and> memo_ok g memo'"
    and "memo_ok g memo \<Longrightarrow> longestDeps fuel g ds best memo = Some (r, memo') \<Longrightarrow>
           is_best g ds best r \<and> memo_ok g memo'"
  using assms
proof (induction fuel g i memo and fuel g ds best memo arbitrary: r memo' and r memo'
    rule: longestFrom_longestDeps.induct)
  case (1 g i memo)
  then show ?case by simp
next
  case (2 fuel g i memo)
  show ?case
  proof (cases "map_get memo i")
    case (Some c)
    then have "r = c" "memo' = memo" using 2(3) by simp_all
    then show ?thesis using 2(2) Some unfolding memo_ok_def by blast
  next
    case None
    show ?thesis
    proof (cases "map_get g i")
      case gi: None
      then have "r = (0, [])" "memo' = memo" using 2(3) None by simp_all
      moreover have "i \<notin> set (map_keys g)" using gi by (simp only: map_get_None_iff not_False_eq_True)
      ultimately show ?thesis using 2(2) unfolding is_longest_def by simp
    next
      case (Some node)
      then obtain b m1 where d: "longestDeps fuel g (dn_dependsOn node) (0, []) memo = Some (b, m1)"
        and r: "r = (dn_weightMs node + fst b, snd b @ [i])" "memo' = map_set i r m1"
        using 2(3) None by (auto simp: Let_def split: option.splits prod.splits)
      have "is_best g (dn_dependsOn node) (0, []) b \<and> memo_ok g m1"
        using 2(1) [OF None Some 2(2) d 2(4)] .
      then show ?thesis
        using is_longest_node [OF 2(4) Some] r by (auto simp: memo_ok_def)
    qed
  qed
next
  case (3 fuel g best memo)
  then show ?case by simp
next
  case (4 fuel g dep deps best memo)
  obtain child m1 where c: "longestFrom fuel g dep memo = Some (child, m1)"
    and r: "longestDeps fuel g deps (if fst best < fst child then child else best) m1 = Some (r, memo')"
    using 4(4) by (auto split: option.splits prod.splits)
  have a: "is_longest g dep child \<and> memo_ok g m1" using 4(1) [OF 4(3) c 4(5)] .
  then have "is_best g deps (if fst best < fst child then child else best) r \<and> memo_ok g memo'"
    using 4(2) [OF c refl _ r 4(5)] by blast
  with a show ?case by (auto intro: is_best_Cons)
qed

lemma best_over_correct:
  assumes "dag_ok g" and "memo_ok g memo" and "best_over fuel g is best memo = Some b"
  shows "is_best g is best b"
  using assms(2,3)
proof (induction "is" arbitrary: best memo)
  case Nil
  then show ?case by simp
next
  case (Cons i js)
  then obtain r m1 where l: "longestFrom fuel g i memo = Some (r, m1)"
    and o: "best_over fuel g js (if fst best < fst r then r else best) m1 = Some b"
    by (auto split: option.splits prod.splits)
  then show ?case
    using longest_correct(1) [OF assms(1) Cons.prems(1) l] Cons.IH is_best_Cons by blast
qed

subsection \<open>The fuel is enough\<close>

lemma longest_no_fuel:
  shows "longestFrom fuel g i memo = None \<Longrightarrow> dag_ok g \<Longrightarrow>
           \<exists>p. length p = fuel \<and> dep_path g p \<and> (p \<noteq> [] \<longrightarrow> last p = i)"
    and "longestDeps fuel g ds best memo = None \<Longrightarrow> dag_ok g \<Longrightarrow>
           \<exists>p d. length p = fuel \<and> dep_path g p \<and> (p \<noteq> [] \<longrightarrow> last p = d) \<and> d \<in> set ds"
proof (induction fuel g i memo and fuel g ds best memo rule: longestFrom_longestDeps.induct)
  case (1 g i memo)
  then show ?case by simp
next
  case (2 fuel g i memo)
  then obtain node where none: "map_get memo i = None" and n: "map_get g i = Some node"
    and d: "longestDeps fuel g (dn_dependsOn node) (0, []) memo = None"
    by (auto simp: Let_def split: option.splits prod.splits)
  obtain p d where p: "length p = fuel" "dep_path g p" "p \<noteq> [] \<longrightarrow> last p = d" "d \<in> set (dn_dependsOn node)"
    using 2(1) [OF none n d 2(3)] by blast
  have "dag_dep g i = dn_dependsOn node"
    using 2(3) n by (intro dag_dep_entry) (auto simp: dag_ok_def jsmap_ok_get_iff)
  moreover have "i \<in> set (map_keys g)" using n by (metis map_get_None_iff option.distinct(1))
  ultimately have "dep_path g (p @ [i])" using p by (auto simp: dep_path_snoc)
  then show ?case using p(1) by (intro exI [of _ "p @ [i]"]) simp
next
  case (3 fuel g best memo)
  then show ?case by simp
next
  case (4 fuel g dep deps best memo)
  show ?case
  proof (cases "longestFrom fuel g dep memo")
    case None
    then show ?thesis using 4(1) [OF None 4(4)] by auto
  next
    case (Some a)
    obtain child m1 where a: "a = (child, m1)" by (cases a)
    show ?thesis using 4(2) [OF Some a [symmetric] _ 4(4)] 4(3) Some a by auto
  qed
qed

lemma dep_path_distinct:
  assumes "acyclic (dep_rel (dag_deps g))" and "dep_path g p"
  shows "distinct p"
proof -
  let ?R = "\<lambda>d i. (i, d) \<in> (dep_rel (dag_deps g))\<^sup>+"
  have "successively ?R p"
    using assms(2) unfolding dep_path_def
    by (auto intro!: r_into_trancl elim!: successively_mono simp: dep_rel_def dag_dep_def)
  moreover have "transp ?R" by (auto intro: transpI trancl_trans)
  ultimately have "sorted_wrt ?R p" by (simp add: successively_conv_sorted_wrt)
  then show ?thesis
    using assms(1) by (induction p) (auto simp: acyclic_def)
qed

lemma longestFrom_enough:
  assumes "dag_ok g" and "acyclic (dep_rel (dag_deps g))"
  shows "longestFrom (path_fuel g) g i memo \<noteq> None"
proof
  assume "longestFrom (path_fuel g) g i memo = None"
  then obtain p where p: "length p = path_fuel g" "dep_path g p"
    using longest_no_fuel(1) assms(1) by blast
  have "length p = card (set p)" using dep_path_distinct [OF assms(2) p(2)] by (simp add: distinct_card)
  also have "\<dots> \<le> card (set (map_keys g))" using p(2) by (intro card_mono) (auto simp: dep_path_def)
  also have "\<dots> \<le> length g" using card_length [of "map_keys g"] by simp
  finally show False using p(1) by (simp add: path_fuel_def)
qed

lemma best_over_enough:
  assumes "dag_ok g" and "acyclic (dep_rel (dag_deps g))"
  shows "best_over (path_fuel g) g is best memo \<noteq> None"
  using longestFrom_enough [OF assms]
  by (induction "is" arbitrary: best memo) (auto split: option.splits)

lemma criticalPath_correct:
  assumes "dag_ok g" and "acyclic (dep_rel (dag_deps g))"
  obtains p where "criticalPath g = Some p" and "dep_path g p" and
    "\<And>q. dep_path g q \<Longrightarrow> path_cost g q \<le> path_cost g p"
proof -
  obtain b where b: "best_over (path_fuel g) g (map_keys g) (0, []) [] = Some b"
    using best_over_enough [OF assms, of "map_keys g" "(0, [])" "[]"] by blast
  have best: "is_best g (map_keys g) (0, []) b"
    using best_over_correct [OF assms(1) memo_ok_Nil b] .
  have cost: "path_cost g (snd b) = fst b" and path: "dep_path g (snd b)"
    using best by (auto simp: is_best_def is_longest_def split: if_splits)
  have "path_cost g q \<le> fst b" if "dep_path g q" for q
  proof (cases "q = []")
    case True
    then show ?thesis using best by (simp add: is_best_def)
  next
    case False
    then have "last q \<in> set (map_keys g)" using that last_in_set by (fastforce simp: dep_path_def)
    then show ?thesis using best that False by (simp add: is_best_def)
  qed
  then show ?thesis using that [of "snd b"] b cost path by (simp add: criticalPath_def)
qed

subsection \<open>Plans\<close>

lemma plan_Some_iff:
  "plan tasks = Inr (Some P) \<longleftrightarrow>
     acyclic (dep_rel (task_dep_map tasks)) \<and>
     topologicalLevels (dag_of tasks) = Some (plan_levels P) \<and>
     criticalPath (dag_of tasks) = Some (plan_criticalPath P) \<and>
     plan_estimatedMs P = path_cost (dag_of tasks) (plan_criticalPath P)"
proof -
  have "foldl (\<lambda>acc i. acc + w i) 0 p = sum_list (map w p)" for w :: "string \<Rightarrow> int" and p
    by (induction p rule: rev_induct) simp_all
  then show ?thesis
    by (cases P) (auto simp: plan_def bind_r_eq_Inr buildGraph_Inr_iff path_cost_def split: option.splits)
qed

lemma plan_total:
  assumes "acyclic (dep_rel (task_dep_map tasks))"
  obtains P where "plan tasks = Inr (Some P)"
proof -
  let ?g = "dag_of tasks"
  obtain levels m where l: "topologicalLevels ?g = Some levels"
    using topologicalLevels_result [OF dag_ok_dag_of] by blast
  obtain p where p: "criticalPath ?g = Some p"
    using criticalPath_correct [OF dag_ok_dag_of, of tasks] assms by (auto simp: dag_deps_dag_of)
  show ?thesis
    by (rule that [of "\<lparr>plan_levels = levels, plan_criticalPath = p,
          plan_estimatedMs = path_cost ?g p\<rparr>"])
      (use assms l p in \<open>simp add: plan_Some_iff\<close>)
qed

lemma map_keys_dag_of: "set (map_keys (dag_of tasks)) = td_id ` set tasks"
  unfolding dag_of_def set_map_keys_map_from by force

lemma fst_dag_of [simp]: "fst ` set (dag_of tasks) = td_id ` set tasks"
  using map_keys_dag_of [of tasks] by simp

lemma dag_dep_dag_of:
  "distinct (map td_id tasks) \<Longrightarrow> t \<in> set tasks \<Longrightarrow> dag_dep (dag_of tasks) (td_id t) = td_deps t"
  by (simp add: dag_dep_def dag_deps_dag_of deps_of_task_dep_map)

lemma node_weight_dag_of:
  "distinct (map td_id tasks) \<Longrightarrow> t \<in> set tasks \<Longrightarrow> node_weight (dag_of tasks) (td_id t) = td_timeoutMs t"
  by (simp add: node_weight_def dag_of_def map_from_distinct comp_def map_of_map_key)
    (simp add: dag_node_of_def)

lemma plan_levels_inv:
  assumes "plan tasks = Inr (Some P)"
  obtains m where "level_inv (dag_of tasks) ([], m, plan_levels P)"
  using topologicalLevels_result [OF dag_ok_dag_of, of tasks] assms by (auto simp: plan_Some_iff)

text \<open>A task whose dependency list has a repetition is in no level.\<close>

lemma plan_skips:
  assumes "plan tasks = Inr (Some P)" and "distinct (map td_id tasks)"
    and "t \<in> set tasks" and "\<not> distinct (td_deps t)"
  shows "td_id t \<notin> set (concat (plan_levels P))"
proof -
  obtain m where "level_inv (dag_of tasks) ([], m, plan_levels P)"
    using plan_levels_inv [OF assms(1)] .
  then show ?thesis
    using levels_members [OF dag_ok_dag_of] assms dag_dep_dag_of [OF assms(2,3)]
    by (metis imageI map_keys_dag_of)
qed

lemma plan_ordered:
  assumes "plan tasks = Inr (Some P)" and "distinct (map td_id tasks)"
  shows "distinct (concat (plan_levels P)) \<and>
         set (concat (plan_levels P)) \<subseteq> td_id ` set tasks \<and>
         (\<forall>xs l ys. plan_levels P = xs @ l # ys \<longrightarrow>
            (\<forall>t \<in> set tasks. td_id t \<in> set l \<longrightarrow> set (td_deps t) \<subseteq> set (concat xs)))"
proof -
  obtain m where inv: "level_inv (dag_of tasks) ([], m, plan_levels P)"
    using plan_levels_inv [OF assms(1)] .
  then have l: "layered (dag_of tasks) (plan_levels P)" by (simp add: level_inv_def)
  have "set (td_deps t) \<subseteq> set (concat xs)"
    if "plan_levels P = xs @ l # ys" "t \<in> set tasks" "td_id t \<in> set l" for xs l ys t
    using l that dag_dep_dag_of [OF assms(2) that(2)] unfolding layered_def by metis
  moreover have "distinct (concat (plan_levels P)) \<and> set (concat (plan_levels P)) \<subseteq> td_id ` set tasks"
    using inv map_keys_dag_of [of tasks] unfolding level_inv_def by simp
  ultimately show ?thesis by blast
qed

lemma plan_complete:
  assumes "tasks_ok tasks" and "\<And>t. t \<in> set tasks \<Longrightarrow> distinct (td_deps t)"
    and "plan tasks = Inr (Some P)"
  shows "set (concat (plan_levels P)) = td_id ` set tasks"
proof -
  obtain m where inv: "level_inv (dag_of tasks) ([], m, plan_levels P)"
    using plan_levels_inv [OF assms(3)] .
  have dist: "distinct (map td_id tasks)" using assms(1) by (simp add: tasks_ok_def)
  have k: "distinct (dag_dep (dag_of tasks) k) \<and>
      set (dag_dep (dag_of tasks) k) \<subseteq> set (map_keys (dag_of tasks))" for k
  proof (cases "k \<in> td_id ` set tasks")
    case True
    then obtain t where t: "t \<in> set tasks" "k = td_id t" by blast
    then show ?thesis
      using assms(1,2) dag_dep_dag_of [OF dist t(1)] by (auto simp: map_keys_dag_of tasks_ok_def)
  next
    case False
    then have "dag_dep (dag_of tasks) k = []"
      unfolding dag_dep_def by (intro deps_of_unknown) (simp only: map_keys_dag_deps map_keys_dag_of not_False_eq_True)
    then show ?thesis by simp
  qed
  have "set (concat (plan_levels P)) = set (map_keys (dag_of tasks))"
    by (rule levels_complete [OF dag_ok_dag_of inv])
      (use k assms(3) in \<open>auto simp: plan_Some_iff dag_deps_dag_of\<close>)
  then show ?thesis by (simp only: map_keys_dag_of)
qed

lemma plan_critical:
  assumes "plan tasks = Inr (Some P)"
  shows "dep_path (dag_of tasks) (plan_criticalPath P) \<and>
         plan_estimatedMs P = path_cost (dag_of tasks) (plan_criticalPath P) \<and>
         (\<forall>q. dep_path (dag_of tasks) q \<longrightarrow> path_cost (dag_of tasks) q \<le> plan_estimatedMs P)"
proof -
  have "acyclic (dep_rel (dag_deps (dag_of tasks)))"
    using assms by (simp add: plan_Some_iff dag_deps_dag_of)
  from criticalPath_correct [OF dag_ok_dag_of this] show ?thesis
    using assms by (metis option.inject plan_Some_iff)
qed

subsection \<open>What a plan guarantees\<close>

text \<open>A diamond of four tasks, the example of the statements below.\<close>

definition diamond_task :: "string \<Rightarrow> int \<Rightarrow> string list \<Rightarrow> task_definition" where
  "diamond_task i w ds =
     \<lparr>td_id = i, td_name = i, td_handler = ''noop'', td_timeoutMs = w, td_optional = None,
      td_dependsOn = Some ds\<rparr>"

definition diamond :: "task_definition list" where
  "diamond =
     [diamond_task ''d'' 3 [''b'', ''c''], diamond_task ''b'' 7 [''a''],
      diamond_task ''c'' 2 [''a''], diamond_task ''a'' 5 []]"

lemma diamond_ok: "tasks_ok diamond"
  by (simp add: tasks_ok_def diamond_def diamond_task_def)

lemma diamond_plan:
  "plan diamond = Inr (Some
     \<lparr>plan_levels = [[''a''], [''b'', ''c''], [''d'']],
      plan_criticalPath = [''a'', ''b'', ''d''], plan_estimatedMs = 15\<rparr>)"
  by code_simp
lemma diamond_acyclic: "acyclic (depends diamond)"
proof -
  have "acyclic (dep_rel (task_dep_map diamond))" using diamond_plan by (simp add: plan_Some_iff)
  then show ?thesis using diamond_ok by (simp add: tasks_ok_def dep_rel_task_dep_map)
qed

text \<open>
  C8. Planning succeeds exactly on acyclic task lists: with distinct ids, \<open>plan\<close> returns a plan
  when the dependency relation is acyclic, and otherwise throws the cycle error, which names a
  task on a cycle. Neither the level loop nor the recursion of the critical path runs forever.
\<close>

theorem plan_iff_acyclic:
  assumes "distinct (map td_id tasks)"
  shows "if acyclic (depends tasks) then \<exists>P. plan tasks = Inr (Some P)
         else \<exists>i. plan tasks = Inl (JsError (''cycle detected at task '' @ i)) \<and>
                (i, i) \<in> (depends tasks)\<^sup>+"
proof (cases "acyclic (depends tasks)")
  case True
  then show ?thesis
    using plan_total [of tasks] assms by (metis dep_rel_task_dep_map)
next
  case False
  then have "assertAcyclic (dag_of tasks) \<noteq> Inr ()"
    using assms by (simp add: assertAcyclic_iff dag_deps_dag_of dep_rel_task_dep_map)
  then obtain i where i: "dfs_visits (dag_deps (dag_of tasks)) [] [] (map_keys (dag_of tasks)) = Inl i"
    and e: "assertAcyclic (dag_of tasks) = Inl (JsError (''cycle detected at task '' @ i))"
    by (auto simp: assertAcyclic_def split: sum.splits)
  have "(i, i) \<in> (depends tasks)\<^sup>+"
    using dfs_cycle(2) [OF i] assms by (simp add: dag_deps_dag_of dep_rel_task_dep_map)
  then show ?thesis using False e by (auto simp: plan_def buildGraph_def Let_def)
qed

theorem plan_iff_acyclic_witness:
  "(\<exists>P. plan diamond = Inr (Some P)) \<and>
   (\<exists>i. plan [diamond_task ''x'' 1 [''x'']] = Inl (JsError (''cycle detected at task '' @ i)))"
proof -
  let ?loop = "[diamond_task ''x'' 1 [''x'']]"
  have "(''x'', ''x'') \<in> depends ?loop" by (simp add: depends_def diamond_task_def)
  then have "\<not> acyclic (depends ?loop)" by (auto simp: acyclic_def)
  moreover have "distinct (map td_id ?loop)" by simp
  ultimately have "\<exists>i. plan ?loop = Inl (JsError (''cycle detected at task '' @ i))"
    using plan_iff_acyclic [of ?loop] by metis
  moreover have "\<exists>P. plan diamond = Inr (Some P)"
    using plan_iff_acyclic [of diamond] diamond_ok diamond_acyclic by (simp add: tasks_ok_def)
  ultimately show ?thesis by blast
qed


definition diamond_job :: job_definition where
  "diamond_job =
     \<lparr>jd_id = ''diamond'', jd_name = ''diamond'', jd_version = 1, jd_description = None,
      jd_tasks = diamond, jd_constraints = [], jd_retryPolicy = DEFAULT_RETRY_POLICY,
      jd_allowedTransitions = [], jd_metadata = [], jd_createdAt = ''2026-01-15'', jd_updatedAt = ''2026-01-15''\<rparr>"


text \<open>
  A dependency listed twice silently removes the task from the plan: the in-degree counts
  the list's entries, the release loop takes one off per finished task, so the counter of such
  a task never reaches zero.
\<close>

theorem plan_drops_repeated_dependency:
  assumes "plan tasks = Inr (Some P)" and "distinct (map td_id tasks)"
    and "t \<in> set tasks" and "\<not> distinct (td_deps t)"
  shows "td_id t \<notin> set (concat (plan_levels P))"
  using assms by (rule plan_skips)

theorem plan_drops_repeated_dependency_witness:
  "\<exists>P. plan [diamond_task ''a'' 1 [], diamond_task ''b'' 1 [''a'', ''a'']] = Inr (Some P) \<and>
     ''b'' \<notin> set (concat (plan_levels P))"
proof -
  let ?ts = "[diamond_task ''a'' 1 [], diamond_task ''b'' 1 [''a'', ''a'']]"
  have "plan ?ts = Inr (Some \<lparr>plan_levels = [[''a'']], plan_criticalPath = [''a'', ''b''],
      plan_estimatedMs = 2\<rparr>)" by code_simp
  then show ?thesis
    using plan_drops_repeated_dependency [of ?ts _ "diamond_task ''b'' 1 [''a'', ''a'']"]
    by (simp add: diamond_task_def td_deps_def)
qed

text \<open>
  C10. The critical path is a chain of dependencies of the greatest total timeout, and the
  estimate is its length: no chain of the task graph takes longer than \<open>estimatedMs\<close>.
\<close>

theorem plan_critical_path_longest:
  assumes "plan tasks = Inr (Some P)"
  shows "dep_path (dag_of tasks) (plan_criticalPath P) \<and>
         plan_estimatedMs P = path_cost (dag_of tasks) (plan_criticalPath P) \<and>
         (\<forall>q. dep_path (dag_of tasks) q \<longrightarrow> path_cost (dag_of tasks) q \<le> plan_estimatedMs P)"
  using assms by (rule plan_critical)

theorem plan_critical_path_longest_witness:
  "path_cost (dag_of diamond) [''a'', ''b'', ''d''] = 15 \<and>
   path_cost (dag_of diamond) [''a'', ''c'', ''d''] \<le> 15"
proof -
  have "dep_path (dag_of diamond) [''a'', ''c'', ''d'']" by code_simp
  then show ?thesis using plan_critical_path_longest [OF diamond_plan] by simp
qed

end
