(* ===== verification/StateMachine.thy ===== *)
theory StateMachine
  imports Domain
begin

section \<open>The workflow state machine\<close>

text \<open>
  The transition table (validators/transition-validator.ts), the machine that appends to the
  history of an instance (engine/state-machine.ts), the guard the orchestrator consults first
  (engine/transition-guard.ts), the compensation planner (engine/compensation.ts) and the lock
  registry (engine/run-lock.ts). Clock readings are arguments, in the order the code takes them.
  The step relation \<open>workflow_step\<close> collects everything the services do to a stored instance;
  the history invariant holds of every instance reachable from \<open>createRun\<close>.
\<close>

subsection \<open>The transition table\<close>

definition rule :: "workflow_state \<Rightarrow> workflow_state \<Rightarrow> string \<Rightarrow> transition_rule" where
  "rule a b ev = \<lparr>rule_from = a, rule_to = b, rule_event = ev, rule_guard = None\<rparr>"

definition DEFAULT_TRANSITION_RULES :: "transition_rule list" where
  "DEFAULT_TRANSITION_RULES =
     [rule Draft Pending ''submit'',
      rule Pending Running ''start'',
      rule Running Waiting ''await'',
      rule Waiting Running ''resume'',
      rule Running Completed ''complete'',
      rule Running Failed ''fail'',
      rule Waiting Failed ''fail'',
      rule Failed Running ''retry'',
      rule Failed DeadLettered ''dead_letter'',
      rule Pending Cancelled ''cancel'',
      rule Running Cancelled ''cancel'']"

definition canTransition ::
    "transition_rule list \<Rightarrow> workflow_state \<Rightarrow> workflow_state \<Rightarrow> string \<Rightarrow> bool" where
  "canTransition rules a b ev =
     list_ex (\<lambda>r. rule_from r = a \<and> rule_to r = b \<and> rule_event r = ev) rules"

definition assertTransition ::
    "transition_rule list \<Rightarrow> workflow_state \<Rightarrow> workflow_state \<Rightarrow> string \<Rightarrow> unit res" where
  "assertTransition rules a b ev =
     (if \<not> canTransition rules a b ev
      then Inl (TransitionError (''transition denied: '' @ workflow_state_str a @ '' -['' @ ev @
             '']-> '' @ workflow_state_str b))
      else Inr ())"

definition allowedEvents :: "transition_rule list \<Rightarrow> workflow_state \<Rightarrow> string list" where
  "allowedEvents rules a = set_from (map rule_event (filter (\<lambda>r. rule_from r = a) rules))"

subsection \<open>The machine\<close>

text \<open>\<open>at1\<close> and \<open>at2\<close> are the two clock readings, for the history entry and for the update.\<close>

definition transition ::
    "transition_rule list \<Rightarrow> iso_date \<Rightarrow> iso_date \<Rightarrow> workflow_instance \<Rightarrow> string \<Rightarrow>
     workflow_state \<Rightarrow> string \<Rightarrow> string option \<Rightarrow> workflow_instance res" where
  "transition rules at1 at2 inst ev target actor note =
     bind_r (assertTransition rules (wf_state inst) target ev) (\<lambda>_.
       let entry = \<lparr>he_at = at1, he_from = wf_state inst, he_to = target, he_event = ev,
                    he_actor = actor, he_note = note\<rparr>
       in Inr (inst\<lparr>wf_state := target, wf_history := wf_history inst @ [entry],
                    wf_version := wf_version inst + 1, wf_updatedAt := at2\<rparr>))"

definition isTerminal :: "workflow_state \<Rightarrow> bool" where
  "isTerminal s \<longleftrightarrow> s = Completed \<or> s = Cancelled \<or> s = DeadLettered"

subsection \<open>The guard\<close>

definition task_done :: "task_status \<Rightarrow> bool" where
  "task_done s \<longleftrightarrow> s = TSucceeded \<or> s = TSkipped"

definition assertAllRequiredTasksSucceeded :: "task_run list \<Rightarrow> unit res" where
  "assertAllRequiredTasksSucceeded tasks =
     (let incomplete = filter (\<lambda>t. tr_status t \<noteq> TSucceeded \<and> tr_status t \<noteq> TSkipped) tasks
      in if incomplete \<noteq> []
         then Inl (TransitionError (''cannot complete workflow: '' @ show_nat (length incomplete) @
                '' tasks not succeeded''))
         else Inr ())"

definition evaluate :: "workflow_instance \<Rightarrow> string \<Rightarrow> workflow_state \<Rightarrow> unit res" where
  "evaluate inst ev target =
     bind_r (if ev = ''complete'' \<and> target = Completed
             then assertAllRequiredTasksSucceeded (wf_tasks inst) else Inr ()) (\<lambda>_.
     bind_r (if ev = ''retry'' \<and> target = Running
             then if filter (\<lambda>t. tr_status t = TFailed) (wf_tasks inst) = []
                  then Inl (TransitionError ''retry requires at least one failed task'')
                  else Inr ()
             else Inr ()) (\<lambda>_.
     if ev = ''cancel'' \<and> wf_state inst = Running
     then if list_ex (\<lambda>t. tr_status t = TRunning) (wf_tasks inst)
          then Inl (TransitionError ''cannot cancel while tasks are running'')
          else Inr ()
     else Inr ()))"

subsection \<open>Compensation\<close>

record compensation_step =
  cs_taskId :: string
  cs_action :: string

definition planFailedRun :: "task_run list \<Rightarrow> compensation_step list" where
  "planFailedRun tasks =
     map (\<lambda>t. \<lparr>cs_taskId = tr_definitionTaskId t, cs_action = ''rollback.'' @ tr_handler t\<rparr>)
       (rev (filter (\<lambda>t. tr_status t = TSucceeded) tasks))"

subsection \<open>Run locks\<close>

type_synonym run_locks = "(run_id, string) jsmap"

text \<open>\<^verbatim>\<open>current && current !== owner\<close>: an empty owner string counts as no owner.\<close>

definition lock_acquire :: "run_id \<Rightarrow> string \<Rightarrow> run_locks \<Rightarrow> run_locks res" where
  "lock_acquire r owner locks =
     (case map_get locks r of
        Some current \<Rightarrow>
          if current \<noteq> [] \<and> current \<noteq> owner
          then Inl (ConcurrencyError (''run '' @ r @ '' locked by '' @ current))
          else Inr (map_set r owner locks)
      | None \<Rightarrow> Inr (map_set r owner locks))"

definition lock_release :: "run_id \<Rightarrow> string \<Rightarrow> run_locks \<Rightarrow> run_locks" where
  "lock_release r owner locks =
     (if map_get locks r = Some owner then map_delete r locks else locks)"

definition lock_isLocked :: "run_id \<Rightarrow> run_locks \<Rightarrow> bool" where
  "lock_isLocked r locks \<longleftrightarrow> map_get locks r \<noteq> None"

subsection \<open>Facts about the table\<close>

lemma canTransition_default:
  "canTransition DEFAULT_TRANSITION_RULES a b ev \<longleftrightarrow>
     (a, b, ev) \<in> {(Draft, Pending, ''submit''), (Pending, Running, ''start''),
       (Running, Waiting, ''await''), (Waiting, Running, ''resume''),
       (Running, Completed, ''complete''), (Running, Failed, ''fail''), (Waiting, Failed, ''fail''),
       (Failed, Running, ''retry''), (Failed, DeadLettered, ''dead_letter''),
       (Pending, Cancelled, ''cancel''), (Running, Cancelled, ''cancel'')}"
  by (cases a; cases b) (auto simp: canTransition_def DEFAULT_TRANSITION_RULES_def rule_def)

lemma assertTransition_Inr [simp]:
  "assertTransition rules a b ev = Inr () \<longleftrightarrow> canTransition rules a b ev"
  by (simp add: assertTransition_def)

lemma transition_Inr:
  "transition rules at1 at2 inst ev target actor note = Inr inst' \<longleftrightarrow>
     canTransition rules (wf_state inst) target ev \<and>
     inst' = inst\<lparr>wf_state := target,
       wf_history := wf_history inst @
         [\<lparr>he_at = at1, he_from = wf_state inst, he_to = target, he_event = ev, he_actor = actor,
           he_note = note\<rparr>],
       wf_version := wf_version inst + 1, wf_updatedAt := at2\<rparr>"
  by (auto simp: transition_def bind_r_eq_Inr Let_def)

lemma assertAllRequired_Inr:
  "assertAllRequiredTasksSucceeded ts = Inr () \<longleftrightarrow> (\<forall>t \<in> set ts. task_done (tr_status t))"
  by (auto simp: assertAllRequiredTasksSucceeded_def task_done_def Let_def filter_empty_conv)

lemma evaluate_Inr:
  "evaluate inst ev target = Inr () \<longleftrightarrow>
     (ev = ''complete'' \<and> target = Completed \<longrightarrow> (\<forall>t \<in> set (wf_tasks inst). task_done (tr_status t))) \<and>
     (ev = ''retry'' \<and> target = Running \<longrightarrow> (\<exists>t \<in> set (wf_tasks inst). tr_status t = TFailed)) \<and>
     (ev = ''cancel'' \<and> wf_state inst = Running \<longrightarrow> (\<forall>t \<in> set (wf_tasks inst). tr_status t \<noteq> TRunning))"
  by (auto simp: evaluate_def bind_r_eq_Inr assertAllRequired_Inr filter_empty_conv list_ex_iff)

subsection \<open>What the services do to a stored instance\<close>

text \<open>
  The orchestrator's transitions (guard first, then the machine) and the execution service's
  replacement of task runs are the only changes an instance undergoes.
\<close>

inductive workflow_step :: "workflow_instance \<Rightarrow> workflow_instance \<Rightarrow> bool" where
  apply_transition:
    "evaluate inst ev target = Inr () \<Longrightarrow>
     transition DEFAULT_TRANSITION_RULES at1 at2 inst ev target actor None = Inr inst' \<Longrightarrow>
     workflow_step inst inst'"
| update_tasks:
    "workflow_step inst (inst\<lparr>wf_tasks := tasks, wf_updatedAt := upd\<rparr>)"

inductive_cases workflow_stepE: "workflow_step inst inst'"

definition fresh_instance :: "workflow_instance \<Rightarrow> bool" where
  "fresh_instance inst \<longleftrightarrow> wf_state inst = Pending \<and> wf_history inst = [] \<and> wf_version inst = 1"

inductive reachable_instance :: "workflow_instance \<Rightarrow> bool" where
  created: "fresh_instance inst \<Longrightarrow> reachable_instance inst"
| stepped: "reachable_instance inst \<Longrightarrow> workflow_step inst inst' \<Longrightarrow> reachable_instance inst'"

text \<open>A history that starts in \<open>s\<close>, links up and ends in \<open>t\<close>, every entry a row of the table.\<close>

fun history_chain :: "workflow_state \<Rightarrow> history_entry list \<Rightarrow> workflow_state \<Rightarrow> bool" where
  "history_chain s [] t \<longleftrightarrow> s = t"
| "history_chain s (h # hs) t \<longleftrightarrow>
     he_from h = s \<and> canTransition DEFAULT_TRANSITION_RULES s (he_to h) (he_event h) \<and>
     history_chain (he_to h) hs t"

lemma history_chain_append:
  "history_chain s (hs @ hs') t \<longleftrightarrow> (\<exists>u. history_chain s hs u \<and> history_chain u hs' t)"
  by (induction hs arbitrary: s) auto

definition history_ok :: "workflow_instance \<Rightarrow> bool" where
  "history_ok inst \<longleftrightarrow>
     history_chain Pending (wf_history inst) (wf_state inst) \<and>
     wf_version inst = Suc (length (wf_history inst))"

lemma history_ok_step:
  assumes "history_ok inst" and "workflow_step inst inst'"
  shows "history_ok inst'"
  using assms(2,1)
  by (cases rule: workflow_step.cases) (auto simp: history_ok_def transition_Inr history_chain_append)

lemma fresh_history_ok: "fresh_instance inst \<Longrightarrow> history_ok inst"
  by (simp add: fresh_instance_def history_ok_def)

lemma reachable_history_ok: "reachable_instance inst \<Longrightarrow> history_ok inst"
  by (induction rule: reachable_instance.induct) (blast intro: fresh_history_ok history_ok_step)+

lemma canTransition_from_terminal: "isTerminal a \<Longrightarrow> \<not> canTransition DEFAULT_TRANSITION_RULES a b ev"
  by (auto simp: isTerminal_def canTransition_default)

lemma canTransition_target: "canTransition DEFAULT_TRANSITION_RULES a b ev \<Longrightarrow> a \<noteq> Draft \<Longrightarrow> b \<notin> {Draft, Pending}"
  by (auto simp: canTransition_default)

text \<open>No transition leads back before the start of a run.\<close>

lemma history_chain_never_back:
  "history_chain s hs t \<Longrightarrow> s \<noteq> Draft \<Longrightarrow> hs \<noteq> [] \<Longrightarrow> t \<notin> {Draft, Pending}"
proof (induction hs arbitrary: s)
  case Nil
  then show ?case by simp
next
  case (Cons h hs)
  then have "he_to h \<notin> {Draft, Pending}" by (auto dest: canTransition_target)
  with Cons show ?case by (cases hs) auto
qed

text \<open>A terminal state occurs in a history at most as its end.\<close>

lemma history_chain_terminal:
  assumes "history_chain s (hs @ h # hs') t" and "isTerminal (he_to h)"
  shows "hs' = []"
  using assms by (cases hs') (auto simp: history_chain_append canTransition_from_terminal)

lemma history_chain_dead:
  assumes "history_chain s hs DeadLettered" and "s \<noteq> DeadLettered"
  shows "hs \<noteq> [] \<and> he_from (last hs) = Failed"
  using assms
proof (cases hs rule: rev_cases)
  case (snoc hs' h)
  then show ?thesis
    using assms by (auto simp: history_chain_append canTransition_default)
qed simp


subsection \<open>The interface of the lock registry\<close>

text \<open>
  What the execution service relies on: a lock held by one owner refuses every other owner and
  nobody but the owner can give it back.
\<close>

datatype lock_op = Acquire run_id string | Release run_id string

locale exclusive_lock =
  fixes acquire :: "run_id \<Rightarrow> string \<Rightarrow> 's \<Rightarrow> 's res"
    and release :: "run_id \<Rightarrow> string \<Rightarrow> 's \<Rightarrow> 's"
    and holder :: "'s \<Rightarrow> run_id \<Rightarrow> string option"
  assumes acquire_holder: "acquire r a s = Inr s' \<Longrightarrow> holder s' = (holder s)(r := Some a)"
    and acquire_refused: "holder s r = Some a \<Longrightarrow> a \<noteq> [] \<Longrightarrow> b \<noteq> a \<Longrightarrow>
          \<exists>m. acquire r b s = Inl (ConcurrencyError m)"
    and acquire_free: "holder s r \<in> {None, Some a} \<Longrightarrow> \<exists>s'. acquire r a s = Inr s'"
    and release_holder:
      "holder (release r a s) = (if holder s r = Some a then (holder s)(r := None) else holder s)"
begin

text \<open>An operation of some owner; a refused acquisition leaves the registry as it is.\<close>

definition lock_step :: "lock_op \<Rightarrow> 's \<Rightarrow> 's" where
  "lock_step oper s =
     (case oper of
        Acquire r a \<Rightarrow> (case acquire r a s of Inl e \<Rightarrow> s | Inr s' \<Rightarrow> s')
      | Release r a \<Rightarrow> release r a s)"

lemma lock_step_keeps:
  assumes "holder s r = Some a" and "a \<noteq> []" and "oper \<noteq> Release r a"
  shows "holder (lock_step oper s) r = Some a"
proof (cases oper)
  case (Acquire r' b)
  show ?thesis
  proof (cases "acquire r' b s")
    case (Inl e)
    then show ?thesis using assms(1) Acquire by (simp add: lock_step_def)
  next
    case (Inr s')
    then have "\<not> (r' = r \<and> b \<noteq> a)" using acquire_refused [OF assms(1,2)] by fastforce
    then show ?thesis using assms(1) Acquire Inr acquire_holder [OF Inr] by (auto simp: lock_step_def)
  qed
next
  case (Release r' b)
  then show ?thesis using assms by (auto simp: lock_step_def release_holder)
qed

lemma lock_steps_keep:
  assumes "holder s r = Some a" and "a \<noteq> []" and "Release r a \<notin> set ops"
  shows "holder (fold lock_step ops s) r = Some a"
  using assms(1,3)
  by (induction ops arbitrary: s) (auto simp: lock_step_keeps assms(2))

lemma exclusion:
  assumes "acquire r a s = Inr s'" and "a \<noteq> []" and "Release r a \<notin> set ops" and "b \<noteq> a"
  shows "\<exists>m. acquire r b (fold lock_step ops s') = Inl (ConcurrencyError m)"
proof -
  have "holder s' r = Some a" using acquire_holder [OF assms(1)] by simp
  then have "holder (fold lock_step ops s') r = Some a" using assms(2,3) by (rule lock_steps_keep)
  then show ?thesis using assms(2,4) by (rule acquire_refused)
qed

lemma release_frees:
  "acquire r a s = Inr s' \<Longrightarrow> \<exists>s''. acquire r b (release r a s') = Inr s''"
  by (rule acquire_free) (simp add: release_holder acquire_holder)

end

interpretation lock: exclusive_lock lock_acquire lock_release map_of
  by unfold_locales
    (auto simp: lock_acquire_def lock_release_def fun_eq_iff split: option.splits if_splits)

definition lock_run :: "lock_op list \<Rightarrow> run_locks \<Rightarrow> run_locks" where
  "lock_run ops locks = fold lock.lock_step ops locks"

subsection \<open>What the state machine guarantees\<close>

text \<open>
  C12. The history of every reachable instance is a faithful audit trail: it starts in pending,
  consecutive entries link up, every entry is a row of the transition table, it ends in the
  instance's state, and the version counts the transitions.
\<close>

theorem reachable_history_is_audit_trail:
  assumes "reachable_instance inst"
  shows "history_chain Pending (wf_history inst) (wf_state inst) \<and>
         wf_version inst = Suc (length (wf_history inst))"
  using reachable_history_ok [OF assms] by (simp add: history_ok_def)

definition sample_instance :: workflow_instance where
  "sample_instance =
     \<lparr>wf_id = ''w'', wf_jobId = ''j'', wf_runId = ''r'', wf_state = Pending, wf_currentTaskId = None,
      wf_context = [], wf_tasks = [], wf_history = [], wf_version = 1, wf_createdAt = ''t0'',
      wf_updatedAt = ''t0''\<rparr>"

definition sample_running :: workflow_instance where
  "sample_running = sample_instance\<lparr>wf_state := Running,
     wf_history := [\<lparr>he_at = ''t1'', he_from = Pending, he_to = Running, he_event = ''start'',
                     he_actor = ''orchestrator'', he_note = None\<rparr>],
     wf_version := 2, wf_updatedAt := ''t2''\<rparr>"

lemma sample_running_reachable: "reachable_instance sample_running"
proof (rule stepped)
  show "reachable_instance sample_instance"
    by (rule created) (simp add: fresh_instance_def sample_instance_def)
  show "workflow_step sample_instance sample_running"
    by (rule apply_transition [of _ "''start''" Running "''t1''" "''t2''" "''orchestrator''"])
      (simp_all add: evaluate_Inr transition_Inr canTransition_default sample_instance_def
        sample_running_def)
qed

theorem reachable_history_is_audit_trail_witness:
  "history_chain Pending (wf_history sample_running) Running \<and> wf_version sample_running = 2"
  using reachable_history_is_audit_trail [OF sample_running_reachable]
  by (simp add: sample_running_def)

text \<open>
  Terminal states are exactly the dead ends of the table: \<open>isTerminal\<close> holds of a state
  iff no event is allowed in it, and iff every transition out of it is refused.
\<close>

theorem terminal_iff_no_event:
  "(isTerminal s \<longleftrightarrow> allowedEvents DEFAULT_TRANSITION_RULES s = []) \<and>
   (isTerminal s \<longleftrightarrow> (\<forall>b ev. assertTransition DEFAULT_TRANSITION_RULES s b ev \<noteq> Inr ()))"
proof
  have "set_from xs = [] \<longleftrightarrow> xs = []" for xs :: "string list"
    using set_set_from [of xs] by (metis set_empty)
  then show "isTerminal s \<longleftrightarrow> allowedEvents DEFAULT_TRANSITION_RULES s = []"
    by (cases s) (simp_all add: isTerminal_def allowedEvents_def DEFAULT_TRANSITION_RULES_def rule_def)
  show "isTerminal s \<longleftrightarrow> (\<forall>b ev. assertTransition DEFAULT_TRANSITION_RULES s b ev \<noteq> Inr ())"
    by (cases s) (auto simp: isTerminal_def canTransition_default)
qed

text \<open>
  Once a reachable instance has entered a terminal state it stays there: in its history a
  terminal state can only be the last target, and no entry leads back to draft or pending.
\<close>

theorem terminal_state_is_final:
  assumes "reachable_instance inst" and "wf_history inst = hs @ h # hs'"
  shows "(isTerminal (he_to h) \<longrightarrow> hs' = [] \<and> wf_state inst = he_to h) \<and>
         wf_state inst \<notin> {Draft, Pending}"
proof -
  have chain: "history_chain Pending (hs @ h # hs') (wf_state inst)"
    using reachable_history_ok [OF assms(1)] assms(2) by (simp add: history_ok_def)
  have "hs' = [] \<and> wf_state inst = he_to h" if "isTerminal (he_to h)"
    using history_chain_terminal [OF chain that] chain by (simp add: history_chain_append)
  then show ?thesis using history_chain_never_back [OF chain] by simp
qed

theorem terminal_state_is_final_witness:
  "wf_state sample_running \<notin> {Draft, Pending}"
  using terminal_state_is_final [OF sample_running_reachable, of "[]"]
  by (simp add: sample_running_def)

text \<open>
  Mutual exclusion of run locks: once a named owner holds a run, whatever acquisitions and
  releases follow, every other owner is refused until the holder itself releases.
\<close>

theorem run_lock_exclusive:
  assumes "lock_acquire r a locks = Inr locks'" and "a \<noteq> []"
    and "Release r a \<notin> set ops" and "b \<noteq> a"
  shows "\<exists>m. lock_acquire r b (lock_run ops locks') = Inl (ConcurrencyError m)"
  unfolding lock_run_def using assms by (rule lock.exclusion)

theorem run_lock_exclusive_witness:
  "\<exists>m. lock_acquire ''r1'' ''api'' (lock_run [Acquire ''r1'' ''cron'', Release ''r1'' ''cron'']
         [(''r1'', ''execution-service'')]) = Inl (ConcurrencyError m)"
  by (rule run_lock_exclusive [where a = "''execution-service''" and locks = "[]"])
    (simp_all add: lock_acquire_def)

text \<open>
  An empty owner string gives no exclusion: the registry treats it as unlocked, so any
  other owner takes the run over.
\<close>

theorem empty_owner_excludes_nobody:
  "\<exists>l1 l2. lock_acquire r [] [] = Inr l1 \<and> lock_isLocked r l1 \<and> lock_acquire r b l1 = Inr l2"
  by (simp add: lock_acquire_def lock_isLocked_def)

end
