(* ===== verification/Workers.thy ===== *)
theory Workers
  imports StateMachine JobValidation "HOL-Library.Multiset"
begin

section \<open>Workers: retries, the simulator, the executor, the scheduler, the pool\<close>

text \<open>
  workers/retry-handler.ts, workers/simulator.ts, workers/task-executor.ts,
  workers/scheduler.ts and workers/pool.ts. What the code reads from its environment (the
  clock, \<^verbatim>\<open>Date.now\<close>, \<^verbatim>\<open>Math.random\<close>) is a function of the number of reads so far,
  which is the state of the actions; every theorem holds for all such functions. The registered
  handler implementations are a parameter of the simulator: any action that returns a result or
  throws.
\<close>

subsection \<open>The environment\<close>

record handler_context =
  hc_runId :: run_id
  hc_taskId :: string
  hc_input :: jsobj
  hc_priorOutputs :: "(string \<times> jsobj) list"

record handler_result =
  hr_success :: bool
  hr_output :: jsobj
  hr_metrics :: "(string \<times> jsnum) list option"

record env =
  clk :: "nat \<Rightarrow> iso_date"
  date_now :: "nat \<Rightarrow> int"
  rand :: "nat \<Rightarrow> jsnum"
  uuid :: "nat \<Rightarrow> string"
  impls :: "string \<Rightarrow> (handler_context \<Rightarrow> task_definition \<Rightarrow> (nat, err, handler_result) act) option"

type_synonym 'a eff = "(nat, err, 'a) act"

definition read_env :: "(nat \<Rightarrow> 'a) \<Rightarrow> 'a eff" where
  "read_env f n = (Inr (f n), Suc n)"

lemma read_env_apply [simp, result_simps]: "read_env f n = (Inr (f n), Suc n)"
  by (simp add: read_env_def)

subsection \<open>RetryHandler\<close>

record retry_decision =
  rd_retry :: bool
  rd_delayMs :: jsnum
  rd_nextAttempt :: nat

definition decide :: "retry_policy \<Rightarrow> task_run \<Rightarrow> retry_decision" where
  "decide policy task =
     (let nextAttempt = tr_attempt task + 1
      in if \<not> shouldRetry policy (int nextAttempt)
         then \<lparr>rd_retry = False, rd_delayMs = Fin 0, rd_nextAttempt = nextAttempt\<rparr>
         else \<lparr>rd_retry = True, rd_delayMs = computeBackoffDelay policy (int nextAttempt),
               rd_nextAttempt = nextAttempt\<rparr>)"

definition assertWithinAttempts :: "retry_policy \<Rightarrow> task_run \<Rightarrow> unit res" where
  "assertWithinAttempts policy task =
     (if int (tr_attempt task) \<ge> maxAttempts policy
      then Inl (ExecutionError MaxRetriesExceeded (''task '' @ tr_definitionTaskId task @
             '' exceeded max attempts ('' @ show_int (maxAttempts policy) @ '')''))
      else Inr ())"

subsection \<open>TaskSimulator\<close>

record simulated_result =
  sr_success :: bool
  sr_output :: jsobj
  sr_latencyMs :: jsnum
  sr_errorMessage :: "string option"

record engine_config =
  cfg_workerConcurrency :: int
  cfg_latencyMin :: jsnum
  cfg_latencyMax :: jsnum
  cfg_failRatePercent :: jsnum

definition randomLatency :: "env \<Rightarrow> engine_config \<Rightarrow> jsnum eff" where
  "randomLatency e cfg =
     bind_a (read_env (rand e)) (\<lambda>r.
       ret (num_add (cfg_latencyMin cfg)
              (math_floor (num_mul r
                 (num_add (num_sub (cfg_latencyMax cfg) (cfg_latencyMin cfg)) (Fin 1))))))"

definition shouldFail :: "env \<Rightarrow> engine_config \<Rightarrow> string \<Rightarrow> bool eff" where
  "shouldFail e cfg handler =
     (if num_le (cfg_failRatePercent cfg) (Fin 0) then ret False
      else bind_a (read_env (rand e)) (\<lambda>r.
        let roll = num_mul r (Fin 100)
        in if num_le (cfg_failRatePercent cfg) roll then ret False
           else ret (str_includes handler ''risky'' \<or> str_includes handler ''external'')))"

definition buildOutput :: "env \<Rightarrow> string \<Rightarrow> jsobj \<Rightarrow> jsobj eff" where
  "buildOutput e handler input =
     bind_a (read_env (\<lambda>n. (n, clk e n))) (\<lambda>(n, now).
       ret [(''handler'', VStr handler), (''processedAt'', VStr now),
            (''inputKeys'', VArr (Fresh n) (map VStr (map_keys input)))])"

definition obj_or :: "jsval \<Rightarrow> jsval \<Rightarrow> jsval" where
  "obj_or a b = (if nullish a then b else a)"

definition simulator_execute ::
    "env \<Rightarrow> engine_config \<Rightarrow> string \<Rightarrow> jsobj \<Rightarrow> handler_context \<Rightarrow> simulated_result eff" where
  "simulator_execute e cfg handler input execCtx =
     (case impls e handler of
        Some impl \<Rightarrow>
          bind_a (read_env (date_now e)) (\<lambda>started.
          bind_a (impl execCtx
              \<lparr>td_id = hc_taskId execCtx, td_name = handler, td_handler = handler,
               td_timeoutMs = 30000, td_optional = None, td_dependsOn = None\<rparr>) (\<lambda>result.
          bind_a (read_env (date_now e)) (\<lambda>finished.
          bind_a (if hr_success result then ret None
                  else bind_a (lift_r (obj_get (hr_output result) ''error'')) (\<lambda>v.
                         bind_a (lift_r (to_string (obj_or v (VStr ''handler failed'')))) (\<lambda>s.
                           ret (Some s)))) (\<lambda>msg.
          ret \<lparr>sr_success = hr_success result, sr_output = hr_output result,
               sr_latencyMs = to_double (of_int (finished - started)), sr_errorMessage = msg\<rparr>))))
      | None \<Rightarrow>
          bind_a (randomLatency e cfg) (\<lambda>latencyMs.
          bind_a (shouldFail e cfg handler) (\<lambda>fails.
          if fails
          then ret \<lparr>sr_success = False, sr_output = [], sr_latencyMs = latencyMs,
                    sr_errorMessage = Some (''simulated failure for handler '' @ handler)\<rparr>
          else bind_a (buildOutput e handler input) (\<lambda>output.
            ret \<lparr>sr_success = True, sr_output = output, sr_latencyMs = latencyMs,
                 sr_errorMessage = None\<rparr>))))"

subsection \<open>TaskExecutor\<close>

text \<open>The executor calls whatever simulator it was constructed with.\<close>

type_synonym simulator = "string \<Rightarrow> jsobj \<Rightarrow> handler_context \<Rightarrow> simulated_result eff"

record execute_result =
  er_task :: task_run
  er_retryAfterMs :: "jsnum option"

definition handleFailure :: "env \<Rightarrow> task_run \<Rightarrow> retry_policy \<Rightarrow> string \<Rightarrow> execute_result eff" where
  "handleFailure e task policy message =
     bind_a (read_env (clk e)) (\<lambda>now.
       let failed = task\<lparr>tr_status := TFailed, tr_finishedAt := Some now,
                         tr_errorMessage := Some message\<rparr>;
           decision = decide policy failed
       in if rd_retry decision
          then ret \<lparr>er_task = failed\<lparr>tr_status := TRetrying, tr_errorMessage := Some message\<rparr>,
                    er_retryAfterMs = Some (rd_delayMs decision)\<rparr>
          else ret \<lparr>er_task = failed, er_retryAfterMs = None\<rparr>)"

definition executor_run ::
    "env \<Rightarrow> simulator \<Rightarrow> task_run \<Rightarrow> task_definition \<Rightarrow> retry_policy \<Rightarrow> jsobj \<Rightarrow> execute_result eff" where
  "executor_run e sim taskRun definition policy input =
     bind_a (read_env (clk e)) (\<lambda>started.
       let running = taskRun\<lparr>tr_status := TRunning, tr_attempt := tr_attempt taskRun + 1,
                             tr_startedAt := Some started\<rparr>
       in catch_a
            (bind_a (sim (td_handler definition) input
                \<lparr>hc_runId = tr_runId taskRun, hc_taskId = tr_definitionTaskId taskRun,
                 hc_input = input, hc_priorOutputs = []\<rparr>) (\<lambda>result.
              if \<not> sr_success result
              then handleFailure e running policy
                     (case sr_errorMessage result of Some m \<Rightarrow> m | None \<Rightarrow> ''unknown error'')
              else bind_a (read_env (clk e)) (\<lambda>now.
                ret \<lparr>er_task = running\<lparr>tr_status := TSucceeded, tr_finishedAt := Some now,
                                       tr_output := Some (sr_output result)\<rparr>,
                     er_retryAfterMs = None\<rparr>)))
            (\<lambda>err. handleFailure e running policy (err_message err)))"

subsection \<open>TaskScheduler\<close>

definition status_by_def :: "task_run list \<Rightarrow> (string, task_status) jsmap" where
  "status_by_def tasks = map_from (map (\<lambda>t. (tr_definitionTaskId t, tr_status t)) tasks)"

definition dependenciesMet :: "task_definition \<Rightarrow> (string, task_status) jsmap \<Rightarrow> bool" where
  "dependenciesMet def statusByDef =
     list_all (\<lambda>dep. map_get statusByDef dep = Some TSucceeded \<or> map_get statusByDef dep = Some TSkipped)
       (td_deps def)"

fun next_in :: "(string, task_status) jsmap \<Rightarrow> task_definition list \<Rightarrow> task_definition option" where
  "next_in statusByDef [] = None"
| "next_in statusByDef (def # defs) =
     (let status = map_get statusByDef (td_id def)
      in if status = Some TSucceeded \<or> status = Some TSkipped then next_in statusByDef defs
         else if status = Some TRunning \<or> status = Some TRetrying then next_in statusByDef defs
         else if dependenciesMet def statusByDef then Some def
         else next_in statusByDef defs)"

definition nextRunnable :: "task_run list \<Rightarrow> task_definition list \<Rightarrow> task_definition option" where
  "nextRunnable tasks definitions = next_in (status_by_def tasks) definitions"

definition allDone :: "task_run list \<Rightarrow> task_definition list \<Rightarrow> bool" where
  "allDone tasks definitions =
     (let required = filter (\<lambda>d. td_optional d \<noteq> Some True) definitions;
          statusByDef = status_by_def tasks
      in list_all (\<lambda>d. map_get statusByDef (td_id d) = Some TSucceeded \<or>
                       map_get statusByDef (td_id d) = Some TSkipped) required)"

subsection \<open>WorkerPool\<close>

record queued_run =
  qr_runId :: run_id
  qr_priority :: run_priority
  qr_enqueuedAt :: iso_date

record worker_pool =
  wp_queue :: "queued_run list"
  wp_running :: int
  wp_concurrency :: int

definition pool_new :: "int \<Rightarrow> worker_pool" where
  "pool_new concurrency = \<lparr>wp_queue = [], wp_running = 0, wp_concurrency = concurrency\<rparr>"

text \<open>
  \<^verbatim>\<open>Array.prototype.sort\<close> is stable, and so is \<open>sort_key\<close>; the comparator orders by
  falling priority.
\<close>

definition pool_key :: "queued_run \<Rightarrow> int" where
  "pool_key q = - priority_num (qr_priority q)"

definition pool_enqueue :: "queued_run \<Rightarrow> worker_pool \<Rightarrow> worker_pool" where
  "pool_enqueue item p = p\<lparr>wp_queue := sort_key pool_key (wp_queue p @ [item])\<rparr>"

definition pool_canAccept :: "worker_pool \<Rightarrow> bool" where
  "pool_canAccept p \<longleftrightarrow> wp_running p < wp_concurrency p"

definition pool_start :: "worker_pool \<Rightarrow> queued_run option \<times> worker_pool" where
  "pool_start p =
     (if \<not> pool_canAccept p \<or> wp_queue p = [] then (None, p)
      else (Some (hd (wp_queue p)), p\<lparr>wp_running := wp_running p + 1, wp_queue := tl (wp_queue p)\<rparr>))"

definition pool_complete :: "worker_pool \<Rightarrow> worker_pool" where
  "pool_complete p = p\<lparr>wp_running := max 0 (wp_running p - 1)\<rparr>"

definition pool_depth :: "worker_pool \<Rightarrow> nat" where
  "pool_depth p = length (wp_queue p)"

subsection \<open>Retry decisions and executor outcomes\<close>

lemma decide_retry_iff [simp]: "rd_retry (decide p t) \<longleftrightarrow> int (tr_attempt t) + 1 < maxAttempts p"
  by (simp add: decide_def shouldRetry_def Let_def)

lemma decide_delay:
  "int (tr_attempt t) + 1 < maxAttempts p \<Longrightarrow>
     rd_delayMs (decide p t) = computeBackoffDelay p (int (tr_attempt t) + 1)"
  by (simp add: decide_def shouldRetry_def Let_def add.commute)

text \<open>The identity of a task run: everything the executor never changes.\<close>

definition same_task :: "task_run \<Rightarrow> task_run \<Rightarrow> bool" where
  "same_task a b \<longleftrightarrow>
     tr_id a = tr_id b \<and> tr_runId a = tr_runId b \<and>
     tr_definitionTaskId a = tr_definitionTaskId b \<and> tr_handler a = tr_handler b"

text \<open>What one execution of a task can return, for a policy and the run before it.\<close>

definition outcome_ok :: "retry_policy \<Rightarrow> task_run \<Rightarrow> execute_result \<Rightarrow> bool" where
  "outcome_ok p t r \<longleftrightarrow>
     same_task (er_task r) t \<and> tr_attempt (er_task r) = Suc (tr_attempt t) \<and>
     (tr_status (er_task r) = TSucceeded \<and> er_retryAfterMs r = None \<or>
      tr_status (er_task r) = TRetrying \<and> int (tr_attempt t) + 2 < maxAttempts p \<and>
        er_retryAfterMs r = Some (computeBackoffDelay p (int (tr_attempt t) + 2)) \<or>
      tr_status (er_task r) = TFailed \<and> maxAttempts p \<le> int (tr_attempt t) + 2 \<and>
        er_retryAfterMs r = None)"

text \<open>The simulator stays within the modelled part of JavaScript.\<close>

definition sim_modelled :: "simulator \<Rightarrow> bool" where
  "sim_modelled sim \<longleftrightarrow> (\<forall>h i c n e. fst (sim h i c n) = Inl e \<longrightarrow> \<not> is_unmodelled e)"

lemma handleFailure_outcome:
  assumes "same_task task t" and "tr_attempt task = Suc (tr_attempt t)"
  shows "\<exists>r n'. handleFailure e task p m n = (Inr r, n') \<and> outcome_ok p t r"
  using assms
  by (auto simp: handleFailure_def bind_a_def Let_def outcome_ok_def same_task_def decide_def
      shouldRetry_def add.commute)

lemma executor_run_total:
  assumes "sim_modelled sim"
  shows "\<exists>r n'. executor_run e sim t d p input n = (Inr r, n') \<and> outcome_ok p t r"
proof -
  let ?running = "t\<lparr>tr_status := TRunning, tr_attempt := tr_attempt t + 1, tr_startedAt := Some (clk e n)\<rparr>"
  let ?ctx = "\<lparr>hc_runId = tr_runId t, hc_taskId = tr_definitionTaskId t, hc_input = input,
      hc_priorOutputs = []\<rparr>"
  have same: "same_task ?running t" by (simp add: same_task_def)
  have fail: "\<exists>r n'. handleFailure e ?running p m k = (Inr r, n') \<and> outcome_ok p t r" for m k
    using same by (rule handleFailure_outcome) simp
  obtain res n1 where s: "sim (td_handler d) input ?ctx (Suc n) = (res, n1)"
    by (cases "sim (td_handler d) input ?ctx (Suc n)")
  show ?thesis
  proof (cases res)
    case (Inl err)
    with s assms have "\<not> is_unmodelled err" unfolding sim_modelled_def by (metis fst_conv)
    then show ?thesis
      using fail [of "err_message err" n1] Inl s by (simp add: executor_run_def catch_a_def Let_def)
  next
    case (Inr sr)
    show ?thesis
    proof (cases "sr_success sr")
      case True
      then show ?thesis
        using Inr s by (simp add: executor_run_def catch_a_def Let_def outcome_ok_def same_task_def)
    next
      case False
      obtain r n' where "handleFailure e ?running p
          (case sr_errorMessage sr of Some m \<Rightarrow> m | None \<Rightarrow> ''unknown error'') n1 = (Inr r, n')"
        "outcome_ok p t r"
        using fail by blast
      then show ?thesis using False Inr s by (simp add: executor_run_def catch_a_def Let_def)
    qed
  qed
qed

text \<open>The built-in simulator is such a simulator, whatever the handlers do within the model.\<close>

lemma simulator_execute_modelled:
  assumes "impls e = (\<lambda>h. None)"
  shows "sim_modelled (simulator_execute e cfg)"
  using assms
  by (auto simp: sim_modelled_def simulator_execute_def randomLatency_def shouldFail_def
      buildOutput_def bind_a_def Let_def split: if_splits)

subsection \<open>What the scheduler picks\<close>

lemma status_by_def_get:
  "distinct (map tr_definitionTaskId ts) \<Longrightarrow> t \<in> set ts \<Longrightarrow>
     map_get (status_by_def ts) (tr_definitionTaskId t) = Some (tr_status t)"
  by (simp add: status_by_def_def map_from_distinct comp_def map_of_map_key)

definition status_done :: "(string, task_status) jsmap \<Rightarrow> string \<Rightarrow> bool" where
  "status_done m i \<longleftrightarrow> map_get m i = Some TSucceeded \<or> map_get m i = Some TSkipped"

definition status_busy :: "(string, task_status) jsmap \<Rightarrow> string \<Rightarrow> bool" where
  "status_busy m i \<longleftrightarrow> map_get m i = Some TRunning \<or> map_get m i = Some TRetrying"

lemma dependenciesMet_iff: "dependenciesMet def m \<longleftrightarrow> (\<forall>d \<in> set (td_deps def). status_done m d)"
  by (simp add: dependenciesMet_def status_done_def list_all_iff)

lemma next_in_find:
  "next_in m defs =
     List.find (\<lambda>d. \<not> status_done m (td_id d) \<and> \<not> status_busy m (td_id d) \<and> dependenciesMet d m) defs"
  by (induction defs) (auto simp: Let_def status_done_def status_busy_def)

lemma nextRunnable_Some:
  assumes "nextRunnable ts defs = Some d"
  shows "d \<in> set defs \<and> \<not> status_done (status_by_def ts) (td_id d) \<and>
         \<not> status_busy (status_by_def ts) (td_id d) \<and>
         (\<forall>i \<in> set (td_deps d). status_done (status_by_def ts) i)"
  using find_Some_in [OF assms [unfolded nextRunnable_def next_in_find]]
  by (simp add: dependenciesMet_iff)

lemma nextRunnable_None:
  "nextRunnable ts defs = None \<longleftrightarrow>
     (\<forall>d \<in> set defs. status_done (status_by_def ts) (td_id d) \<or> status_busy (status_by_def ts) (td_id d) \<or>
        (\<exists>i \<in> set (td_deps d). \<not> status_done (status_by_def ts) i))"
  by (auto simp: nextRunnable_def next_in_find find_None_iff dependenciesMet_iff)

lemma allDone_iff:
  "allDone ts defs \<longleftrightarrow>
     (\<forall>d \<in> set defs. td_optional d \<noteq> Some True \<longrightarrow> status_done (status_by_def ts) (td_id d))"
  by (auto simp: allDone_def Let_def list_all_iff status_done_def)

text \<open>
  On an acyclic job with nothing in flight the scheduler only runs dry when every task is done.
\<close>

lemma nextRunnable_progress:
  assumes "tasks_ok defs" and "acyclic (depends defs)" and "nextRunnable ts defs = None"
    and idle: "\<And>d. d \<in> set defs \<Longrightarrow> \<not> status_busy (status_by_def ts) (td_id d)"
    and "d \<in> set defs"
  shows "status_done (status_by_def ts) (td_id d)"
  using assms(5)
proof (induction "td_id d" arbitrary: d rule: wf_induct_rule [OF acyclic_depends_wf [OF assms(2)]])
  case 1
  have "status_done (status_by_def ts) i" if i: "i \<in> set (td_deps d)" for i
  proof -
    obtain d' where d': "d' \<in> set defs" "td_id d' = i"
      using assms(1) 1(2) i by (fastforce simp: tasks_ok_def)
    moreover have "(i, td_id d) \<in> (depends defs)\<inverse>" using 1(2) i by (auto simp: depends_def)
    ultimately show ?thesis using 1(1) by blast
  qed
  then show ?case using assms(3) idle [OF 1(2)] 1(2) by (auto simp: nextRunnable_None)
qed

subsection \<open>The pool is a priority queue, first-in first-out within a priority\<close>

text \<open>
  The abstract pool is the list of waiting runs in order of arrival; its next run is the first
  one of the highest priority.
\<close>

definition pool_spec_next :: "queued_run list \<Rightarrow> queued_run option" where
  "pool_spec_next arrivals =
     List.find (\<lambda>q. \<forall>q' \<in> set arrivals. qr_priority q' \<le> qr_priority q) arrivals"

definition pool_abs :: "worker_pool \<Rightarrow> queued_run list \<Rightarrow> bool" where
  "pool_abs p arrivals \<longleftrightarrow> wp_queue p = sort_key pool_key arrivals"

lemma sort_key_unique:
  assumes "mset ys = mset xs" and "sorted (map f ys)"
    and "\<And>k. filter (\<lambda>y. f y = k) ys = filter (\<lambda>y. f y = k) xs"
  shows "sort_key f xs = ys"
  using assms by (intro properties_for_sort_key) (simp_all add: eq_commute)

lemma filter_sort_key: "filter (\<lambda>y. f y = k) (sort_key f xs) = filter (\<lambda>y. f y = k) xs"
  using sort_key_stable [of f k xs] by simp

lemma sort_key_snoc: "sort_key f (sort_key f xs @ [x]) = sort_key f (xs @ [x])"
  by (rule sort_key_unique) (simp_all only: filter_append filter_sort_key, simp_all)

lemma sort_key_remove1_hd:
  assumes "sort_key f xs = y # ys"
  shows "sort_key f (remove1 y xs) = ys"
proof (rule sort_key_unique)
  have "mset (y # ys) = mset xs" using assms by (metis mset_sort)
  then show "mset ys = mset (remove1 y xs)" by (metis add_mset_remove_trivial mset.simps(2) mset_remove1)
  have "sorted (map f (y # ys))" using sorted_sort_key [of f xs] assms by simp
  then show "sorted (map f ys)" by simp
  show "filter (\<lambda>z. f z = k) ys = filter (\<lambda>z. f z = k) (remove1 y xs)" for k
  proof -
    have "filter (\<lambda>z. f z = k) (y # ys) = filter (\<lambda>z. f z = k) xs"
      using filter_sort_key [of f k xs] assms by simp
    then show ?thesis by (simp add: filter_remove1 split: if_splits) (metis remove1.simps(2))
  qed
qed

text \<open>The head of the sorted queue is the first arrival of the highest priority.\<close>

lemma pool_head:
  assumes "sort_key pool_key xs = y # ys"
  shows "pool_spec_next xs = Some y"
proof -
  let ?P = "\<lambda>q. \<forall>q' \<in> set xs. qr_priority q' \<le> qr_priority q"
  have "sorted (map pool_key (y # ys))" using sorted_sort_key [of pool_key xs] assms by simp
  moreover have "set xs = set (y # ys)" using assms by (metis set_sort)
  ultimately have top: "\<forall>q \<in> set xs. pool_key y \<le> pool_key q" and y: "y \<in> set xs" by auto
  have "?P q \<longleftrightarrow> pool_key q = pool_key y" if "q \<in> set xs" for q
    using top y that unfolding pool_key_def less_eq_run_priority_def by force
  then have "List.find ?P xs = List.find (\<lambda>q. pool_key q = pool_key y) xs"
    by (intro find_cong) auto
  also have "\<dots> = Some y"
  proof -
    have "filter (\<lambda>q. pool_key q = pool_key y) xs = y # filter (\<lambda>q. pool_key q = pool_key y) ys"
      using filter_sort_key [of pool_key "pool_key y" xs] assms by simp
    then show ?thesis by (induction xs) (auto split: if_splits)
  qed
  finally show ?thesis by (simp add: pool_spec_next_def)
qed

text \<open>The operations refine the abstract pool.\<close>

lemma pool_abs_new: "pool_abs (pool_new c) []"
  by (simp add: pool_abs_def pool_new_def)

lemma pool_abs_enqueue: "pool_abs p xs \<Longrightarrow> pool_abs (pool_enqueue q p) (xs @ [q])"
  by (simp add: pool_abs_def pool_enqueue_def sort_key_snoc)

lemma pool_abs_start:
  assumes "pool_abs p xs" and "pool_canAccept p"
  shows "fst (pool_start p) = pool_spec_next xs \<and>
         pool_abs (snd (pool_start p)) (case pool_spec_next xs of None \<Rightarrow> xs | Some q \<Rightarrow> remove1 q xs)"
proof (cases "wp_queue p")
  case Nil
  then have "xs = []" using assms(1) by (simp add: pool_abs_def) (metis length_0_conv length_sort)
  then show ?thesis using assms Nil by (simp add: pool_start_def pool_spec_next_def)
next
  case (Cons y ys)
  then have s: "sort_key pool_key xs = y # ys" using assms(1) by (simp add: pool_abs_def)
  then show ?thesis
    using assms(2) Cons pool_head [OF s] sort_key_remove1_hd [OF s]
    by (simp add: pool_start_def pool_abs_def)
qed

subsection \<open>Traces of the pool\<close>

datatype pool_op = Enqueue queued_run | Start | Complete

fun pool_step :: "pool_op \<Rightarrow> worker_pool \<Rightarrow> queued_run option \<times> worker_pool" where
  "pool_step (Enqueue q) p = (None, pool_enqueue q p)"
| "pool_step Start p = pool_start p"
| "pool_step Complete p = (None, pool_complete p)"

fun pool_trace :: "pool_op list \<Rightarrow> worker_pool \<Rightarrow> queued_run option list" where
  "pool_trace [] p = []"
| "pool_trace (x # xs) p = fst (pool_step x p) # pool_trace xs (snd (pool_step x p))"

fun pool_spec_step ::
    "int \<Rightarrow> pool_op \<Rightarrow> queued_run list \<times> int \<Rightarrow> queued_run option \<times> queued_run list \<times> int" where
  "pool_spec_step c (Enqueue q) (arrivals, busy) = (None, arrivals @ [q], busy)"
| "pool_spec_step c Start (arrivals, busy) =
     (if busy < c
      then case pool_spec_next arrivals of
             None \<Rightarrow> (None, arrivals, busy)
           | Some q \<Rightarrow> (Some q, remove1 q arrivals, busy + 1)
      else (None, arrivals, busy))"
| "pool_spec_step c Complete (arrivals, busy) = (None, arrivals, max 0 (busy - 1))"

fun pool_spec_trace :: "int \<Rightarrow> pool_op list \<Rightarrow> queued_run list \<times> int \<Rightarrow> queued_run option list" where
  "pool_spec_trace c [] s = []"
| "pool_spec_trace c (x # xs) s = fst (pool_spec_step c x s) # pool_spec_trace c xs (snd (pool_spec_step c x s))"

lemma pool_start_idle: "\<not> pool_canAccept p \<Longrightarrow> pool_start p = (None, p)"
  by (simp add: pool_start_def)

lemma pool_start_fields:
  "wp_concurrency (snd (pool_start p)) = wp_concurrency p"
  "wp_running (snd (pool_start p)) = wp_running p + (if fst (pool_start p) = None then 0 else 1)"
  by (simp_all add: pool_start_def)

lemma pool_step_refines:
  assumes "pool_abs p arrivals" and "wp_running p = busy" and "wp_concurrency p = c"
  shows "\<exists>arrivals' busy'. pool_spec_step c x (arrivals, busy) = (fst (pool_step x p), arrivals', busy') \<and>
           pool_abs (snd (pool_step x p)) arrivals' \<and> wp_running (snd (pool_step x p)) = busy' \<and>
           wp_concurrency (snd (pool_step x p)) = c"
proof (cases x)
  case (Enqueue q)
  then show ?thesis using assms by (simp add: pool_abs_enqueue) (simp add: pool_enqueue_def)
next
  case Start
  show ?thesis
  proof (cases "pool_canAccept p")
    case True
    then show ?thesis
      using assms Start pool_abs_start [OF assms(1) True] pool_start_fields [of p]
      by (cases "pool_spec_next arrivals") (auto simp: pool_canAccept_def)
  next
    case False
    then show ?thesis using assms Start by (simp add: pool_start_idle) (simp add: pool_canAccept_def)
  qed
next
  case Complete
  then show ?thesis using assms by (simp add: pool_complete_def pool_abs_def)
qed

lemma pool_trace_refines:
  assumes "pool_abs p arrivals" and "wp_running p = busy" and "wp_concurrency p = c"
  shows "pool_trace xs p = pool_spec_trace c xs (arrivals, busy)"
  using assms
proof (induction xs arbitrary: p arrivals busy)
  case Nil
  then show ?case by simp
next
  case (Cons x xs)
  obtain arrivals' busy' where "pool_spec_step c x (arrivals, busy) = (fst (pool_step x p), arrivals', busy')"
    "pool_abs (snd (pool_step x p)) arrivals'" "wp_running (snd (pool_step x p)) = busy'"
    "wp_concurrency (snd (pool_step x p)) = c"
    using pool_step_refines [OF Cons.prems, of x] by blast
  then show ?case using Cons.IH by simp
qed

subsection \<open>What the workers guarantee\<close>


text \<open>A simulator without handlers that always fails, and a task run to try it on.\<close>

definition plain_env :: env where
  "plain_env = \<lparr>clk = (\<lambda>n. ''t'' @ show_nat n), date_now = int, rand = (\<lambda>n. Fin 0),
     uuid = (\<lambda>n. ''u'' @ show_nat n), impls = (\<lambda>h. None)\<rparr>"

definition failing_config :: engine_config where
  "failing_config = \<lparr>cfg_workerConcurrency = 4, cfg_latencyMin = Fin 10, cfg_latencyMax = Fin 120,
     cfg_failRatePercent = Fin 100\<rparr>"

definition risky_task :: task_definition where
  "risky_task = \<lparr>td_id = ''a'', td_name = ''a'', td_handler = ''external.call'', td_timeoutMs = 10,
     td_optional = None, td_dependsOn = None\<rparr>"



definition chain_tasks :: "task_definition list" where
  "chain_tasks = [risky_task\<lparr>td_id := ''b'', td_dependsOn := Some [''a'']\<rparr>, risky_task]"

lemma chain_tasks_wf: "tasks_ok chain_tasks" "acyclic (depends chain_tasks)"
proof -
  show "tasks_ok chain_tasks" by (simp add: tasks_ok_def chain_tasks_def risky_task_def)
  have "depends chain_tasks \<subseteq> {(''b'', ''a'')}"
    by (auto simp: depends_def chain_tasks_def risky_task_def td_deps_def)
  then show "acyclic (depends chain_tasks)"
    by (rule acyclic_subset [rotated]) (subst acyclic_insert, auto simp: acyclic_def)
qed


text \<open>
  C15. The worker pool implements its specification: over every sequence of operations it hands
  out the same runs as the abstract pool, which keeps the waiting runs in order of arrival and
  always starts the first one of the highest priority, never more at a time than the
  concurrency allows.
\<close>

theorem pool_is_priority_fifo:
  "pool_trace ops (pool_new c) = pool_spec_trace c ops ([], 0)"
  by (rule pool_trace_refines) (simp_all add: pool_abs_new, simp_all add: pool_new_def)

end
