(* ===== verification/Expressions.thy ===== *)
theory Expressions
  imports Domain
begin

section \<open>The expression language (expressions/*.ts)\<close>

text \<open>
  Tokenizer, recursive-descent parser, evaluator and built-in functions. The tokenizer recurses
  on the rest of its input and is total. The parser's functions take fuel; \<open>parse\<close> starts with
  enough for its token list, which is proved, so the model never runs out.
  Characters are Latin-1 code units.
\<close>

subsection \<open>Tokens\<close>

datatype token_type = TkIdent | TkNumber | TkString | TkOp | TkLparen | TkRparen | TkComma | TkEof

fun token_type_str :: "token_type \<Rightarrow> string" where
  "token_type_str TkIdent = ''ident''"
| "token_type_str TkNumber = ''number''"
| "token_type_str TkString = ''string''"
| "token_type_str TkOp = ''op''"
| "token_type_str TkLparen = ''lparen''"
| "token_type_str TkRparen = ''rparen''"
| "token_type_str TkComma = ''comma''"
| "token_type_str TkEof = ''eof''"

record token =
  tok_type :: token_type
  tok_value :: string
  tok_pos :: nat

definition mk_token :: "token_type \<Rightarrow> string \<Rightarrow> nat \<Rightarrow> token" where
  "mk_token ty v p = \<lparr>tok_type = ty, tok_value = v, tok_pos = p\<rparr>"

text \<open>Each reader returns the text it reads and the number of characters it moves past.\<close>

definition readOp :: "string \<Rightarrow> string \<times> nat" where
  "readOp cs =
     (let two = take 2 cs
      in if two \<in> set [''=='', ''!='', ''<='', ''>='', ''&&'', ''||''] then (two, 2) else (take 1 cs, 1))"

definition readString :: "string \<Rightarrow> string \<times> nat" where
  "readString cs =
     (case cs of
        [] \<Rightarrow> ([], 1)
      | quote # rest \<Rightarrow> let out = takeWhile (\<lambda>c. c \<noteq> quote) rest in (out, length out + 2))"

definition readNumber :: "string \<Rightarrow> string \<times> nat" where
  "readNumber cs = (let out = takeWhile (\<lambda>c. is_digit c \<or> c = CHR ''.'') cs in (out, length out))"

definition readIdent :: "string \<Rightarrow> string \<times> nat" where
  "readIdent cs =
     (let out = takeWhile (\<lambda>c. is_alpha c \<or> is_digit c \<or> c = CHR ''_'' \<or> c = CHR ''.'') cs
      in (out, length out))"

definition op_chars :: string where
  "op_chars = ''+-*/<>=!&|''"

text \<open>The body of the loop: the token at position \<open>p\<close> and the characters it takes.\<close>

definition scan :: "nat \<Rightarrow> string \<Rightarrow> (token \<times> nat) res" where
  "scan p here =
     (let ch = hd here;
          emit = (\<lambda>ty (v, len). Inr (mk_token ty v (p + len), len))
      in if ch = CHR ''('' then Inr (mk_token TkLparen ''('' p, 1)
         else if ch = CHR '')'' then Inr (mk_token TkRparen '')'' p, 1)
         else if ch = CHR '','' then Inr (mk_token TkComma '','' p, 1)
         else if ch \<in> set op_chars then emit TkOp (readOp here)
         else if ch = CHR 0x22 \<or> ch = CHR 0x27 then emit TkString (readString here)
         else if is_digit ch then emit TkNumber (readNumber here)
         else if is_alpha ch \<or> ch = CHR ''_'' then emit TkIdent (readIdent here)
         else Inl (JsError (''unexpected character at '' @ show_nat p @ '': '' @ [ch])))"

lemma scan_advances: "scan p here = Inr (t, len) \<Longrightarrow> here \<noteq> [] \<Longrightarrow> 0 < len"
  by (cases here)
    (auto simp: scan_def readOp_def readString_def readNumber_def readIdent_def Let_def
      split: if_splits)

lemma length_dropWhile_Cons: "dropWhile P xs = y # ys \<Longrightarrow> Suc (length ys) \<le> length xs"
  by (metis length_Cons length_dropWhile_le)

text \<open>\<open>pos\<close> is the position of the first character of \<open>cs\<close> in the input.\<close>

function tokenize_at :: "nat \<Rightarrow> string \<Rightarrow> token list res" where
  "tokenize_at pos cs =
     (let p = pos + length (takeWhile is_ws cs) in
      case dropWhile is_ws cs of
        [] \<Rightarrow> Inr [mk_token TkEof [] p]
      | ch # rest \<Rightarrow>
          bind_r (scan p (ch # rest)) (\<lambda>(t, len).
          bind_r (tokenize_at (p + len) (drop len (ch # rest))) (\<lambda>ts. Inr (t # ts))))"
  by pat_completeness auto
termination
  by (relation "measure (\<lambda>(pos, cs). length cs)")
    (auto dest!: scan_advances length_dropWhile_Cons)

definition tokenize :: "string \<Rightarrow> token list res" where
  "tokenize input = tokenize_at 0 input"

subsection \<open>Syntax trees\<close>

datatype unary_op = UNot | UNeg

datatype expr_node =
    Literal jsval
  | Ident string
  | Unary unary_op expr_node
  | Binary string expr_node expr_node
  | Call string "expr_node list"

subsection \<open>The parser\<close>

text \<open>
  The state is the list of tokens from \<open>this.i\<close> on; it is never empty, because nothing consumes
  the end token. \<open>None\<close> is a parser out of fuel.
\<close>

type_synonym 'a parsed = "('a \<times> token list) res option"

definition peek :: "token list \<Rightarrow> token" where
  "peek ts = (case ts of [] \<Rightarrow> mk_token TkEof [] 0 | t # r \<Rightarrow> t)"

definition consume :: "token_type \<Rightarrow> token list \<Rightarrow> (token \<times> token list) res" where
  "consume ty ts =
     (let t = peek ts
      in if tok_type t \<noteq> ty
         then Inl (JsError (''expected '' @ token_type_str ty @ '', got '' @ token_type_str (tok_type t)))
         else Inr (t, tl ts))"

text \<open>
  \<^verbatim>\<open>while (ops.includes(this.peek().value)) { ... }\<close>, the loop of the four
  left-associative levels; note that it looks at the value of a token and not at its type.
\<close>

fun binLoop ::
    "string list \<Rightarrow> (token list \<Rightarrow> expr_node parsed) \<Rightarrow> nat \<Rightarrow> expr_node \<Rightarrow> token list \<Rightarrow>
     expr_node parsed" where
  "binLoop ops sub 0 left ts = None"
| "binLoop ops sub (Suc f) left ts =
     (if tok_value (peek ts) \<in> set ops
      then bind_p (Some (consume TkOp ts)) (\<lambda>t ts.
           bind_p (sub ts) (\<lambda>right ts. binLoop ops sub f (Binary (tok_value t) left right) ts))
      else ret_p left ts)"

text \<open>
  The argument \<open>nested\<close> is \<open>parseOr\<close> for what stands between parentheses; \<open>f\<close> is the fuel
  of the loops.
\<close>

fun argsLoop ::
    "(token list \<Rightarrow> expr_node parsed) \<Rightarrow> nat \<Rightarrow> expr_node list \<Rightarrow> token list \<Rightarrow> expr_node list parsed" where
  "argsLoop nested 0 args ts = None"
| "argsLoop nested (Suc f) args ts =
     (if tok_type (peek ts) = TkComma
      then bind_p (Some (consume TkComma ts)) (\<lambda>t ts.
           bind_p (nested ts) (\<lambda>a ts. argsLoop nested f (args @ [a]) ts))
      else ret_p args ts)"

definition parsePrimary ::
    "(token list \<Rightarrow> expr_node parsed) \<Rightarrow> nat \<Rightarrow> token list \<Rightarrow> expr_node parsed" where
  "parsePrimary nested f ts =
     (let t = peek ts
      in if tok_type t = TkNumber then ret_p (Literal (VNum (str_to_num (tok_value t)))) (tl ts)
         else if tok_type t = TkString then ret_p (Literal (VStr (tok_value t))) (tl ts)
         else if tok_type t = TkIdent
         then bind_p (Some (consume TkIdent ts)) (\<lambda>t ts.
              let name = tok_value t
              in if name = ''true'' then ret_p (Literal (VBool True)) ts
                 else if name = ''false'' then ret_p (Literal (VBool False)) ts
                 else if name = ''null'' then ret_p (Literal VNull) ts
                 else if tok_type (peek ts) = TkLparen
                 then bind_p (Some (consume TkLparen ts)) (\<lambda>t ts.
                      bind_p (if tok_type (peek ts) \<noteq> TkRparen
                              then bind_p (nested ts) (\<lambda>a ts. argsLoop nested f [a] ts)
                              else ret_p [] ts) (\<lambda>args ts.
                      bind_p (Some (consume TkRparen ts)) (\<lambda>t ts. ret_p (Call name args) ts)))
                 else ret_p (Ident name) ts)
         else if tok_type t = TkLparen
         then bind_p (Some (consume TkLparen ts)) (\<lambda>t ts.
              bind_p (nested ts) (\<lambda>inner ts.
              bind_p (Some (consume TkRparen ts)) (\<lambda>t ts. ret_p inner ts)))
         else Some (Inl (JsError (''unexpected token '' @ token_type_str (tok_type t)))))"

fun unaryLoop ::
    "(token list \<Rightarrow> expr_node parsed) \<Rightarrow> nat \<Rightarrow> nat \<Rightarrow> token list \<Rightarrow> expr_node parsed" where
  "unaryLoop nested f 0 ts = None"
| "unaryLoop nested f (Suc k) ts =
     (if tok_value (peek ts) = ''!''
      then bind_p (Some (consume TkOp ts)) (\<lambda>t ts.
           bind_p (unaryLoop nested f k ts) (\<lambda>arg ts. ret_p (Unary UNot arg) ts))
      else if tok_value (peek ts) = ''-''
      then bind_p (Some (consume TkOp ts)) (\<lambda>t ts.
           bind_p (unaryLoop nested f k ts) (\<lambda>arg ts. ret_p (Unary UNeg arg) ts))
      else parsePrimary nested f ts)"

definition parseUnary ::
    "(token list \<Rightarrow> expr_node parsed) \<Rightarrow> nat \<Rightarrow> token list \<Rightarrow> expr_node parsed" where
  "parseUnary nested f ts = unaryLoop nested f f ts"

definition parseMul ::
    "(token list \<Rightarrow> expr_node parsed) \<Rightarrow> nat \<Rightarrow> token list \<Rightarrow> expr_node parsed" where
  "parseMul nested f ts =
     bind_p (parseUnary nested f ts) (binLoop [''*'', ''/''] (parseUnary nested f) f)"

definition parseAdd ::
    "(token list \<Rightarrow> expr_node parsed) \<Rightarrow> nat \<Rightarrow> token list \<Rightarrow> expr_node parsed" where
  "parseAdd nested f ts =
     bind_p (parseMul nested f ts) (binLoop [''+'', ''-''] (parseMul nested f) f)"

definition parseComparison ::
    "(token list \<Rightarrow> expr_node parsed) \<Rightarrow> nat \<Rightarrow> token list \<Rightarrow> expr_node parsed" where
  "parseComparison nested f ts =
     bind_p (parseAdd nested f ts) (\<lambda>left ts.
       if tok_value (peek ts) \<in> set [''=='', ''!='', ''<'', ''<='', ''>'', ''>='']
       then bind_p (Some (consume TkOp ts)) (\<lambda>t ts.
            bind_p (parseAdd nested f ts) (\<lambda>right ts. ret_p (Binary (tok_value t) left right) ts))
       else ret_p left ts)"

definition parseAnd ::
    "(token list \<Rightarrow> expr_node parsed) \<Rightarrow> nat \<Rightarrow> token list \<Rightarrow> expr_node parsed" where
  "parseAnd nested f ts =
     bind_p (parseComparison nested f ts) (binLoop [''&&''] (parseComparison nested f) f)"

fun parseOr :: "nat \<Rightarrow> token list \<Rightarrow> expr_node parsed" where
  "parseOr 0 ts = None"
| "parseOr (Suc f) ts =
     bind_p (parseAnd (parseOr f) (Suc f) ts) (binLoop [''||''] (parseAnd (parseOr f) (Suc f)) (Suc f))"

definition parse_fuel :: "token list \<Rightarrow> nat" where
  "parse_fuel ts = Suc (length ts)"

definition parse_tokens :: "token list \<Rightarrow> expr_node res option" where
  "parse_tokens ts =
     map_option (\<lambda>r. bind_r r (\<lambda>(node, rest).
         if tok_type (peek rest) \<noteq> TkEof
         then Inl (JsError (''unexpected token '' @ tok_value (peek rest)))
         else Inr node))
       (parseOr (parse_fuel ts) ts)"

text \<open>The last case cannot occur: \<open>parse_tokens_total\<close> below.\<close>

definition parse :: "string \<Rightarrow> expr_node res" where
  "parse input =
     bind_r (tokenize input) (\<lambda>ts.
       case parse_tokens ts of Some r \<Rightarrow> r | None \<Rightarrow> Inl (Unmodelled ''fuel''))"

subsection \<open>Built-in functions\<close>

definition arg :: "nat \<Rightarrow> jsval list \<Rightarrow> jsval" where
  "arg i args = (if i < length args then args ! i else VUndef)"

definition blank :: "jsval \<Rightarrow> bool" where
  "blank v \<longleftrightarrow> v = VNull \<or> v = VUndef \<or> v = VStr []"

definition builtin_isempty :: "jsval list \<Rightarrow> jsval res" where
  "builtin_isempty args = Inr (VBool (blank (arg 0 args)))"

definition builtin_length :: "jsval list \<Rightarrow> jsval res" where
  "builtin_length args =
     Inr (VNum (case arg 0 args of
       VStr s \<Rightarrow> to_double (of_nat (length s))
     | VArr a xs \<Rightarrow> to_double (of_nat (length xs))
     | _ \<Rightarrow> Fin 0))"

definition builtin_contains :: "jsval list \<Rightarrow> jsval res" where
  "builtin_contains args =
     bind_r (to_string (if nullish (arg 0 args) then VStr [] else arg 0 args)) (\<lambda>hay.
     bind_r (to_string (if nullish (arg 1 args) then VStr [] else arg 1 args)) (\<lambda>needle.
       Inr (VBool (str_includes hay needle))))"

definition builtin_coalesce :: "jsval list \<Rightarrow> jsval res" where
  "builtin_coalesce args =
     Inr (case List.find (\<lambda>a. \<not> blank a) args of Some a \<Rightarrow> a | None \<Rightarrow> VNull)"

text \<open>\<^verbatim>\<open>BUILTINS[node.name]\<close>, with the names every object inherits left out of the model.\<close>

definition builtin :: "string \<Rightarrow> (jsval list \<Rightarrow> jsval res) res" where
  "builtin name =
     (if name = ''isempty'' then Inr builtin_isempty
      else if name = ''length'' then Inr builtin_length
      else if name = ''contains'' then Inr builtin_contains
      else if name = ''coalesce'' then Inr builtin_coalesce
      else if name \<in> set object_prototype_names then Inl (Unmodelled name)
      else Inl (JsError (''unknown function: '' @ name)))"

subsection \<open>The evaluator\<close>

fun resolve_path :: "string list \<Rightarrow> jsval \<Rightarrow> jsval res" where
  "resolve_path [] cur = Inr cur"
| "resolve_path (p # ps) cur =
     (case cur of
        VObj a fs \<Rightarrow> bind_r (obj_get fs p) (resolve_path ps)
      | VArr a xs \<Rightarrow> bind_r (arr_get xs p) (resolve_path ps)
      | _ \<Rightarrow> Inr VUndef)"

definition resolveIdent :: "string \<Rightarrow> jsval \<Rightarrow> jsval res" where
  "resolveIdent name ctx = resolve_path (split_on CHR ''.'' name) ctx"

definition num_op :: "(jsnum \<Rightarrow> jsnum \<Rightarrow> 'a) \<Rightarrow> jsval \<Rightarrow> jsval \<Rightarrow> 'a res" where
  "num_op g l r = bind_r (to_number l) (\<lambda>a. bind_r (to_number r) (\<lambda>b. Inr (g a b)))"

definition evalBinary :: "string \<Rightarrow> jsval \<Rightarrow> jsval \<Rightarrow> jsval res" where
  "evalBinary oper l r =
     (if oper = ''=='' then bind_r (loose_eq l r) (\<lambda>b. Inr (VBool b))
      else if oper = ''!='' then bind_r (loose_eq l r) (\<lambda>b. Inr (VBool (\<not> b)))
      else if oper = ''<'' then bind_r (num_op num_lt l r) (\<lambda>b. Inr (VBool b))
      else if oper = ''<='' then bind_r (num_op num_le l r) (\<lambda>b. Inr (VBool b))
      else if oper = ''>'' then bind_r (num_op (\<lambda>a b. num_lt b a) l r) (\<lambda>b. Inr (VBool b))
      else if oper = ''>='' then bind_r (num_op (\<lambda>a b. num_le b a) l r) (\<lambda>b. Inr (VBool b))
      else if oper = ''&&'' then Inr (VBool (to_boolean l \<and> to_boolean r))
      else if oper = ''||'' then Inr (VBool (to_boolean l \<or> to_boolean r))
      else if oper = ''+'' then bind_r (num_op num_add l r) (\<lambda>n. Inr (VNum n))
      else if oper = ''-'' then bind_r (num_op num_sub l r) (\<lambda>n. Inr (VNum n))
      else if oper = ''*'' then bind_r (num_op num_mul l r) (\<lambda>n. Inr (VNum n))
      else if oper = ''/'' then bind_r (num_op num_div l r) (\<lambda>n. Inr (VNum n))
      else Inl (JsError (''unknown operator '' @ oper)))"

fun evalNode :: "jsval \<Rightarrow> expr_node \<Rightarrow> jsval res" and evalArgs :: "jsval \<Rightarrow> expr_node list \<Rightarrow> jsval list res" where
  "evalNode ctx (Literal v) = Inr v"
| "evalNode ctx (Ident name) = resolveIdent name ctx"
| "evalNode ctx (Unary UNot e) = bind_r (evalNode ctx e) (\<lambda>v. Inr (VBool (\<not> to_boolean v)))"
| "evalNode ctx (Unary UNeg e) =
     bind_r (evalNode ctx e) (\<lambda>v. bind_r (to_number v) (\<lambda>n.
       Inr (VNum (num_neg (if to_boolean (VNum n) then n else Fin 0)))))"
| "evalNode ctx (Binary oper l r) =
     bind_r (evalNode ctx l) (\<lambda>a. bind_r (evalNode ctx r) (\<lambda>b. evalBinary oper a b))"
| "evalNode ctx (Call name args) =
     bind_r (builtin name) (\<lambda>fn. bind_r (evalArgs ctx args) fn)"
| "evalArgs ctx [] = Inr []"
| "evalArgs ctx (e # es) = bind_r (evalNode ctx e) (\<lambda>v. bind_r (evalArgs ctx es) (\<lambda>vs. Inr (v # vs)))"

definition expr_evaluate :: "string \<Rightarrow> jsval \<Rightarrow> jsval res" where
  "expr_evaluate expression ctx = bind_r (parse expression) (evalNode ctx)"

definition evaluateBoolean :: "string \<Rightarrow> jsval \<Rightarrow> bool res" where
  "evaluateBoolean expression ctx = bind_r (expr_evaluate expression ctx) (\<lambda>v. Inr (to_boolean v))"

declare tokenize_at.simps [simp del]

subsection \<open>The parser never runs out of fuel\<close>

definition tokens_ok :: "token list \<Rightarrow> bool" where
  "tokens_ok ts \<longleftrightarrow> ts \<noteq> [] \<and> tok_type (last ts) = TkEof"

text \<open>A parser that answers on inputs up to a length and hands back a shorter (or no longer) rest.\<close>

definition answers :: "(nat \<Rightarrow> nat \<Rightarrow> bool) \<Rightarrow> 'a parsed \<Rightarrow> token list \<Rightarrow> bool" where
  "answers R m ts \<longleftrightarrow>
     (\<exists>r. m = Some r \<and> (\<forall>e. r = Inl e \<longrightarrow> \<not> is_unmodelled e) \<and>
       (\<forall>a rest. r = Inr (a, rest) \<longrightarrow> tokens_ok rest \<and> R (length rest) (length ts)))"

definition good_parser :: "nat \<Rightarrow> (token list \<Rightarrow> 'a parsed) \<Rightarrow> bool" where
  "good_parser n p \<longleftrightarrow> (\<forall>ts. tokens_ok ts \<and> length ts \<le> n \<longrightarrow> answers (<) (p ts) ts)"

lemma answers_ret: "tokens_ok rest \<Longrightarrow> R (length rest) (length ts) \<Longrightarrow> answers R (ret_p a rest) ts"
  by (simp add: answers_def ret_p_def)

lemma answers_error: "\<not> is_unmodelled e \<Longrightarrow> answers R (Some (Inl e)) ts"
  by (simp add: answers_def)

lemma answers_bind:
  assumes "answers R m ts"
    and "\<And>a rest. tokens_ok rest \<Longrightarrow> R (length rest) (length ts) \<Longrightarrow> answers Q (f a rest) ts"
  shows "answers Q (bind_p m f) ts"
proof -
  obtain r where r: "m = Some r" "\<forall>e. r = Inl e \<longrightarrow> \<not> is_unmodelled e"
    "\<forall>a rest. r = Inr (a, rest) \<longrightarrow> tokens_ok rest \<and> R (length rest) (length ts)"
    using assms(1) unfolding answers_def by blast
  show ?thesis
  proof (cases r)
    case (Inl e)
    then show ?thesis using r by (simp add: bind_p_def answers_error)
  next
    case (Inr x)
    then show ?thesis using r assms(2) by (cases x) (simp add: bind_p_def)
  qed
qed

lemma answers_consume:
  assumes "tokens_ok ts" and "ty \<noteq> TkEof"
  shows "answers (<) (Some (consume ty ts)) ts"
  using assms by (cases ts) (auto simp: answers_def consume_def peek_def tokens_ok_def Let_def split: if_splits)

lemma answers_mono: "answers R m ts \<Longrightarrow> (\<And>k. R k (length ts) \<Longrightarrow> Q k (length ts')) \<Longrightarrow> answers Q m ts'"
  unfolding answers_def by blast

lemma answers_le_less: "answers (\<le>) m r \<Longrightarrow> length r < length ts \<Longrightarrow> answers (<) m ts"
  by (erule answers_mono) simp

lemma answers_less_trans: "answers (<) m r \<Longrightarrow> length r \<le> length ts \<Longrightarrow> answers (<) m ts"
  by (erule answers_mono) simp

lemma good_parserD: "good_parser n p \<Longrightarrow> tokens_ok ts \<Longrightarrow> length ts \<le> n \<Longrightarrow> answers (<) (p ts) ts"
  by (simp add: good_parser_def)

lemma binLoop_answers:
  assumes "good_parser n sub" and "tokens_ok ts" and "length ts \<le> Suc n" and "length ts \<le> f"
  shows "answers (\<le>) (binLoop ops sub (Suc f) left ts) ts"
  using assms(2-)
proof (induction f arbitrary: left ts)
  case 0
  then show ?case by (simp add: tokens_ok_def)
next
  case (Suc f)
  have step: "answers (\<le>) (bind_p (sub r1) (\<lambda>right r2. binLoop ops sub (Suc f) (Binary (tok_value t) left right) r2)) ts"
    if "tokens_ok r1" "length r1 < length ts" for t r1
  proof (rule answers_bind)
    show "answers (\<lambda>k _. k < length r1) (sub r1) ts"
      using good_parserD [OF assms(1) that(1)] that(2) Suc.prems by (auto elim: answers_mono)
    fix right r2 assume "tokens_ok r2" "length r2 < length r1"
    then have "answers (\<le>) (binLoop ops sub (Suc f) (Binary (tok_value t) left right) r2) r2"
      using that(2) Suc.prems by (intro Suc.IH) auto
    then show "answers (\<le>) (binLoop ops sub (Suc f) (Binary (tok_value t) left right) r2) ts"
      by (rule answers_mono) (use \<open>length r2 < length r1\<close> that(2) in linarith)
  qed
  show ?case
  proof (cases "tok_value (peek ts) \<in> set ops")
    case True
    have "answers (\<le>) (bind_p (Some (consume TkOp ts)) (\<lambda>t r1. bind_p (sub r1)
        (\<lambda>right r2. binLoop ops sub (Suc f) (Binary (tok_value t) left right) r2))) ts"
      by (rule answers_bind [OF answers_consume]) (use Suc.prems step in auto)
    then show ?thesis by (simp only: binLoop.simps(2) [of ops sub "Suc f"] True if_True)
  next
    case False
    then show ?thesis using Suc.prems by (simp add: answers_ret)
  qed
qed

lemma argsLoop_answers:
  assumes "good_parser n sub" and "tokens_ok ts" and "length ts \<le> Suc n" and "length ts \<le> f"
  shows "answers (\<le>) (argsLoop sub (Suc f) args ts) ts"
  using assms(2-)
proof (induction f arbitrary: args ts)
  case 0
  then show ?case by (simp add: tokens_ok_def)
next
  case (Suc f)
  have step: "answers (\<le>) (bind_p (sub r1) (\<lambda>a r2. argsLoop sub (Suc f) (args @ [a]) r2)) ts"
    if "tokens_ok r1" "length r1 < length ts" for r1
  proof (rule answers_bind)
    show "answers (\<lambda>k _. k < length r1) (sub r1) ts"
      using good_parserD [OF assms(1) that(1)] that(2) Suc.prems by (auto elim: answers_mono)
    fix a r2 assume "tokens_ok r2" "length r2 < length r1"
    then have "answers (\<le>) (argsLoop sub (Suc f) (args @ [a]) r2) r2"
      using that(2) Suc.prems by (intro Suc.IH) auto
    then show "answers (\<le>) (argsLoop sub (Suc f) (args @ [a]) r2) ts"
      by (rule answers_mono) (use \<open>length r2 < length r1\<close> that(2) in linarith)
  qed
  show ?case
  proof (cases "tok_type (peek ts) = TkComma")
    case True
    have "answers (\<le>) (bind_p (Some (consume TkComma ts)) (\<lambda>t r1. bind_p (sub r1)
        (\<lambda>a r2. argsLoop sub (Suc f) (args @ [a]) r2))) ts"
      by (rule answers_bind [OF answers_consume]) (use Suc.prems step in auto)
    then show ?thesis by (simp only: argsLoop.simps(2) [of sub "Suc f"] True if_True simp_thms)
  next
    case False
    then show ?thesis using Suc.prems by (simp add: answers_ret)
  qed
qed

lemma tokens_ok_tl: "tokens_ok ts \<Longrightarrow> tok_type (peek ts) \<noteq> TkEof \<Longrightarrow> tokens_ok (tl ts) \<and> length (tl ts) < length ts"
  by (cases ts) (auto simp: tokens_ok_def peek_def split: if_splits)

lemma parsePrimary_good:
  assumes nested: "good_parser n nested" and "n < f"
  shows "good_parser (Suc n) (parsePrimary nested f)"
proof -
  obtain k where f: "f = Suc k" using assms(2) by (cases f) auto
  have paren: "answers (<) (bind_p (Some (consume TkRparen r)) (\<lambda>t r'. ret_p (g t) r')) ts"
    if "tokens_ok r" "length r < length ts" for r ts and g :: "token \<Rightarrow> expr_node"
    by (rule answers_bind [OF answers_mono [OF answers_consume [OF that(1)], where Q = "(<)"]])
      (use that in \<open>auto intro: answers_ret\<close>)
  have call: "answers (<) (bind_p (if tok_type (peek r) \<noteq> TkRparen
        then bind_p (nested r) (\<lambda>a r'. argsLoop nested f [a] r') else ret_p [] r)
        (\<lambda>args r'. bind_p (Some (consume TkRparen r')) (\<lambda>t r''. ret_p (Call name args) r''))) ts"
    if r: "tokens_ok r" "length r < length ts" "length ts \<le> Suc n" for r ts name
  proof (rule answers_bind [where R = "(<)"])
    have a: "answers (\<le>) (argsLoop nested f [a] r') r'" if "tokens_ok r'" "length r' < length r" for a r'
      using argsLoop_answers [OF nested that(1), of k] that(2) r assms(2) f by simp
    have "answers (<) (bind_p (nested r) (\<lambda>a r'. argsLoop nested f [a] r')) ts"
    proof (rule answers_bind)
      show "answers (\<lambda>m _. m < length r) (nested r) ts"
        using good_parserD [OF nested r(1)] r by (auto elim: answers_mono)
      fix x r' assume "tokens_ok r'" "length r' < length r"
      then show "answers (<) (argsLoop nested f [x] r') ts"
        using r by (intro answers_le_less [OF a]) simp_all
    qed
    then show "answers (<) (if tok_type (peek r) \<noteq> TkRparen
        then bind_p (nested r) (\<lambda>a r'. argsLoop nested f [a] r') else ret_p [] r) ts"
      using r by (simp add: answers_ret)
  qed (use paren in auto)
  have call': "answers (<) (bind_p (Some (consume TkLparen r0)) (\<lambda>t r.
        bind_p (if tok_type (peek r) \<noteq> TkRparen
          then bind_p (nested r) (\<lambda>a r'. argsLoop nested f [a] r') else ret_p [] r)
        (\<lambda>args r'. bind_p (Some (consume TkRparen r')) (\<lambda>t r''. ret_p (Call name args) r'')))) ts"
    if r0: "tokens_ok r0" "length r0 < length ts" "length ts \<le> Suc n" for r0 ts name
  proof (rule answers_bind)
    show "answers (<) (Some (consume TkLparen r0)) ts"
      using r0 by (intro answers_less_trans [OF answers_consume]) simp_all
  qed (use call r0 in blast)
  have inner: "answers (<) (bind_p (nested r) (\<lambda>i r'. bind_p (Some (consume TkRparen r')) (\<lambda>t r''. ret_p i r''))) ts"
    if r: "tokens_ok r" "length r < length ts" "length ts \<le> Suc n" for r ts
  proof (rule answers_bind)
    show "answers (<) (nested r) ts"
      using r by (intro answers_less_trans [OF good_parserD [OF nested r(1)]]) simp_all
  qed (use paren in auto)
  show ?thesis
    unfolding good_parser_def
  proof (intro allI impI)
    fix ts assume ts: "tokens_ok ts \<and> length ts \<le> Suc n"
    then have c: "answers (<) (Some (consume ty ts)) ts" if "ty \<noteq> TkEof" for ty
      using answers_consume that by blast
    show "answers (<) (parsePrimary nested f ts) ts"
      unfolding parsePrimary_def Let_def
      using ts tokens_ok_tl [of ts]
      by (auto intro!: answers_ret answers_error answers_bind [OF c] intro: call' inner)
  qed
qed

lemma unaryLoop_good:
  assumes nested: "good_parser n nested" and "n < f"
  shows "tokens_ok ts \<Longrightarrow> length ts \<le> Suc n \<Longrightarrow> length ts \<le> k \<Longrightarrow> answers (<) (unaryLoop nested f (Suc k) ts) ts"
proof (induction k arbitrary: ts)
  case 0
  then show ?case by (simp add: tokens_ok_def)
next
  case (Suc k)
  have rec: "answers (<) (bind_p (unaryLoop nested f (Suc k) r) (\<lambda>x r'. ret_p (g x) r')) ts"
    if "tokens_ok r" "length r < length ts" for r and g :: "expr_node \<Rightarrow> expr_node"
  proof (rule answers_bind)
    show "answers (<) (unaryLoop nested f (Suc k) r) ts"
      using that Suc.prems by (intro answers_less_trans [OF Suc.IH [of r]]) simp_all
  qed (auto intro: answers_ret)
  have op: "answers (<) (bind_p (Some (consume TkOp ts)) (\<lambda>t r. bind_p (unaryLoop nested f (Suc k) r)
      (\<lambda>x r'. ret_p (g x) r'))) ts" for g :: "expr_node \<Rightarrow> expr_node"
    by (rule answers_bind [OF answers_consume]) (use Suc.prems rec in auto)
  have "answers (<) (parsePrimary nested f ts) ts"
    using parsePrimary_good [OF assms] Suc.prems by (simp add: good_parserD)
  then show ?case using op [of "Unary UNot"] op [of "Unary UNeg"] by (simp only: unaryLoop.simps(2) [of nested f "Suc k"] split: if_split) blast
qed

lemma parseUnary_good:
  assumes "good_parser n nested" and "Suc n < f"
  shows "good_parser (Suc n) (parseUnary nested f)"
proof -
  obtain k where f: "f = Suc k" using assms(2) by (cases f) auto
  then show ?thesis
    using unaryLoop_good [OF assms(1), of f _ k] assms(2)
    by (auto simp: good_parser_def parseUnary_def simp del: unaryLoop.simps)
qed

lemma level_good:
  assumes "good_parser (Suc n) sub" and "Suc n < f"
  shows "good_parser (Suc n) (\<lambda>ts. bind_p (sub ts) (binLoop ops sub f))"
  unfolding good_parser_def
proof (intro allI impI)
  fix ts assume ts: "tokens_ok ts \<and> length ts \<le> Suc n"
  obtain k where f: "f = Suc k" using assms(2) by (cases f) auto
  show "answers (<) (bind_p (sub ts) (binLoop ops sub f)) ts"
  proof (rule answers_bind)
    show "answers (<) (sub ts) ts" using good_parserD [OF assms(1)] ts by blast
    fix a rest assume r: "tokens_ok rest" "length rest < length ts"
    then have "answers (\<le>) (binLoop ops sub (Suc k) a rest) rest"
      using binLoop_answers [OF assms(1) r(1), of k] ts assms(2) f by simp
    then show "answers (<) (binLoop ops sub f a rest) ts"
      using r f answers_le_less by blast
  qed
qed

lemma parseComparison_good:
  assumes "good_parser (Suc n) (parseAdd nested f)"
  shows "good_parser (Suc n) (parseComparison nested f)"
  unfolding good_parser_def
proof (intro allI impI)
  fix ts assume ts: "tokens_ok ts \<and> length ts \<le> Suc n"
  note add = good_parserD [OF assms]
  have rhs: "answers (<) (bind_p (Some (consume TkOp r)) (\<lambda>t r1. bind_p (parseAdd nested f r1)
      (\<lambda>right r2. ret_p (Binary (tok_value t) left right) r2))) ts"
    if r: "tokens_ok r" "length r < length ts" for left r
  proof (rule answers_bind)
    show "answers (<) (Some (consume TkOp r)) ts"
      using r by (intro answers_less_trans [OF answers_consume]) simp_all
    fix t r1 assume r1: "tokens_ok r1" "length r1 < length ts"
    show "answers (<) (bind_p (parseAdd nested f r1) (\<lambda>right r2. ret_p (Binary (tok_value t) left right) r2)) ts"
    proof (rule answers_bind)
      show "answers (<) (parseAdd nested f r1) ts"
        using r1 ts by (intro answers_less_trans [OF add [OF r1(1)]]) simp_all
    qed (auto intro: answers_ret)
  qed
  show "answers (<) (parseComparison nested f ts) ts"
    unfolding parseComparison_def
  proof (rule answers_bind)
    show "answers (<) (parseAdd nested f ts) ts" using add ts by blast
  qed (auto intro: answers_ret rhs)
qed

lemma good_parser_mono: "good_parser n p \<Longrightarrow> m \<le> n \<Longrightarrow> good_parser m p"
  by (auto simp: good_parser_def)

lemma good_parser_0: "good_parser 0 p"
  by (auto simp: good_parser_def tokens_ok_def)

lemma parseOr_good: "n < f \<Longrightarrow> good_parser n (parseOr f)"
proof (induction f arbitrary: n)
  case 0
  then show ?case by simp
next
  case (Suc f)
  show ?case
  proof (cases n)
    case 0
    then show ?thesis by (simp add: good_parser_0)
  next
    case (Suc m)
    have nested: "good_parser m (parseOr f)" using Suc.IH Suc.prems Suc by simp
    have f: "Suc m < Suc f" using Suc.prems Suc by simp
    note unary = parseUnary_good [OF nested f]
    have mul: "good_parser (Suc m) (parseMul (parseOr f) (Suc f))"
      unfolding parseMul_def [abs_def] by (rule level_good [OF unary f])
    have "good_parser (Suc m) (parseAdd (parseOr f) (Suc f))"
      unfolding parseAdd_def [abs_def] by (rule level_good [OF mul f])
    then have cmp: "good_parser (Suc m) (parseComparison (parseOr f) (Suc f))" by (rule parseComparison_good)
    have conj: "good_parser (Suc m) (parseAnd (parseOr f) (Suc f))"
      unfolding parseAnd_def [abs_def] by (rule level_good [OF cmp f])
    have "good_parser (Suc m) (parseOr (Suc f))"
      using level_good [OF conj f, of "[''||'']"] by (simp only: good_parser_def parseOr.simps) 
    then show ?thesis using Suc by (simp only:)
  qed
qed

lemma parse_tokens_total:
  assumes "tokens_ok ts"
  shows "\<exists>r. parse_tokens ts = Some r \<and> (\<forall>e. r = Inl e \<longrightarrow> \<not> is_unmodelled e)"
proof -
  have "answers (<) (parseOr (parse_fuel ts) ts) ts"
    by (rule good_parserD [OF parseOr_good [of "length ts"]]) (simp_all add: assms parse_fuel_def)
  then obtain r where "parseOr (parse_fuel ts) ts = Some r" "\<forall>e. r = Inl e \<longrightarrow> \<not> is_unmodelled e"
    unfolding answers_def by blast
  then show ?thesis by (cases r) (auto simp: parse_tokens_def split: if_splits)
qed

lemma scan_error: "scan p here = Inl e \<Longrightarrow> \<exists>m. e = JsError m"
  by (auto simp: scan_def Let_def split: if_splits prod.splits)

lemma tokenize_at_ok:
  "(\<forall>ts. tokenize_at pos cs = Inr ts \<longrightarrow> tokens_ok ts) \<and>
   (\<forall>e. tokenize_at pos cs = Inl e \<longrightarrow> (\<exists>m. e = JsError m))"
proof (induction pos cs rule: tokenize_at.induct)
  case (1 pos cs)
  show ?case
  proof (cases "dropWhile is_ws cs")
    case Nil
    then have "tokenize_at pos cs = Inr [mk_token TkEof [] (pos + length (takeWhile is_ws cs))]"
      by (simp only: tokenize_at.simps [of pos cs] Let_def list.case)
    then show ?thesis by (simp add: tokens_ok_def mk_token_def)
  next
    case (Cons ch rest)
    let ?p = "pos + length (takeWhile is_ws cs)"
    show ?thesis
    proof (cases "scan ?p (ch # rest)")
      case (Inl e)
      then show ?thesis using Cons scan_error [OF Inl] by (simp add: tokenize_at.simps [of pos cs])
    next
      case (Inr tl)
      obtain t len where tl: "tl = (t, len)" by (cases tl)
      have "(\<forall>ts. tokenize_at (?p + len) (drop len (ch # rest)) = Inr ts \<longrightarrow> tokens_ok ts) \<and>
          (\<forall>e. tokenize_at (?p + len) (drop len (ch # rest)) = Inl e \<longrightarrow> (\<exists>m. e = JsError m))"
        using 1 [OF refl Cons Inr] tl by simp
      then show ?thesis
        using Cons Inr tl
        by (cases "tokenize_at (?p + len) (drop len (ch # rest))")
          (auto simp: tokenize_at.simps [of pos cs] tokens_ok_def)
    qed
  qed
qed

lemma parse_total: "\<exists>node m. parse input = Inr node \<or> (parse input = Inl m \<and> \<not> is_unmodelled m)"
proof (cases "tokenize input")
  case (Inl e)
  then show ?thesis using tokenize_at_ok [of 0 input] by (auto simp: parse_def tokenize_def)
next
  case (Inr ts)
  then have "tokens_ok ts" using tokenize_at_ok [of 0 input] by (simp add: tokenize_def)
  then show ?thesis using parse_tokens_total [of ts] Inr by (cases "parse input") (auto simp: parse_def)
qed

lemmas parser_defs =
  parse_def parse_tokens_def parse_fuel_def parseAnd_def parseComparison_def parseAdd_def
  parseMul_def parseUnary_def parsePrimary_def peek_def consume_def mk_token_def bind_p_def ret_p_def

subsection \<open>What the language guarantees\<close>

text \<open>
  Parsing always ends: for every input string the parser returns a syntax tree or throws a
  JavaScript error, and the fuel of the model, one more than the number of tokens, is never used
  up.
\<close>

theorem parse_always_answers:
  "case parse input of Inr node \<Rightarrow> True | Inl e \<Rightarrow> \<not> is_unmodelled e"
  using parse_total [of input] by (auto split: sum.splits)

end
