(* ===== verification/Constraints.thy ===== *)
theory Constraints
  imports Expressions
begin

section \<open>Constraints (validators/constraint-validator.ts, services/rule-engine.ts)\<close>

text \<open>
  The constraints of a job are expressions over the run's context and task outputs. An expression
  that evaluates to a true value \<^emph>\<open>is a violation\<close>; an expression that fails to evaluate falls
  back to a presence test of one context field.
\<close>

record constraint_context =
  cc_context :: jsobj
  cc_taskOutputs :: "(string \<times> jsobj) list"

definition eval_ctx :: "constraint_context \<Rightarrow> jsval" where
  "eval_ctx c =
     VObj EvalRoot
       [(''ctx'', VObj CtxRoot (cc_context c)),
        (''output'', VObj OutputRoot (map (\<lambda>(k, out). (k, VObj (TaskRoot k) out)) (cc_taskOutputs c)))]"

definition evaluateExpression :: "string \<Rightarrow> constraint_context \<Rightarrow> bool res" where
  "evaluateExpression expr c =
     (if expr = ''always'' then Inr True
      else catch_r (evaluateBoolean expr (eval_ctx c)) (\<lambda>e.
        if take 4 expr = ''ctx.''
        then let key = drop 4 expr
             in bind_r (obj_get (cc_context c) key) (\<lambda>val.
                  Inr (val = VUndef \<or> val = VNull \<or> val = VStr []))
        else Inr False))"

fun evaluate_loop ::
    "constraint_context \<Rightarrow> string list \<Rightarrow> string list \<Rightarrow> job_constraint list \<Rightarrow>
     (string list \<times> string list) res" where
  "evaluate_loop c warnings blocks [] = Inr (warnings, blocks)"
| "evaluate_loop c warnings blocks (k # ks) =
     bind_r (evaluateExpression (jc_expression k) c) (\<lambda>violated.
       if \<not> violated then evaluate_loop c warnings blocks ks
       else if jc_severity k = Warn then evaluate_loop c (warnings @ [jc_id k]) blocks ks
       else evaluate_loop c warnings (blocks @ [jc_id k]) ks)"

definition evaluate_constraints ::
    "job_constraint list \<Rightarrow> constraint_context \<Rightarrow> (string list \<times> string list) res" where
  "evaluate_constraints ks c = evaluate_loop c [] [] ks"

definition assertPassing :: "job_constraint list \<Rightarrow> constraint_context \<Rightarrow> unit res" where
  "assertPassing ks c =
     bind_r (evaluate_constraints ks c) (\<lambda>(warnings, blocks).
       if blocks \<noteq> []
       then Inl (ExecutionError ConstraintViolation (''constraints blocked: '' @ join '', '' blocks))
       else Inr ())"

text \<open>The warnings are only logged; the second evaluation decides.\<close>

definition rule_engine_apply :: "job_definition \<Rightarrow> constraint_context \<Rightarrow> unit res" where
  "rule_engine_apply def c =
     bind_r (evaluate_constraints (jd_constraints def) c) (\<lambda>(warnings, blocks).
       assertPassing (jd_constraints def) c)"

subsection \<open>What is collected\<close>

definition violated :: "constraint_context \<Rightarrow> job_constraint \<Rightarrow> bool" where
  "violated c k \<longleftrightarrow> evaluateExpression (jc_expression k) c = Inr True"

lemma evaluate_loop_eq:
  assumes "\<And>k. k \<in> set ks \<Longrightarrow> \<exists>b. evaluateExpression (jc_expression k) c = Inr b"
  shows "evaluate_loop c ws bs ks =
     Inr (ws @ map jc_id (filter (\<lambda>k. violated c k \<and> jc_severity k = Warn) ks),
          bs @ map jc_id (filter (\<lambda>k. violated c k \<and> jc_severity k = Block) ks))"
  using assms
proof (induction ks arbitrary: ws bs)
  case Nil
  then show ?case by simp
next
  case (Cons k ks)
  then obtain b where "evaluateExpression (jc_expression k) c = Inr b" by force
  then show ?case using Cons by (cases "jc_severity k") (auto simp: violated_def)
qed

lemma rule_engine_apply_iff:
  assumes "\<And>k. k \<in> set (jd_constraints def) \<Longrightarrow> \<exists>b. evaluateExpression (jc_expression k) c = Inr b"
  shows "rule_engine_apply def c =
     (let blocked = filter (\<lambda>k. violated c k \<and> jc_severity k = Block) (jd_constraints def)
      in if blocked = [] then Inr ()
         else Inl (ExecutionError ConstraintViolation
                (''constraints blocked: '' @ join '', '' (map jc_id blocked))))"
  using assms
  by (simp add: rule_engine_apply_def assertPassing_def evaluate_constraints_def evaluate_loop_eq Let_def)

text \<open>The only exception the rule engine raises is the constraint violation.\<close>

lemma evaluateExpression_error: "evaluateExpression expr c = Inl e \<Longrightarrow> is_unmodelled e"
  by (auto simp: evaluateExpression_def catch_r_def obj_get_def bind_r_eq_Inl Let_def
      split: if_splits sum.splits option.splits)

lemma evaluate_loop_error: "evaluate_loop c ws bs ks = Inl e \<Longrightarrow> is_unmodelled e"
  by (induction ks arbitrary: ws bs)
    (auto simp: bind_r_eq_Inl dest: evaluateExpression_error split: if_splits)

lemma rule_engine_error:
  "rule_engine_apply def c = Inl e \<Longrightarrow> is_unmodelled e \<or> (\<exists>m. e = ExecutionError ConstraintViolation m)"
  by (auto simp: rule_engine_apply_def assertPassing_def evaluate_constraints_def bind_r_eq_Inl
      dest: evaluate_loop_error split: if_splits prod.splits)

subsection \<open>The constraints the shipped definitions use\<close>

lemma parse_approved:
  "parse ''context.approved == true'' =
     Inr (Binary ''=='' (Ident ''context.approved'') (Literal (VBool True)))"
  by code_simp

lemma tokens_amount:
  "tokenize ''context.amount < 1000000'' =
     Inr [mk_token TkIdent ''context.amount'' 14, mk_token TkOp ''<'' 16,
          mk_token TkNumber ''1000000'' 24, mk_token TkEof '''' 24]"
  by code_simp

lemma parse_amount:
  "parse ''context.amount < 1000000'' =
     Inr (Binary ''<'' (Ident ''context.amount'') (Literal (VNum (str_to_num ''1000000''))))"
  by (simp add: tokens_amount eval_nat_numeral parser_defs)

lemma parse_tenant: "parse ''ctx.tenantId'' = Inr (Ident ''ctx.tenantId'')"
  by code_simp

text \<open>A path that starts outside \<^verbatim>\<open>ctx\<close> and \<^verbatim>\<open>output\<close> finds nothing.\<close>

lemma resolve_foreign:
  assumes "p \<notin> set object_prototype_names" and "p \<noteq> ''ctx''" and "p \<noteq> ''output''"
  shows "resolve_path (p # q # qs) (eval_ctx c) = Inr VUndef"
  using assms by (simp add: eval_ctx_def obj_get_def)

lemma resolve_ctx_field:
  assumes "p \<notin> set object_prototype_names"
  shows "resolve_path [''ctx'', p] (eval_ctx c) =
           Inr (case map_of (cc_context c) p of Some v \<Rightarrow> v | None \<Rightarrow> VUndef)"
  using assms by (simp add: eval_ctx_def obj_get_def split: option.splits)

lemma path_context_approved: "split_on CHR ''.'' ''context.approved'' = [''context'', ''approved'']"
  by simp

lemma path_context_amount: "split_on CHR ''.'' ''context.amount'' = [''context'', ''amount'']"
  by simp

lemma path_tenant: "split_on CHR ''.'' ''ctx.tenantId'' = [''ctx'', ''tenantId'']"
  by simp

lemma resolve_tenant:
  "resolveIdent ''ctx.tenantId'' (eval_ctx c) =
     Inr (case map_of (cc_context c) ''tenantId'' of Some v \<Rightarrow> v | None \<Rightarrow> VUndef)"
  unfolding resolveIdent_def path_tenant
  by (rule resolve_ctx_field) (simp add: object_prototype_names_def)

lemma resolve_context:
  "resolveIdent ''context.approved'' (eval_ctx c) = Inr VUndef"
  "resolveIdent ''context.amount'' (eval_ctx c) = Inr VUndef"
  unfolding resolveIdent_def path_context_approved path_context_amount
  by (rule resolve_foreign; simp add: object_prototype_names_def)+

lemma approved_inert: "evaluateExpression ''context.approved == true'' c = Inr False"
  by (simp add: evaluateExpression_def evaluateBoolean_def expr_evaluate_def parse_approved
      resolve_context evalBinary_def loose_eq_def is_object_def nullish_def)

lemma amount_inert: "evaluateExpression ''context.amount < 1000000'' c = Inr False"
  by (simp add: evaluateExpression_def evaluateBoolean_def expr_evaluate_def parse_amount
      resolve_context evalBinary_def num_op_def)

lemma tenant_value:
  "evaluateExpression ''ctx.tenantId'' c =
     Inr (case map_of (cc_context c) ''tenantId'' of Some v \<Rightarrow> to_boolean v | None \<Rightarrow> False)"
  by (simp add: evaluateExpression_def evaluateBoolean_def expr_evaluate_def parse_tenant
      resolve_tenant split: option.splits)

subsection \<open>What the rule engine guarantees\<close>

text \<open>
  The rule engine lets a run pass exactly when no constraint of severity block evaluates to
  a true value; otherwise it raises one constraint violation that names all of them in order.
  Warnings never stop a run.
\<close>

theorem rule_engine_blocks_iff:
  assumes "\<And>k. k \<in> set (jd_constraints def) \<Longrightarrow> \<exists>b. evaluateExpression (jc_expression k) c = Inr b"
  shows "rule_engine_apply def c =
     (let blocked = filter (\<lambda>k. violated c k \<and> jc_severity k = Block) (jd_constraints def)
      in if blocked = [] then Inr ()
         else Inl (ExecutionError ConstraintViolation
                (''constraints blocked: '' @ join '', '' (map jc_id blocked))))"
  using assms by (rule rule_engine_apply_iff)

definition empty_job :: job_definition where
  "empty_job =
     \<lparr>jd_id = ''j'', jd_name = ''j'', jd_version = 1, jd_description = None, jd_tasks = [],
      jd_constraints = [], jd_retryPolicy = DEFAULT_RETRY_POLICY, jd_allowedTransitions = [],
      jd_metadata = [], jd_createdAt = '''', jd_updatedAt = ''''\<rparr>"

definition tenant_job :: job_definition where
  "tenant_job = empty_job\<lparr>jd_constraints :=
     [\<lparr>jc_id = ''require_tenant'', jc_expression = ''ctx.tenantId'', jc_severity = Block\<rparr>]\<rparr>"

definition tenant_only_context :: constraint_context where
  "tenant_only_context = \<lparr>cc_context = [(''tenantId'', VStr ''acme'')], cc_taskOutputs = []\<rparr>"

theorem rule_engine_blocks_iff_witness:
  "rule_engine_apply tenant_job tenant_only_context =
     Inl (ExecutionError ConstraintViolation ''constraints blocked: require_tenant'')"
proof -
  have "violated tenant_only_context
      \<lparr>jc_id = ''require_tenant'', jc_expression = ''ctx.tenantId'', jc_severity = Block\<rparr>"
    by (simp add: violated_def tenant_value tenant_only_context_def)
  then show ?thesis
    using rule_engine_blocks_iff [of tenant_job tenant_only_context]
    by (simp add: tenant_job_def tenant_value)
qed

text \<open>
  A block constraint written as a requirement has the opposite effect: the constraint
  \<open>ctx.tenantId\<close> of the seeded jobs stops a run exactly when the tenant id is given.
\<close>

theorem required_field_constraint_inverted:
  assumes "jd_constraints def =
    [\<lparr>jc_id = k, jc_expression = ''ctx.tenantId'', jc_severity = Block\<rparr>]"
  shows "rule_engine_apply def c = Inr () \<longleftrightarrow>
           (case map_of (cc_context c) ''tenantId'' of None \<Rightarrow> True | Some v \<Rightarrow> \<not> to_boolean v)"
proof -
  have "rule_engine_apply def c =
      (let blocked = filter (\<lambda>k. violated c k \<and> jc_severity k = Block) (jd_constraints def)
       in if blocked = [] then Inr ()
          else Inl (ExecutionError ConstraintViolation
                 (''constraints blocked: '' @ join '', '' (map jc_id blocked))))"
    by (rule rule_engine_apply_iff) (simp add: assms tenant_value)
  then show ?thesis by (simp add: assms violated_def tenant_value split: option.splits)
qed

theorem required_field_constraint_inverted_witness:
  "rule_engine_apply tenant_job tenant_only_context \<noteq> Inr () \<and>
   rule_engine_apply tenant_job \<lparr>cc_context = [], cc_taskOutputs = []\<rparr> = Inr ()"
  using required_field_constraint_inverted [of tenant_job "''require_tenant''" tenant_only_context]
    required_field_constraint_inverted [of tenant_job "''require_tenant''"
      "\<lparr>cc_context = [], cc_taskOutputs = []\<rparr>"]
  by (simp add: tenant_job_def tenant_only_context_def)

text \<open>
  The constraints of the enterprise job pack never fire: their expressions read
  \<open>context.*\<close>, a name the evaluation context does not bind, so whatever the run's context and
  outputs are, neither the block nor the warning constraint is violated.
\<close>

theorem enterprise_constraints_inert:
  "evaluateExpression ''context.approved == true'' c = Inr False \<and>
   evaluateExpression ''context.amount < 1000000'' c = Inr False"
  by (simp add: approved_inert amount_inert)

end
