(* ===== verification/Metrics.thy ===== *)
theory Metrics
  imports Domain
begin

section \<open>Metrics and the event bus (metrics/*.ts, services/event-bus.ts)\<close>

text \<open>
  Counters and histograms, the collector that turns domain events into counters, and the two
  subscribers the container puts on the event bus: the collector and the webhook forwarder,
  whose emissions are recorded in an outbox.
\<close>

record histogram =
  hg_sum :: int
  hg_count :: nat
  hg_buckets :: "nat list"

record metrics =
  mt_counters :: "(string, int) jsmap"
  mt_histograms :: "(string, histogram) jsmap"

text \<open>Every caller passes at most one label, so the sort of the label names has nothing to do.\<close>

definition metric_key :: "string \<Rightarrow> (string \<times> string) option \<Rightarrow> string" where
  "metric_key name label =
     name @ ''|'' @ (case label of None \<Rightarrow> [] | Some (k, v) \<Rightarrow> k @ ''='' @ v)"

definition increment :: "string \<Rightarrow> (string \<times> string) option \<Rightarrow> metrics \<Rightarrow> metrics" where
  "increment name label m =
     (let key = metric_key name label;
          cur = (case map_get (mt_counters m) key of Some n \<Rightarrow> n | None \<Rightarrow> 0)
      in m\<lparr>mt_counters := map_set key (cur + 1) (mt_counters m)\<rparr>)"

definition bucket_bounds :: "int list" where
  "bucket_bounds = [10, 50, 100, 500, 1000]"

definition observe_value :: "int \<Rightarrow> histogram \<Rightarrow> histogram" where
  "observe_value value h =
     h\<lparr>hg_sum := hg_sum h + value, hg_count := hg_count h + 1,
       hg_buckets := map2 (\<lambda>b n. if value \<le> b then n + 1 else n) bucket_bounds (hg_buckets h)\<rparr>"

definition observe :: "string \<Rightarrow> int \<Rightarrow> (string \<times> string) option \<Rightarrow> metrics \<Rightarrow> metrics" where
  "observe name value label m =
     (let key = metric_key name label;
          cur = (case map_get (mt_histograms m) key of
                   Some h \<Rightarrow> h
                 | None \<Rightarrow> \<lparr>hg_sum = 0, hg_count = 0, hg_buckets = [0, 0, 0, 0, 0]\<rparr>)
      in m\<lparr>mt_histograms := map_set key (observe_value value cur) (mt_histograms m)\<rparr>)"

fun onDomainEvent :: "domain_event \<Rightarrow> metrics \<Rightarrow> metrics" where
  "onDomainEvent (RunStarted r j tm) m = increment ''jobflow_runs_started_total'' (Some (''job_id'', j)) m"
| "onDomainEvent (RunCompleted r tm) m = increment ''jobflow_runs_completed_total'' None m"
| "onDomainEvent (RunFailed r reason tm) m =
     increment ''jobflow_runs_failed_total'' (Some (''reason'', failure_reason_str reason)) m"
| "onDomainEvent (TaskFinished r t ok tm) m =
     increment ''jobflow_tasks_finished_total'' (Some (''success'', if ok then ''true'' else ''false'')) m"
| "onDomainEvent (TaskRetryScheduled r t a d tm) m = increment ''jobflow_task_retries_total'' None m"
| "onDomainEvent _ m = m"

definition recordTaskDuration :: "string \<Rightarrow> int \<Rightarrow> metrics \<Rightarrow> metrics" where
  "recordTaskDuration handler ms m = observe ''jobflow_task_duration_ms'' ms (Some (''handler'', handler)) m"

subsection \<open>Subscribers\<close>

text \<open>The webhook events the container's second subscriber asks for.\<close>

fun forwarded :: "domain_event \<Rightarrow> (string \<times> run_id) list" where
  "forwarded (RunFailed r reason tm) = [(''run.failed'', r)]"
| "forwarded (RunCompleted r tm) = [(''run.completed'', r)]"
| "forwarded _ = []"

record bus =
  bus_metrics :: metrics
  bus_outbox :: "(string \<times> run_id) list"
  bus_log :: "domain_event list"

definition publish :: "domain_event \<Rightarrow> bus \<Rightarrow> bus" where
  "publish ev b =
     b\<lparr>bus_metrics := onDomainEvent ev (bus_metrics b), bus_outbox := bus_outbox b @ forwarded ev,
       bus_log := bus_log b @ [ev]\<rparr>"

text \<open>
  The bus with any subscribers: a listener is known by its identity, \<open>call\<close> says what it does to
  the rest of the program, and what it throws is swallowed.
\<close>

definition bus_subscribe :: "nat \<Rightarrow> nat list \<Rightarrow> nat list" where
  "bus_subscribe l listeners = listeners @ [l]"

definition bus_unsubscribe :: "nat \<Rightarrow> nat list \<Rightarrow> nat list" where
  "bus_unsubscribe l listeners = filter (\<lambda>k. k \<noteq> l) listeners"

definition bus_publish :: "(nat \<Rightarrow> domain_event \<Rightarrow> 's \<Rightarrow> unit res \<times> 's) \<Rightarrow> nat list \<Rightarrow> domain_event \<Rightarrow> 's \<Rightarrow> 's" where
  "bus_publish call listeners event s = fold (\<lambda>l s. snd (call l event s)) listeners s"

text \<open>The container's two subscribers on this bus do what \<open>publish\<close> says.\<close>

definition container_listener :: "nat \<Rightarrow> domain_event \<Rightarrow> metrics \<times> (string \<times> run_id) list \<Rightarrow>
    unit res \<times> metrics \<times> (string \<times> run_id) list" where
  "container_listener l event s =
     (case s of (m, outbox) \<Rightarrow>
        (Inr (), if l = 0 then (onDomainEvent event m, outbox) else (m, outbox @ forwarded event)))"

lemma publish_is_container_bus:
  "(bus_metrics (publish ev b), bus_outbox (publish ev b)) =
     bus_publish container_listener (bus_subscribe 1 (bus_subscribe 0 [])) ev (bus_metrics b, bus_outbox b)"
  by (simp add: publish_def bus_publish_def bus_subscribe_def container_listener_def)

text \<open>A listener subscribed twice is removed altogether by either of its two handles.\<close>

lemma unsubscribe_removes_all: "l \<notin> set (bus_unsubscribe l listeners)"
  by (simp add: bus_unsubscribe_def)

subsection \<open>Histograms are cumulative\<close>

text \<open>
  After any observations, a histogram's count, sum and buckets are those of the list of observed
  values: bucket \<open>i\<close> counts the values up to its bound.
\<close>

definition histogram_of :: "int list \<Rightarrow> histogram" where
  "histogram_of vs =
     \<lparr>hg_sum = sum_list vs, hg_count = length vs,
      hg_buckets = map (\<lambda>b. length (filter (\<lambda>v. v \<le> b) vs)) bucket_bounds\<rparr>"

lemma observe_value_histogram_of: "observe_value v (histogram_of vs) = histogram_of (vs @ [v])"
  by (simp add: observe_value_def histogram_of_def bucket_bounds_def)

lemma fold_observe_value: "fold observe_value vs (histogram_of us) = histogram_of (us @ vs)"
  by (induction vs arbitrary: us) (simp_all add: observe_value_histogram_of)

lemma counters_observe [simp]: "mt_counters (observe n v l m) = mt_counters m"
  by (simp add: observe_def Let_def)

lemma counters_recordTaskDuration [simp]: "mt_counters (recordTaskDuration h v m) = mt_counters m"
  by (simp add: recordTaskDuration_def)

text \<open>
  The duration histogram of a handler is exact: after observing a list of values under a
  fresh key, its count is their number, its sum their sum, and bucket \<open>i\<close> the number of values
  up to bound \<open>i\<close>, so the buckets are cumulative.
\<close>

theorem histogram_counts_observations:
  assumes "map_get (mt_histograms m) (metric_key name label) = None" and "vs \<noteq> []"
  shows "map_get (mt_histograms (fold (\<lambda>v. observe name v label) vs m)) (metric_key name label) =
           Some (histogram_of vs)"
proof -
  have zero: "\<lparr>hg_sum = 0, hg_count = 0, hg_buckets = [0, 0, 0, 0, 0]\<rparr> = histogram_of []"
    by (simp add: histogram_of_def bucket_bounds_def)
  have rest: "map_get (mt_histograms (fold (\<lambda>v. observe name v label) ws k)) (metric_key name label) =
      Some (histogram_of (us @ ws))"
    if "map_get (mt_histograms k) (metric_key name label) = Some (histogram_of us)" for us ws k
    using that
    by (induction ws arbitrary: k us)
      (simp_all add: observe_def Let_def observe_value_histogram_of)
  obtain w ws where vs: "vs = w # ws" using assms(2) by (cases vs) auto
  have "map_get (mt_histograms (observe name w label m)) (metric_key name label) = Some (histogram_of [w])"
    using assms(1) observe_value_histogram_of [of w "[]"] by (simp add: observe_def Let_def zero)
  then show ?thesis using rest [of "observe name w label m" "[w]" ws] vs by simp
qed

theorem histogram_counts_observations_witness:
  "map_get (mt_histograms (fold (\<lambda>v. observe ''d'' v None) [5, 70, 20] \<lparr>mt_counters = [], mt_histograms = []\<rparr>))
     (metric_key ''d'' None) =
   Some \<lparr>hg_sum = 95, hg_count = 3, hg_buckets = [1, 2, 3, 3, 3]\<rparr>"
  using histogram_counts_observations
    [of "\<lparr>mt_counters = [], mt_histograms = []\<rparr>" "''d''" None "[5, 70, 20]"]
  by (simp add: histogram_of_def bucket_bounds_def)

end
