(* ===== verification/Stores.thy ===== *)
theory Stores
  imports Domain
begin

section \<open>Storage (storage/interfaces.ts, storage/memory/*.ts)\<close>

text \<open>
  The in-memory stores the container wires behind every service, each a JavaScript
  \<^verbatim>\<open>Map\<close> keyed by the entity's id. The locale \<open>keyed_store\<close> is the interface
  the services rely on (what a lookup returns after a save, what a listing contains), proved
  once and interpreted on every store; \<open>workflow_store\<close> is the interface of the workflow
  store, which is indexed by workflow id and by run id at the same time.
\<close>

subsection \<open>The interface of a store keyed by id\<close>

locale keyed_store =
  fixes key :: "'v \<Rightarrow> string"
    and empty :: "'s"
    and save :: "'v \<Rightarrow> 's \<Rightarrow> 's"
    and get :: "'s \<Rightarrow> string \<Rightarrow> 'v option"
    and list :: "'s \<Rightarrow> 'v list"
    and invar :: "'s \<Rightarrow> bool"
  assumes get_empty: "get empty k = None"
    and get_save: "invar s \<Longrightarrow> get (save v s) k = (if k = key v then Some v else get s k)"
    and list_get: "invar s \<Longrightarrow> v \<in> set (list s) \<longleftrightarrow> get s (key v) = Some v"
    and get_key: "invar s \<Longrightarrow> get s k = Some v \<Longrightarrow> key v = k"
    and distinct_list: "invar s \<Longrightarrow> distinct (map key (list s))"
    and invar_empty: "invar empty"
    and invar_save: "invar s \<Longrightarrow> invar (save v s)"
begin

lemma get_save_same: "invar s \<Longrightarrow> get (save v s) (key v) = Some v"
  by (simp add: get_save)

lemma get_save_other: "invar s \<Longrightarrow> k \<noteq> key v \<Longrightarrow> get (save v s) k = get s k"
  by (simp add: get_save)

lemma list_empty: "list empty = []"
proof -
  have "\<not> v \<in> set (list empty)" for v
    by (simp add: list_get invar_empty get_empty)
  then show ?thesis by (metis list.set_intros(1) neq_Nil_conv)
qed

lemma set_list_save:
  assumes "invar s"
  shows "set (list (save v s)) = insert v {w \<in> set (list s). key w \<noteq> key v}"
  using assms by (auto simp: list_get invar_save get_save split: if_splits)

lemma length_list_save:
  assumes "invar s"
  shows "length (list (save v s)) =
           (if get s (key v) = None then Suc (length (list s)) else length (list s))"
proof -
  have dist: "distinct (list t)" if "invar t" for t
    using distinct_list [OF that] by (simp add: distinct_map)
  have card_len: "length (list t) = card (set (list t))" if "invar t" for t
    using dist [OF that] by (simp add: distinct_card)
  let ?rest = "{w \<in> set (list s). key w \<noteq> key v}"
  have "card (set (list (save v s))) = Suc (card ?rest)"
    using assms by (simp add: set_list_save)
  moreover have "card (set (list s)) = (if get s (key v) = None then card ?rest else Suc (card ?rest))"
  proof (cases "get s (key v)")
    case None
    then have "?rest = set (list s)"
      using assms by (auto simp: list_get)
    with None show ?thesis by simp
  next
    case (Some w)
    then have "key w = key v" using assms get_key by blast
    with Some have "set (list s) = insert w ?rest"
      using assms by (auto simp: list_get)
    moreover have "w \<notin> ?rest" using \<open>key w = key v\<close> by simp
    ultimately show ?thesis using Some by (metis (no_types, lifting) List.finite_set card_insert_disjoint
          finite_insert option.distinct(1))
  qed
  ultimately show ?thesis
    using assms by (simp add: card_len invar_save)
qed

lemma invar_saves: "invar s \<Longrightarrow> invar (fold save vs s)"
  by (induction vs arbitrary: s) (simp_all add: invar_save)

lemma get_saves:
  assumes "invar s"
  shows "get (fold save vs s) k =
           (case List.find (\<lambda>v. key v = k) (rev vs) of Some v \<Rightarrow> Some v | None \<Rightarrow> get s k)"
  using assms
proof (induction vs rule: rev_induct)
  case Nil
  then show ?case by simp
next
  case (snoc v vs)
  then show ?case by (auto simp: get_save invar_saves)
qed

lemma length_list_saves:
  assumes "invar s" and "distinct (map key vs)" and "\<And>v. v \<in> set vs \<Longrightarrow> get s (key v) = None"
  shows "length (list (fold save vs s)) = length (list s) + length vs"
  using assms
proof (induction vs arbitrary: s)
  case Nil
  then show ?case by simp
next
  case (Cons v vs)
  have "length (list (fold save vs (save v s))) = length (list (save v s)) + length vs"
    using Cons.prems by (intro Cons.IH) (auto simp: invar_save get_save image_iff)
  then show ?case
    using Cons.prems by (simp add: length_list_save)
qed

end

text \<open>The invariant of all in-memory stores: one entry per key, each under its own id.\<close>

definition store_ok :: "('v \<Rightarrow> string) \<Rightarrow> (string, 'v) jsmap \<Rightarrow> bool" where
  "store_ok key m \<longleftrightarrow> jsmap_ok m \<and> (\<forall>(k, v) \<in> set m. k = key v)"

lemma store_ok_Nil [simp]: "store_ok key []"
  by (simp add: store_ok_def)

lemma set_map_set_subset: "set (map_set k v m) \<subseteq> insert (k, v) (set m)"
  by (induction m) (auto split: if_splits)

lemma store_ok_set [simp]: "store_ok key m \<Longrightarrow> store_ok key (map_set (key v) v m)"
  using set_map_set_subset [of "key v" v m] by (auto simp: store_ok_def)

lemma store_ok_values:
  "store_ok key m \<Longrightarrow> v \<in> set (map_values m) \<longleftrightarrow> map_get m (key v) = Some v"
  unfolding store_ok_def by (auto simp: jsmap_ok_get_iff image_iff split_beta) force

lemma store_ok_get_key: "store_ok key m \<Longrightarrow> map_get m k = Some v \<Longrightarrow> key v = k"
  by (auto simp: store_ok_def jsmap_ok_get_iff)

lemma store_ok_map_key: "store_ok key m \<Longrightarrow> map key (map_values m) = map_keys m"
  by (auto simp: store_ok_def)

lemma store_ok_distinct: "store_ok key m \<Longrightarrow> distinct (map key (map_values m))"
  by (simp only: store_ok_map_key) (simp add: store_ok_def jsmap_ok_def)

text \<open>Every such map implements the interface; each store below is an instance.\<close>

lemma mem_store: "keyed_store key [] (\<lambda>v. map_set (key v) v) map_of map_values (store_ok key)"
  by unfold_locales
    (simp_all del: set_map map_map add: store_ok_values store_ok_get_key store_ok_distinct)

subsection \<open>JobDefinitionStore: memory/job-store.ts\<close>

type_synonym job_store = "(job_id, job_definition) jsmap"

definition job_store_save :: "job_definition \<Rightarrow> job_store \<Rightarrow> job_store" where
  "job_store_save definition m = map_set (jd_id definition) definition m"

definition job_store_get :: "job_store \<Rightarrow> job_id \<Rightarrow> job_definition option" where
  "job_store_get m i = map_get m i"

definition job_store_list :: "job_store \<Rightarrow> job_definition list" where
  "job_store_list m = map_values m"

definition job_store_delete :: "job_id \<Rightarrow> job_store \<Rightarrow> bool \<times> job_store" where
  "job_store_delete i m = (map_get m i \<noteq> None, map_delete i m)"

lemmas job_store_defs =
  job_store_save_def job_store_get_def job_store_list_def job_store_delete_def

interpretation jobs: keyed_store jd_id "[]" job_store_save job_store_get job_store_list "store_ok jd_id"
  unfolding job_store_save_def [abs_def] job_store_get_def [abs_def] job_store_list_def [abs_def]
  by (rule mem_store)

subsection \<open>RunStore: memory/run-store.ts\<close>

type_synonym run_store = "(run_id, job_run) jsmap"

definition run_store_save :: "job_run \<Rightarrow> run_store \<Rightarrow> run_store" where
  "run_store_save run m = map_set (jr_id run) run m"

definition run_store_get :: "run_store \<Rightarrow> run_id \<Rightarrow> job_run option" where
  "run_store_get m i = map_get m i"

definition run_store_listByJob :: "run_store \<Rightarrow> job_id \<Rightarrow> job_run list" where
  "run_store_listByJob m jobId = filter (\<lambda>r. jr_jobId r = jobId) (map_values m)"

definition run_store_listActive :: "run_store \<Rightarrow> job_run list" where
  "run_store_listActive m =
     (let active = [Pending, Running, Waiting]
      in filter (\<lambda>r. jr_status r \<in> set active) (map_values m))"

lemmas run_store_defs =
  run_store_save_def run_store_get_def run_store_listByJob_def run_store_listActive_def

interpretation runs: keyed_store jr_id "[]" run_store_save run_store_get map_values "store_ok jr_id"
  unfolding run_store_save_def [abs_def] run_store_get_def [abs_def]
  by (rule mem_store)

text \<open>A run is active exactly while its status is pending, running or waiting.\<close>

lemma run_store_listActive_iff:
  assumes "store_ok jr_id m"
  shows "r \<in> set (run_store_listActive m) \<longleftrightarrow>
           run_store_get m (jr_id r) = Some r \<and> jr_status r \<in> {Pending, Running, Waiting}"
  using runs.list_get [OF assms, of r]
  by (auto simp: run_store_listActive_def)

lemma run_store_listByJob_iff:
  assumes "store_ok jr_id m"
  shows "r \<in> set (run_store_listByJob m j) \<longleftrightarrow>
           run_store_get m (jr_id r) = Some r \<and> jr_jobId r = j"
  using runs.list_get [OF assms, of r]
  by (auto simp: run_store_listByJob_def)

subsection \<open>WorkflowStore: memory/workflow-store.ts\<close>

record workflow_maps =
  ws_byId :: "(workflow_id, workflow_instance) jsmap"
  ws_byRunId :: "(run_id, workflow_id) jsmap"

definition workflow_store_empty :: workflow_maps where
  "workflow_store_empty = \<lparr>ws_byId = [], ws_byRunId = []\<rparr>"

definition workflow_store_save :: "workflow_instance \<Rightarrow> workflow_maps \<Rightarrow> workflow_maps" where
  "workflow_store_save inst s =
     s\<lparr>ws_byId := map_set (wf_id inst) inst (ws_byId s),
       ws_byRunId := map_set (wf_runId inst) (wf_id inst) (ws_byRunId s)\<rparr>"

definition workflow_store_get :: "workflow_maps \<Rightarrow> workflow_id \<Rightarrow> workflow_instance option" where
  "workflow_store_get s i = map_get (ws_byId s) i"

text \<open>The empty workflow id is falsy, so it is treated as a missing index entry.\<close>

definition workflow_store_getByRunId :: "workflow_maps \<Rightarrow> run_id \<Rightarrow> workflow_instance option" where
  "workflow_store_getByRunId s runId =
     (case map_get (ws_byRunId s) runId of
        None \<Rightarrow> None
      | Some wfId \<Rightarrow> if wfId = [] then None else map_get (ws_byId s) wfId)"

text \<open>
  The two indexes agree: a run's entry names a stored instance of that run, under its own id.
\<close>

definition workflow_store_ok :: "workflow_maps \<Rightarrow> bool" where
  "workflow_store_ok s \<longleftrightarrow>
     (\<forall>r i. map_get (ws_byRunId s) r = Some i \<longrightarrow>
        (\<exists>w. map_get (ws_byId s) i = Some w \<and> wf_id w = i \<and> wf_runId w = r))"

text \<open>
  An instance may be saved when it is new, or when it overwrites the instance with the same
  id and the same run: an id is never moved to another run.
\<close>

definition workflow_saveable :: "workflow_instance \<Rightarrow> workflow_maps \<Rightarrow> bool" where
  "workflow_saveable w s \<longleftrightarrow>
     wf_id w \<noteq> [] \<and>
     (\<forall>r. map_get (ws_byRunId s) r = Some (wf_id w) \<longrightarrow> r = wf_runId w)"

locale workflow_store =
  fixes empty :: "'s"
    and save :: "workflow_instance \<Rightarrow> 's \<Rightarrow> 's"
    and get :: "'s \<Rightarrow> workflow_id \<Rightarrow> workflow_instance option"
    and getByRunId :: "'s \<Rightarrow> run_id \<Rightarrow> workflow_instance option"
    and invar :: "'s \<Rightarrow> bool"
    and saveable :: "workflow_instance \<Rightarrow> 's \<Rightarrow> bool"
  assumes getByRunId_empty: "getByRunId empty r = None"
    and invar_empty: "invar empty"
    and invar_save: "invar s \<Longrightarrow> saveable w s \<Longrightarrow> invar (save w s)"
    and get_save: "get (save w s) i = (if i = wf_id w then Some w else get s i)"
    and getByRunId_save:
      "invar s \<Longrightarrow> saveable w s \<Longrightarrow>
         getByRunId (save w s) r = (if r = wf_runId w then Some w else getByRunId s r)"
    and getByRunId_runId: "invar s \<Longrightarrow> getByRunId s r = Some w \<Longrightarrow> wf_runId w = r"
    and saveable_stored:
      "invar s \<Longrightarrow> getByRunId s (wf_runId w) = Some w' \<Longrightarrow> wf_id w' = wf_id w \<Longrightarrow> saveable w s"
begin

text \<open>Overwriting a stored instance of the same run and id is always safe, and stays so.\<close>

lemma saveable_update:
  assumes "invar s" and "getByRunId s r = Some w" and "wf_id w' = wf_id w" and "wf_runId w' = r"
  shows "saveable w' s"
  using assms saveable_stored by metis

lemma getByRunId_update:
  assumes "invar s" and "getByRunId s r = Some w" and "wf_id w' = wf_id w" and "wf_runId w' = r"
  shows "getByRunId (save w' s) r' = (if r' = r then Some w' else getByRunId s r')"
  using assms by (simp add: getByRunId_save saveable_update)

lemma invar_update:
  assumes "invar s" and "getByRunId s r = Some w" and "wf_id w' = wf_id w" and "wf_runId w' = r"
  shows "invar (save w' s)"
  using assms by (simp add: invar_save saveable_update)

end

lemmas workflow_store_defs =
  workflow_store_empty_def workflow_store_save_def workflow_store_get_def
  workflow_store_getByRunId_def workflow_store_ok_def workflow_saveable_def

interpretation wfs: workflow_store workflow_store_empty workflow_store_save workflow_store_get
  workflow_store_getByRunId workflow_store_ok workflow_saveable
proof unfold_locales
  fix s r and w :: workflow_instance
  assume ok: "workflow_store_ok s" and sv: "workflow_saveable w s"
  show "workflow_store_ok (workflow_store_save w s)"
    using ok sv by (auto simp: workflow_store_defs)
  show "workflow_store_getByRunId (workflow_store_save w s) r =
      (if r = wf_runId w then Some w else workflow_store_getByRunId s r)"
    using sv by (auto simp: workflow_store_defs split: option.splits)
next
  fix s r and w :: workflow_instance
  assume "workflow_store_ok s" and "workflow_store_getByRunId s r = Some w"
  then show "wf_runId w = r"
    by (force simp: workflow_store_defs split: option.splits if_splits)
next
  fix s and w w' :: workflow_instance
  assume ok: "workflow_store_ok s" and g: "workflow_store_getByRunId s (wf_runId w) = Some w'"
    and "wf_id w' = wf_id w"
  then have i: "map_get (ws_byId s) (wf_id w) = Some w'" "wf_id w \<noteq> []" "wf_runId w' = wf_runId w"
    by (force simp: workflow_store_defs split: option.splits if_splits)+
  have "r = wf_runId w" if "map_get (ws_byRunId s) r = Some (wf_id w)" for r
    using ok that i unfolding workflow_store_ok_def by (metis option.inject)
  then show "workflow_saveable w s"
    using i by (simp add: workflow_saveable_def)
qed (auto simp: workflow_store_defs)

subsection \<open>DeadLetterStore: memory/dead-letter-store.ts\<close>

record dead_letter_entry =
  dl_runId :: run_id
  dl_payload :: jsobj
  dl_at :: iso_date

definition dead_letter_push :: "run_id \<Rightarrow> jsobj \<Rightarrow> iso_date \<Rightarrow> dead_letter_entry list \<Rightarrow> dead_letter_entry list" where
  "dead_letter_push runId payload now es =
     es @ [\<lparr>dl_runId = runId, dl_payload = payload, dl_at = now\<rparr>]"

text \<open>
  \<^verbatim>\<open>xs.slice(start)\<close> with an integral argument: a negative start counts from the end.
\<close>

definition slice_from :: "int \<Rightarrow> 'a list \<Rightarrow> 'a list" where
  "slice_from start xs =
     (if start < 0 then drop (nat (int (length xs) + start)) xs else drop (nat start) xs)"

definition dead_letter_list :: "int \<Rightarrow> dead_letter_entry list \<Rightarrow> dead_letter_entry list" where
  "dead_letter_list limit es = slice_from (- limit) es"

lemma slice_from_neg: "0 < n \<Longrightarrow> slice_from (- int n) xs = drop (length xs - n) xs"
proof -
  have "nat (int (length xs) - int n) = length xs - n" by arith
  then show "0 < n \<Longrightarrow> slice_from (- int n) xs = drop (length xs - n) xs"
    by (simp add: slice_from_def)
qed

lemma length_slice_from_neg: "0 < n \<Longrightarrow> length (slice_from (- int n) xs) = min n (length xs)"
  by (simp add: slice_from_neg)

text \<open>A limit of zero does not limit: \<^verbatim>\<open>slice(-0)\<close> is the whole list.\<close>

lemma slice_from_zero: "slice_from (- 0) xs = xs"
  by (simp add: slice_from_def)

end
