(* ===== verification/Execution.thy ===== *)
theory Execution
  imports Workers Constraints Metrics Stores
begin

section \<open>Running a workflow\<close>

text \<open>
  services/workflow-service.ts, engine/run-context.ts, engine/orchestrator.ts and
  services/execution-service.ts over one state record that holds everything these services
  share: the stores, the two lock sets, the event bus and the number of environment reads.
  An operation is an action: a function from the state to a result or exception and the state
  it leaves, exceptions keeping the changes made before them. The loop of \<open>executeRun\<close> takes
  fuel; \<open>None\<close> is a run that has not finished within it.
  Here an \<open>executeRun\<close> runs to its end; theory \<open>Coroutines\<close> cuts it at its \<^verbatim>\<open>await\<close>s, where others
  go on.
\<close>

subsection \<open>The shared state\<close>

record engine =
  en_jobs :: job_store
  en_workflows :: workflow_maps
  en_runs :: run_store
  en_dead :: "dead_letter_entry list"
  en_localLocks :: "run_id jsset"
  en_runLocks :: run_locks
  en_bus :: bus
  en_ticks :: nat

type_synonym 'a eng = "(engine, err, 'a) act"

definition with_env :: "'a eff \<Rightarrow> 'a eng" where
  "with_env m s = (case m (en_ticks s) of (r, n) \<Rightarrow> (r, s\<lparr>en_ticks := n\<rparr>))"

definition engine_empty :: engine where
  "engine_empty =
     \<lparr>en_jobs = [], en_workflows = workflow_store_empty, en_runs = [], en_dead = [],
      en_localLocks = [], en_runLocks = [],
      en_bus = \<lparr>bus_metrics = \<lparr>mt_counters = [], mt_histograms = []\<rparr>, bus_outbox = [], bus_log = []\<rparr>,
      en_ticks = 0\<rparr>"

subsection \<open>WorkflowService\<close>

definition id_of :: "string \<Rightarrow> string \<Rightarrow> string" where
  "id_of prefix u = prefix @ take 12 u"

text \<open>One fresh task id per task of the definition, in order.\<close>

fun create_task_runs :: "env \<Rightarrow> run_id \<Rightarrow> task_definition list \<Rightarrow> task_run list eff" where
  "create_task_runs e runId [] = ret []"
| "create_task_runs e runId (t # ts) =
     bind_a (read_env (uuid e)) (\<lambda>u.
     bind_a (create_task_runs e runId ts) (\<lambda>rs.
       ret (createTaskRun (id_of ''task_'' u) runId (td_id t) (td_handler t) # rs)))"

definition createRun ::
    "env \<Rightarrow> job_id \<Rightarrow> string \<Rightarrow> jsobj \<Rightarrow> (job_run \<times> workflow_instance \<times> job_definition) eng" where
  "createRun e jobId trigger input =
     bind_a (reads (\<lambda>s. job_store_get (en_jobs s) jobId)) (\<lambda>found.
     case found of
       None \<Rightarrow> throw (NotFoundError ''JobDefinition'' jobId)
     | Some definition \<Rightarrow>
         bind_a (with_env (read_env (uuid e))) (\<lambda>u1.
         bind_a (with_env (read_env (uuid e))) (\<lambda>u2.
         bind_a (with_env (read_env (clk e))) (\<lambda>now.
         let runId = id_of ''run_'' u1; workflowId = id_of ''wf_'' u2 in
         bind_a (with_env (create_task_runs e runId (jd_tasks definition))) (\<lambda>tasks.
         let workflow =
               \<lparr>wf_id = workflowId, wf_jobId = jobId, wf_runId = runId, wf_state = Pending,
                wf_currentTaskId = None, wf_context = input, wf_tasks = tasks, wf_history = [],
                wf_version = 1, wf_createdAt = now, wf_updatedAt = now\<rparr>;
             run =
               \<lparr>jr_id = runId, jr_jobId = jobId, jr_workflowId = workflowId, jr_status = Pending,
                jr_startedAt = now, jr_finishedAt = None, jr_trigger = trigger, jr_input = input\<rparr> in
         bind_a (writes (\<lambda>s. s\<lparr>en_workflows := workflow_store_save workflow (en_workflows s)\<rparr>)) (\<lambda>_.
         bind_a (writes (\<lambda>s. s\<lparr>en_runs := run_store_save run (en_runs s)\<rparr>)) (\<lambda>_.
           ret (run, workflow, definition))))))))"

definition getWorkflowByRun :: "run_id \<Rightarrow> workflow_instance eng" where
  "getWorkflowByRun runId =
     bind_a (reads (\<lambda>s. workflow_store_getByRunId (en_workflows s) runId)) (\<lambda>wf.
       case wf of None \<Rightarrow> throw (NotFoundError ''WorkflowInstance'' runId) | Some w \<Rightarrow> ret w)"

subsection \<open>RunContextFactory\<close>

record run_context =
  rc_run :: job_run
  rc_definition :: job_definition
  rc_workflow :: workflow_instance

definition run_context_build :: "job_run \<Rightarrow> job_definition \<Rightarrow> workflow_instance \<Rightarrow> run_context res" where
  "run_context_build run definition workflow =
     (if jr_id run \<noteq> wf_runId workflow then Inl (JsError ''run/workflow mismatch'')
      else if jd_id definition \<noteq> jr_jobId run then Inl (JsError ''run/job definition mismatch'')
      else Inr \<lparr>rc_run = run, rc_definition = definition, rc_workflow = workflow\<rparr>)"

definition taskOutputs :: "run_context \<Rightarrow> (string, jsobj) jsmap" where
  "taskOutputs ctx =
     fold (\<lambda>t out. case tr_output t of Some v \<Rightarrow> map_set (tr_definitionTaskId t) v out | None \<Rightarrow> out)
       (wf_tasks (rc_workflow ctx)) []"

definition getRunId :: "run_context \<Rightarrow> run_id" where
  "getRunId ctx = jr_id (rc_run ctx)"

subsection \<open>WorkflowOrchestrator\<close>

definition emit :: "domain_event \<Rightarrow> unit eng" where
  "emit ev = writes (\<lambda>s. s\<lparr>en_bus := publish ev (en_bus s)\<rparr>)"

text \<open>The machine's two clock readings come after its check of the table.\<close>

definition machine_transition ::
    "env \<Rightarrow> workflow_instance \<Rightarrow> string \<Rightarrow> workflow_state \<Rightarrow> string \<Rightarrow> workflow_instance eng" where
  "machine_transition e inst ev target actor s =
     (case transition DEFAULT_TRANSITION_RULES (clk e (en_ticks s)) (clk e (Suc (en_ticks s)))
             inst ev target actor None of
        Inl err \<Rightarrow> (Inl err, s)
      | Inr w \<Rightarrow> (Inr w, s\<lparr>en_ticks := Suc (Suc (en_ticks s))\<rparr>))"

definition sync_run :: "env \<Rightarrow> workflow_instance \<Rightarrow> workflow_state \<Rightarrow> unit eng" where
  "sync_run e w target =
     bind_a (reads (\<lambda>s. run_store_get (en_runs s) (wf_runId w))) (\<lambda>found.
     case found of
       None \<Rightarrow> ret ()
     | Some run \<Rightarrow>
         bind_a (if isTerminal target
                 then bind_a (with_env (read_env (clk e))) (\<lambda>now.
                        ret (run\<lparr>jr_status := target, jr_finishedAt := Some now\<rparr>))
                 else ret (run\<lparr>jr_status := target\<rparr>)) (\<lambda>run'.
         writes (\<lambda>s. s\<lparr>en_runs := run_store_save run' (en_runs s)\<rparr>)))"

definition applyTransition ::
    "env \<Rightarrow> workflow_instance \<Rightarrow> string \<Rightarrow> workflow_state \<Rightarrow> string \<Rightarrow> workflow_instance eng" where
  "applyTransition e inst ev target actor =
     bind_a (lift_r (evaluate inst ev target)) (\<lambda>_.
     bind_a (machine_transition e inst ev target actor) (\<lambda>w.
     bind_a (writes (\<lambda>s. s\<lparr>en_workflows := workflow_store_save w (en_workflows s)\<rparr>)) (\<lambda>_.
     bind_a (sync_run e w target) (\<lambda>_.
     bind_a (with_env (read_env (clk e))) (\<lambda>now.
     bind_a (emit (WorkflowTransitioned (wf_runId w) (wf_state inst) target ev now)) (\<lambda>_.
       ret w))))))"

definition startRun :: "env \<Rightarrow> workflow_instance \<Rightarrow> workflow_instance eng" where
  "startRun e workflow =
     (if wf_state workflow = Pending
      then applyTransition e workflow ''start'' Running ''orchestrator''
      else ret workflow)"

subsection \<open>ExecutionService\<close>

definition owner :: string where "owner = ''execution-service''"

definition updateTask :: "env \<Rightarrow> workflow_instance \<Rightarrow> task_run \<Rightarrow> workflow_instance eng" where
  "updateTask e workflow task =
     bind_a (with_env (read_env (clk e))) (\<lambda>now.
     let updated = workflow\<lparr>wf_tasks := map (\<lambda>t. if tr_id t = tr_id task then task else t) (wf_tasks workflow),
                            wf_updatedAt := now\<rparr> in
     bind_a (writes (\<lambda>s. s\<lparr>en_workflows := workflow_store_save updated (en_workflows s)\<rparr>)) (\<lambda>_.
       ret updated))"

definition recordDuration :: "string \<Rightarrow> int \<Rightarrow> unit eng" where
  "recordDuration handler ms =
     writes (\<lambda>s. s\<lparr>en_bus := (en_bus s)\<lparr>bus_metrics := recordTaskDuration handler ms (bus_metrics (en_bus s))\<rparr>\<rparr>)"

text \<open>The branch of the loop for a job with nothing left to run; the loop breaks after it.\<close>

definition finish_or_wait :: "env \<Rightarrow> job_run \<Rightarrow> job_definition \<Rightarrow> workflow_instance \<Rightarrow> workflow_instance eng" where
  "finish_or_wait e run definition workflow =
     (if allDone (wf_tasks workflow) (jd_tasks definition)
      then bind_a (lift_r (rule_engine_apply definition
               \<lparr>cc_context = wf_context workflow,
                cc_taskOutputs = taskOutputs \<lparr>rc_run = run, rc_definition = definition,
                                              rc_workflow = workflow\<rparr>\<rparr>)) (\<lambda>_.
           applyTransition e workflow ''complete'' Completed owner)
      else applyTransition e workflow ''await'' Waiting owner)"

text \<open>The branch for a runnable task; the flag says whether the loop breaks.\<close>

definition run_task ::
    "env \<Rightarrow> simulator \<Rightarrow> job_definition \<Rightarrow> workflow_instance \<Rightarrow> task_definition \<Rightarrow>
     (workflow_instance \<times> bool) eng" where
  "run_task e sim definition workflow nextDef =
     bind_a (with_env (read_env (date_now e))) (\<lambda>started.
     case List.find (\<lambda>t. tr_definitionTaskId t = td_id nextDef) (wf_tasks workflow) of
       None \<Rightarrow> throw (JsTypeError ''Cannot read properties of undefined'')
     | Some taskRun \<Rightarrow>
         bind_a (with_env (executor_run e sim taskRun nextDef (jd_retryPolicy definition)
             (wf_context workflow))) (\<lambda>result.
         bind_a (with_env (read_env (date_now e))) (\<lambda>finished.
         bind_a (recordDuration (td_handler nextDef) (finished - started)) (\<lambda>_.
         bind_a (updateTask e workflow (er_task result)) (\<lambda>w1.
         bind_a (if er_retryAfterMs result \<noteq> None
                 then updateTask e w1 ((er_task result)\<lparr>tr_status := TQueued\<rparr>)
                 else ret w1) (\<lambda>w2.
         if tr_status (er_task result) = TFailed
         then bind_a (applyTransition e w2 ''fail'' Failed owner) (\<lambda>w3. ret (w3, True))
         else ret (w2, False)))))))"

definition exec_body ::
    "env \<Rightarrow> simulator \<Rightarrow> job_run \<Rightarrow> job_definition \<Rightarrow> workflow_instance \<Rightarrow> (workflow_instance \<times> bool) eng" where
  "exec_body e sim run definition workflow =
     (case nextRunnable (wf_tasks workflow) (jd_tasks definition) of
        None \<Rightarrow> bind_a (finish_or_wait e run definition workflow) (\<lambda>w. ret (w, True))
      | Some nextDef \<Rightarrow> run_task e sim definition workflow nextDef)"

fun exec_loop ::
    "env \<Rightarrow> simulator \<Rightarrow> job_run \<Rightarrow> job_definition \<Rightarrow> nat \<Rightarrow> workflow_instance \<Rightarrow> engine \<Rightarrow>
     (workflow_instance res \<times> engine) option" where
  "exec_loop e sim run definition 0 workflow s = None"
| "exec_loop e sim run definition (Suc fuel) workflow s =
     (if wf_state workflow = Running
      then case exec_body e sim run definition workflow s of
             (Inl err, s') \<Rightarrow> Some (Inl err, s')
           | (Inr (w, stop), s') \<Rightarrow>
               if stop then Some (Inr w, s') else exec_loop e sim run definition fuel w s'
      else Some (Inr workflow, s))"

definition total_attempts :: "workflow_instance \<Rightarrow> nat" where
  "total_attempts w = sum_list (map tr_attempt (wf_tasks w))"

definition dead_letter_if_exhausted :: "env \<Rightarrow> run_id \<Rightarrow> job_definition \<Rightarrow> workflow_instance \<Rightarrow> unit eng" where
  "dead_letter_if_exhausted e runId definition workflow =
     (if wf_state workflow = Failed \<and>
         maxAttempts (jd_retryPolicy definition) * int (length (jd_tasks definition))
           \<le> int (total_attempts workflow)
      then bind_a (applyTransition e workflow ''dead_letter'' DeadLettered owner) (\<lambda>w.
           bind_a (with_env (read_env (clk e))) (\<lambda>now.
           writes (\<lambda>s. s\<lparr>en_dead := dead_letter_push runId
               [(''reason'', VStr (failure_reason_str MaxRetriesExceeded)), (''workflowId'', VStr (wf_id w))]
               now (en_dead s)\<rparr>)))
      else ret ())"

text \<open>The body of the \<^verbatim>\<open>try\<close> block.\<close>

definition execute_locked :: "env \<Rightarrow> simulator \<Rightarrow> nat \<Rightarrow> run_id \<Rightarrow> engine \<Rightarrow> (unit res \<times> engine) option" where
  "execute_locked e sim fuel runId s =
     (case run_store_get (en_runs s) runId of
        None \<Rightarrow> Some (Inl (NotFoundError ''JobRun'' runId), s)
      | Some run \<Rightarrow>
     (case job_store_get (en_jobs s) (jr_jobId run) of
        None \<Rightarrow> Some (Inl (NotFoundError ''JobDefinition'' (jr_jobId run)), s)
      | Some definition \<Rightarrow>
     (case workflow_store_getByRunId (en_workflows s) runId of
        None \<Rightarrow> Some (Inl (NotFoundError ''WorkflowInstance'' runId), s)
      | Some workflow \<Rightarrow>
     (case startRun e workflow s of
        (Inl err, s1) \<Rightarrow> Some (Inl err, s1)
      | (Inr w1, s1) \<Rightarrow>
          map_option (\<lambda>(r, s2). case r of
              Inl err \<Rightarrow> (Inl err, s2)
            | Inr w2 \<Rightarrow> dead_letter_if_exhausted e runId definition w2 s2)
            (exec_loop e sim run definition fuel w1 s1)))))"

definition release_locks :: "run_id \<Rightarrow> engine \<Rightarrow> engine" where
  "release_locks runId s =
     s\<lparr>en_localLocks := set_delete runId (en_localLocks s),
       en_runLocks := lock_release runId owner (en_runLocks s)\<rparr>"

text \<open>
  The local lock is taken before the registry is asked, and the registry is asked before the
  \<^verbatim>\<open>try\<close> block whose \<^verbatim>\<open>finally\<close> gives both back.
\<close>

definition executeRun :: "env \<Rightarrow> simulator \<Rightarrow> nat \<Rightarrow> run_id \<Rightarrow> engine \<Rightarrow> (unit res \<times> engine) option" where
  "executeRun e sim fuel runId s =
     (if runId \<in> set (en_localLocks s) then Some (Inr (), s)
      else let s1 = s\<lparr>en_localLocks := set_add runId (en_localLocks s)\<rparr> in
           case lock_acquire runId owner (en_runLocks s1) of
             Inl err \<Rightarrow> Some (Inl err, s1)
           | Inr locks \<Rightarrow>
               map_option (\<lambda>(r, s2). (r, release_locks runId s2))
                 (execute_locked e sim fuel runId (s1\<lparr>en_runLocks := locks\<rparr>)))"

end
