(* ===== verification/Steps.thy ===== *)
theory Steps
  imports Prelude
begin

section \<open>Step relations\<close>

text \<open>
  What the interleaved parts of the program have in common: a step relation whose invariant every
  step keeps, whose steps use up a weight, and which is never stuck before it has returned. Each is
  an interface of its own that extends the one before, interpreted on the relations of the workflow
  instances, the batches, the parallel executor and the interleaved executions.
\<close>

locale invariant_steps =
  fixes step :: "'s \<Rightarrow> 's \<Rightarrow> bool"
    and inv :: "'s \<Rightarrow> bool"
  assumes inv_step: "step s s' \<Longrightarrow> inv s \<Longrightarrow> inv s'"
begin

lemma inv_steps: "step\<^sup>*\<^sup>* s s' \<Longrightarrow> inv s \<Longrightarrow> inv s'"
  by (induction rule: rtranclp_induct) (auto intro: inv_step)

lemma inv_counted: "(step ^^ n) s s' \<Longrightarrow> inv s \<Longrightarrow> inv s'"
  by (rule inv_steps [OF relpowp_imp_rtranclp])

end

locale measured_steps = invariant_steps step inv
  for step :: "'s \<Rightarrow> 's \<Rightarrow> bool" and inv :: "'s \<Rightarrow> bool" +
  fixes weight :: "'s \<Rightarrow> nat"
  assumes step_weight: "inv s \<Longrightarrow> step s s' \<Longrightarrow> weight s' < weight s"
begin

lemma steps_bounded: "(step ^^ n) s s' \<Longrightarrow> inv s \<Longrightarrow> n + weight s' \<le> weight s"
proof (induction n arbitrary: s')
  case (Suc n)
  then obtain t where t: "(step ^^ n) s t" "step t s'" by auto
  then have "inv t" using inv_counted Suc.prems(2) by blast
  then show ?case using t Suc.IH [of t] Suc.prems(2) step_weight [of t s'] by simp
qed simp

end

locale ending_steps = measured_steps step inv weight
  for step :: "'s \<Rightarrow> 's \<Rightarrow> bool" and inv :: "'s \<Rightarrow> bool" and weight :: "'s \<Rightarrow> nat" +
  fixes returned :: "'s \<Rightarrow> bool"
  assumes progress: "inv s \<Longrightarrow> \<not> returned s \<Longrightarrow> \<exists>s'. step s s'"
begin

text \<open>From a good state every way of stepping on returns, within the weight of the state.\<close>

lemma ends: "inv s \<Longrightarrow> \<exists>n s'. (step ^^ n) s s' \<and> n \<le> weight s \<and> inv s' \<and> returned s'"
proof (induction "weight s" arbitrary: s rule: less_induct)
  case less
  show ?case
  proof (cases "returned s")
    case True
    with less.prems show ?thesis by (intro exI [of _ 0] exI [of _ s]) simp
  next
    case False
    then obtain t where t: "step s t" using progress less.prems by blast
    then obtain n s' where n: "(step ^^ n) t s'" "inv s'" "returned s'"
      using less.hyps step_weight inv_step less.prems by blast
    then have r: "(step ^^ Suc n) s s'" using t by (metis relpowp_Suc_I2)
    moreover have "Suc n \<le> weight s" using steps_bounded [OF r less.prems] by simp
    ultimately show ?thesis using n(2,3) by blast
  qed
qed

end

end
