(* ===== verification/Runs.thy ===== *)
theory Runs
  imports Execution Steps
begin

section \<open>Executions settle\<close>

text \<open>
  The correctness of \<open>executeRun\<close> on validated jobs. \<open>moved\<close> says what an operation may change;
  \<open>run_inv\<close> is the invariant of the stored instance (one run per task, attempts within the
  budget, dependencies done before a task is first tried); \<open>pending_work\<close> is the measure of the
  loop, and bounds the fuel. \<open>executeRun_ends\<close> collects the result, \<open>createRun_ready\<close> shows that
  the workflow service produces runs it applies to.
\<close>

subsection \<open>What one operation of the engine leaves alone\<close>

text \<open>The stored instance and run of \<open>r\<close>: the instance is \<open>w\<close> and both agree on the state.\<close>

definition current :: "run_id \<Rightarrow> engine \<Rightarrow> workflow_instance \<Rightarrow> bool" where
  "current r s w \<longleftrightarrow>
     workflow_store_ok (en_workflows s) \<and> workflow_store_getByRunId (en_workflows s) r = Some w \<and>
     store_ok jr_id (en_runs s) \<and>
     (\<exists>run. run_store_get (en_runs s) r = Some run \<and> jr_status run = wf_state w)"

definition framed :: "run_id \<Rightarrow> engine \<Rightarrow> engine \<Rightarrow> bool" where
  "framed r s s' \<longleftrightarrow>
     en_jobs s' = en_jobs s \<and> en_localLocks s' = en_localLocks s \<and> en_runLocks s' = en_runLocks s \<and>
     mt_counters (bus_metrics (en_bus s')) = mt_counters (bus_metrics (en_bus s)) \<and>
     bus_outbox (en_bus s') = bus_outbox (en_bus s) \<and>
     (\<forall>r'. r' \<noteq> r \<longrightarrow>
        workflow_store_getByRunId (en_workflows s') r' = workflow_store_getByRunId (en_workflows s) r' \<and>
        run_store_get (en_runs s') r' = run_store_get (en_runs s) r')"

text \<open>From \<open>w\<close> in \<open>s\<close> to \<open>w'\<close> in \<open>s'\<close> by steps of the state machine and task updates.\<close>

definition moved :: "run_id \<Rightarrow> workflow_instance \<Rightarrow> engine \<Rightarrow> workflow_instance \<Rightarrow> engine \<Rightarrow> bool" where
  "moved r w s w' s' \<longleftrightarrow>
     current r s' w' \<and> framed r s s' \<and> en_dead s' = en_dead s \<and> workflow_step\<^sup>*\<^sup>* w w' \<and>
     wf_context w' = wf_context w"

lemma framed_refl [simp]: "framed r s s"
  by (simp add: framed_def)

lemma framed_trans: "framed r a b \<Longrightarrow> framed r b c \<Longrightarrow> framed r a c"
  by (simp add: framed_def)

lemma moved_trans: "moved r w s w1 s1 \<Longrightarrow> moved r w1 s1 w2 s2 \<Longrightarrow> moved r w s w2 s2"
  by (auto simp: moved_def intro: framed_trans)

lemma moved_refl: "current r s w \<Longrightarrow> moved r w s w s"
  by (simp add: moved_def)

lemma moved_ticks: "current r s w \<Longrightarrow> moved r w s w (s\<lparr>en_ticks := n\<rparr>)"
  by (simp add: moved_def current_def framed_def)

lemma moved_current: "moved r w s w' s' \<Longrightarrow> current r s' w'"
  by (simp add: moved_def)

lemma with_env_apply: "m (en_ticks s) = (x, n) \<Longrightarrow> with_env m s = (x, s\<lparr>en_ticks := n\<rparr>)"
  by (simp add: with_env_def)

lemma current_runId: "current r s w \<Longrightarrow> wf_runId w = r"
  using wfs.getByRunId_runId by (auto simp: current_def)

text \<open>Saving a new version of the current instance.\<close>

lemma current_save:
  assumes "current r s w" and "wf_id w' = wf_id w" and "wf_runId w' = wf_runId w"
    and "wf_state w' = wf_state w"
  shows "current r (s\<lparr>en_workflows := workflow_store_save w' (en_workflows s)\<rparr>) w' \<and>
         framed r s (s\<lparr>en_workflows := workflow_store_save w' (en_workflows s)\<rparr>)"
proof -
  have r: "wf_runId w' = r" using assms current_runId by simp
  have ok: "workflow_store_ok (en_workflows s)" "workflow_store_getByRunId (en_workflows s) r = Some w"
    using assms(1) by (simp_all add: current_def)
  show ?thesis
    using assms(1,4) wfs.getByRunId_update [OF ok assms(2) r] wfs.invar_update [OF ok assms(2) r]
    by (auto simp: current_def framed_def)
qed

lemma updateTask_moved:
  assumes "current r s w"
  shows "\<exists>w' s'. updateTask e w t s = (Inr w', s') \<and> moved r w s w' s' \<and> wf_state w' = wf_state w \<and>
           wf_tasks w' = map (\<lambda>u. if tr_id u = tr_id t then t else u) (wf_tasks w)"
proof -
  let ?s = "s\<lparr>en_ticks := Suc (en_ticks s)\<rparr>"
  let ?w = "w\<lparr>wf_tasks := map (\<lambda>u. if tr_id u = tr_id t then t else u) (wf_tasks w),
              wf_updatedAt := clk e (en_ticks s)\<rparr>"
  let ?s' = "?s\<lparr>en_workflows := workflow_store_save ?w (en_workflows ?s)\<rparr>"
  have "current r ?s w" using moved_ticks [OF assms] by (rule moved_current)
  then have "current r ?s' ?w \<and> framed r ?s ?s'" by (rule current_save) simp_all
  moreover have "framed r s ?s" by (simp add: framed_def)
  moreover have "workflow_step w ?w" by (rule update_tasks)
  ultimately have "moved r w s ?w ?s'"
    by (auto simp: moved_def intro: framed_trans)
  moreover have "updateTask e w t s = (Inr ?w, ?s')"
    by (simp add: updateTask_def with_env_apply Let_def)
  ultimately show ?thesis by (intro exI [of _ ?w] exI [of _ ?s']) simp
qed

lemma publish_transition:
  "mt_counters (bus_metrics (publish (WorkflowTransitioned r a b ev now) b0)) = mt_counters (bus_metrics b0)"
  "bus_outbox (publish (WorkflowTransitioned r a b ev now) b0) = bus_outbox b0"
  by (simp_all add: publish_def)

lemma sync_run_result:
  assumes "run_store_get (en_runs s) (wf_runId w) = Some run"
  obtains run' n where "sync_run e w target s = (Inr (), s\<lparr>en_ticks := n, en_runs := run_store_save run' (en_runs s)\<rparr>)"
    and "jr_id run' = jr_id run" and "jr_status run' = target"
proof (cases "isTerminal target")
  case True
  then show thesis
    using assms by (intro that [of "run\<lparr>jr_status := target, jr_finishedAt := Some (clk e (en_ticks s))\<rparr>" "Suc (en_ticks s)"])
      (simp_all add: sync_run_def with_env_apply)
next
  case False
  then show thesis
    using assms by (intro that [of "run\<lparr>jr_status := target\<rparr>" "en_ticks s"]) (simp_all add: sync_run_def)
qed

text \<open>Saving the next state of an instance with a run record in step with it.\<close>

lemma current_next:
  assumes cur: "current r s w" and w': "wf_id w' = wf_id w" "wf_runId w' = r"
    and run: "jr_id run = r" "jr_status run = wf_state w'"
    and s': "s' = s\<lparr>en_ticks := n, en_workflows := workflow_store_save w' (en_workflows s),
        en_runs := run_store_save run (en_runs s), en_bus := publish (WorkflowTransitioned r a b ev now) (en_bus s)\<rparr>"
  shows "current r s' w' \<and> framed r s s'"
proof -
  have ok: "workflow_store_ok (en_workflows s)" "workflow_store_getByRunId (en_workflows s) r = Some w"
    "store_ok jr_id (en_runs s)"
    using cur by (simp_all add: current_def)
  show ?thesis
    using ok(3) run wfs.getByRunId_update [OF ok(1,2) w'] wfs.invar_update [OF ok(1,2) w']
    by (auto simp: current_def framed_def s' runs.invar_save runs.get_save publish_transition)
qed

lemma applyTransition_moved:
  assumes cur: "current r s w" and guard: "evaluate w ev target = Inr ()"
    and can: "canTransition DEFAULT_TRANSITION_RULES (wf_state w) target ev"
  shows "\<exists>w' s'. applyTransition e w ev target actor s = (Inr w', s') \<and> moved r w s w' s' \<and>
           wf_state w' = target \<and> wf_tasks w' = wf_tasks w"
proof -
  define at1 at2 where "at1 = clk e (en_ticks s)" and "at2 = clk e (Suc (en_ticks s))"
  obtain w' where t: "transition DEFAULT_TRANSITION_RULES at1 at2 w ev target actor None = Inr w'"
    using can by (auto simp: transition_Inr)
  then have w': "wf_id w' = wf_id w" "wf_runId w' = wf_runId w" "wf_state w' = target"
    "wf_tasks w' = wf_tasks w" "wf_context w' = wf_context w"
    by (auto simp: transition_Inr)
  have r: "wf_runId w' = r" using cur current_runId w' by simp
  have step: "workflow_step w w'" using guard t by (rule apply_transition)
  obtain run where run: "run_store_get (en_runs s) r = Some run" using cur by (auto simp: current_def)
  have runid: "jr_id run = r" using cur run runs.get_key by (auto simp: current_def)
  define s1 where "s1 = s\<lparr>en_ticks := Suc (Suc (en_ticks s)), en_workflows := workflow_store_save w' (en_workflows s)\<rparr>"
  have m: "machine_transition e w ev target actor s = (Inr w', s\<lparr>en_ticks := Suc (Suc (en_ticks s))\<rparr>)"
    using t by (simp add: machine_transition_def at1_def at2_def)
  have got: "run_store_get (en_runs s1) (wf_runId w') = Some run" using run r by (simp add: s1_def)
  obtain run' n where sync: "sync_run e w' target s1 =
      (Inr (), s1\<lparr>en_ticks := n, en_runs := run_store_save run' (en_runs s1)\<rparr>)"
    and run': "jr_id run' = r" "jr_status run' = wf_state w'"
    using sync_run_result [OF got, of e target] unfolding runid w'(3) .
  let ?ev = "WorkflowTransitioned r (wf_state w) target ev (clk e n)"
  define s2 where "s2 = s\<lparr>en_ticks := Suc n, en_workflows := workflow_store_save w' (en_workflows s),
      en_runs := run_store_save run' (en_runs s), en_bus := publish ?ev (en_bus s)\<rparr>"
  have "applyTransition e w ev target actor s = (Inr w', s2)"
    using guard m sync r by (simp add: applyTransition_def s1_def s2_def with_env_apply emit_def)
  moreover have "moved r w s w' s2"
    using current_next [OF cur w'(1) r run' s2_def] step w'(5) by (auto simp: moved_def s2_def)
  ultimately show ?thesis using w' by blast
qed

subsection \<open>The invariant of a run\<close>

text \<open>How many times a task of the job is tried at most.\<close>

definition budget :: "job_definition \<Rightarrow> nat" where
  "budget def = nat (max 1 (maxAttempts (jd_retryPolicy def) - 1))"

definition deps_done :: "job_definition \<Rightarrow> task_run list \<Rightarrow> string \<Rightarrow> bool" where
  "deps_done def ts i \<longleftrightarrow>
     (\<forall>d \<in> set (jd_tasks def). td_id d = i \<longrightarrow>
        (\<forall>j \<in> set (td_deps d). \<exists>u \<in> set ts. tr_definitionTaskId u = j \<and> task_done (tr_status u)))"

definition task_inv :: "job_definition \<Rightarrow> task_run list \<Rightarrow> task_run \<Rightarrow> bool" where
  "task_inv def ts t \<longleftrightarrow>
     (tr_status t = TQueued \<and> tr_attempt t < budget def \<or>
      task_done (tr_status t) \<and> tr_attempt t \<le> budget def \<or>
      tr_status t = TFailed \<and> tr_attempt t = budget def) \<and>
     (tr_attempt t \<noteq> 0 \<longrightarrow> deps_done def ts (tr_definitionTaskId t))"

definition run_inv :: "job_definition \<Rightarrow> workflow_instance \<Rightarrow> bool" where
  "run_inv def w \<longleftrightarrow>
     map tr_definitionTaskId (wf_tasks w) = map td_id (jd_tasks def) \<and>
     distinct (map tr_id (wf_tasks w)) \<and>
     (\<forall>t \<in> set (wf_tasks w). task_inv def (wf_tasks w) t)"

definition no_failure :: "workflow_instance \<Rightarrow> bool" where
  "no_failure w \<longleftrightarrow> (\<forall>t \<in> set (wf_tasks w). tr_status t \<noteq> TFailed)"

definition has_failure :: "workflow_instance \<Rightarrow> bool" where
  "has_failure w \<longleftrightarrow> (\<exists>t \<in> set (wf_tasks w). tr_status t = TFailed)"

definition all_done :: "workflow_instance \<Rightarrow> bool" where
  "all_done w \<longleftrightarrow> (\<forall>t \<in> set (wf_tasks w). task_done (tr_status t))"

definition task_work :: "nat \<Rightarrow> task_run \<Rightarrow> nat" where
  "task_work b t = (if task_done (tr_status t) then 0 else b - tr_attempt t)"

definition pending_work :: "job_definition \<Rightarrow> workflow_instance \<Rightarrow> nat" where
  "pending_work def w = sum_list (map (task_work (budget def)) (wf_tasks w))"

text \<open>Replacing the task run with the id of \<open>x\<close> in a list with distinct ids.\<close>

definition replace_task :: "task_run \<Rightarrow> task_run list \<Rightarrow> task_run list" where
  "replace_task x ts = map (\<lambda>u. if tr_id u = tr_id x then x else u) ts"

lemma set_replace_task:
  assumes "distinct (map tr_id ts)" and "t \<in> set ts" and "tr_id x = tr_id t"
  shows "set (replace_task x ts) = insert x (set ts - {t})"
proof -
  have "u = t" if "u \<in> set ts" "tr_id u = tr_id t" for u
    using assms(1,2) that by (metis distinct_map inj_on_def)
  then show ?thesis using assms(2,3) by (auto simp: replace_task_def)
qed

lemma map_replace_task:
  assumes "distinct (map tr_id ts)" and "t \<in> set ts" and "tr_id x = tr_id t" and "f x = f t"
  shows "map f (replace_task x ts) = map f ts"
proof -
  have "u = t" if "u \<in> set ts" "tr_id u = tr_id t" for u
    using assms(1,2) that by (metis distinct_map inj_on_def)
  then show ?thesis using assms(3,4) by (auto simp: replace_task_def)
qed

lemma sum_replace_task:
  fixes f :: "task_run \<Rightarrow> nat"
  assumes "distinct (map tr_id ts)" and "t \<in> set ts" and "tr_id x = tr_id t"
  shows "sum_list (map f (replace_task x ts)) + f t = sum_list (map f ts) + f x"
  using assms
proof (induction ts)
  case Nil
  then show ?case by simp
next
  case (Cons u us)
  show ?case
  proof (cases "u = t")
    case True
    then have "tr_id t \<notin> tr_id ` set us" using Cons.prems by simp
    then have "tr_id v \<noteq> tr_id x" if "v \<in> set us" for v
      using that Cons.prems(3) by (metis imageI)
    then have "replace_task x us = us" by (simp add: replace_task_def map_idI)
    then show ?thesis using True Cons.prems by (simp add: replace_task_def)
  next
    case False
    then have "tr_id u \<noteq> tr_id t" using Cons.prems by auto
    then show ?thesis using False Cons by (simp add: replace_task_def)
  qed
qed

lemma replace_task_twice: "tr_id y = tr_id x \<Longrightarrow> replace_task y (replace_task x ts) = replace_task y ts"
  by (simp add: replace_task_def)

lemma status_done_iff:
  assumes "distinct (map tr_definitionTaskId ts)"
  shows "status_done (status_by_def ts) i \<longleftrightarrow>
           (\<exists>u \<in> set ts. tr_definitionTaskId u = i \<and> task_done (tr_status u))"
proof (cases "i \<in> tr_definitionTaskId ` set ts")
  case True
  then obtain u where u: "u \<in> set ts" "i = tr_definitionTaskId u" by blast
  have "v = u" if "v \<in> set ts" "tr_definitionTaskId v = i" for v
    using assms u that by (metis distinct_map inj_on_def)
  then show ?thesis
    using u status_by_def_get [OF assms u(1)] by (auto simp: status_done_def task_done_def)
next
  case False
  then have "map_get (status_by_def ts) i = None"
    by (simp add: map_get_None_iff status_by_def_def map_from_distinct [where ps = "map (\<lambda>t. (tr_definitionTaskId t, tr_status t)) ts"] assms comp_def image_image)
  then show ?thesis using False by (auto simp: status_done_def)
qed

lemma budget_pos: "0 < budget def"
  by (simp add: budget_def)

lemma deps_done_mono:
  assumes "deps_done def ts i"
    and "\<And>u. u \<in> set ts \<Longrightarrow> task_done (tr_status u) \<Longrightarrow>
           \<exists>v \<in> set ts'. tr_definitionTaskId v = tr_definitionTaskId u \<and> task_done (tr_status v)"
  shows "deps_done def ts' i"
  using assms unfolding deps_done_def by metis

text \<open>
  The step every execution of a task amounts to: a queued task whose dependencies are done is
  replaced by its next version.
\<close>

lemma run_inv_replace:
  assumes inv: "run_inv def w" and t: "t \<in> set (wf_tasks w)" "tr_status t = TQueued"
    and deps: "deps_done def (wf_tasks w) (tr_definitionTaskId t)"
    and x: "same_task x t"
      "tr_status x = TQueued \<and> tr_attempt x < budget def \<or>
       task_done (tr_status x) \<and> tr_attempt x \<le> budget def \<or>
       tr_status x = TFailed \<and> tr_attempt x = budget def"
    and w': "wf_tasks w' = replace_task x (wf_tasks w)"
  shows "run_inv def w'"
proof -
  have ids: "distinct (map tr_id (wf_tasks w))" using inv by (simp add: run_inv_def)
  have xid: "tr_id x = tr_id t" "tr_definitionTaskId x = tr_definitionTaskId t"
    using x(1) by (simp_all add: same_task_def)
  note set' = set_replace_task [OF ids t(1) xid(1)]
  have mono: "deps_done def (replace_task x (wf_tasks w)) i" if "deps_done def (wf_tasks w) i" for i
    using that
  proof (rule deps_done_mono)
    fix u assume "u \<in> set (wf_tasks w)" "task_done (tr_status u)"
    moreover from this have "u \<noteq> t" using t(2) by (auto simp: task_done_def)
    ultimately show "\<exists>v \<in> set (replace_task x (wf_tasks w)).
        tr_definitionTaskId v = tr_definitionTaskId u \<and> task_done (tr_status v)"
      using set' by blast
  qed
  have "task_inv def (replace_task x (wf_tasks w)) u" if "u \<in> set (replace_task x (wf_tasks w))" for u
  proof (cases "u = x")
    case True
    then show ?thesis using x(2) mono [OF deps] xid by (simp add: task_inv_def)
  next
    case False
    then have "task_inv def (wf_tasks w) u" using that set' inv by (simp add: run_inv_def)
    then show ?thesis using mono by (auto simp: task_inv_def)
  qed
  then show ?thesis
    using inv w' map_replace_task [OF ids t(1) xid(1), of tr_id] xid
      map_replace_task [OF ids t(1) xid(1), of tr_definitionTaskId]
    by (simp add: run_inv_def)
qed

lemma pending_work_replace:
  assumes "run_inv def w" and "t \<in> set (wf_tasks w)" and "tr_id x = tr_id t"
    and "wf_tasks w' = replace_task x (wf_tasks w)"
    and "task_work (budget def) x < task_work (budget def) t"
  shows "pending_work def w' < pending_work def w"
  using assms sum_replace_task [of "wf_tasks w" t x "task_work (budget def)"]
  by (simp add: run_inv_def pending_work_def)

lemma no_failure_replace:
  assumes "run_inv def w" and "no_failure w" and "t \<in> set (wf_tasks w)" and "tr_id x = tr_id t"
    and "wf_tasks w' = replace_task x (wf_tasks w)" and "tr_status x \<noteq> TFailed"
  shows "no_failure w'"
  using assms set_replace_task [of "wf_tasks w" t x] by (auto simp: run_inv_def no_failure_def)

lemma pending_work_bound: "run_inv def w \<Longrightarrow> pending_work def w \<le> length (jd_tasks def) * budget def"
proof -
  assume "run_inv def w"
  then have "length (wf_tasks w) = length (jd_tasks def)"
    unfolding run_inv_def by (metis length_map)
  moreover have "sum_list (map (task_work b) ts) \<le> length ts * b" for b ts
    by (induction ts) (auto simp: task_work_def)
  ultimately show ?thesis unfolding pending_work_def by metis
qed

lemma total_attempts_bound: "run_inv def w \<Longrightarrow> total_attempts w \<le> length (jd_tasks def) * budget def"
proof -
  assume inv: "run_inv def w"
  then have "length (wf_tasks w) = length (jd_tasks def)"
    unfolding run_inv_def by (metis length_map)
  moreover have "sum_list (map tr_attempt ts) \<le> length ts * b"
    if "\<forall>t \<in> set ts. tr_attempt t \<le> b" for b ts
    using that by (induction ts) auto
  moreover have "\<forall>t \<in> set (wf_tasks w). tr_attempt t \<le> budget def"
    using inv by (auto simp: run_inv_def task_inv_def)
  ultimately show ?thesis unfolding total_attempts_def by metis
qed

text \<open>All attempts of all tasks can only be used up under a policy of one attempt.\<close>

lemma exhausted_means_one:
  assumes "run_inv def w" and "well_formed_job def"
    and "maxAttempts (jd_retryPolicy def) * int (length (jd_tasks def)) \<le> int (total_attempts w)"
  shows "maxAttempts (jd_retryPolicy def) = 1"
proof -
  let ?M = "maxAttempts (jd_retryPolicy def)" and ?n = "length (jd_tasks def)"
  have pos: "1 \<le> ?M" "0 < ?n" using assms(2) by (auto simp: well_formed_job_def)
  have "?M * int ?n \<le> int (?n * budget def)"
    using assms(3) total_attempts_bound [OF assms(1)] by linarith
  then have "?M \<le> int (budget def)" using pos(2) by (simp add: mult.commute)
  then show ?thesis using pos(1) by (simp add: budget_def max_def split: if_splits)
qed

subsection \<open>One turn of the loop\<close>

text \<open>The rule engine stays within the modelled part of JavaScript for this job.\<close>

definition rules_modelled :: "job_definition \<Rightarrow> bool" where
  "rules_modelled def \<longleftrightarrow> (\<forall>c e. rule_engine_apply def c = Inl e \<longrightarrow> \<not> is_unmodelled e)"

lemma run_inv_defs:
  assumes "run_inv def w" and "well_formed_job def"
  shows "distinct (map tr_definitionTaskId (wf_tasks w))"
  using assms by (simp add: run_inv_def well_formed_job_def tasks_ok_def)

lemma no_failure_idle:
  assumes inv: "run_inv def w" and wf: "well_formed_job def" and nf: "no_failure w"
  shows "\<not> status_busy (status_by_def (wf_tasks w)) i"
proof
  assume "status_busy (status_by_def (wf_tasks w)) i"
  then have "i \<in> set (map_keys (status_by_def (wf_tasks w)))"
    unfolding status_busy_def by (metis map_get_None_iff option.distinct(1))
  then obtain u where u: "u \<in> set (wf_tasks w)" "i = tr_definitionTaskId u"
    by (auto simp: status_by_def_def map_from_distinct comp_def run_inv_defs [OF inv wf])
  moreover have "task_inv def (wf_tasks w) u" "tr_status u \<noteq> TFailed"
    using inv nf u by (simp_all add: run_inv_def no_failure_def)
  ultimately show False
    using \<open>status_busy _ i\<close> status_by_def_get [OF run_inv_defs [OF inv wf] u(1)]
    by (auto simp: status_busy_def task_inv_def task_done_def)
qed

lemma next_task_run:
  assumes inv: "run_inv def w" and wf: "well_formed_job def" and nf: "no_failure w"
    and nxt: "nextRunnable (wf_tasks w) (jd_tasks def) = Some d"
  obtains t where "List.find (\<lambda>t. tr_definitionTaskId t = td_id d) (wf_tasks w) = Some t"
    and "t \<in> set (wf_tasks w)" and "tr_definitionTaskId t = td_id d" and "tr_status t = TQueued"
    and "tr_attempt t < budget def" and "deps_done def (wf_tasks w) (td_id d)"
proof -
  note dd = run_inv_defs [OF inv wf]
  have d: "d \<in> set (jd_tasks def)" "\<not> status_done (status_by_def (wf_tasks w)) (td_id d)"
    "\<forall>i \<in> set (td_deps d). status_done (status_by_def (wf_tasks w)) i"
    using nextRunnable_Some [OF nxt] by simp_all
  have "td_id d \<in> set (map tr_definitionTaskId (wf_tasks w))"
    using d(1) inv by (simp add: run_inv_def del: set_map) simp
  then obtain t where t: "t \<in> set (wf_tasks w)" "tr_definitionTaskId t = td_id d" by auto
  have f: "List.find (\<lambda>t. tr_definitionTaskId t = td_id d) (wf_tasks w) = Some t"
    using find_distinct_key [OF dd t(1)] t(2) by simp
  have "\<not> task_done (tr_status t)" using d(2) t by (auto simp: status_done_iff [OF dd])
  then have st: "tr_status t = TQueued" "tr_attempt t < budget def"
    using inv nf t(1) by (auto simp: run_inv_def no_failure_def task_inv_def)
  have "deps_done def (wf_tasks w) (td_id d)"
    unfolding deps_done_def
  proof (intro ballI impI)
    fix d' j assume d': "d' \<in> set (jd_tasks def)" "td_id d' = td_id d" "j \<in> set (td_deps d')"
    then have "d' = d"
      using d(1) wf by (metis distinct_map inj_on_def tasks_ok_def well_formed_job_def)
    then show "\<exists>u \<in> set (wf_tasks w). tr_definitionTaskId u = j \<and> task_done (tr_status u)"
      using d(3) d'(3) by (simp add: status_done_iff [OF dd])
  qed
  then show ?thesis using that [OF f t(1,2) st] by blast
qed

lemma idle_all_done:
  assumes inv: "run_inv def w" and wf: "well_formed_job def" and nf: "no_failure w"
    and nxt: "nextRunnable (wf_tasks w) (jd_tasks def) = None"
  shows "all_done w \<and> allDone (wf_tasks w) (jd_tasks def)"
proof -
  note dd = run_inv_defs [OF inv wf]
  have finished: "status_done (status_by_def (wf_tasks w)) (td_id d)" if "d \<in> set (jd_tasks def)" for d
    using nextRunnable_progress [OF _ _ nxt no_failure_idle [OF inv wf nf] that] wf
    by (simp add: well_formed_job_def)
  have "task_done (tr_status t)" if t: "t \<in> set (wf_tasks w)" for t
  proof -
    have "tr_definitionTaskId t \<in> set (map td_id (jd_tasks def))"
      using t inv by (metis image_eqI list.set_map run_inv_def)
    then have "status_done (status_by_def (wf_tasks w)) (tr_definitionTaskId t)" using finished by auto
    then show ?thesis
      using status_by_def_get [OF dd t] by (auto simp: status_done_def task_done_def)
  qed
  then show ?thesis using finished by (simp add: all_done_def allDone_iff)
qed

text \<open>A tried task that is done, or queued again, brings the run closer to its end.\<close>

lemma replace_progress:
  assumes "run_inv def w" and "no_failure w" and "t \<in> set (wf_tasks w)" and "tr_status t = TQueued"
    and "deps_done def (wf_tasks w) (tr_definitionTaskId t)" and "tr_attempt t < budget def"
    and "same_task x t" and "tr_attempt x = Suc (tr_attempt t)"
    and "task_done (tr_status x) \<or> tr_status x = TQueued \<and> tr_attempt x < budget def"
    and "wf_tasks w' = replace_task x (wf_tasks w)"
  shows "run_inv def w' \<and> no_failure w' \<and> pending_work def w' < pending_work def w"
proof (intro conjI)
  have xid: "tr_id x = tr_id t" using assms(7) by (simp add: same_task_def)
  show "run_inv def w'"
    by (rule run_inv_replace [OF assms(1,3-5,7) _ assms(10)]) (use assms(6,8,9) in auto)
  show "no_failure w'"
    by (rule no_failure_replace [OF assms(1-3) xid assms(10)]) (use assms(9) in \<open>auto simp: task_done_def\<close>)
  show "pending_work def w' < pending_work def w"
    by (rule pending_work_replace [OF assms(1,3) xid assms(10)])
      (use assms(4,6,8,9) in \<open>auto simp: task_work_def task_done_def\<close>)
qed

text \<open>\<open>run_task\<close> up to the update with the executor's result, and what is left of it then.\<close>

definition after_try :: "env \<Rightarrow> execute_result \<Rightarrow> workflow_instance \<Rightarrow> (workflow_instance \<times> bool) eng" where
  "after_try e res w1 =
     bind_a (if er_retryAfterMs res \<noteq> None then updateTask e w1 ((er_task res)\<lparr>tr_status := TQueued\<rparr>) else ret w1) (\<lambda>w2.
     if tr_status (er_task res) = TFailed
     then bind_a (applyTransition e w2 ''fail'' Failed owner) (\<lambda>w3. ret (w3, True))
     else ret (w2, False))"

lemma run_task_tries:
  assumes "current r s w" and "wf_state w = Running"
    and "List.find (\<lambda>t. tr_definitionTaskId t = td_id d) (wf_tasks w) = Some t"
    and "executor_run e sim t d (jd_retryPolicy def) (wf_context w) (Suc (en_ticks s)) = (Inr res, n)"
  obtains w1 s1 where "run_task e sim def w d s = after_try e res w1 s1" and "moved r w s w1 s1"
    and "current r s1 w1" and "wf_state w1 = Running" and "wf_tasks w1 = replace_task (er_task res) (wf_tasks w)"
proof -
  define s0 where "s0 = s\<lparr>en_ticks := Suc n, en_bus := (en_bus s)\<lparr>bus_metrics :=
      recordTaskDuration (td_handler d) (date_now e n - date_now e (en_ticks s)) (bus_metrics (en_bus s))\<rparr>\<rparr>"
  have m0: "moved r w s w s0" using assms(1) by (simp add: moved_def current_def framed_def s0_def)
  obtain w1 s1 where u: "updateTask e w (er_task res) s0 = (Inr w1, s1)" and m1: "moved r w s0 w1 s1"
    and w1: "wf_state w1 = Running" "wf_tasks w1 = replace_task (er_task res) (wf_tasks w)"
    using updateTask_moved [OF moved_current [OF m0], of e "er_task res"] assms(2) by (auto simp: replace_task_def)
  have "run_task e sim def w d s = after_try e res w1 s1"
    using assms(3,4) u by (simp add: run_task_def after_try_def with_env_apply recordDuration_def s0_def)
  from that [OF this moved_trans [OF m0 m1] moved_current [OF m1] w1] show thesis .
qed

text \<open>Executing one task: an optional second update puts a retried task back in the queue.\<close>

lemma run_task_step:
  assumes cur: "current r s w" and st: "wf_state w = Running" and inv: "run_inv def w"
    and wf: "well_formed_job def" and nf: "no_failure w" and sim: "sim_modelled sim"
    and nxt: "nextRunnable (wf_tasks w) (jd_tasks def) = Some d"
  shows "\<exists>w' s' stop. run_task e sim def w d s = (Inr (w', stop), s') \<and> moved r w s w' s' \<and>
           run_inv def w' \<and>
           (if stop then wf_state w' = Failed \<and> has_failure w'
            else wf_state w' = Running \<and> no_failure w' \<and> pending_work def w' < pending_work def w)"
proof -
  obtain t where f: "List.find (\<lambda>t. tr_definitionTaskId t = td_id d) (wf_tasks w) = Some t"
    and t: "t \<in> set (wf_tasks w)" "tr_definitionTaskId t = td_id d" "tr_status t = TQueued"
      "tr_attempt t < budget def"
    and deps: "deps_done def (wf_tasks w) (tr_definitionTaskId t)"
    using next_task_run [OF inv wf nf nxt] by metis
  let ?p = "jd_retryPolicy def"
  obtain res n where ex: "executor_run e sim t d ?p (wf_context w) (Suc (en_ticks s)) = (Inr res, n)"
    and out: "outcome_ok ?p t res"
    using executor_run_total [OF sim] by blast
  let ?x = "er_task res"
  obtain w1 s1 where r: "run_task e sim def w d s = after_try e res w1 s1" and m1: "moved r w s w1 s1"
    and c1: "current r s1 w1" and w1: "wf_state w1 = Running" "wf_tasks w1 = replace_task ?x (wf_tasks w)"
    using run_task_tries [OF cur st f ex] .
  have same: "same_task ?x t" and att: "tr_attempt ?x = Suc (tr_attempt t)"
    using out by (simp_all add: outcome_ok_def)
  have max1: "1 \<le> maxAttempts ?p" using wf by (simp add: well_formed_job_def)
  note progress = replace_progress [OF inv nf t(1,3) deps t(4)]
  consider (ok) "tr_status ?x = TSucceeded" "er_retryAfterMs res = None"
    | (retry) "tr_status ?x = TRetrying" "er_retryAfterMs res \<noteq> None" "Suc (tr_attempt t) < budget def"
    | (fail) "tr_status ?x = TFailed" "er_retryAfterMs res = None" "Suc (tr_attempt t) = budget def"
    using out max1 t(4) by (auto simp: outcome_ok_def budget_def)
  then show ?thesis
  proof cases
    case ok
    then show ?thesis
      using r m1 w1 progress [OF same att _ w1(2)] by (auto simp: after_try_def task_done_def)
  next
    case retry
    let ?q = "?x\<lparr>tr_status := TQueued\<rparr>"
    obtain w2 s2 where u: "updateTask e w1 ?q s1 = (Inr w2, s2)" and m2: "moved r w1 s1 w2 s2"
      and w2: "wf_state w2 = Running" "wf_tasks w2 = replace_task ?q (wf_tasks w)"
      using updateTask_moved [OF c1, of e ?q] w1 replace_task_twice [of ?q ?x "wf_tasks w"]
      by (auto simp: replace_task_def)
    have "same_task ?q t" using same by (simp add: same_task_def)
    from progress [OF this _ _ w2(2)] show ?thesis
      using r u retry att w2(1) moved_trans [OF m1 m2] by (auto simp: after_try_def)
  next
    case fail
    obtain w2 s2 where a: "applyTransition e w1 ''fail'' Failed owner s1 = (Inr w2, s2)"
      and m2: "moved r w1 s1 w2 s2" and w2: "wf_state w2 = Failed" "wf_tasks w2 = wf_tasks w1"
      using applyTransition_moved [OF c1, of "''fail''" Failed e owner] w1(1)
      by (auto simp: evaluate_Inr canTransition_default)
    have "run_inv def w2"
      by (rule run_inv_replace [OF inv t(1,3) deps same]) (use fail att w2(2) w1(2) in simp_all)
    moreover have "has_failure w2"
      using set_replace_task [OF _ t(1), of ?x] same inv w2(2) w1(2) fail
      by (auto simp: has_failure_def run_inv_def same_task_def)
    ultimately show ?thesis
      using r a fail w2(1) moved_trans [OF m1 m2] by (auto simp: after_try_def)
  qed
qed

text \<open>The end of the loop: completed, failed, or blocked by a constraint.\<close>

definition loop_end ::
    "job_definition \<Rightarrow> workflow_instance \<Rightarrow> workflow_instance res \<Rightarrow> bool" where
  "loop_end def w res \<longleftrightarrow>
     run_inv def w \<and>
     (res = Inr w \<and> wf_state w = Completed \<and> all_done w \<or>
      res = Inr w \<and> wf_state w = Failed \<and> has_failure w \<or>
      (\<exists>m. res = Inl (ExecutionError ConstraintViolation m)) \<and> wf_state w = Running \<and> all_done w)"

lemma finish_passes:
  assumes cur: "current r s w" and st: "wf_state w = Running" and inv: "run_inv def w"
    and wf: "well_formed_job def" and nf: "no_failure w"
    and nxt: "nextRunnable (wf_tasks w) (jd_tasks def) = None"
    and pass: "rule_engine_apply def \<lparr>cc_context = wf_context w,
        cc_taskOutputs = taskOutputs \<lparr>rc_run = run, rc_definition = def, rc_workflow = w\<rparr>\<rparr> = Inr u"
  shows "\<exists>w' s'. finish_or_wait e run def w s = (Inr w', s') \<and> moved r w s w' s' \<and>
           run_inv def w' \<and> wf_state w' = Completed \<and> all_done w'"
proof -
  have ad: "all_done w" "allDone (wf_tasks w) (jd_tasks def)"
    using idle_all_done [OF inv wf nf nxt] by simp_all
  have "evaluate w ''complete'' Completed = Inr ()" using ad by (simp add: evaluate_Inr all_done_def)
  moreover have "canTransition DEFAULT_TRANSITION_RULES (wf_state w) Completed ''complete''"
    using st by (simp add: canTransition_default)
  ultimately obtain w' s' where a: "applyTransition e w ''complete'' Completed owner s = (Inr w', s')"
    "moved r w s w' s'" "wf_state w' = Completed" "wf_tasks w' = wf_tasks w"
    using applyTransition_moved [OF cur] by blast
  have "finish_or_wait e run def w s = (Inr w', s')"
    using ad pass a(1) by (simp add: finish_or_wait_def)
  then show ?thesis using a ad(1) inv by (auto simp: run_inv_def all_done_def)
qed

lemma finish_step:
  assumes cur: "current r s w" and st: "wf_state w = Running" and inv: "run_inv def w"
    and wf: "well_formed_job def" and nf: "no_failure w" and rules: "rules_modelled def"
    and nxt: "nextRunnable (wf_tasks w) (jd_tasks def) = None"
  shows "\<exists>res w' s'. finish_or_wait e run def w s = (res, s') \<and> moved r w s w' s' \<and> loop_end def w' res"
proof -
  have ad: "all_done w" "allDone (wf_tasks w) (jd_tasks def)"
    using idle_all_done [OF inv wf nf nxt] by simp_all
  let ?c = "\<lparr>cc_context = wf_context w, cc_taskOutputs = taskOutputs \<lparr>rc_run = run, rc_definition = def, rc_workflow = w\<rparr>\<rparr>"
  show ?thesis
  proof (cases "rule_engine_apply def ?c")
    case (Inl err)
    then have "\<exists>m. err = ExecutionError ConstraintViolation m"
      using rule_engine_error [OF Inl] rules by (auto simp: rules_modelled_def)
    then have "loop_end def w (Inl err)" using inv st ad by (simp add: loop_end_def)
    moreover have "finish_or_wait e run def w s = (Inl err, s)"
      using ad Inl by (simp add: finish_or_wait_def)
    ultimately show ?thesis using moved_refl [OF cur] by blast
  next
    case (Inr u)
    then show ?thesis
      using finish_passes [OF cur st inv wf nf nxt Inr, of e] by (auto simp: loop_end_def)
  qed
qed

lemma exec_loop_ends:
  assumes "current r s w" and "wf_state w = Running" and "run_inv def w" and "no_failure w"
    and wf: "well_formed_job def" and sim: "sim_modelled sim" and rules: "rules_modelled def"
    and "pending_work def w < fuel"
  shows "\<exists>res w' s'. exec_loop e sim run def fuel w s = Some (res, s') \<and> moved r w s w' s' \<and> loop_end def w' res"
  using assms(1-4,8)
proof (induction fuel arbitrary: w s)
  case 0
  then show ?case by simp
next
  case (Suc fuel)
  show ?case
  proof (cases "nextRunnable (wf_tasks w) (jd_tasks def)")
    case None
    obtain res w' s' where f: "finish_or_wait e run def w s = (res, s')" "moved r w s w' s'" "loop_end def w' res"
      using finish_step [OF Suc.prems(1-3) wf Suc.prems(4) rules None] by blast
    then have "exec_loop e sim run def (Suc fuel) w s = Some (res, s')"
      using Suc.prems(2) None by (cases res) (auto simp: exec_body_def bind_a_eq)
    then show ?thesis using f by blast
  next
    case (Some d)
    obtain w1 s1 stop where r: "run_task e sim def w d s = (Inr (w1, stop), s1)"
      and m: "moved r w s w1 s1" and inv1: "run_inv def w1"
      and c: "if stop then wf_state w1 = Failed \<and> has_failure w1
              else wf_state w1 = Running \<and> no_failure w1 \<and> pending_work def w1 < pending_work def w"
      using run_task_step [OF Suc.prems(1-3) wf Suc.prems(4) sim Some] by blast
    have b: "exec_body e sim run def w s = (Inr (w1, stop), s1)" using Some r by (simp add: exec_body_def)
    show ?thesis
    proof (cases stop)
      case True
      then have "exec_loop e sim run def (Suc fuel) w s = Some (Inr w1, s1)"
        using b Suc.prems(2) by simp
      moreover have "loop_end def w1 (Inr w1)" using c inv1 True by (simp add: loop_end_def)
      ultimately show ?thesis using m by blast
    next
      case False
      then obtain res w' s' where "exec_loop e sim run def fuel w1 s1 = Some (res, s')"
        "moved r w1 s1 w' s'" "loop_end def w' res"
        using Suc.IH [OF moved_current [OF m] _ inv1] c Suc.prems(5) by auto
      then show ?thesis using b Suc.prems(2) False moved_trans [OF m] by auto
    qed
  qed
qed

subsection \<open>A whole execution\<close>

definition exec_fuel :: "job_definition \<Rightarrow> nat" where
  "exec_fuel def = length (jd_tasks def) * budget def + 1"

text \<open>A stored run that can be executed: pending or running, nothing failed, nobody holds it.\<close>

definition ready_run :: "job_definition \<Rightarrow> run_id \<Rightarrow> engine \<Rightarrow> workflow_instance \<Rightarrow> bool" where
  "ready_run def r s w \<longleftrightarrow>
     current r s w \<and> wf_state w \<in> {Pending, Running} \<and> run_inv def w \<and> no_failure w \<and>
     (\<exists>run. run_store_get (en_runs s) r = Some run \<and>
            job_store_get (en_jobs s) (jr_jobId run) = Some def) \<and>
     r \<notin> set (en_localLocks s) \<and> map_get (en_runLocks s) r \<in> {None, Some owner}"

definition finished_run ::
    "job_definition \<Rightarrow> run_id \<Rightarrow> engine \<Rightarrow> unit res \<Rightarrow> workflow_instance \<Rightarrow> engine \<Rightarrow> bool" where
  "finished_run def r s res w' s' \<longleftrightarrow>
     run_inv def w' \<and>
     (res = Inr () \<and> wf_state w' = Completed \<and> all_done w' \<and> en_dead s' = en_dead s \<or>
      res = Inr () \<and> wf_state w' = Failed \<and> has_failure w' \<and> en_dead s' = en_dead s \<or>
      res = Inr () \<and> wf_state w' = DeadLettered \<and> has_failure w' \<and>
        maxAttempts (jd_retryPolicy def) = 1 \<and>
        (\<exists>entry. en_dead s' = en_dead s @ [entry] \<and> dl_runId entry = r) \<or>
      (\<exists>m. res = Inl (ExecutionError ConstraintViolation m)) \<and> wf_state w' = Running \<and>
        all_done w' \<and> en_dead s' = en_dead s)"

lemma startRun_step:
  assumes "current r s w" and "wf_state w \<in> {Pending, Running}"
  shows "\<exists>w' s'. startRun e w s = (Inr w', s') \<and> moved r w s w' s' \<and> wf_state w' = Running \<and>
           wf_tasks w' = wf_tasks w"
proof (cases "wf_state w = Pending")
  case True
  have "evaluate w ''start'' Running = Inr ()" by (simp add: evaluate_Inr)
  moreover have "canTransition DEFAULT_TRANSITION_RULES (wf_state w) Running ''start''"
    using True by (simp add: canTransition_default)
  ultimately show ?thesis
    using applyTransition_moved [OF assms(1), of "''start''" Running e "''orchestrator''"] True
    by (simp add: startRun_def)
next
  case False
  then show ?thesis using assms moved_refl by (auto simp: startRun_def)
qed

lemma dead_letter_step:
  assumes cur: "current r s w" and inv: "run_inv def w" and wf: "well_formed_job def"
    and st: "wf_state w \<noteq> Failed \<or> has_failure w"
  shows "\<exists>w' s'. dead_letter_if_exhausted e r def w s = (Inr (), s') \<and>
           current r s' w' \<and> framed r s s' \<and> workflow_step\<^sup>*\<^sup>* w w' \<and> wf_tasks w' = wf_tasks w \<and>
           (wf_state w' = wf_state w \<and> en_dead s' = en_dead s \<or>
            wf_state w = Failed \<and> wf_state w' = DeadLettered \<and> maxAttempts (jd_retryPolicy def) = 1 \<and>
              (\<exists>entry. en_dead s' = en_dead s @ [entry] \<and> dl_runId entry = r))"
proof (cases "wf_state w = Failed \<and> maxAttempts (jd_retryPolicy def) * int (length (jd_tasks def))
    \<le> int (total_attempts w)")
  case False
  then have "dead_letter_if_exhausted e r def w s = (Inr (), s)"
    by (auto simp: dead_letter_if_exhausted_def)
  then show ?thesis using cur by auto
next
  case True
  have one: "maxAttempts (jd_retryPolicy def) = 1"
    by (rule exhausted_means_one [OF inv wf]) (use True in simp)
  have "evaluate w ''dead_letter'' DeadLettered = Inr ()" by (simp add: evaluate_Inr)
  moreover have "canTransition DEFAULT_TRANSITION_RULES (wf_state w) DeadLettered ''dead_letter''"
    using True by (simp add: canTransition_default)
  ultimately obtain w' s1 where a: "applyTransition e w ''dead_letter'' DeadLettered owner s = (Inr w', s1)"
    and m: "moved r w s w' s1" and w': "wf_state w' = DeadLettered" "wf_tasks w' = wf_tasks w"
    using applyTransition_moved [OF cur] by blast
  let ?entry = "\<lparr>dl_runId = r, dl_payload = [(''reason'', VStr (failure_reason_str MaxRetriesExceeded)),
      (''workflowId'', VStr (wf_id w'))], dl_at = clk e (en_ticks s1)\<rparr>"
  let ?s' = "s1\<lparr>en_ticks := Suc (en_ticks s1), en_dead := en_dead s1 @ [?entry]\<rparr>"
  have "dead_letter_if_exhausted e r def w s = (Inr (), ?s')"
    using True a by (simp add: dead_letter_if_exhausted_def with_env_apply dead_letter_push_def)
  moreover have "current r ?s' w'" "framed r s ?s'" "en_dead ?s' = en_dead s @ [?entry]"
    using m by (auto simp: moved_def current_def framed_def)
  ultimately show ?thesis using True one m w' unfolding moved_def
    by (intro exI [of _ w'] exI [of _ ?s'] conjI disjI2) auto
qed

lemma execute_locked_ends:
  assumes cur: "current r s w" and st: "wf_state w \<in> {Pending, Running}" and inv: "run_inv def w"
    and nf: "no_failure w" and wf: "well_formed_job def" and sim: "sim_modelled sim"
    and rules: "rules_modelled def"
    and run: "run_store_get (en_runs s) r = Some run" "job_store_get (en_jobs s) (jr_jobId run) = Some def"
  shows "\<exists>res w' s'. execute_locked e sim (exec_fuel def) r s = Some (res, s') \<and>
           current r s' w' \<and> framed r s s' \<and> workflow_step\<^sup>*\<^sup>* w w' \<and> finished_run def r s res w' s'"
proof -
  obtain w1 s1 where start: "startRun e w s = (Inr w1, s1)" and m1: "moved r w s w1 s1"
    and w1: "wf_state w1 = Running" "wf_tasks w1 = wf_tasks w"
    using startRun_step [OF cur st] by blast
  have inv1: "run_inv def w1" "no_failure w1"
    using inv nf w1 by (simp_all add: run_inv_def no_failure_def)
  have "pending_work def w1 < exec_fuel def"
    using pending_work_bound [OF inv1(1)] by (simp add: exec_fuel_def)
  then obtain res w2 s2 where loop: "exec_loop e sim run def (exec_fuel def) w1 s1 = Some (res, s2)"
    and m2: "moved r w1 s1 w2 s2" and ends: "loop_end def w2 res"
    using exec_loop_ends [OF moved_current [OF m1] w1(1) inv1 wf sim rules] by blast
  note m = moved_trans [OF m1 m2]
  have wfs: "workflow_store_getByRunId (en_workflows s) r = Some w" using cur by (simp add: current_def)
  have ex: "execute_locked e sim (exec_fuel def) r s =
      Some (case res of Inl err \<Rightarrow> (Inl err, s2) | Inr w2 \<Rightarrow> dead_letter_if_exhausted e r def w2 s2)"
    using run wfs start loop by (simp add: execute_locked_def)
  show ?thesis
  proof (cases res)
    case (Inl err)
    then have "finished_run def r s (Inl err) w2 s2"
      using ends m by (auto simp: loop_end_def finished_run_def moved_def)
    then show ?thesis using ex Inl m by (auto simp: moved_def)
  next
    case (Inr w3)
    then have w3: "w3 = w2" and i2: "run_inv def w2" using ends by (auto simp: loop_end_def)
    have "wf_state w2 \<noteq> Failed \<or> has_failure w2" using ends Inr by (auto simp: loop_end_def)
    from dead_letter_step [OF moved_current [OF m] i2 wf this, of e] obtain w' s'
      where d: "dead_letter_if_exhausted e r def w2 s2 = (Inr (), s')"
        and d2: "current r s' w'" "framed r s2 s'" "workflow_step\<^sup>*\<^sup>* w2 w'" "wf_tasks w' = wf_tasks w2"
        and d3: "wf_state w' = wf_state w2 \<and> en_dead s' = en_dead s2 \<or>
            wf_state w2 = Failed \<and> wf_state w' = DeadLettered \<and> maxAttempts (jd_retryPolicy def) = 1 \<and>
              (\<exists>entry. en_dead s' = en_dead s2 @ [entry] \<and> dl_runId entry = r)" by blast
    have "run_inv def w'" using i2 d2(4) by (simp add: run_inv_def)
    then have "finished_run def r s (Inr ()) w' s'"
      using ends Inr w3 d2(4) d3 m
      by (auto simp: loop_end_def finished_run_def moved_def all_done_def has_failure_def)
    moreover have "framed r s s'" "workflow_step\<^sup>*\<^sup>* w w'"
      using m d2 by (auto simp: moved_def intro: framed_trans)
    ultimately show ?thesis using ex Inr w3 d d2(1) by auto
  qed
qed

lemma executeRun_ends:
  assumes ready: "ready_run def r s w" and wf: "well_formed_job def" and sim: "sim_modelled sim"
    and rules: "rules_modelled def"
  shows "\<exists>res w' s'. executeRun e sim (exec_fuel def) r s = Some (res, s') \<and>
           current r s' w' \<and> workflow_step\<^sup>*\<^sup>* w w' \<and> finished_run def r s res w' s' \<and>
           en_localLocks s' = en_localLocks s \<and>
           map_get (en_runLocks s') = (map_get (en_runLocks s))(r := None) \<and>
           en_jobs s' = en_jobs s \<and>
           mt_counters (bus_metrics (en_bus s')) = mt_counters (bus_metrics (en_bus s)) \<and>
           bus_outbox (en_bus s') = bus_outbox (en_bus s)"
proof -
  obtain run where run: "run_store_get (en_runs s) r = Some run"
    "job_store_get (en_jobs s) (jr_jobId run) = Some def"
    using ready by (auto simp: ready_run_def)
  have free: "r \<notin> set (en_localLocks s)" and lk: "map_get (en_runLocks s) r \<in> {None, Some owner}"
    using ready by (simp_all add: ready_run_def)
  let ?L = "map_set r owner (en_runLocks s)"
  have acq: "lock_acquire r owner (en_runLocks s) = Inr ?L" using lk by (auto simp: lock_acquire_def)
  define s1 where "s1 = s\<lparr>en_localLocks := set_add r (en_localLocks s), en_runLocks := ?L\<rparr>"
  have cur1: "current r s1 w" using ready by (simp add: ready_run_def current_def s1_def)
  obtain res w' s2 where ex: "execute_locked e sim (exec_fuel def) r s1 = Some (res, s2)"
    and c: "current r s2 w'" "framed r s1 s2" "workflow_step\<^sup>*\<^sup>* w w'" "finished_run def r s1 res w' s2"
    using execute_locked_ends [OF cur1, of def sim run e] ready wf sim rules run
    by (auto simp: ready_run_def s1_def)
  let ?s' = "release_locks r s2"
  have "executeRun e sim (exec_fuel def) r s = Some (res, ?s')"
    using free acq ex by (simp add: executeRun_def s1_def Let_def)
  moreover have "current r ?s' w'" using c(1) by (simp add: current_def release_locks_def)
  moreover have "finished_run def r s res w' ?s'"
    using c(4) by (simp add: finished_run_def release_locks_def s1_def)
  moreover have "en_localLocks ?s' = en_localLocks s"
    using c(2) free by (simp add: framed_def release_locks_def s1_def)
  moreover have "map_get (en_runLocks ?s') = (map_get (en_runLocks s))(r := None)"
    using c(2) by (auto simp: framed_def release_locks_def s1_def lock_release_def fun_eq_iff)
  moreover have "en_jobs ?s' = en_jobs s"
    "mt_counters (bus_metrics (en_bus ?s')) = mt_counters (bus_metrics (en_bus s))"
    "bus_outbox (en_bus ?s') = bus_outbox (en_bus s)"
    using c(2) by (simp_all add: framed_def release_locks_def s1_def)
  ultimately show ?thesis using c(3) by blast
qed

subsection \<open>Created runs are ready\<close>

lemma create_task_runs_result:
  "\<exists>rs. create_task_runs e r ts n = (Inr rs, n + length ts) \<and>
     map tr_definitionTaskId rs = map td_id ts \<and>
     map tr_id rs = map (\<lambda>j. id_of ''task_'' (uuid e (n + j))) [0..<length ts] \<and>
     (\<forall>t \<in> set rs. tr_status t = TQueued \<and> tr_attempt t = 0)"
proof (induction ts arbitrary: n)
  case Nil
  then show ?case by simp
next
  case (Cons t ts)
  obtain rs where rs: "create_task_runs e r ts (Suc n) = (Inr rs, Suc n + length ts)"
    "map tr_definitionTaskId rs = map td_id ts"
    "map tr_id rs = map (\<lambda>j. id_of ''task_'' (uuid e (Suc n + j))) [0..<length ts]"
    "\<forall>t \<in> set rs. tr_status t = TQueued \<and> tr_attempt t = 0"
    using Cons.IH [of "Suc n"] by blast
  have "map (\<lambda>j. id_of ''task_'' (uuid e (n + j))) [0..<length (t # ts)] =
      id_of ''task_'' (uuid e n) # map (\<lambda>j. id_of ''task_'' (uuid e (Suc n + j))) [0..<length ts]"
    by (simp add: upt_conv_Cons map_Suc_upt [symmetric] comp_def del: upt_Suc)
  then show ?case using rs by simp
qed

text \<open>
  The random ids drawn from the current point on are new and distinct, which is what
  \<^verbatim>\<open>randomUUID\<close> promises up to negligible probability.
\<close>

definition fresh_ids :: "env \<Rightarrow> engine \<Rightarrow> nat \<Rightarrow> bool" where
  "fresh_ids e s k \<longleftrightarrow>
     (let n = en_ticks s; r = id_of ''run_'' (uuid e n); i = id_of ''wf_'' (uuid e (Suc n))
      in map_get (ws_byId (en_workflows s)) i = None \<and>
         r \<notin> set (en_localLocks s) \<and> map_get (en_runLocks s) r = None \<and>
         distinct (map (\<lambda>j. id_of ''task_'' (uuid e (n + 3 + j))) [0..<k]))"

definition engine_ok :: "engine \<Rightarrow> bool" where
  "engine_ok s \<longleftrightarrow>
     store_ok jd_id (en_jobs s) \<and> workflow_store_ok (en_workflows s) \<and> store_ok jr_id (en_runs s)"

text \<open>A new instance and its run record, saved under ids nothing else has.\<close>

lemma saved_ready:
  assumes ok: "engine_ok s" and job: "job_store_get (en_jobs s) (jr_jobId run) = Some def"
    and new: "map_get (ws_byId (en_workflows s)) (wf_id w) = None" "wf_id w \<noteq> []"
    and free: "jr_id run \<notin> set (en_localLocks s)" "map_get (en_runLocks s) (jr_id run) = None"
    and run: "jr_status run = Pending" "wf_runId w = jr_id run"
    and w: "fresh_instance w" "run_inv def w" "no_failure w"
    and s': "en_workflows s' = workflow_store_save w (en_workflows s)" "en_runs s' = run_store_save run (en_runs s)"
      "en_jobs s' = en_jobs s" "en_localLocks s' = en_localLocks s" "en_runLocks s' = en_runLocks s"
  shows "ready_run def (jr_id run) s' w"
proof -
  have oks: "workflow_store_ok (en_workflows s)" "store_ok jr_id (en_runs s)"
    using ok by (simp_all add: engine_ok_def)
  have "map_get (ws_byRunId (en_workflows s)) r' \<noteq> Some (wf_id w)" for r'
    using oks(1) new(1) unfolding workflow_store_ok_def by (metis option.distinct(1))
  then have sv: "workflow_saveable w (en_workflows s)"
    using new(2) unfolding workflow_saveable_def by metis
  have got: "run_store_get (en_runs s') (jr_id run) = Some run"
    using runs.get_save_same [OF oks(2), of run] by (simp only: s')
  have "workflow_store_getByRunId (en_workflows s') (jr_id run) = Some w"
    using wfs.getByRunId_save [OF oks(1) sv, of "jr_id run"] by (simp only: s' run if_True simp_thms)
  then have "current (jr_id run) s' w"
    using wfs.invar_save [OF oks(1) sv] runs.invar_save [OF oks(2)] got run w(1)
    unfolding current_def fresh_instance_def by (simp only: s') blast
  then show ?thesis
    using job got w run free by (simp add: ready_run_def s' fresh_instance_def)
qed

lemma createRun_ready:
  assumes ok: "engine_ok s" and job: "job_store_get (en_jobs s) j = Some def"
    and fresh: "fresh_ids e s (length (jd_tasks def))"
  shows "\<exists>run w s'. createRun e j trigger input s = (Inr (run, w, def), s') \<and>
           jr_id run = id_of ''run_'' (uuid e (en_ticks s)) \<and>
           ready_run def (jr_id run) s' w \<and> fresh_instance w \<and> wf_context w = input \<and>
           jr_status run = Pending \<and> en_jobs s' = en_jobs s \<and> en_dead s' = en_dead s \<and> en_bus s' = en_bus s"
proof -
  let ?n = "en_ticks s"
  let ?r = "id_of ''run_'' (uuid e ?n)" and ?i = "id_of ''wf_'' (uuid e (Suc ?n))"
  let ?now = "clk e (Suc (Suc ?n))"
  obtain rs where rs: "create_task_runs e ?r (jd_tasks def) (Suc (Suc (Suc ?n))) =
      (Inr rs, Suc (Suc (Suc ?n)) + length (jd_tasks def))"
    "map tr_definitionTaskId rs = map td_id (jd_tasks def)"
    "map tr_id rs = map (\<lambda>j. id_of ''task_'' (uuid e (?n + 3 + j))) [0..<length (jd_tasks def)]"
    "\<forall>t \<in> set rs. tr_status t = TQueued \<and> tr_attempt t = 0"
    using create_task_runs_result [of e ?r "jd_tasks def" "?n + 3"] by (auto simp: eval_nat_numeral)
  define w where "w = \<lparr>wf_id = ?i, wf_jobId = j, wf_runId = ?r, wf_state = Pending,
      wf_currentTaskId = None, wf_context = input, wf_tasks = rs, wf_history = [],
      wf_version = 1, wf_createdAt = ?now, wf_updatedAt = ?now\<rparr>"
  define run where "run = \<lparr>jr_id = ?r, jr_jobId = j, jr_workflowId = ?i, jr_status = Pending,
      jr_startedAt = ?now, jr_finishedAt = None, jr_trigger = trigger, jr_input = input\<rparr>"
  define s' where "s' = s\<lparr>en_ticks := ?n + 3 + length (jd_tasks def),
      en_workflows := workflow_store_save w (en_workflows s),
      en_runs := run_store_save run (en_runs s)\<rparr>"
  have c: "createRun e j trigger input s = (Inr (run, w, def), s')"
    using job rs(1)
    by (simp add: createRun_def with_env_apply Let_def w_def run_def s'_def eval_nat_numeral)
  have "run_inv def w" "no_failure w" "fresh_instance w"
    using rs fresh budget_pos [of def]
    by (simp_all add: w_def run_inv_def task_inv_def fresh_ids_def Let_def no_failure_def fresh_instance_def)
  then have "ready_run def (jr_id run) s' w"
    using ok job fresh
    by (intro saved_ready [of s]) (simp_all add: fresh_ids_def Let_def id_of_def run_def w_def s'_def)
  then show ?thesis
    using c \<open>fresh_instance w\<close> by (intro exI [of _ run] exI [of _ w] exI [of _ s']) (simp add: w_def run_def s'_def)
qed

interpretation reached: invariant_steps workflow_step reachable_instance
  by unfold_locales (rule stepped)

subsection \<open>Executions that do not run\<close>

lemma executeRun_missing:
  assumes "r \<notin> set (en_localLocks s)" and "map_get (en_runLocks s) r \<in> {None, Some owner}"
    and "run_store_get (en_runs s) r = None"
  shows "executeRun e sim fuel r s =
    Some (Inl (NotFoundError ''JobRun'' r),
      s\<lparr>en_runLocks := lock_release r owner (map_set r owner (en_runLocks s))\<rparr>)"
proof -
  have "lock_acquire r owner (en_runLocks s) = Inr (map_set r owner (en_runLocks s))"
    using assms(2) by (auto simp: lock_acquire_def)
  then show ?thesis
    using assms by (simp add: executeRun_def execute_locked_def release_locks_def Let_def)
qed

text \<open>The registry refuses: the exception leaves the local lock behind.\<close>

lemma executeRun_leak:
  assumes "r \<notin> set (en_localLocks s)" and "map_get (en_runLocks s) r = Some other"
    and "other \<noteq> []" and "other \<noteq> owner"
  shows "executeRun e sim fuel r s =
    Some (Inl (ConcurrencyError (''run '' @ r @ '' locked by '' @ other)),
      s\<lparr>en_localLocks := set_add r (en_localLocks s)\<rparr>)"
  using assms by (simp add: executeRun_def lock_acquire_def Let_def)

lemma executeRun_idle:
  assumes cur: "current r s w" and fin: "wf_state w \<notin> {Pending, Running, Failed}"
    and run: "run_store_get (en_runs s) r = Some run" "job_store_get (en_jobs s) (jr_jobId run) = Some def"
    and free: "r \<notin> set (en_localLocks s)" "map_get (en_runLocks s) r = None"
  shows "\<exists>s'. executeRun e sim (Suc fuel) r s = Some (Inr (), s') \<and>
           en_workflows s' = en_workflows s \<and> en_runs s' = en_runs s \<and> en_dead s' = en_dead s \<and>
           en_bus s' = en_bus s"
proof -
  have "workflow_store_getByRunId (en_workflows s) r = Some w" using cur by (simp add: current_def)
  then show ?thesis
    using fin run free
    by (simp add: executeRun_def execute_locked_def lock_acquire_def startRun_def
        dead_letter_if_exhausted_def release_locks_def Let_def)
qed

text \<open>A failed run with attempts to spare in the policy is left alone.\<close>

lemma executeRun_failed:
  assumes cur: "current r s w" and st: "wf_state w = Failed" and inv: "run_inv def w"
    and wf: "well_formed_job def" and two: "2 \<le> maxAttempts (jd_retryPolicy def)"
    and run: "run_store_get (en_runs s) r = Some run" "job_store_get (en_jobs s) (jr_jobId run) = Some def"
    and free: "r \<notin> set (en_localLocks s)" "map_get (en_runLocks s) r = None"
  shows "\<exists>s'. executeRun e sim (Suc fuel) r s = Some (Inr (), s') \<and>
           en_workflows s' = en_workflows s \<and> en_runs s' = en_runs s \<and> en_dead s' = en_dead s \<and>
           en_bus s' = en_bus s"
proof -
  let ?M = "maxAttempts (jd_retryPolicy def)" and ?n = "length (jd_tasks def)"
  have "0 < ?n" using wf by (auto simp: well_formed_job_def)
  moreover have b: "int (budget def) = ?M - 1" using two by (simp add: budget_def)
  moreover have "int (total_attempts w) \<le> int ?n * int (budget def)"
    using total_attempts_bound [OF inv] by (metis of_nat_le_iff of_nat_mult)
  moreover have "?M * int ?n = int ?n * int (budget def) + int ?n"
    unfolding b by (simp add: algebra_simps)
  ultimately have "int (total_attempts w) < ?M * int ?n" by linarith
  moreover have "workflow_store_getByRunId (en_workflows s) r = Some w" using cur by (simp add: current_def)
  ultimately show ?thesis
    using st run free
    by (simp add: executeRun_def execute_locked_def lock_acquire_def startRun_def
        dead_letter_if_exhausted_def release_locks_def Let_def)
qed

subsection \<open>An example\<close>

text \<open>Two tasks that call a risky external handler, created on an engine that knows the job.\<close>

definition chain_job :: job_definition where
  "chain_job = empty_job\<lparr>jd_tasks := chain_tasks\<rparr>"

definition base_engine :: engine where
  "base_engine = engine_empty\<lparr>en_jobs := job_store_save chain_job []\<rparr>"

definition created_engine :: engine where
  "created_engine = snd (createRun plain_env ''j'' ''api'' [] base_engine)"

abbreviation failing_sim :: simulator where
  "failing_sim \<equiv> simulator_execute plain_env failing_config"

lemma chain_job_ok: "well_formed_job chain_job" "rules_modelled chain_job" "sim_modelled failing_sim"
  "maxAttempts (jd_retryPolicy chain_job) = 3" "length (jd_tasks chain_job) = 2"
proof -
  show "well_formed_job chain_job"
    using chain_tasks_wf
    by (simp add: well_formed_job_def chain_job_def empty_job_def DEFAULT_RETRY_POLICY_def)
      (simp add: chain_tasks_def)
  show "rules_modelled chain_job"
    by (simp add: rules_modelled_def rule_engine_apply_def assertPassing_def evaluate_constraints_def
        chain_job_def empty_job_def)
  show "sim_modelled failing_sim"
    by (rule simulator_execute_modelled) (simp add: plain_env_def)
  show "maxAttempts (jd_retryPolicy chain_job) = 3" "length (jd_tasks chain_job) = 2"
    by (simp_all add: chain_job_def empty_job_def DEFAULT_RETRY_POLICY_def chain_tasks_def)
qed

lemma small_numbers: "show_nat 0 = ''0''" "show_nat 3 = ''3''" "show_nat 4 = ''4''"
  by code_simp+

lemma base_engine_ok:
  "engine_ok base_engine" "job_store_get (en_jobs base_engine) ''j'' = Some chain_job"
  "fresh_ids plain_env base_engine 2"
proof -
  show "engine_ok base_engine"
    using wfs.invar_empty jobs.invar_save [OF jobs.invar_empty, of chain_job]
    by (simp add: engine_ok_def base_engine_def engine_empty_def)
  show "job_store_get (en_jobs base_engine) ''j'' = Some chain_job"
    by (simp add: base_engine_def job_store_save_def job_store_get_def chain_job_def empty_job_def)
  show "fresh_ids plain_env base_engine 2"
    by (simp add: fresh_ids_def base_engine_def engine_empty_def workflow_store_empty_def plain_env_def
        id_of_def upt_rec small_numbers)
qed

lemma created_ready:
  obtains w where "ready_run chain_job ''run_u0'' created_engine w" and "fresh_instance w"
proof -
  have "fresh_ids plain_env base_engine (length (jd_tasks chain_job))"
    using base_engine_ok(3) by (simp add: chain_job_ok)
  from createRun_ready [OF base_engine_ok(1,2) this, of "''api''" "[]"]
  obtain run w s' where c: "createRun plain_env ''j'' ''api'' [] base_engine = (Inr (run, w, chain_job), s')"
    and r: "jr_id run = id_of ''run_'' (uuid plain_env (en_ticks base_engine))"
    and w: "ready_run chain_job (jr_id run) s' w" "fresh_instance w" by blast
  have "id_of ''run_'' (uuid plain_env (en_ticks base_engine)) = ''run_u0''"
    by (simp add: id_of_def plain_env_def base_engine_def engine_empty_def small_numbers)
  then show ?thesis using that w c r by (simp add: created_engine_def)
qed

subsection \<open>What an execution guarantees\<close>

text \<open>
  C1. Executing a ready run of a validated job always ends, whatever the handlers return or
  throw, in one of four ways: the workflow is completed with every task done; it is failed; it is
  dead-lettered, only under a policy of a single attempt; or a constraint blocked it, the call
  threw the violation and the workflow is still running. The run's status is the workflow's
  state, and the stored history is an audit trail that extends the one before.
\<close>

theorem execution_settles:
  assumes "ready_run def r s w" and "reachable_instance w" and "well_formed_job def"
    and "sim_modelled sim" and "rules_modelled def"
  shows "\<exists>res w' s'. executeRun e sim (exec_fuel def) r s = Some (res, s') \<and>
           workflow_store_getByRunId (en_workflows s') r = Some w' \<and>
           (\<exists>run. run_store_get (en_runs s') r = Some run \<and> jr_status run = wf_state w') \<and>
           reachable_instance w' \<and> history_chain Pending (wf_history w') (wf_state w') \<and>
           (res = Inr () \<and> wf_state w' = Completed \<and> all_done w' \<or>
            res = Inr () \<and> wf_state w' = Failed \<and> has_failure w' \<or>
            res = Inr () \<and> wf_state w' = DeadLettered \<and> maxAttempts (jd_retryPolicy def) = 1 \<or>
            (\<exists>m. res = Inl (ExecutionError ConstraintViolation m)) \<and> wf_state w' = Running \<and> all_done w')"
proof -
  obtain res w' s' where ex: "executeRun e sim (exec_fuel def) r s = Some (res, s')"
    and cur: "current r s' w'" and steps: "workflow_step\<^sup>*\<^sup>* w w'" and fin: "finished_run def r s res w' s'"
    using executeRun_ends [OF assms(1,3-5), of e] by blast
  have reach: "reachable_instance w'" using steps assms(2) by (rule reached.inv_steps)
  then have "history_chain Pending (wf_history w') (wf_state w')"
    using reachable_history_ok by (simp add: history_ok_def)
  moreover have "workflow_store_getByRunId (en_workflows s') r = Some w'"
    "\<exists>run. run_store_get (en_runs s') r = Some run \<and> jr_status run = wf_state w'"
    using cur by (simp_all add: current_def)
  ultimately show ?thesis
    using ex reach fin unfolding finished_run_def by blast
qed

theorem execution_settles_witness:
  "\<exists>res s'. executeRun plain_env failing_sim (exec_fuel chain_job) ''run_u0'' created_engine = Some (res, s')"
proof -
  obtain w where "ready_run chain_job ''run_u0'' created_engine w" "fresh_instance w"
    by (rule created_ready)
  then show ?thesis
    using execution_settles [of chain_job "''run_u0''" created_engine w failing_sim plain_env]
      chain_job_ok created by blast
qed

text \<open>
  C2. Dependency order and attempt bound: in the workflow an execution leaves behind, a task that
  was tried at all has all its dependencies succeeded or skipped, no task was tried more than
  \<open>max 1 (maxAttempts - 1)\<close> times, and a failed task exactly that often.
\<close>

theorem execution_respects_dependencies:
  assumes "ready_run def r s w" and "well_formed_job def" and "sim_modelled sim" and "rules_modelled def"
  shows "\<exists>res w' s'. executeRun e sim (exec_fuel def) r s = Some (res, s') \<and>
           workflow_store_getByRunId (en_workflows s') r = Some w' \<and>
           map tr_definitionTaskId (wf_tasks w') = map td_id (jd_tasks def) \<and>
           (\<forall>t \<in> set (wf_tasks w').
              int (tr_attempt t) \<le> max 1 (maxAttempts (jd_retryPolicy def) - 1) \<and>
              (tr_status t = TFailed \<longrightarrow>
                 int (tr_attempt t) = max 1 (maxAttempts (jd_retryPolicy def) - 1)) \<and>
              (tr_attempt t \<noteq> 0 \<longrightarrow>
                 (\<forall>d \<in> set (jd_tasks def). td_id d = tr_definitionTaskId t \<longrightarrow>
                    (\<forall>j \<in> set (td_deps d). \<exists>u \<in> set (wf_tasks w').
                       tr_definitionTaskId u = j \<and> tr_status u \<in> {TSucceeded, TSkipped}))))"
proof -
  obtain res w' s' where ex: "executeRun e sim (exec_fuel def) r s = Some (res, s')"
    and cur: "current r s' w'" and fin: "finished_run def r s res w' s'"
    using executeRun_ends [OF assms, of e] by blast
  have inv: "run_inv def w'" using fin by (simp add: finished_run_def)
  have b: "int (budget def) = max 1 (maxAttempts (jd_retryPolicy def) - 1)" by (simp add: budget_def)
  have task: "int (tr_attempt t) \<le> max 1 (maxAttempts (jd_retryPolicy def) - 1) \<and>
      (tr_status t = TFailed \<longrightarrow> int (tr_attempt t) = max 1 (maxAttempts (jd_retryPolicy def) - 1)) \<and>
      (tr_attempt t \<noteq> 0 \<longrightarrow> deps_done def (wf_tasks w') (tr_definitionTaskId t))"
    if "t \<in> set (wf_tasks w')" for t
    using inv that unfolding b [symmetric] by (auto simp: run_inv_def task_inv_def task_done_def)
  have dd: "deps_done def ts i \<longleftrightarrow> (\<forall>d \<in> set (jd_tasks def). td_id d = i \<longrightarrow>
      (\<forall>j \<in> set (td_deps d). \<exists>u \<in> set ts. tr_definitionTaskId u = j \<and> tr_status u \<in> {TSucceeded, TSkipped}))"
    for ts i by (simp add: deps_done_def task_done_def)
  have names: "map tr_definitionTaskId (wf_tasks w') = map td_id (jd_tasks def)"
    using inv by (simp add: run_inv_def)
  have stored: "workflow_store_getByRunId (en_workflows s') r = Some w'"
    using cur by (simp add: current_def)
  show ?thesis
    by (intro exI [of _ res] exI [of _ w'] exI [of _ s'] conjI ballI ex stored names)
      (rule task [unfolded dd, THEN conjunct1] task [unfolded dd, THEN conjunct2, THEN conjunct1]
        task [unfolded dd, THEN conjunct2, THEN conjunct2]; assumption)+
qed

theorem execution_respects_dependencies_witness:
  "\<exists>res w' s'. executeRun plain_env failing_sim (exec_fuel chain_job) ''run_u0'' created_engine = Some (res, s') \<and>
     workflow_store_getByRunId (en_workflows s') ''run_u0'' = Some w' \<and>
     (\<forall>t \<in> set (wf_tasks w'). int (tr_attempt t) \<le> max 1 (3 - 1))"
proof -
  obtain w where "ready_run chain_job ''run_u0'' created_engine w" by (rule created_ready)
  from execution_respects_dependencies [OF this chain_job_ok(1,3,2), of plain_env, unfolded chain_job_ok(4)]
  show ?thesis
    apply (elim exE conjE)
    apply (rule exI, rule exI, rule exI, rule conjI, assumption, rule conjI, assumption)
    apply (rule ballI)
    apply (drule (1) bspec)
    apply (erule conjunct1)
    done
qed

text \<open>
  C4. Under a policy of two or more attempts no execution of a ready run ever reaches the dead
  letter store: a failing task is given up one attempt before the budget
  \<open>maxAttempts * number of tasks\<close> could be used up.
\<close>

theorem dead_letter_unreachable:
  assumes "ready_run def r s w" and "well_formed_job def" and "sim_modelled sim" and "rules_modelled def"
    and "2 \<le> maxAttempts (jd_retryPolicy def)"
  shows "\<exists>res w' s'. executeRun e sim (exec_fuel def) r s = Some (res, s') \<and>
           workflow_store_getByRunId (en_workflows s') r = Some w' \<and>
           wf_state w' \<in> {Completed, Failed, Running} \<and> en_dead s' = en_dead s"
proof -
  obtain res w' s' where ex: "executeRun e sim (exec_fuel def) r s = Some (res, s')"
    and cur: "current r s' w'" and fin: "finished_run def r s res w' s'"
    using executeRun_ends [OF assms(1-4), of e] by blast
  have "wf_state w' \<in> {Completed, Failed, Running} \<and> en_dead s' = en_dead s"
    using fin assms(5) by (auto simp: finished_run_def)
  moreover have "workflow_store_getByRunId (en_workflows s') r = Some w'"
    using cur by (simp add: current_def)
  ultimately show ?thesis using ex by blast
qed

theorem dead_letter_unreachable_witness:
  "\<exists>res s'. executeRun plain_env failing_sim (exec_fuel chain_job) ''run_u0'' created_engine = Some (res, s') \<and>
     en_dead s' = en_dead created_engine"
proof -
  obtain w where "ready_run chain_job ''run_u0'' created_engine w" by (rule created_ready)
  from dead_letter_unreachable [OF this chain_job_ok(1,3,2), of plain_env]
  show ?thesis using chain_job_ok(4) by auto
qed

text \<open>
  A failed run is never tried again: under a policy of two or more attempts, executing a
  failed run changes no stored workflow, run or dead letter and publishes nothing.
\<close>

theorem failed_run_not_retried:
  assumes "current r s w" and "wf_state w = Failed" and "run_inv def w"
    and "well_formed_job def" and "2 \<le> maxAttempts (jd_retryPolicy def)"
    and "run_store_get (en_runs s) r = Some run"
    and "job_store_get (en_jobs s) (jr_jobId run) = Some def"
    and "r \<notin> set (en_localLocks s)" and "map_get (en_runLocks s) r = None"
  shows "\<exists>s'. executeRun e sim (Suc fuel) r s = Some (Inr (), s') \<and>
           en_workflows s' = en_workflows s \<and> en_runs s' = en_runs s \<and> en_dead s' = en_dead s \<and>
           en_bus s' = en_bus s"
  using assms by (rule executeRun_failed)

definition failed_instance :: workflow_instance where
  "failed_instance = sample_instance\<lparr>wf_state := Failed,
     wf_tasks := [(createTaskRun ''t1'' ''r'' ''b'' ''h''),
                  (createTaskRun ''t2'' ''r'' ''a'' ''h'')\<lparr>tr_status := TFailed, tr_attempt := 2\<rparr>]\<rparr>"

definition failed_engine :: engine where
  "failed_engine = base_engine\<lparr>en_workflows := workflow_store_save failed_instance workflow_store_empty,
     en_runs := [(''r'', \<lparr>jr_id = ''r'', jr_jobId = ''j'', jr_workflowId = ''w'', jr_status = Failed,
        jr_startedAt = ''t0'', jr_finishedAt = None, jr_trigger = ''api'', jr_input = []\<rparr>)]\<rparr>"

lemma failed_engine_ok:
  "current ''r'' failed_engine failed_instance" "run_inv chain_job failed_instance"
  "job_store_get (en_jobs failed_engine) ''j'' = Some chain_job"
  "run_store_get (en_runs failed_engine) ''r'' = Some \<lparr>jr_id = ''r'', jr_jobId = ''j'', jr_workflowId = ''w'',
     jr_status = Failed, jr_startedAt = ''t0'', jr_finishedAt = None, jr_trigger = ''api'', jr_input = []\<rparr>"
  "''r'' \<notin> set (en_localLocks failed_engine)" "map_get (en_runLocks failed_engine) ''r'' = None"
proof -
  show "current ''r'' failed_engine failed_instance"
    by (simp add: current_def failed_engine_def failed_instance_def sample_instance_def workflow_store_defs
        run_store_defs store_ok_def jsmap_ok_def)
  show "run_inv chain_job failed_instance"
    by (simp add: run_inv_def failed_instance_def sample_instance_def chain_job_def empty_job_def
        chain_tasks_def risky_task_def task_inv_def budget_def DEFAULT_RETRY_POLICY_def deps_done_def
        task_done_def)
  show "job_store_get (en_jobs failed_engine) ''j'' = Some chain_job"
    using base_engine_ok(2) by (simp add: failed_engine_def)
qed (simp_all add: failed_engine_def run_store_get_def base_engine_def engine_empty_def)

theorem failed_run_not_retried_witness:
  "\<exists>s'. executeRun plain_env failing_sim 7 ''r'' failed_engine = Some (Inr (), s') \<and>
     en_workflows s' = en_workflows failed_engine"
  using failed_run_not_retried [OF failed_engine_ok(1) _ failed_engine_ok(2) chain_job_ok(1) _
      failed_engine_ok(4) _ failed_engine_ok(5,6), of plain_env failing_sim 6] failed_engine_ok(3) chain_job_ok
  by (simp add: failed_instance_def eval_nat_numeral del: executeRun_def) blast



text \<open>
  One path leaks: when the lock registry holds the run for another owner, the call throws and
  leaves its own local lock set, so every later call on the run returns at once without doing
  anything.
\<close>

theorem refused_lock_leaks:
  assumes "r \<notin> set (en_localLocks s)" and "map_get (en_runLocks s) r = Some other"
    and "other \<noteq> []" and "other \<noteq> owner"
  shows "\<exists>m s'. executeRun e sim fuel r s = Some (Inl (ConcurrencyError m), s') \<and>
           r \<in> set (en_localLocks s') \<and>
           executeRun e' sim' fuel' r (s'\<lparr>en_runLocks := locks\<rparr>) = Some (Inr (), s'\<lparr>en_runLocks := locks\<rparr>)"
  by (simp add: executeRun_leak [OF assms]) (simp add: executeRun_def)

theorem refused_lock_leaks_witness:
  "\<exists>m s'. executeRun plain_env failing_sim 1 ''r'' (engine_empty\<lparr>en_runLocks := [(''r'', ''batch'')]\<rparr>) =
       Some (Inl (ConcurrencyError m), s') \<and> ''r'' \<in> set (en_localLocks s')"
  using refused_lock_leaks [of "''r''" "engine_empty\<lparr>en_runLocks := [(''r'', ''batch'')]\<rparr>" "''batch''"
      plain_env failing_sim 1]
  by (simp add: engine_empty_def owner_def) blast

text \<open>
  Executions are silent: no run-started, run-completed, run-failed or task event is ever
  published, so an execution leaves every counter of the metrics registry and the outbox of
  webhook and failure notifications as they were.
\<close>

theorem execution_emits_no_run_events:
  assumes "ready_run def r s w" and "well_formed_job def" and "sim_modelled sim" and "rules_modelled def"
  shows "\<exists>res s'. executeRun e sim (exec_fuel def) r s = Some (res, s') \<and>
           mt_counters (bus_metrics (en_bus s')) = mt_counters (bus_metrics (en_bus s)) \<and>
           bus_outbox (en_bus s') = bus_outbox (en_bus s)"
  using executeRun_ends [OF assms, of e] by blast

theorem execution_emits_no_run_events_witness:
  "\<exists>res s'. executeRun plain_env failing_sim (exec_fuel chain_job) ''run_u0'' created_engine = Some (res, s') \<and>
     bus_outbox (en_bus s') = bus_outbox (en_bus created_engine)"
proof -
  obtain w where "ready_run chain_job ''run_u0'' created_engine w" by (rule created_ready)
  from execution_emits_no_run_events [OF this chain_job_ok(1,3,2), of plain_env]
  show ?thesis by auto
qed

text \<open>
  Creating a run of a stored job succeeds and gives a run that can be executed: a fresh
  pending instance and a pending run under one new run id, one queued task run per task of the
  definition in its order, stored so that both are found again, and no lock held.
\<close>

theorem created_run_is_ready:
  assumes "engine_ok s" and "job_store_get (en_jobs s) j = Some def"
    and "fresh_ids e s (length (jd_tasks def))"
  shows "\<exists>run w s'. createRun e j trigger input s = (Inr (run, w, def), s') \<and>
           ready_run def (jr_id run) s' w \<and> fresh_instance w \<and> wf_context w = input \<and>
           jr_status run = Pending \<and> en_jobs s' = en_jobs s"
  using createRun_ready [OF assms, of trigger input] by blast

theorem created_run_is_ready_witness:
  "\<exists>run w s'. createRun plain_env ''j'' ''api'' [] base_engine = (Inr (run, w, chain_job), s') \<and>
     ready_run chain_job (jr_id run) s' w"
proof -
  have "fresh_ids plain_env base_engine (length (jd_tasks chain_job))"
    using base_engine_ok(3) by (simp add: chain_job_ok)
  from created_run_is_ready [OF base_engine_ok(1,2) this, of "''api''" "[]"] show ?thesis by blast
qed

end
