(* ===== verification/Coroutines.thy ===== *)
theory Coroutines
  imports Runs
begin

section \<open>Executions as coroutines\<close>

text \<open>
  services/execution-service.ts and engine/orchestrator.ts once more, now cut at every
  \<^verbatim>\<open>await\<close>: an execution is a coroutine, and any number of them share the engine. What a coroutine
  does between two \<^verbatim>\<open>await\<close>s is one step; while it waits the others go on, and the lock sets are all
  that keeps two executions of one run apart. A call of the task executor is one step.
\<close>

subsection \<open>The stretches between two awaits\<close>

text \<open>The three stretches of \<^verbatim>\<open>applyTransition\<close>: up to the save, after the lookup of the run, the end.\<close>

definition transition_saves ::
    "env \<Rightarrow> workflow_instance \<Rightarrow> string \<Rightarrow> workflow_state \<Rightarrow> string \<Rightarrow> workflow_instance eng" where
  "transition_saves e inst ev target actor =
     bind_a (lift_r (evaluate inst ev target)) (\<lambda>_.
     bind_a (machine_transition e inst ev target actor) (\<lambda>w.
     bind_a (writes (\<lambda>s. s\<lparr>en_workflows := workflow_store_save w (en_workflows s)\<rparr>)) (\<lambda>_.
       ret w)))"

definition sync_found :: "env \<Rightarrow> job_run option \<Rightarrow> workflow_state \<Rightarrow> unit eng" where
  "sync_found e found target =
     (case found of
        None \<Rightarrow> ret ()
      | Some run \<Rightarrow>
          bind_a (if isTerminal target
                  then bind_a (with_env (read_env (clk e))) (\<lambda>now.
                         ret (run\<lparr>jr_status := target, jr_finishedAt := Some now\<rparr>))
                  else ret (run\<lparr>jr_status := target\<rparr>)) (\<lambda>run'.
          writes (\<lambda>s. s\<lparr>en_runs := run_store_save run' (en_runs s)\<rparr>)))"

definition transition_emits ::
    "env \<Rightarrow> workflow_state \<Rightarrow> string \<Rightarrow> workflow_state \<Rightarrow> workflow_instance \<Rightarrow> unit eng" where
  "transition_emits e origin ev target w =
     bind_a (with_env (read_env (clk e))) (\<lambda>now.
       emit (WorkflowTransitioned (wf_runId w) origin target ev now))"

lemma applyTransition_stretches:
  "applyTransition e inst ev target actor =
     bind_a (transition_saves e inst ev target actor) (\<lambda>w.
     bind_a (reads (\<lambda>s. run_store_get (en_runs s) (wf_runId w))) (\<lambda>found.
     bind_a (sync_found e found target) (\<lambda>_.
     bind_a (transition_emits e (wf_state inst) ev target w) (\<lambda>_.
       ret w))))"
  by (rule ext) (simp add: applyTransition_def transition_saves_def sync_run_def sync_found_def
      transition_emits_def bind_a_def split: sum.splits prod.splits)

subsection \<open>An execution as a coroutine\<close>

text \<open>What follows a transition: the loop goes on, is left, or the run is put among the dead letters.\<close>

datatype cont = GoOn | LeaveLoop | PushDead

text \<open>
  Where an execution waits, with the variables that are live there. \<open>Called\<close> is a call that has not
  begun, \<open>Leaving\<close> an exception or return on its way to the \<^verbatim>\<open>finally\<close> block.
\<close>

datatype exec_at =
    Called
  | GotRun "job_run option"
  | GotJob job_run "job_definition option"
  | GotWorkflow job_run job_definition "workflow_instance option"
  | Saved job_run job_definition workflow_state string workflow_state workflow_instance cont
  | Syncing job_run job_definition workflow_state string workflow_state workflow_instance cont "job_run option"
  | Emitting job_run job_definition workflow_state string workflow_state workflow_instance cont
  | Looping job_run job_definition workflow_instance
  | Trying job_run job_definition workflow_instance task_definition task_run int
  | Tried job_run job_definition workflow_instance task_definition int execute_result
  | Updated job_run job_definition workflow_instance execute_result
  | Sleeping job_run job_definition workflow_instance execute_result
  | Requeued job_run job_definition workflow_instance execute_result
  | Broke job_run job_definition workflow_instance
  | Pushing job_run job_definition workflow_instance
  | Leaving "unit res"
  | Returned "unit res"

type_synonym stretch = "engine \<Rightarrow> exec_at \<times> engine"

text \<open>The \<^verbatim>\<open>finally\<close> block.\<close>

definition leave :: "run_id \<Rightarrow> unit res \<Rightarrow> stretch" where
  "leave r x s = (Returned x, release_locks r s)"

text \<open>A stretch that ends in an \<^verbatim>\<open>await\<close>; an exception in the called function is a rejected promise.\<close>

definition wait_for :: "'a eng \<Rightarrow> ('a \<Rightarrow> exec_at) \<Rightarrow> stretch" where
  "wait_for m k s = (case m s of (Inl er, s') \<Rightarrow> (Leaving (Inl er), s') | (Inr x, s') \<Rightarrow> (k x, s'))"

text \<open>The call of \<^verbatim>\<open>applyTransition\<close>.\<close>

definition begin_transition ::
    "env \<Rightarrow> job_run \<Rightarrow> job_definition \<Rightarrow> workflow_instance \<Rightarrow> string \<Rightarrow> workflow_state \<Rightarrow> string \<Rightarrow> cont \<Rightarrow> stretch" where
  "begin_transition e run def w ev target actor k =
     wait_for (transition_saves e w ev target actor) (\<lambda>w'. Saved run def (wf_state w) ev target w' k)"

fun end_transition :: "job_run \<Rightarrow> job_definition \<Rightarrow> workflow_instance \<Rightarrow> cont \<Rightarrow> exec_at" where
  "end_transition run def w GoOn = Looping run def w"
| "end_transition run def w LeaveLoop = Broke run def w"
| "end_transition run def w PushDead = Pushing run def w"

definition after_loop :: "env \<Rightarrow> run_id \<Rightarrow> job_run \<Rightarrow> job_definition \<Rightarrow> workflow_instance \<Rightarrow> stretch" where
  "after_loop e r run def w s =
     (if wf_state w = Failed \<and>
         maxAttempts (jd_retryPolicy def) * int (length (jd_tasks def)) \<le> int (total_attempts w)
      then begin_transition e run def w ''dead_letter'' DeadLettered owner PushDead s
      else leave r (Inr ()) s)"

text \<open>The head of the loop, up to the first \<^verbatim>\<open>await\<close> of its body.\<close>

definition loop_head :: "env \<Rightarrow> run_id \<Rightarrow> job_run \<Rightarrow> job_definition \<Rightarrow> workflow_instance \<Rightarrow> stretch" where
  "loop_head e r run def w s =
     (if wf_state w \<noteq> Running then after_loop e r run def w s
      else case nextRunnable (wf_tasks w) (jd_tasks def) of
        None \<Rightarrow>
          if allDone (wf_tasks w) (jd_tasks def)
          then (case rule_engine_apply def
                   \<lparr>cc_context = wf_context w,
                    cc_taskOutputs = taskOutputs \<lparr>rc_run = run, rc_definition = def, rc_workflow = w\<rparr>\<rparr> of
                  Inl er \<Rightarrow> leave r (Inl er) s
                | Inr _ \<Rightarrow> begin_transition e run def w ''complete'' Completed owner LeaveLoop s)
          else begin_transition e run def w ''await'' Waiting owner LeaveLoop s
      | Some nextDef \<Rightarrow>
          wait_for (with_env (read_env (date_now e))) (\<lambda>started.
            case List.find (\<lambda>t. tr_definitionTaskId t = td_id nextDef) (wf_tasks w) of
              None \<Rightarrow> Leaving (Inl (JsTypeError ''Cannot read properties of undefined''))
            | Some taskRun \<Rightarrow> Trying run def w nextDef taskRun started) s)"

text \<open>The end of the body: a failed task leaves the loop, otherwise its head is next.\<close>

definition task_over :: "env \<Rightarrow> run_id \<Rightarrow> job_run \<Rightarrow> job_definition \<Rightarrow> workflow_instance \<Rightarrow> execute_result \<Rightarrow> stretch" where
  "task_over e r run def w res s =
     (if tr_status (er_task res) = TFailed
      then begin_transition e run def w ''fail'' Failed owner LeaveLoop s
      else loop_head e r run def w s)"

text \<open>One step of the execution of run \<open>r\<close>, from one \<^verbatim>\<open>await\<close> to the next.\<close>

fun exec_step :: "env \<Rightarrow> simulator \<Rightarrow> run_id \<Rightarrow> exec_at \<Rightarrow> stretch" where
  "exec_step e sim r Called s =
     (if r \<in> set (en_localLocks s) then (Returned (Inr ()), s)
      else let s1 = s\<lparr>en_localLocks := set_add r (en_localLocks s)\<rparr> in
           case lock_acquire r owner (en_runLocks s1) of
             Inl er \<Rightarrow> (Returned (Inl er), s1)
           | Inr locks \<Rightarrow> (GotRun (run_store_get (en_runs s) r), s1\<lparr>en_runLocks := locks\<rparr>))"
| "exec_step e sim r (GotRun found) s =
     (case found of
        None \<Rightarrow> leave r (Inl (NotFoundError ''JobRun'' r)) s
      | Some run \<Rightarrow> (GotJob run (job_store_get (en_jobs s) (jr_jobId run)), s))"
| "exec_step e sim r (GotJob run found) s =
     (case found of
        None \<Rightarrow> leave r (Inl (NotFoundError ''JobDefinition'' (jr_jobId run))) s
      | Some def \<Rightarrow> (GotWorkflow run def (workflow_store_getByRunId (en_workflows s) r), s))"
| "exec_step e sim r (GotWorkflow run def found) s =
     (case found of
        None \<Rightarrow> leave r (Inl (NotFoundError ''WorkflowInstance'' r)) s
      | Some w \<Rightarrow>
          if wf_state w = Pending
          then begin_transition e run def w ''start'' Running ''orchestrator'' GoOn s
          else (Looping run def w, s))"
| "exec_step e sim r (Saved run def origin ev target w k) s =
     (Syncing run def origin ev target w k (run_store_get (en_runs s) (wf_runId w)), s)"
| "exec_step e sim r (Syncing run def origin ev target w k found) s =
     wait_for (sync_found e found target) (\<lambda>_. Emitting run def origin ev target w k) s"
| "exec_step e sim r (Emitting run def origin ev target w k) s =
     wait_for (transition_emits e origin ev target w) (\<lambda>_. end_transition run def w k) s"
| "exec_step e sim r (Looping run def w) s = loop_head e r run def w s"
| "exec_step e sim r (Trying run def w d t started) s =
     wait_for (with_env (executor_run e sim t d (jd_retryPolicy def) (wf_context w)))
       (\<lambda>res. Tried run def w d started res) s"
| "exec_step e sim r (Tried run def w d started res) s =
     wait_for
       (bind_a (with_env (read_env (date_now e))) (\<lambda>finished.
        bind_a (recordDuration (td_handler d) (finished - started)) (\<lambda>_.
          updateTask e w (er_task res))))
       (\<lambda>w1. Updated run def w1 res) s"
| "exec_step e sim r (Updated run def w res) s =
     (if er_retryAfterMs res \<noteq> None then (Sleeping run def w res, s) else task_over e r run def w res s)"
| "exec_step e sim r (Sleeping run def w res) s =
     wait_for (updateTask e w ((er_task res)\<lparr>tr_status := TQueued\<rparr>)) (\<lambda>w2. Requeued run def w2 res) s"
| "exec_step e sim r (Requeued run def w res) s = task_over e r run def w res s"
| "exec_step e sim r (Broke run def w) s = after_loop e r run def w s"
| "exec_step e sim r (Pushing run def w) s =
     wait_for (bind_a (with_env (read_env (clk e))) (\<lambda>now.
         writes (\<lambda>s. s\<lparr>en_dead := dead_letter_push r
             [(''reason'', VStr (failure_reason_str MaxRetriesExceeded)), (''workflowId'', VStr (wf_id w))]
             now (en_dead s)\<rparr>)))
       (\<lambda>_. Leaving (Inr ())) s"
| "exec_step e sim r (Leaving x) s = leave r x s"
| "exec_step e sim r (Returned x) s = (Returned x, s)"

subsection \<open>An execution left to itself\<close>

text \<open>Stepped without interruption, the coroutine does what \<open>executeRun\<close> does.\<close>

definition exec_next :: "env \<Rightarrow> simulator \<Rightarrow> run_id \<Rightarrow> exec_at \<times> engine \<Rightarrow> exec_at \<times> engine" where
  "exec_next e sim r c = exec_step e sim r (fst c) (snd c)"

definition leads :: "env \<Rightarrow> simulator \<Rightarrow> run_id \<Rightarrow> exec_at \<times> engine \<Rightarrow> exec_at \<times> engine \<Rightarrow> bool" where
  "leads e sim r c c' \<longleftrightarrow> (\<exists>n. (exec_next e sim r ^^ n) c = c')"

lemma leads_refl: "leads e sim r c c"
  unfolding leads_def by (rule exI [of _ 0]) simp

lemma leads_trans: "leads e sim r a b \<Longrightarrow> leads e sim r b c \<Longrightarrow> leads e sim r a c"
  unfolding leads_def by (metis comp_apply funpow_add)

lemma leads_step: "leads e sim r (exec_step e sim r a s) c \<Longrightarrow> leads e sim r (a, s) c"
  unfolding leads_def by (metis exec_next_def fst_conv snd_conv funpow_Suc_right comp_apply)

lemma sync_found_succeeds: "\<exists>s'. sync_found e found target s = (Inr (), s')"
  by (cases found) (simp_all add: sync_found_def with_env_def)

lemma leads_begin_transition:
  assumes "applyTransition e w ev target actor s = (x, s')"
  shows "leads e sim r (begin_transition e run def w ev target actor k s)
     (case x of Inl er \<Rightarrow> Leaving (Inl er) | Inr w' \<Rightarrow> end_transition run def w' k, s')"
proof (cases "transition_saves e w ev target actor s")
  case (Pair y s1)
  show ?thesis
  proof (cases y)
    case (Inl er)
    then show ?thesis
      using assms Pair leads_refl by (auto simp: applyTransition_stretches begin_transition_def wait_for_def bind_a_def)
  next
    case (Inr w')
    obtain s2 where s2: "sync_found e (run_store_get (en_runs s1) (wf_runId w')) target s1 = (Inr (), s2)"
      using sync_found_succeeds by blast
    obtain s3 where s3: "transition_emits e (wf_state w) ev target w' s2 = (Inr (), s3)"
      by (simp add: transition_emits_def emit_def with_env_def)
    have x: "x = Inr w'" "s' = s3"
      using assms Pair Inr s2 s3 by (auto simp: applyTransition_stretches bind_a_def)
    have "begin_transition e run def w ev target actor k s = (Saved run def (wf_state w) ev target w' k, s1)"
      using Pair Inr by (simp add: begin_transition_def wait_for_def)
    then show ?thesis
      using s2 s3 by (simp add: x leads_step wait_for_def leads_refl)
  qed
qed

text \<open>A call of \<open>executeRun\<close> that got its locks ends in its \<^verbatim>\<open>finally\<close> block.\<close>

abbreviation gives_back ::
    "env \<Rightarrow> simulator \<Rightarrow> run_id \<Rightarrow> exec_at \<times> engine \<Rightarrow> unit res \<times> engine \<Rightarrow> bool" where
  "gives_back e sim r c y \<equiv> leads e sim r c (Returned (fst y), release_locks r (snd y))"

lemma leads_leave: "leads e sim r (leave r x s) (Returned x, release_locks r s)"
  unfolding leave_def by (simp add: leads_refl)

lemma leads_leaving: "leads e sim r (Leaving x, s) (Returned x, release_locks r s)"
  by (intro leads_step) (simp add: leads_leave)

lemma gives_back_after_loop: "gives_back e sim r (after_loop e r run def w s) (dead_letter_if_exhausted e r def w s)"
proof (cases "wf_state w = Failed \<and>
    maxAttempts (jd_retryPolicy def) * int (length (jd_tasks def)) \<le> int (total_attempts w)")
  case False
  then show ?thesis
    using leads_leave by (auto simp: after_loop_def dead_letter_if_exhausted_def)
next
  case True
  obtain x s1 where a: "applyTransition e w ''dead_letter'' DeadLettered owner s = (x, s1)" by fastforce
  note t = leads_begin_transition [OF a, of sim r run def PushDead]
  show ?thesis
  proof (cases x)
    case (Inl er)
    then show ?thesis
      using True a leads_trans [OF t] leads_leaving
      by (simp add: after_loop_def dead_letter_if_exhausted_def bind_a_def)
  next
    case (Inr w')
    then show ?thesis
      using True a
      by (simp add: after_loop_def dead_letter_if_exhausted_def bind_a_def with_env_def)
        (rule leads_trans [OF t], simp add: leads_step wait_for_def with_env_def bind_a_def leads_leaving)
  qed
qed

text \<open>Where a turn of the loop takes the coroutine, given what it does in \<open>exec_body\<close>.\<close>

fun turn_end :: "env \<Rightarrow> run_id \<Rightarrow> job_run \<Rightarrow> job_definition \<Rightarrow> (workflow_instance \<times> bool) res \<Rightarrow> stretch" where
  "turn_end e r run def (Inl er) s = (Leaving (Inl er), s)"
| "turn_end e r run def (Inr (w, True)) s = (Broke run def w, s)"
| "turn_end e r run def (Inr (w, False)) s = loop_head e r run def w s"

lemma leads_task_over:
  assumes "(if tr_status (er_task res) = TFailed
       then bind_a (applyTransition e w ''fail'' Failed owner) (\<lambda>w3. ret (w3, True))
       else ret (w, False)) s = (x, s')"
  shows "leads e sim r (task_over e r run def w res s) (turn_end e r run def x s')"
proof (cases "tr_status (er_task res) = TFailed")
  case True
  obtain y s1 where a: "applyTransition e w ''fail'' Failed owner s = (y, s1)" by fastforce
  then show ?thesis
    using True assms leads_begin_transition [OF a, of sim r run def LeaveLoop]
    by (cases y) (auto simp: task_over_def bind_a_def)
next
  case False
  then show ?thesis using assms by (auto simp: task_over_def leads_refl)
qed

lemma updateTask_succeeds: "\<exists>w' s'. updateTask e w t s = (Inr w', s')"
  by (simp add: updateTask_def with_env_def Let_def)

lemma leads_after_try:
  assumes "after_try e res w s = (x, s')"
  shows "leads e sim r (Updated run def w res, s) (turn_end e r run def x s')"
proof (cases "er_retryAfterMs res = None")
  case True
  then show ?thesis
    using assms by (intro leads_step) (simp add: after_try_def leads_task_over)
next
  case False
  obtain w2 s2 where u: "updateTask e w ((er_task res)\<lparr>tr_status := TQueued\<rparr>) s = (Inr w2, s2)"
    using updateTask_succeeds by blast
  then have "leads e sim r (task_over e r run def w2 res s2) (turn_end e r run def x s')"
    using False assms by (intro leads_task_over) (simp add: after_try_def bind_a_def)
  then show ?thesis using False u by (simp add: leads_step wait_for_def)
qed

lemma leads_run_task:
  assumes "run_task e sim def w d s = (x, s')" and "wf_state w = Running"
    and "nextRunnable (wf_tasks w) (jd_tasks def) = Some d"
  shows "leads e sim r (loop_head e r run def w s) (turn_end e r run def x s')"
proof (cases "List.find (\<lambda>t. tr_definitionTaskId t = td_id d) (wf_tasks w)")
  case None
  then show ?thesis
    using assms by (auto simp: loop_head_def run_task_def wait_for_def with_env_def bind_a_def leads_refl)
next
  case (Some t)
  let ?s0 = "s\<lparr>en_ticks := Suc (en_ticks s)\<rparr>"
  have h: "loop_head e r run def w s = (Trying run def w d t (date_now e (en_ticks s)), ?s0)"
    using Some assms by (simp add: loop_head_def wait_for_def with_env_def)
  obtain y n where ex: "executor_run e sim t d (jd_retryPolicy def) (wf_context w) (Suc (en_ticks s)) = (y, n)"
    by fastforce
  show ?thesis
  proof (cases y)
    case (Inl er)
    then show ?thesis
      using h ex Some assms(1) by (auto simp: run_task_def with_env_def bind_a_def leads_step wait_for_def leads_refl)
  next
    case (Inr res)
    define s1 where "s1 = s\<lparr>en_ticks := Suc n, en_bus := (en_bus s)\<lparr>bus_metrics :=
      recordTaskDuration (td_handler d) (date_now e n - date_now e (en_ticks s)) (bus_metrics (en_bus s))\<rparr>\<rparr>"
    obtain w1 s2 where u: "updateTask e w (er_task res) s1 = (Inr w1, s2)"
      using updateTask_succeeds by blast
    have "leads e sim r (Updated run def w1 res, s2) (turn_end e r run def x s')"
      using assms(1) Some ex Inr u
      by (intro leads_after_try) (simp add: run_task_def after_try_def with_env_def bind_a_def recordDuration_def s1_def)
    then show ?thesis
      using h ex Inr u by (simp add: leads_step wait_for_def with_env_def bind_a_def recordDuration_def s1_def)
  qed
qed

text \<open>How the call goes on after the loop.\<close>

fun loop_result :: "env \<Rightarrow> run_id \<Rightarrow> job_definition \<Rightarrow> workflow_instance res \<times> engine \<Rightarrow> unit res \<times> engine" where
  "loop_result e r def (Inl er, s) = (Inl er, s)"
| "loop_result e r def (Inr w, s) = dead_letter_if_exhausted e r def w s"

lemma gives_back_broke: "gives_back e sim r (Broke run def w, s) (dead_letter_if_exhausted e r def w s)"
  by (intro leads_step) (simp add: gives_back_after_loop)

lemma gives_back_finish:
  assumes "finish_or_wait e run def w s = c" and "wf_state w = Running"
    and "nextRunnable (wf_tasks w) (jd_tasks def) = None"
  shows "gives_back e sim r (loop_head e r run def w s) (loop_result e r def c)"
proof -
  have t: "gives_back e sim r (begin_transition e run def w ev target owner LeaveLoop s)
      (loop_result e r def (applyTransition e w ev target owner s))" for ev target
  proof (cases "applyTransition e w ev target owner s")
    case (Pair x s')
    note t = leads_begin_transition [OF Pair, of sim r run def LeaveLoop]
    show ?thesis
      by (rule leads_trans [OF t]) (use Pair leads_leaving gives_back_broke in \<open>auto split: sum.split\<close>)
  qed
  show ?thesis
    using assms t leads_leave
    by (auto simp: loop_head_def finish_or_wait_def bind_a_def lift_r_def split: sum.splits)
qed

lemma gives_back_loop:
  "exec_loop e sim run def fuel w s = Some c \<Longrightarrow>
     gives_back e sim r (loop_head e r run def w s) (loop_result e r def c)"
proof (induction fuel arbitrary: w s)
  case 0
  then show ?case by simp
next
  case (Suc fuel)
  show ?case
  proof (cases "wf_state w = Running")
    case False
    then show ?thesis using Suc.prems gives_back_after_loop by (auto simp: loop_head_def)
  next
    case True
    obtain x s' where b: "exec_body e sim run def w s = (x, s')" by fastforce
    show ?thesis
    proof (cases "nextRunnable (wf_tasks w) (jd_tasks def)")
      case None
      obtain y where f: "finish_or_wait e run def w s = (y, s')"
        using b None by (auto simp: exec_body_def bind_a_def split: prod.splits sum.splits)
      then have "c = (y, s')"
        using b None True Suc.prems by (cases y) (auto simp: exec_body_def bind_a_def)
      then show ?thesis using gives_back_finish [OF f True None] by simp
    next
      case (Some d)
      have run: "leads e sim r (loop_head e r run def w s) (turn_end e r run def x s')"
        using b Some True by (intro leads_run_task) (simp_all add: exec_body_def)
      show ?thesis
        by (rule leads_trans [OF run], cases rule: turn_end.cases [of "(e, r, run, def, x, s')"])
          (use b True Suc leads_leaving gives_back_broke in auto)
    qed
  qed
qed

lemma loop_result_eq:
  "(\<lambda>(res, s). case res of Inl er \<Rightarrow> (Inl er, s) | Inr w \<Rightarrow> dead_letter_if_exhausted e r def w s) = loop_result e r def"
  by (rule ext) (auto split: sum.splits)

lemma gives_back_locked:
  assumes "execute_locked e sim fuel r s = Some c"
  shows "gives_back e sim r (GotRun (run_store_get (en_runs s) r), s) c"
proof (cases "run_store_get (en_runs s) r")
  case None
  then show ?thesis using assms by (auto simp: execute_locked_def leads_step leads_leave)
next
  case run: (Some run)
  show ?thesis
  proof (cases "job_store_get (en_jobs s) (jr_jobId run)")
    case None
    then show ?thesis using assms run by (auto simp: execute_locked_def leads_step leads_leave)
  next
    case def: (Some def)
    show ?thesis
    proof (cases "workflow_store_getByRunId (en_workflows s) r")
      case None
      then show ?thesis using assms run def by (auto simp: execute_locked_def leads_step leads_leave)
    next
      case (Some w)
      obtain x s1 where start: "startRun e w s = (x, s1)" by fastforce
      have go: "leads e sim r (GotWorkflow run def (Some w), s)
          (case x of Inl er \<Rightarrow> Leaving (Inl er) | Inr w1 \<Rightarrow> Looping run def w1, s1)"
      proof (cases "wf_state w = Pending")
        case True
        then show ?thesis
          using start leads_begin_transition [of e w "''start''" Running "''orchestrator''" s x s1 sim r run def GoOn]
          by (intro leads_step) (auto simp: startRun_def split: sum.splits)
      qed (use start in \<open>auto simp: startRun_def intro!: leads_step leads_refl\<close>)
      have "gives_back e sim r (case x of Inl er \<Rightarrow> Leaving (Inl er) | Inr w1 \<Rightarrow> Looping run def w1, s1) c"
      proof (cases x)
        case (Inl er)
        then show ?thesis using assms run def Some start leads_leaving by (auto simp: execute_locked_def)
      next
        case (Inr w1)
        then obtain y where l: "exec_loop e sim run def fuel w1 s1 = Some y"
          and "c = loop_result e r def y"
          using assms run def Some start by (auto simp: execute_locked_def loop_result_eq)
        then show ?thesis using gives_back_loop [OF l] Inr by (auto intro: leads_step)
      qed
      from leads_trans [OF go this] show ?thesis using run def Some by (simp add: leads_step)
    qed
  qed
qed


end
