(* ===== verification/Interleaving.thy ===== *)
theory Interleaving
  imports Coroutines
begin

section \<open>Interleaved executions\<close>

text \<open>
  Any number of calls of \<open>executeRun\<close> on one engine, as the coroutines of theory Coroutines: the relation
  \<open>call_step\<close> lets any call that has not returned take its next stretch. The invariant says of every run
  which call holds its locks and that this call's variables are what is stored; a stretch of the holder
  keeps it and leaves the other runs alone, a call that finds the lock taken returns at once. An
  interpretation of \<open>ending_steps\<close> on \<open>call_step\<close> gives that every interleaving ends.
\<close>

subsection \<open>What holds of a run while it is executed\<close>

text \<open>The stored instance of \<open>r\<close> is \<open>w\<close>, and its run record names a stored job.\<close>

definition stored :: "job_definition \<Rightarrow> run_id \<Rightarrow> engine \<Rightarrow> workflow_instance \<Rightarrow> bool" where
  "stored def r s w \<longleftrightarrow>
     workflow_store_ok (en_workflows s) \<and> workflow_store_getByRunId (en_workflows s) r = Some w \<and>
     store_ok jr_id (en_runs s) \<and>
     (\<exists>run. run_store_get (en_runs s) r = Some run \<and> job_store_get (en_jobs s) (jr_jobId run) = Some def)"

definition in_step :: "run_id \<Rightarrow> engine \<Rightarrow> workflow_instance \<Rightarrow> bool" where
  "in_step r s w \<longleftrightarrow> (\<exists>run. run_store_get (en_runs s) r = Some run \<and> jr_status run = wf_state w)"

text \<open>A run after an execution: nothing that is left to do can be done.\<close>

definition settled :: "job_definition \<Rightarrow> workflow_instance \<Rightarrow> bool" where
  "settled def w \<longleftrightarrow>
     run_inv def w \<and>
     (wf_state w = Completed \<and> all_done w \<or>
      wf_state w = Failed \<and> has_failure w \<and>
        int (total_attempts w) < maxAttempts (jd_retryPolicy def) * int (length (jd_tasks def)) \<or>
      wf_state w = DeadLettered \<and> has_failure w \<and> maxAttempts (jd_retryPolicy def) = 1 \<or>
      wf_state w = Running \<and> all_done w)"

definition loop_ok :: "job_definition \<Rightarrow> workflow_instance \<Rightarrow> bool" where
  "loop_ok def w \<longleftrightarrow> run_inv def w \<and> wf_state w = Running \<and> no_failure w \<or> settled def w"

definition rest_ok :: "job_definition \<Rightarrow> workflow_instance \<Rightarrow> bool" where
  "rest_ok def w \<longleftrightarrow> run_inv def w \<and> wf_state w = Pending \<and> no_failure w \<or> loop_ok def w"

definition broke_ok :: "job_definition \<Rightarrow> workflow_instance \<Rightarrow> bool" where
  "broke_ok def w \<longleftrightarrow>
     run_inv def w \<and> (wf_state w = Completed \<and> all_done w \<or> wf_state w = Failed \<and> has_failure w)"

definition trying_ok :: "job_definition \<Rightarrow> workflow_instance \<Rightarrow> task_run \<Rightarrow> bool" where
  "trying_ok def w t \<longleftrightarrow>
     run_inv def w \<and> wf_state w = Running \<and> no_failure w \<and> t \<in> set (wf_tasks w) \<and> tr_status t = TQueued \<and>
     tr_attempt t < budget def \<and> deps_done def (wf_tasks w) (tr_definitionTaskId t)"

definition requeued :: "execute_result \<Rightarrow> workflow_instance \<Rightarrow> workflow_instance" where
  "requeued res w = w\<lparr>wf_tasks := replace_task ((er_task res)\<lparr>tr_status := TQueued\<rparr>) (wf_tasks w)\<rparr>"

definition retried :: "job_definition \<Rightarrow> workflow_instance \<Rightarrow> execute_result \<Rightarrow> bool" where
  "retried def w res \<longleftrightarrow>
     tr_status (er_task res) = TRetrying \<and> run_inv def (requeued res w) \<and> no_failure (requeued res w) \<and>
     pending_work def (requeued res w) \<le> pending_work def w"

text \<open>A task whose result is stored: done, failed, or waiting to be queued again.\<close>

definition tried_ok :: "job_definition \<Rightarrow> workflow_instance \<Rightarrow> execute_result \<Rightarrow> bool" where
  "tried_ok def w res \<longleftrightarrow>
     (if er_retryAfterMs res \<noteq> None then retried def w res
      else run_inv def w \<and> (if tr_status (er_task res) = TFailed then has_failure w else no_failure w))"

fun cont_ok :: "job_definition \<Rightarrow> cont \<Rightarrow> workflow_instance \<Rightarrow> bool" where
  "cont_ok def GoOn w \<longleftrightarrow> run_inv def w \<and> wf_state w = Running \<and> no_failure w"
| "cont_ok def LeaveLoop w \<longleftrightarrow> broke_ok def w"
| "cont_ok def PushDead w \<longleftrightarrow> settled def w"

text \<open>
  The invariant of the coroutine that holds the locks of \<open>r\<close>: its variables are what is stored.
  Only between the two saves of a transition are instance and run record out of step.
\<close>

fun at_ok :: "job_definition \<Rightarrow> run_id \<Rightarrow> exec_at \<Rightarrow> workflow_instance \<Rightarrow> engine \<Rightarrow> bool" where
  "at_ok def r Called w s \<longleftrightarrow> False"
| "at_ok def r (GotRun found) w s \<longleftrightarrow> in_step r s w \<and> rest_ok def w \<and> found = run_store_get (en_runs s) r"
| "at_ok def r (GotJob run found) w s \<longleftrightarrow> in_step r s w \<and> rest_ok def w \<and> found = Some def"
| "at_ok def r (GotWorkflow run d found) w s \<longleftrightarrow> in_step r s w \<and> rest_ok def w \<and> d = def \<and> found = Some w"
| "at_ok def r (Saved run d origin ev target w' k) w s \<longleftrightarrow> d = def \<and> w' = w \<and> target = wf_state w \<and> cont_ok def k w"
| "at_ok def r (Syncing run d origin ev target w' k found) w s \<longleftrightarrow>
     d = def \<and> w' = w \<and> target = wf_state w \<and> cont_ok def k w \<and> found = run_store_get (en_runs s) r"
| "at_ok def r (Emitting run d origin ev target w' k) w s \<longleftrightarrow> in_step r s w \<and> d = def \<and> w' = w \<and> cont_ok def k w"
| "at_ok def r (Looping run d w') w s \<longleftrightarrow> in_step r s w \<and> d = def \<and> w' = w \<and> loop_ok def w"
| "at_ok def r (Trying run d w' td t started) w s \<longleftrightarrow> in_step r s w \<and> d = def \<and> w' = w \<and> trying_ok def w t"
| "at_ok def r (Tried run d w' td started res) w s \<longleftrightarrow>
     in_step r s w \<and> d = def \<and> w' = w \<and> (\<exists>t. trying_ok def w t \<and> outcome_ok (jd_retryPolicy def) t res)"
| "at_ok def r (Updated run d w' res) w s \<longleftrightarrow>
     in_step r s w \<and> d = def \<and> w' = w \<and> wf_state w = Running \<and> tried_ok def w res"
| "at_ok def r (Sleeping run d w' res) w s \<longleftrightarrow>
     in_step r s w \<and> d = def \<and> w' = w \<and> wf_state w = Running \<and> retried def w res"
| "at_ok def r (Requeued run d w' res) w s \<longleftrightarrow>
     in_step r s w \<and> d = def \<and> w' = w \<and> wf_state w = Running \<and> run_inv def w \<and> no_failure w \<and>
     tr_status (er_task res) \<noteq> TFailed"
| "at_ok def r (Broke run d w') w s \<longleftrightarrow> in_step r s w \<and> d = def \<and> w' = w \<and> broke_ok def w"
| "at_ok def r (Pushing run d w') w s \<longleftrightarrow> in_step r s w \<and> d = def \<and> w' = w \<and> settled def w"
| "at_ok def r (Leaving x) w s \<longleftrightarrow> in_step r s w \<and> settled def w"
| "at_ok def r (Returned x) w s \<longleftrightarrow> False"

text \<open>How many steps an execution has left at most; \<open>b\<close> bounds the attempts its tasks have.\<close>

fun cont_weight :: "job_definition \<Rightarrow> workflow_instance \<Rightarrow> cont \<Rightarrow> nat" where
  "cont_weight def w GoOn = 5 * pending_work def w + 21"
| "cont_weight def w LeaveLoop = 7"
| "cont_weight def w PushDead = 3"

fun exec_weight :: "nat \<Rightarrow> exec_at \<Rightarrow> nat" where
  "exec_weight b Called = 5 * b + 29"
| "exec_weight b (GotRun found) = 5 * b + 28"
| "exec_weight b (GotJob run found) = 5 * b + 27"
| "exec_weight b (GotWorkflow run def found) = 5 * b + 26"
| "exec_weight b (Saved run def origin ev target w k) = cont_weight def w k + 3"
| "exec_weight b (Syncing run def origin ev target w k found) = cont_weight def w k + 2"
| "exec_weight b (Emitting run def origin ev target w k) = cont_weight def w k + 1"
| "exec_weight b (Looping run def w) = 5 * pending_work def w + 21"
| "exec_weight b (Trying run def w d t started) = 5 * pending_work def w + 20"
| "exec_weight b (Tried run def w d started res) = 5 * pending_work def w + 19"
| "exec_weight b (Updated run def w res) = 5 * pending_work def w + 23"
| "exec_weight b (Sleeping run def w res) = 5 * pending_work def w + 22"
| "exec_weight b (Requeued run def w res) = 5 * pending_work def w + 21"
| "exec_weight b (Broke run def w) = 7"
| "exec_weight b (Pushing run def w) = 3"
| "exec_weight b (Leaving x) = 1"
| "exec_weight b (Returned x) = 0"

lemma exec_weight_end [simp]: "exec_weight b (end_transition run def w k) = cont_weight def w k"
  by (cases k) simp_all

subsection \<open>One stretch keeps the invariant\<close>

text \<open>
  A stretch of the holder of \<open>r\<close>: only \<open>r\<close> is touched, the stored instance moves by steps of the state
  machine, and the coroutine either waits again, in good order, or has returned with the run settled
  and its locks given back.
\<close>

definition stretch_ok :: "job_definition \<Rightarrow> run_id \<Rightarrow> nat \<Rightarrow> nat \<Rightarrow> workflow_instance \<Rightarrow> engine \<Rightarrow> exec_at \<times> engine \<Rightarrow> bool" where
  "stretch_ok def r b n w s c \<longleftrightarrow>
     (case c of (a, s') \<Rightarrow> \<exists>w'. stored def r s' w' \<and> workflow_step\<^sup>*\<^sup>* w w' \<and> exec_weight b a < n \<and>
        (at_ok def r a w' s' \<and> framed r s s' \<or>
         (\<exists>x s1. a = Returned x \<and> s' = release_locks r s1 \<and> framed r s s1 \<and> in_step r s' w' \<and> settled def w')))"

lemma stretch_okI:
  assumes "stored def r s' w'" and "workflow_step\<^sup>*\<^sup>* w w'" and "exec_weight b a < n"
    and "at_ok def r a w' s'" and "framed r s s'"
  shows "stretch_ok def r b n w s (a, s')"
  using assms unfolding stretch_ok_def by blast

lemma stretch_ok_leave:
  assumes "stored def r s w" and "in_step r s w" and "settled def w" and "0 < n"
  shows "stretch_ok def r b n w s (leave r x s)"
proof -
  have "stored def r (release_locks r s) w" "in_step r (release_locks r s) w"
    using assms by (simp_all add: stored_def in_step_def release_locks_def)
  then show ?thesis
    using assms(3,4) by (auto simp: stretch_ok_def leave_def intro!: exI [of _ w] exI [of _ s])
qed

lemma stored_runId: "stored def r s w \<Longrightarrow> wf_runId w = r"
  using wfs.getByRunId_runId by (auto simp: stored_def)

text \<open>Saving the next version of the stored instance.\<close>

lemma stored_save:
  assumes "stored def r s w" and "wf_id w' = wf_id w" and "wf_runId w' = wf_runId w"
    and s': "s' = s\<lparr>en_ticks := n, en_workflows := workflow_store_save w' (en_workflows s), en_bus := b\<rparr>"
    and b: "mt_counters (bus_metrics b) = mt_counters (bus_metrics (en_bus s))" "bus_outbox b = bus_outbox (en_bus s)"
  shows "stored def r s' w' \<and> framed r s s' \<and> (in_step r s w \<and> wf_state w' = wf_state w \<longrightarrow> in_step r s' w')"
proof -
  have r: "wf_runId w' = r" using assms(1,3) stored_runId by simp
  have ok: "workflow_store_ok (en_workflows s)" "workflow_store_getByRunId (en_workflows s) r = Some w"
    using assms(1) by (simp_all add: stored_def)
  show ?thesis
    using assms(1) wfs.getByRunId_update [OF ok assms(2) r] wfs.invar_update [OF ok assms(2) r] b
    by (auto simp: stored_def framed_def in_step_def s')
qed

lemma begin_transition_ok:
  assumes st: "stored def r s w" and guard: "evaluate w ev target = Inr ()"
    and can: "canTransition DEFAULT_TRANSITION_RULES (wf_state w) target ev"
    and k: "\<And>w'. wf_state w' = target \<Longrightarrow> wf_tasks w' = wf_tasks w \<Longrightarrow> cont_ok def k w' \<and> cont_weight def w' k + 3 < n"
  shows "stretch_ok def r b n w s (begin_transition e run def w ev target actor k s)"
proof -
  define at1 at2 where "at1 = clk e (en_ticks s)" and "at2 = clk e (Suc (en_ticks s))"
  obtain w' where t: "transition DEFAULT_TRANSITION_RULES at1 at2 w ev target actor None = Inr w'"
    using can by (auto simp: transition_Inr)
  then have w': "wf_id w' = wf_id w" "wf_runId w' = wf_runId w" "wf_state w' = target" "wf_tasks w' = wf_tasks w"
    by (auto simp: transition_Inr)
  let ?s = "s\<lparr>en_ticks := Suc (Suc (en_ticks s)), en_workflows := workflow_store_save w' (en_workflows s)\<rparr>"
  have "begin_transition e run def w ev target actor k s = (Saved run def (wf_state w) ev target w' k, ?s)"
    using guard t by (simp add: begin_transition_def wait_for_def transition_saves_def machine_transition_def at1_def at2_def)
  moreover have "stored def r ?s w' \<and> framed r s ?s"
    using stored_save [OF st w'(1,2), where s' = ?s and n = "Suc (Suc (en_ticks s))" and b = "en_bus s"] by simp
  moreover have "workflow_step w w'" using guard t by (rule apply_transition)
  ultimately show ?thesis using k [OF w'(3,4)] w'(3) by (auto intro!: stretch_okI)
qed

lemma loop_exit:
  assumes "stored def r s w" and "in_step r s w" and "well_formed_job def" and "broke_ok def w \<or> settled def w \<and> wf_state w \<noteq> Running"
    and "6 < n"
  shows "stretch_ok def r b n w s (after_loop e r run def w s)"
proof (cases "wf_state w = Failed \<and>
    maxAttempts (jd_retryPolicy def) * int (length (jd_tasks def)) \<le> int (total_attempts w)")
  case True
  have inv: "run_inv def w" and f: "has_failure w"
    using True assms(4) by (auto simp: broke_ok_def settled_def)
  have "evaluate w ''dead_letter'' DeadLettered = Inr ()" by (simp add: evaluate_Inr)
  moreover have "canTransition DEFAULT_TRANSITION_RULES (wf_state w) DeadLettered ''dead_letter''"
    using True by (simp add: canTransition_default)
  moreover have "settled def w'" if "wf_state w' = DeadLettered" "wf_tasks w' = wf_tasks w" for w'
    using that inv f exhausted_means_one [OF inv assms(3)] True by (simp add: settled_def run_inv_def has_failure_def)
  ultimately show ?thesis
    using True assms(1,5) by (simp add: after_loop_def begin_transition_ok)
next
  case False
  then have "settled def w" using assms(4) by (auto simp: broke_ok_def settled_def)
  then show ?thesis using False assms(1,2,5) by (auto simp: after_loop_def intro: stretch_ok_leave)
qed

lemma loop_head_ok:
  assumes st: "stored def r s w" and sync: "in_step r s w" and wf: "well_formed_job def" and rules: "rules_modelled def"
    and ok: "loop_ok def w" and n: "5 * pending_work def w + 20 < n"
  shows "stretch_ok def r b n w s (loop_head e r run def w s)"
proof (cases "wf_state w = Running")
  case False
  then have "settled def w" using ok by (auto simp: loop_ok_def)
  then show ?thesis
    using loop_exit [OF st sync wf] n False by (simp add: loop_head_def)
next
  case True
  have inv: "run_inv def w" and nf: "no_failure w"
    using ok True by (auto simp: loop_ok_def settled_def all_done_def no_failure_def task_done_def)
  show ?thesis
  proof (cases "nextRunnable (wf_tasks w) (jd_tasks def)")
    case (Some d)
    obtain t where f: "List.find (\<lambda>t. tr_definitionTaskId t = td_id d) (wf_tasks w) = Some t" and t: "trying_ok def w t"
      using next_task_run [OF inv wf nf Some] inv nf True unfolding trying_ok_def by metis
    have "loop_head e r run def w s =
        (Trying run def w d t (date_now e (en_ticks s)), s\<lparr>en_ticks := Suc (en_ticks s)\<rparr>)"
      using True Some f by (simp add: loop_head_def wait_for_def with_env_def)
    moreover have "stored def r (s\<lparr>en_ticks := Suc (en_ticks s)\<rparr>) w" "in_step r (s\<lparr>en_ticks := Suc (en_ticks s)\<rparr>) w"
      "framed r s (s\<lparr>en_ticks := Suc (en_ticks s)\<rparr>)"
      using st sync by (simp_all add: stored_def in_step_def framed_def)
    ultimately show ?thesis using t n by (auto intro!: stretch_okI)
  next
    case None
    have ad: "all_done w" "allDone (wf_tasks w) (jd_tasks def)"
      using idle_all_done [OF inv wf nf None] by simp_all
    have "stretch_ok def r b n w s (leave r x s)" for x
      by (rule stretch_ok_leave [OF st sync]) (use ad inv True n in \<open>simp_all add: settled_def\<close>)
    moreover have "stretch_ok def r b n w s (begin_transition e run def w ''complete'' Completed owner LeaveLoop s)"
    proof (rule begin_transition_ok [OF st])
      show "evaluate w ''complete'' Completed = Inr ()" using ad by (simp add: evaluate_Inr all_done_def)
      show "canTransition DEFAULT_TRANSITION_RULES (wf_state w) Completed ''complete''"
        using True by (simp add: canTransition_default)
    qed (use inv ad n in \<open>simp_all add: broke_ok_def run_inv_def all_done_def\<close>)
    ultimately show ?thesis
      using True None ad by (auto simp: loop_head_def split: sum.split)
  qed
qed

lemma task_over_ok:
  assumes st: "stored def r s w" and sync: "in_step r s w" and wf: "well_formed_job def" and rules: "rules_modelled def"
    and run: "wf_state w = Running" and inv: "run_inv def w"
    and f: "if tr_status (er_task res) = TFailed then has_failure w else no_failure w"
    and n: "5 * pending_work def w + 20 < n"
  shows "stretch_ok def r b n w s (task_over e r run' def w res s)"
proof (cases "tr_status (er_task res) = TFailed")
  case True
  have "stretch_ok def r b n w s (begin_transition e run' def w ''fail'' Failed owner LeaveLoop s)"
    by (rule begin_transition_ok [OF st])
      (use run inv f True n in \<open>simp_all add: evaluate_Inr canTransition_default broke_ok_def run_inv_def has_failure_def\<close>)
  then show ?thesis using True by (simp add: task_over_def)
next
  case False
  then show ?thesis
    using loop_head_ok [OF st sync wf rules _ n] run inv f by (simp add: task_over_def loop_ok_def)
qed

lemma sync_found_ok:
  assumes st: "stored def r s w" and "found = run_store_get (en_runs s) r"
  shows "\<exists>s'. sync_found e found (wf_state w) s = (Inr (), s') \<and> stored def r s' w \<and> in_step r s' w \<and> framed r s s'"
proof -
  obtain run where run: "found = Some run" "job_store_get (en_jobs s) (jr_jobId run) = Some def"
    using assms by (auto simp: stored_def)
  have rid: "jr_id run = r" using assms run(1) runs.get_key by (auto simp: stored_def)
  have "stored def r s' w \<and> in_step r s' w \<and> framed r s s'"
    if "s' = s\<lparr>en_ticks := n, en_runs := run_store_save run' (en_runs s)\<rparr>" "jr_id run' = r" "jr_jobId run' = jr_jobId run"
      "jr_status run' = wf_state w" for s' n run'
    using st run(2) that by (auto simp: stored_def in_step_def framed_def runs.invar_save runs.get_save)
  note ok = this [OF refl]
  show ?thesis
  proof (cases "isTerminal (wf_state w)")
    case True
    then show ?thesis
      using ok [of "run\<lparr>jr_status := wf_state w, jr_finishedAt := Some (clk e (en_ticks s))\<rparr>" "Suc (en_ticks s)"] rid run(1)
      by (simp add: sync_found_def with_env_def)
  next
    case False
    then show ?thesis
      using ok [of "run\<lparr>jr_status := wf_state w\<rparr>" "en_ticks s"] rid run(1) by (simp add: sync_found_def)
  qed
qed

lemma transition_emits_ok:
  assumes "stored def r s w" and "in_step r s w"
  shows "\<exists>s'. transition_emits e origin ev target w s = (Inr (), s') \<and> stored def r s' w \<and> in_step r s' w \<and> framed r s s'"
  using assms
  by (simp add: transition_emits_def emit_def with_env_def stored_def in_step_def framed_def publish_transition)

lemma updateTask_ok:
  assumes st: "stored def r s w" and sync: "in_step r s w"
  shows "\<exists>w' s'. updateTask e w t s = (Inr w', s') \<and> stored def r s' w' \<and> in_step r s' w' \<and> framed r s s' \<and>
     workflow_step w w' \<and> wf_state w' = wf_state w \<and> wf_tasks w' = replace_task t (wf_tasks w)"
proof -
  let ?w = "w\<lparr>wf_tasks := replace_task t (wf_tasks w), wf_updatedAt := clk e (en_ticks s)\<rparr>"
  let ?s = "s\<lparr>en_ticks := Suc (en_ticks s), en_workflows := workflow_store_save ?w (en_workflows s)\<rparr>"
  have "updateTask e w t s = (Inr ?w, ?s)"
    by (simp add: updateTask_def with_env_def Let_def replace_task_def)
  moreover have "stored def r ?s ?w \<and> framed r s ?s \<and> in_step r ?s ?w"
    using stored_save [OF st, where w' = ?w and s' = ?s and n = "Suc (en_ticks s)" and b = "en_bus s"] sync by simp
  moreover have "workflow_step w ?w" by (rule update_tasks)
  ultimately show ?thesis by (intro exI [of _ ?w] exI [of _ ?s]) simp
qed

text \<open>The result of a task whose turn it was, once stored.\<close>

lemma tried_stored:
  assumes t: "trying_ok def w t" and out: "outcome_ok (jd_retryPolicy def) t res" and wf: "well_formed_job def"
    and w': "wf_tasks w' = replace_task (er_task res) (wf_tasks w)"
  shows "tried_ok def w' res \<and> pending_work def w' < pending_work def w"
proof -
  let ?x = "er_task res" and ?b = "budget def"
  have T: "run_inv def w" "no_failure w" "t \<in> set (wf_tasks w)" "tr_status t = TQueued"
    "deps_done def (wf_tasks w) (tr_definitionTaskId t)" "tr_attempt t < ?b"
    using t by (simp_all add: trying_ok_def)
  have same: "same_task ?x t" and att: "tr_attempt ?x = Suc (tr_attempt t)"
    using out by (simp_all add: outcome_ok_def)
  then have xid: "tr_id ?x = tr_id t" by (simp add: same_task_def)
  have max1: "1 \<le> maxAttempts (jd_retryPolicy def)" using wf by (simp add: well_formed_job_def)
  have ids: "distinct (map tr_id (wf_tasks w))" using T(1) by (simp add: run_inv_def)
  have less: "pending_work def w' < pending_work def w"
    by (rule pending_work_replace [OF T(1,3) xid w'])
      (use T(4,6) att in \<open>auto simp: task_work_def task_done_def\<close>)
  note step = replace_progress [OF T same att]
  consider (ok) "tr_status ?x = TSucceeded" "er_retryAfterMs res = None"
    | (retry) "tr_status ?x = TRetrying" "er_retryAfterMs res \<noteq> None" "Suc (tr_attempt t) < ?b"
    | (fail) "tr_status ?x = TFailed" "er_retryAfterMs res = None" "Suc (tr_attempt t) = ?b"
    using out max1 T(6) by (auto simp: outcome_ok_def budget_def)
  then have "tried_ok def w' res"
  proof cases
    case ok
    then show ?thesis using step [OF _ w'] by (simp add: tried_ok_def task_done_def)
  next
    case fail
    have "run_inv def w'"
      by (rule run_inv_replace [OF T(1,3-5) same _ w']) (use fail att in simp)
    moreover have "has_failure w'"
      using set_replace_task [OF ids T(3) xid] w' fail(1) by (simp add: has_failure_def)
    ultimately show ?thesis using fail by (simp add: tried_ok_def)
  next
    case retry
    let ?q = "?x\<lparr>tr_status := TQueued\<rparr>"
    have q: "wf_tasks (requeued res w') = replace_task ?q (wf_tasks w)"
      by (simp add: requeued_def w' replace_task_twice)
    have "same_task ?q t" using same by (simp add: same_task_def)
    from replace_progress [OF T this _ _ q] have "run_inv def (requeued res w') \<and> no_failure (requeued res w')"
      using retry att by simp
    moreover have "pending_work def (requeued res w') + task_work ?b t = pending_work def w + task_work ?b ?q"
      using sum_replace_task [OF ids T(3), of ?q "task_work ?b"] xid q by (simp add: pending_work_def)
    moreover have "pending_work def w' + task_work ?b t = pending_work def w + task_work ?b ?x"
      using sum_replace_task [OF ids T(3) xid, of "task_work ?b"] w' by (simp add: pending_work_def)
    moreover have "task_work ?b ?q = task_work ?b ?x" using retry(1) by (simp add: task_work_def task_done_def)
    ultimately show ?thesis using retry by (simp add: tried_ok_def retried_def)
  qed
  with less show ?thesis by blast
qed

lemma run_inv_tasks: "wf_tasks w' = wf_tasks w \<Longrightarrow>
    run_inv def w' = run_inv def w \<and> no_failure w' = no_failure w \<and> pending_work def w' = pending_work def w"
  by (simp add: run_inv_def no_failure_def pending_work_def)

lemma got_workflow_ok:
  assumes st: "stored def r s w" and sync: "in_step r s w" and rest: "rest_ok def w"
    and b: "length (jd_tasks def) * budget def \<le> b"
  shows "stretch_ok def r b (exec_weight b (GotWorkflow run def (Some w))) w s
     (exec_step e sim r (GotWorkflow run def (Some w)) s)"
proof -
  have inv: "run_inv def w" using rest by (auto simp: rest_ok_def loop_ok_def settled_def)
  then have pw: "pending_work def w \<le> b" using pending_work_bound b by (meson le_trans)
  show ?thesis
  proof (cases "wf_state w = Pending")
    case True
    have nf: "no_failure w" using rest True by (auto simp: rest_ok_def loop_ok_def settled_def)
    have "stretch_ok def r b (5 * b + 26) w s (begin_transition e run def w ''start'' Running ''orchestrator'' GoOn s)"
    proof (rule begin_transition_ok [OF st])
      fix w' :: workflow_instance
      assume "wf_state w' = Running" and t: "wf_tasks w' = wf_tasks w"
      then show "cont_ok def GoOn w' \<and> cont_weight def w' GoOn + 3 < 5 * b + 26"
        using inv nf pw run_inv_tasks [OF t, of def] by simp
    qed (use True in \<open>simp_all add: evaluate_Inr canTransition_default\<close>)
    then show ?thesis using True by simp
  next
    case False
    then have "loop_ok def w" using rest by (auto simp: rest_ok_def)
    then show ?thesis using False st sync pw by (auto intro!: stretch_okI)
  qed
qed

lemma trying_step_ok:
  assumes st: "stored def r s w" and sync: "in_step r s w" and t: "trying_ok def w t" and sim: "sim_modelled sim"
  shows "stretch_ok def r b (5 * pending_work def w + 20) w s (exec_step e sim r (Trying run def w d t started) s)"
proof -
  obtain res n where ex: "executor_run e sim t d (jd_retryPolicy def) (wf_context w) (en_ticks s) = (Inr res, n)"
    and out: "outcome_ok (jd_retryPolicy def) t res"
    using executor_run_total [OF sim] by blast
  have "stored def r (s\<lparr>en_ticks := n\<rparr>) w" "in_step r (s\<lparr>en_ticks := n\<rparr>) w" "framed r s (s\<lparr>en_ticks := n\<rparr>)"
    using st sync by (simp_all add: stored_def in_step_def framed_def)
  then show ?thesis
    using t ex out by (auto simp: wait_for_def with_env_def intro!: stretch_okI)
qed

lemma tried_step_ok:
  assumes st: "stored def r s w" and sync: "in_step r s w" and t: "trying_ok def w t"
    and out: "outcome_ok (jd_retryPolicy def) t res" and wf: "well_formed_job def"
  shows "stretch_ok def r b (5 * pending_work def w + 19) w s (exec_step e sim r (Tried run def w d started res) s)"
proof -
  define s0 where "s0 = s\<lparr>en_ticks := Suc (en_ticks s), en_bus := (en_bus s)\<lparr>bus_metrics :=
    recordTaskDuration (td_handler d) (date_now e (en_ticks s) - started) (bus_metrics (en_bus s))\<rparr>\<rparr>"
  have s0: "stored def r s0 w" "in_step r s0 w" "framed r s s0"
    using st sync by (simp_all add: stored_def in_step_def framed_def s0_def)
  obtain w1 s1 where u: "updateTask e w (er_task res) s0 = (Inr w1, s1)" "stored def r s1 w1" "in_step r s1 w1"
      "framed r s0 s1" "workflow_step w w1" "wf_state w1 = wf_state w" "wf_tasks w1 = replace_task (er_task res) (wf_tasks w)"
    using updateTask_ok [OF s0(1,2)] by blast
  have "exec_step e sim r (Tried run def w d started res) s = (Updated run def w1 res, s1)"
    using u(1) by (simp add: wait_for_def with_env_def bind_a_def recordDuration_def s0_def)
  moreover have "wf_state w1 = Running" using t u(6) by (simp add: trying_ok_def)
  ultimately show ?thesis
    using u tried_stored [OF t out wf u(7)] framed_trans [OF s0(3) u(4)] by (auto intro!: stretch_okI)
qed

lemma sleeping_step_ok:
  assumes st: "stored def r s w" and sync: "in_step r s w" and "wf_state w = Running" and "retried def w res"
  shows "stretch_ok def r b (5 * pending_work def w + 22) w s (exec_step e sim r (Sleeping run def w res) s)"
proof -
  let ?q = "(er_task res)\<lparr>tr_status := TQueued\<rparr>"
  obtain w2 s2 where u: "updateTask e w ?q s = (Inr w2, s2)" "stored def r s2 w2" "in_step r s2 w2"
      "framed r s s2" "workflow_step w w2" "wf_state w2 = wf_state w" "wf_tasks w2 = wf_tasks (requeued res w)"
    using updateTask_ok [OF st sync, of e ?q] by (auto simp: requeued_def)
  then show ?thesis
    using assms(3,4) run_inv_tasks [OF u(7), of def] by (auto simp: wait_for_def retried_def intro!: stretch_okI)
qed

lemma pushing_step_ok:
  assumes "stored def r s w" and "in_step r s w" and "settled def w"
  shows "stretch_ok def r b 3 w s (exec_step e sim r (Pushing run def w) s)"
proof -
  have "stored def r (s\<lparr>en_ticks := n, en_dead := ds\<rparr>) w" "in_step r (s\<lparr>en_ticks := n, en_dead := ds\<rparr>) w"
    "framed r s (s\<lparr>en_ticks := n, en_dead := ds\<rparr>)" for n ds
    using assms by (simp_all add: stored_def in_step_def framed_def)
  then show ?thesis
    using assms(3) by (auto simp: wait_for_def with_env_def bind_a_def intro!: stretch_okI)
qed

lemma emitting_step_ok:
  assumes "stored def r s w" and "in_step r s w" and "cont_ok def k w"
  shows "stretch_ok def r b (cont_weight def w k + 1) w s (exec_step e sim r (Emitting run def origin ev target w k) s)"
proof -
  obtain s' where s': "transition_emits e origin ev target w s = (Inr (), s')" "stored def r s' w" "in_step r s' w" "framed r s s'"
    using transition_emits_ok [OF assms(1,2), of e origin ev target] by blast
  have "at_ok def r (end_transition run def w k) w s'"
    using assms(3) s'(3) by (cases k) (simp_all add: loop_ok_def)
  then show ?thesis using s' by (auto simp: wait_for_def intro!: stretch_okI)
qed

text \<open>The step of the holder, wherever it waits.\<close>

lemma holder_step:
  assumes st: "stored def r s w" and a: "at_ok def r a w s" and wf: "well_formed_job def"
    and sim: "sim_modelled sim" and rules: "rules_modelled def" and b: "length (jd_tasks def) * budget def \<le> b"
  shows "stretch_ok def r b (exec_weight b a) w s (exec_step e sim r a s)"
proof (cases a)
  case (GotRun found)
  obtain run where run: "run_store_get (en_runs s) r = Some run" "job_store_get (en_jobs s) (jr_jobId run) = Some def"
    using st by (auto simp: stored_def)
  then show ?thesis using GotRun st a by (auto simp: run intro!: stretch_okI)
next
  case (GotJob run found)
  then show ?thesis using st a by (auto simp: stored_def intro!: stretch_okI)
next
  case (Saved run d origin ev target w' k)
  then show ?thesis using st a stored_runId [OF st] by (auto intro!: stretch_okI)
next
  case (Syncing run d origin ev target w' k found)
  then obtain s' where "sync_found e found target s = (Inr (), s')" "stored def r s' w" "in_step r s' w" "framed r s s'"
    using sync_found_ok [OF st] a by auto
  then show ?thesis using Syncing a by (auto simp: wait_for_def intro!: stretch_okI)
next
  case (Updated run d w' res)
  show ?thesis
  proof (cases "er_retryAfterMs res = None")
    case True
    then show ?thesis
      using Updated a task_over_ok [OF st _ wf rules] by (simp add: tried_ok_def)
  next
    case False
    then show ?thesis using Updated a st by (auto simp: tried_ok_def intro!: stretch_okI)
  qed
qed (use a st wf sim rules b got_workflow_ok emitting_step_ok loop_head_ok trying_step_ok tried_step_ok
    sleeping_step_ok task_over_ok loop_exit pushing_step_ok stretch_ok_leave in \<open>auto\<close>)

subsection \<open>Any number of executions\<close>

text \<open>The calls made so far, each with its run and where it stands; any call that has not returned can go on.\<close>

type_synonym calls = "(run_id \<times> exec_at) list"

fun is_returned :: "exec_at \<Rightarrow> bool" where
  "is_returned (Returned x) \<longleftrightarrow> True"
| "is_returned _ \<longleftrightarrow> False"

definition in_call :: "exec_at \<Rightarrow> bool" where
  "in_call a \<longleftrightarrow> a \<noteq> Called \<and> \<not> is_returned a"

inductive call_step :: "env \<Rightarrow> simulator \<Rightarrow> calls \<times> engine \<Rightarrow> calls \<times> engine \<Rightarrow> bool" for e sim where
  advance: "i < length cs \<Longrightarrow> cs ! i = (r, a) \<Longrightarrow> \<not> is_returned a \<Longrightarrow> exec_step e sim r a s = (a', s') \<Longrightarrow>
    call_step e sim (cs, s) (cs[i := (r, a')], s')"

inductive_cases call_stepE: "call_step e sim (cs, s) c"

text \<open>What a step of a call of \<open>r\<close> leaves alone.\<close>

definition apart :: "run_id \<Rightarrow> engine \<Rightarrow> engine \<Rightarrow> bool" where
  "apart r s s' \<longleftrightarrow>
     en_jobs s' = en_jobs s \<and>
     (\<forall>r'. r' \<noteq> r \<longrightarrow>
        workflow_store_getByRunId (en_workflows s') r' = workflow_store_getByRunId (en_workflows s) r' \<and>
        run_store_get (en_runs s') r' = run_store_get (en_runs s) r' \<and>
        (r' \<in> set (en_localLocks s') \<longleftrightarrow> r' \<in> set (en_localLocks s)) \<and>
        map_get (en_runLocks s') r' = map_get (en_runLocks s) r')"

lemma framed_apart: "framed r s s' \<Longrightarrow> apart r s s'"
  by (simp add: framed_def apart_def)

lemma release_apart: "framed r s s' \<Longrightarrow> apart r s (release_locks r s')"
  by (auto simp: framed_def apart_def release_locks_def lock_release_def)

lemma at_ok_apart:
  assumes "apart r s s'" and "r' \<noteq> r"
  shows "at_ok def r' a w s' = at_ok def r' a w s" and "in_step r' s' w = in_step r' s w"
  using assms by (cases a; simp add: apart_def in_step_def)+

text \<open>The call that holds the locks of \<open>r\<close>, and what holds of \<open>r\<close> with it or without one.\<close>

definition holder :: "run_id \<Rightarrow> calls \<Rightarrow> nat \<Rightarrow> bool" where
  "holder r cs i \<longleftrightarrow> i < length cs \<and> fst (cs ! i) = r \<and> in_call (snd (cs ! i))"

definition lock_free :: "run_id \<Rightarrow> engine \<Rightarrow> bool" where
  "lock_free r s \<longleftrightarrow> r \<notin> set (en_localLocks s) \<and> map_get (en_runLocks s) r \<in> {None, Some owner}"

definition lock_held :: "run_id \<Rightarrow> engine \<Rightarrow> bool" where
  "lock_held r s \<longleftrightarrow> r \<in> set (en_localLocks s) \<and> map_get (en_runLocks s) r = Some owner"

definition run_ok :: "job_definition \<Rightarrow> workflow_instance \<Rightarrow> run_id \<Rightarrow> calls \<Rightarrow> engine \<Rightarrow> bool" where
  "run_ok def w0 r cs s \<longleftrightarrow>
     (\<exists>w. stored def r s w \<and> workflow_step\<^sup>*\<^sup>* w0 w \<and>
        (\<forall>i j. holder r cs i \<and> holder r cs j \<longrightarrow> i = j) \<and>
        (\<forall>i. holder r cs i \<longrightarrow> lock_held r s \<and> at_ok def r (snd (cs ! i)) w s) \<and>
        ((\<forall>i. \<not> holder r cs i) \<longrightarrow> lock_free r s \<and> in_step r s w \<and> rest_ok def w \<and>
           ((\<exists>i < length cs. fst (cs ! i) = r \<and> is_returned (snd (cs ! i))) \<longrightarrow>
              settled def w \<and> map_get (en_runLocks s) r = None)))"

lemma holder_update:
  assumes "i < length cs" and "cs ! i = (r, a)"
  shows "holder r' (cs[i := (r, a')]) j \<longleftrightarrow> (if j = i then r' = r \<and> in_call a' else holder r' cs j)"
  using assms by (auto simp: holder_def nth_list_update)

lemma run_ok_other:
  assumes ok: "run_ok def w0 r' cs s" and i: "i < length cs" "cs ! i = (r, a)" and r: "r' \<noteq> r"
    and ap: "apart r s s'" and st: "workflow_store_ok (en_workflows s')" "store_ok jr_id (en_runs s')"
  shows "run_ok def w0 r' (cs[i := (r, a')]) s'"
proof -
  obtain w where w: "stored def r' s w" "workflow_step\<^sup>*\<^sup>* w0 w"
    and one: "\<forall>i j. holder r' cs i \<and> holder r' cs j \<longrightarrow> i = j"
    and at_h: "\<forall>i. holder r' cs i \<longrightarrow> lock_held r' s \<and> at_ok def r' (snd (cs ! i)) w s"
    and free: "(\<forall>i. \<not> holder r' cs i) \<longrightarrow> lock_free r' s \<and> in_step r' s w \<and> rest_ok def w \<and>
           ((\<exists>i < length cs. fst (cs ! i) = r' \<and> is_returned (snd (cs ! i))) \<longrightarrow>
              settled def w \<and> map_get (en_runLocks s) r' = None)"
    using ok unfolding run_ok_def by blast
  have h: "holder r' (cs[i := (r, a')]) j \<longleftrightarrow> holder r' cs j" for j
    using i r by (auto simp: holder_update) (auto simp: holder_def)
  have same: "fst ((cs[i := (r, a')]) ! j) = r' \<Longrightarrow> (cs[i := (r, a')]) ! j = cs ! j" for j
    using i r by (cases "j = i") auto
  have kept: "fst (cs ! j) = r' \<Longrightarrow> (cs[i := (r, a')]) ! j = cs ! j" for j
    using i r by (cases "j = i") auto
  have locks: "lock_held r' s' = lock_held r' s" "lock_free r' s' = lock_free r' s"
    "map_get (en_runLocks s') r' = map_get (en_runLocks s) r'"
    using ap r by (simp_all add: apart_def lock_held_def lock_free_def)
  have "stored def r' s' w" using w(1) ap r st by (auto simp: stored_def apart_def)
  moreover have "holder r' cs j \<Longrightarrow> snd ((cs[i := (r, a')]) ! j) = snd (cs ! j)" for j
    using kept by (simp add: holder_def)
  moreover have "(\<exists>j < length (cs[i := (r, a')]). fst ((cs[i := (r, a')]) ! j) = r' \<and> is_returned (snd ((cs[i := (r, a')]) ! j)))
      \<Longrightarrow> \<exists>j < length cs. fst (cs ! j) = r' \<and> is_returned (snd (cs ! j))"
    using same by (metis length_list_update)
  ultimately show ?thesis
    unfolding run_ok_def h locks at_ok_apart [OF ap r]
    using w(2) one at_h free by (intro exI [of _ w]) auto
qed

definition most_attempts :: "job_definition \<Rightarrow> nat" where
  "most_attempts def = length (jd_tasks def) * budget def"

lemma run_ok_keep:
  assumes own: "stored def r s' w'" "workflow_step\<^sup>*\<^sup>* w0 w'"
    and i: "i < length cs" "cs ! i = (r, a)" and alone: "\<And>j. holder r cs j \<Longrightarrow> j = i"
    and held: "in_call a' \<and> lock_held r s' \<and> at_ok def r a' w' s' \<or>
      \<not> in_call a' \<and> lock_free r s' \<and> map_get (en_runLocks s') r = None \<and> in_step r s' w' \<and> settled def w'"
  shows "run_ok def w0 r (cs[i := (r, a')]) s'"
proof -
  have h: "holder r (cs[i := (r, a')]) j \<longleftrightarrow> j = i \<and> in_call a'" for j
    using i alone by (auto simp: holder_update)
  show ?thesis
    unfolding run_ok_def h using own i held by (intro exI [of _ w']) (auto simp: rest_ok_def loop_ok_def)
qed

text \<open>
  A step of a call of \<open>r\<close>: a stretch of the holder itself, being turned away by the holder, taking
  the locks.
\<close>

lemma run_okE:
  assumes "run_ok def w0 r cs s"
  obtains w where "stored def r s w" and "workflow_step\<^sup>*\<^sup>* w0 w"
    and "\<And>i j. holder r cs i \<Longrightarrow> holder r cs j \<Longrightarrow> i = j"
    and "\<And>i. holder r cs i \<Longrightarrow> lock_held r s \<and> at_ok def r (snd (cs ! i)) w s"
    and "(\<And>i. \<not> holder r cs i) \<Longrightarrow> lock_free r s \<and> in_step r s w \<and> rest_ok def w"
  using assms unfolding run_ok_def by blast

lemma holder_advances:
  assumes ok: "run_ok def w0 r cs s" and i: "i < length cs" "cs ! i = (r, a)" and inside: "in_call a"
    and wf: "well_formed_job def" and sim: "sim_modelled sim" and rules: "rules_modelled def"
    and step: "exec_step e sim r a s = (a', s')"
  shows "run_ok def w0 r (cs[i := (r, a')]) s' \<and> apart r s s' \<and>
     exec_weight (most_attempts def) a' < exec_weight (most_attempts def) a"
proof -
  have h: "holder r cs i" using i inside by (simp add: holder_def)
  obtain w where w: "stored def r s w" "workflow_step\<^sup>*\<^sup>* w0 w" and alone: "\<And>j. holder r cs j \<Longrightarrow> j = i"
    and at_a: "at_ok def r a w s" and lk: "lock_held r s"
    using ok h i(2) by (elim run_okE) (metis snd_conv)
  have "stretch_ok def r (most_attempts def) (exec_weight (most_attempts def) a) w s (a', s')"
    using holder_step [OF w(1) at_a wf sim rules, of "most_attempts def" e] step by (simp add: most_attempts_def)
  then obtain w' where w': "stored def r s' w'" "workflow_step\<^sup>*\<^sup>* w w'"
      "exec_weight (most_attempts def) a' < exec_weight (most_attempts def) a"
    and cases: "at_ok def r a' w' s' \<and> framed r s s' \<or>
       (\<exists>x s1. a' = Returned x \<and> s' = release_locks r s1 \<and> framed r s s1 \<and> in_step r s' w' \<and> settled def w')"
    unfolding stretch_ok_def by auto
  have w0: "workflow_step\<^sup>*\<^sup>* w0 w'" using w(2) w'(2) by simp
  note keep = run_ok_keep [OF w'(1) w0 i alone]
  from cases show ?thesis
  proof (elim disjE exE conjE)
    assume "at_ok def r a' w' s'" "framed r s s'"
    moreover from this have "in_call a'" by (cases a') (simp_all add: in_call_def)
    ultimately show ?thesis using keep w'(3) lk by (simp add: framed_apart lock_held_def framed_def)
  next
    fix x s1 assume "a' = Returned x" "s' = release_locks r s1" "framed r s s1" "in_step r s' w'" "settled def w'"
    moreover from this have "lock_free r s' \<and> map_get (en_runLocks s') r = None"
      using lk by (simp add: framed_def lock_held_def lock_free_def release_locks_def lock_release_def)
    ultimately show ?thesis using keep w'(3) by (simp add: in_call_def release_apart)
  qed
qed

lemma turned_away:
  assumes ok: "run_ok def w0 r cs s" and i: "i < length cs" "cs ! i = (r, Called)"
    and locked: "r \<in> set (en_localLocks s)"
  shows "run_ok def w0 r (cs[i := (r, Returned x)]) s"
proof -
  obtain w k where w: "stored def r s w" "workflow_step\<^sup>*\<^sup>* w0 w" and k: "holder r cs k"
    and one: "\<And>j. holder r cs j \<Longrightarrow> j = k" and held: "lock_held r s \<and> at_ok def r (snd (cs ! k)) w s"
    using ok locked by (elim run_okE) (metis lock_free_def)
  have ki: "k \<noteq> i" using k i by (metis holder_def in_call_def snd_conv)
  have h: "holder r (cs[i := (r, Returned x)]) j \<longleftrightarrow> j = k" for j
    unfolding holder_update [OF i] using one k ki in_call_def is_returned.simps(1) by metis
  show ?thesis
    unfolding run_ok_def h using w held ki by (intro exI [of _ w]) auto
qed

lemma takes_locks:
  assumes ok: "run_ok def w0 r cs s" and i: "i < length cs" "cs ! i = (r, Called)"
    and open_lock: "r \<notin> set (en_localLocks s)"
    and step: "exec_step e sim r Called s = (a', s')"
  shows "run_ok def w0 r (cs[i := (r, a')]) s' \<and> apart r s s' \<and> exec_weight b a' < exec_weight b Called"
proof -
  obtain w where w: "stored def r s w" "workflow_step\<^sup>*\<^sup>* w0 w" and none: "\<And>j. \<not> holder r cs j"
    and free: "lock_free r s \<and> in_step r s w \<and> rest_ok def w"
    using ok open_lock by (elim run_okE) (metis lock_held_def)
  let ?L = "map_set r owner (en_runLocks s)"
  have "lock_acquire r owner (en_runLocks s) = Inr ?L"
    using free by (auto simp: lock_free_def lock_acquire_def)
  then have s': "a' = GotRun (run_store_get (en_runs s) r)"
      "s' = s\<lparr>en_localLocks := set_add r (en_localLocks s), en_runLocks := ?L\<rparr>"
    using step open_lock by (simp_all add: Let_def)
  have "stored def r s' w" using w(1) s' by (simp add: stored_def)
  moreover have "lock_held r s'" "at_ok def r a' w s'"
    using free s' by (simp_all add: lock_held_def in_step_def)
  ultimately show ?thesis
    using run_ok_keep [OF _ w(2) i, of def s' a'] none s' by (auto simp: in_call_def apart_def)
qed

lemma run_ok_own:
  assumes ok: "run_ok def w0 r cs s" and i: "i < length cs" "cs ! i = (r, a)" and go: "\<not> is_returned a"
    and wf: "well_formed_job def" and sim: "sim_modelled sim" and rules: "rules_modelled def"
    and step: "exec_step e sim r a s = (a', s')"
  shows "run_ok def w0 r (cs[i := (r, a')]) s' \<and> apart r s s' \<and>
     exec_weight (most_attempts def) a' < exec_weight (most_attempts def) a"
proof (cases "in_call a")
  case True
  then show ?thesis using holder_advances [OF ok i] wf sim rules step by blast
next
  case False
  then have a: "a = Called" using go by (simp add: in_call_def)
  show ?thesis
  proof (cases "r \<in> set (en_localLocks s)")
    case True
    then show ?thesis
      using turned_away [OF ok i(1) i(2) [unfolded a]] step a by (auto simp: apart_def)
  next
    case False
    then show ?thesis using takes_locks [OF ok i(1) i(2) [unfolded a]] step a by blast
  qed
qed

subsection \<open>All calls together\<close>

definition calls_ok ::
    "(run_id \<Rightarrow> job_definition) \<Rightarrow> (run_id \<Rightarrow> workflow_instance) \<Rightarrow> run_id list \<Rightarrow> calls \<times> engine \<Rightarrow> bool" where
  "calls_ok defs ws rs c \<longleftrightarrow>
     map fst (fst c) = rs \<and> (\<forall>r \<in> set rs. run_ok (defs r) (ws r) r (fst c) (snd c))"

definition calls_weight :: "(run_id \<Rightarrow> job_definition) \<Rightarrow> calls \<times> engine \<Rightarrow> nat" where
  "calls_weight defs c = (\<Sum>(r, a) \<leftarrow> fst c. exec_weight (most_attempts (defs r)) a)"

definition calls_returned :: "calls \<times> engine \<Rightarrow> bool" where
  "calls_returned c \<longleftrightarrow> (\<forall>(r, a) \<in> set (fst c). is_returned a)"

definition jobs_fine :: "simulator \<Rightarrow> (run_id \<Rightarrow> job_definition) \<Rightarrow> run_id list \<Rightarrow> bool" where
  "jobs_fine sim defs rs \<longleftrightarrow>
     sim_modelled sim \<and> (\<forall>r \<in> set rs. well_formed_job (defs r) \<and> rules_modelled (defs r))"

lemma call_step_ok:
  assumes ok: "calls_ok defs ws rs c" and fine: "jobs_fine sim defs rs" and step: "call_step e sim c c'"
  shows "calls_ok defs ws rs c' \<and> calls_weight defs c' < calls_weight defs c"
proof -
  obtain cs s where c: "c = (cs, s)" by (cases c)
  obtain i r a a' s' where i: "i < length cs" "cs ! i = (r, a)" and go: "\<not> is_returned a"
    and s': "exec_step e sim r a s = (a', s')" and c': "c' = (cs[i := (r, a')], s')"
    using step unfolding c by (elim call_stepE) blast
  have rs: "map fst cs = rs" and all: "\<And>r. r \<in> set rs \<Longrightarrow> run_ok (defs r) (ws r) r cs s"
    using ok by (simp_all add: calls_ok_def c)
  have r: "r \<in> set rs" using i rs by (metis fst_conv length_map nth_map nth_mem)
  have own: "run_ok (defs r) (ws r) r (cs[i := (r, a')]) s'" "apart r s s'"
    "exec_weight (most_attempts (defs r)) a' < exec_weight (most_attempts (defs r)) a"
    using run_ok_own [OF all [OF r] i go _ _ _ s'] fine r by (simp_all add: jobs_fine_def)
  have stores: "workflow_store_ok (en_workflows s')" "store_ok jr_id (en_runs s')"
    using own(1) by (auto simp: run_ok_def stored_def)
  have "run_ok (defs r') (ws r') r' (cs[i := (r, a')]) s'" if "r' \<in> set rs" for r'
    using own(1) run_ok_other [OF all [OF that] i _ own(2) stores] by (cases "r' = r") simp_all
  moreover have "map fst (cs[i := (r, a')]) = rs"
    using rs i by (metis fst_conv list_update_id map_update)
  moreover have "calls_weight defs c' < calls_weight defs c"
    using sum_update [OF i(1), of "\<lambda>(r, a). exec_weight (most_attempts (defs r)) a" "(r, a')"] i(2) own(3)
    by (simp add: calls_weight_def c c')
  ultimately show ?thesis by (simp add: calls_ok_def c')
qed

interpretation callers: ending_steps "call_step e sim" "\<lambda>c. calls_ok defs ws rs c \<and> jobs_fine sim defs rs"
    "calls_weight defs" calls_returned for e sim defs ws rs
proof unfold_locales
  fix c c'
  assume "calls_ok defs ws rs c \<and> jobs_fine sim defs rs" and "call_step e sim c c'"
  then show "calls_ok defs ws rs c' \<and> jobs_fine sim defs rs" "calls_weight defs c' < calls_weight defs c"
    using call_step_ok by blast+
next
  fix c :: "calls \<times> engine"
  assume "\<not> calls_returned c"
  then obtain i r a where "i < length (fst c)" "fst c ! i = (r, a)" "\<not> is_returned a"
    by (auto simp: calls_returned_def in_set_conv_nth)
  then show "\<exists>c'. call_step e sim c c'"
    by (metis advance prod.collapse)
qed

lemma calls_start:
  assumes "\<And>r. r \<in> set rs \<Longrightarrow> ready_run (defs r) r s (ws r)"
  shows "calls_ok defs ws rs (map (\<lambda>r. (r, Called)) rs, s)"
proof -
  have "\<not> holder r (map (\<lambda>r. (r, Called)) rs) i" for r i by (auto simp: holder_def in_call_def)
  moreover have "\<not> (\<exists>i < length rs. fst (map (\<lambda>r. (r, Called)) rs ! i) = r \<and> is_returned (snd (map (\<lambda>r. (r, Called)) rs ! i)))" for r
    by auto
  ultimately have "run_ok (defs r) (ws r) r (map (\<lambda>r. (r, Called)) rs) s" if "r \<in> set rs" for r
    using assms [OF that] unfolding run_ok_def ready_run_def current_def stored_def in_step_def lock_free_def rest_ok_def loop_ok_def
    by (intro exI [of _ "ws r"]) auto
  then show ?thesis by (simp add: calls_ok_def comp_def)
qed

lemma calls_settled:
  assumes "calls_ok defs ws rs (cs, s)" and "calls_returned (cs, s)" and "r \<in> set rs"
  shows "\<exists>w. workflow_store_getByRunId (en_workflows s) r = Some w \<and> workflow_step\<^sup>*\<^sup>* (ws r) w \<and>
     settled (defs r) w \<and> in_step r s w \<and> r \<notin> set (en_localLocks s) \<and> map_get (en_runLocks s) r = None"
proof -
  have rs: "map fst cs = rs" and ok: "run_ok (defs r) (ws r) r cs s" using assms by (simp_all add: calls_ok_def)
  obtain i where i: "i < length cs" "fst (cs ! i) = r"
    using assms(3) rs by (metis in_set_conv_nth length_map nth_map)
  have ret: "is_returned (snd (cs ! j))" if "j < length cs" for j
    using assms(2) nth_mem [OF that] by (auto simp: calls_returned_def split_beta)
  then have "\<not> holder r cs j" for j by (simp add: holder_def in_call_def)
  then show ?thesis
    using ok ret [OF i(1)] i by (auto simp: run_ok_def stored_def lock_free_def)
qed

text \<open>
  C5. Any number of executions, several of one run among them, interleaved at every \<^verbatim>\<open>await\<close> of
  \<open>executeRun\<close> in any order: the schedule ends, within five steps per attempt the tasks have and
  twenty-nine per call; at no time are two calls of one run past the lock; each run's workflow moves by
  steps of its state machine only, whatever the other calls do; and when all calls have returned, every
  run is settled, its record agrees with its workflow, and its locks are free.
\<close>

theorem interleaved_executions_settle:
  assumes ready: "\<forall>r \<in> set rs. ready_run (defs r) r s (ws r) \<and> well_formed_job (defs r) \<and> rules_modelled (defs r)"
    and sim: "sim_modelled sim"
    and run: "(call_step e sim ^^ n) (map (\<lambda>r. (r, Called)) rs, s) (cs, s')"
  shows "n \<le> (\<Sum>r \<leftarrow> rs. 5 * (length (jd_tasks (defs r)) * budget (defs r)) + 29) \<and>
     (\<forall>i j. i < length cs \<and> j < length cs \<and> fst (cs ! i) = fst (cs ! j) \<and>
        in_call (snd (cs ! i)) \<and> in_call (snd (cs ! j)) \<longrightarrow> i = j) \<and>
     (\<forall>r \<in> set rs. \<exists>w. workflow_store_getByRunId (en_workflows s') r = Some w \<and> workflow_step\<^sup>*\<^sup>* (ws r) w \<and>
        (calls_returned (cs, s') \<longrightarrow> settled (defs r) w \<and> in_step r s' w \<and>
           r \<notin> set (en_localLocks s') \<and> map_get (en_runLocks s') r = None)) \<and>
     (calls_returned (cs, s') \<or> (\<exists>c. call_step e sim (cs, s') c))"
proof -
  let ?c = "(map (\<lambda>r. (r, Called)) rs, s)"
  have start: "calls_ok defs ws rs ?c \<and> jobs_fine sim defs rs"
    using calls_start ready sim by (simp add: jobs_fine_def)
  have ok: "calls_ok defs ws rs (cs, s')" using callers.inv_counted [OF run start] by simp
  then have rs: "map fst cs = rs" and all: "\<And>r. r \<in> set rs \<Longrightarrow> run_ok (defs r) (ws r) r cs s'"
    by (simp_all add: calls_ok_def)
  have "n \<le> calls_weight defs ?c" using callers.steps_bounded [OF run start] by simp
  moreover have "calls_weight defs ?c = (\<Sum>r \<leftarrow> rs. 5 * (length (jd_tasks (defs r)) * budget (defs r)) + 29)"
    by (simp add: calls_weight_def most_attempts_def comp_def)
  moreover have "i = j" if "i < length cs" "j < length cs" "fst (cs ! i) = fst (cs ! j)"
    "in_call (snd (cs ! i))" "in_call (snd (cs ! j))" for i j
  proof -
    have "fst (cs ! i) \<in> set rs" using that(1) rs by (metis length_map nth_map nth_mem)
    from all [OF this] show ?thesis using that unfolding run_ok_def holder_def by metis
  qed
  moreover have "\<exists>w. workflow_store_getByRunId (en_workflows s') r = Some w \<and> workflow_step\<^sup>*\<^sup>* (ws r) w \<and>
        (calls_returned (cs, s') \<longrightarrow> settled (defs r) w \<and> in_step r s' w \<and>
           r \<notin> set (en_localLocks s') \<and> map_get (en_runLocks s') r = None)" if "r \<in> set rs" for r
    using calls_settled [OF ok _ that] all [OF that] unfolding run_ok_def stored_def by blast
  moreover have "calls_returned (cs, s') \<or> (\<exists>c. call_step e sim (cs, s') c)"
    using callers.progress start ok by blast
  ultimately show ?thesis by auto
qed

theorem interleaved_executions_settle_witness:
  "\<exists>n cs s' w. (call_step plain_env failing_sim ^^ n)
       ([(''run_u0'', Called), (''run_u0'', Called)], created_engine) (cs, s') \<and> calls_returned (cs, s') \<and>
     workflow_store_getByRunId (en_workflows s') ''run_u0'' = Some w \<and> settled chain_job w"
proof -
  let ?rs = "[''run_u0'', ''run_u0'']"
  obtain w where ready: "ready_run chain_job ''run_u0'' created_engine w" by (rule created_ready)
  have "calls_ok (\<lambda>r. chain_job) (\<lambda>r. w) ?rs (map (\<lambda>r. (r, Called)) ?rs, created_engine) \<and>
      jobs_fine failing_sim (\<lambda>r. chain_job) ?rs"
    using calls_start [of ?rs "\<lambda>r. chain_job" created_engine "\<lambda>r. w"] ready chain_job_ok created
    by (simp add: jobs_fine_def)
  from callers.ends [OF this] obtain n cs s'
    where run: "(call_step plain_env failing_sim ^^ n) (map (\<lambda>r. (r, Called)) ?rs, created_engine) (cs, s')"
      and ret: "calls_returned (cs, s')" by fastforce
  have "\<exists>w'. workflow_store_getByRunId (en_workflows s') ''run_u0'' = Some w' \<and> settled chain_job w'"
    using interleaved_executions_settle [OF _ _ run, where defs = "\<lambda>r. chain_job" and ws = "\<lambda>r. w"]
      ready chain_job_ok created ret by auto
  then show ?thesis using run ret by auto
qed

end
