(* ===== verification/Dsl.thy ===== *)
theory Dsl
  imports Domain "HOL-Library.Multiset"
begin

section \<open>The workflow DSL (dsl/*.ts)\<close>

text \<open>
  Lexer, parser, optimizer and compiler of the workflow language. The lexer recurses on the rest
  of the source and is total. The parser's loops take fuel, one unit per turn, and \<open>None\<close> is a
  loop that has not ended; the optimizer's depth-first search takes fuel for its recursion.
\<close>

subsection \<open>Tokens\<close>

datatype dsl_token_type =
    DKeyword | DIdent | DNumber | DString | DLbrace | DRbrace | DLbracket | DRbracket
  | DColon | DComma | DArrow | DEof

fun dsl_token_type_str :: "dsl_token_type \<Rightarrow> string" where
  "dsl_token_type_str DKeyword = ''keyword''"
| "dsl_token_type_str DIdent = ''ident''"
| "dsl_token_type_str DNumber = ''number''"
| "dsl_token_type_str DString = ''string''"
| "dsl_token_type_str DLbrace = ''lbrace''"
| "dsl_token_type_str DRbrace = ''rbrace''"
| "dsl_token_type_str DLbracket = ''lbracket''"
| "dsl_token_type_str DRbracket = ''rbracket''"
| "dsl_token_type_str DColon = ''colon''"
| "dsl_token_type_str DComma = ''comma''"
| "dsl_token_type_str DArrow = ''arrow''"
| "dsl_token_type_str DEof = ''eof''"

record dsl_token =
  dt_type :: dsl_token_type
  dt_value :: string
  dt_line :: nat
  dt_column :: nat

definition KEYWORDS :: "string list" where
  "KEYWORDS =
     [''workflow'', ''task'', ''constraint'', ''depends'', ''optional'', ''warn'', ''block'',
      ''timeout'', ''version'', ''handler'', ''expr'']"

subsection \<open>The lexer\<close>

text \<open>A position is a line and a column; the position after a character, or past the end.\<close>

type_synonym linecol = "nat \<times> nat"

fun advance :: "char \<Rightarrow> linecol \<Rightarrow> linecol" where
  "advance c (line, col) = (if c = CHR 0x0A then (line + 1, 1) else (line, col + 1))"

fun advance_past_end :: "linecol \<Rightarrow> linecol" where
  "advance_past_end (line, col) = (line, col + 1)"

definition advance_all :: "string \<Rightarrow> linecol \<Rightarrow> linecol" where
  "advance_all cs lc = fold advance cs lc"

function skipWhitespaceAndComments :: "string \<Rightarrow> linecol \<Rightarrow> string \<times> linecol" where
  "skipWhitespaceAndComments [] lc = ([], lc)"
| "skipWhitespaceAndComments (c # cs) lc =
     (if is_ws c then skipWhitespaceAndComments cs (advance c lc)
      else if c = CHR ''#''
      then skipWhitespaceAndComments (dropWhile (\<lambda>d. d \<noteq> CHR 0x0A) cs)
             (advance_all (c # takeWhile (\<lambda>d. d \<noteq> CHR 0x0A) cs) lc)
      else (c # cs, lc))"
  by pat_completeness auto
termination
  by (relation "measure (\<lambda>(cs, lc). length cs)") (auto simp: less_Suc_eq_le length_dropWhile_le)

text \<open>The readers return the text, the rest of the source and the position.\<close>

fun dsl_readString :: "char \<Rightarrow> string \<Rightarrow> linecol \<Rightarrow> string \<times> string \<times> linecol" where
  "dsl_readString q [] lc = ([], [], advance_past_end lc)"
| "dsl_readString q (c # cs) lc =
     (if c = q then ([], cs, advance c lc)
      else if c = CHR 0x5C
      then (case cs of
              [] \<Rightarrow> ([], [], advance_past_end (advance_past_end (advance c lc)))
            | d # ds \<Rightarrow> (case dsl_readString q ds (advance d (advance c lc)) of
                (out, rest, lc') \<Rightarrow> (d # out, rest, lc')))
      else (case dsl_readString q cs (advance c lc) of (out, rest, lc') \<Rightarrow> (c # out, rest, lc')))"

definition read_while :: "(char \<Rightarrow> bool) \<Rightarrow> string \<Rightarrow> linecol \<Rightarrow> string \<times> string \<times> linecol" where
  "read_while P cs lc = (takeWhile P cs, dropWhile P cs, advance_all (takeWhile P cs) lc)"

definition ident_char :: "char \<Rightarrow> bool" where
  "ident_char c \<longleftrightarrow> is_alpha c \<or> is_digit c \<or> c = CHR ''_'' \<or> c = CHR ''.'' \<or> c = CHR ''-''"

definition mk_dsl :: "dsl_token_type \<Rightarrow> string \<Rightarrow> linecol \<Rightarrow> dsl_token" where
  "mk_dsl ty v lc = \<lparr>dt_type = ty, dt_value = v, dt_line = fst lc, dt_column = snd lc\<rparr>"

definition dsl_single :: "char \<Rightarrow> dsl_token_type option" where
  "dsl_single c =
     (if c = CHR ''{'' then Some DLbrace else if c = CHR ''}'' then Some DRbrace
      else if c = CHR ''['' then Some DLbracket else if c = CHR '']'' then Some DRbracket
      else if c = CHR '':'' then Some DColon else if c = CHR '','' then Some DComma
      else None)"

text \<open>The body of the loop on a source that starts with a token.\<close>

definition dsl_scan :: "char \<Rightarrow> string \<Rightarrow> linecol \<Rightarrow> (dsl_token \<times> string \<times> linecol) res" where
  "dsl_scan c cs lc =
     (case dsl_single c of
        Some ty \<Rightarrow> Inr (mk_dsl ty [c] lc, cs, advance c lc)
      | None \<Rightarrow>
          if c = CHR ''-'' \<and> (case cs of d # ds \<Rightarrow> d = CHR ''>'' | [] \<Rightarrow> False)
          then Inr (mk_dsl DArrow ''->'' lc, tl cs, advance (hd cs) (advance c lc))
          else if c = CHR 0x22 \<or> c = CHR 0x27
          then (case dsl_readString c cs (advance c lc) of (out, rest, lc') \<Rightarrow>
                  Inr (mk_dsl DString out lc, rest, lc'))
          else if is_digit c
          then (case read_while is_digit (c # cs) lc of (out, rest, lc') \<Rightarrow>
                  Inr (mk_dsl DNumber out lc, rest, lc'))
          else if is_alpha c \<or> c = CHR ''_''
          then (case read_while ident_char (c # cs) lc of (word, rest, lc') \<Rightarrow>
                  Inr (mk_dsl (if word \<in> set KEYWORDS then DKeyword else DIdent) word lc, rest, lc'))
          else Inl (JsError (''unexpected character '' @ [CHR 0x27, c, CHR 0x27] @ '' at '' @
                 show_nat (fst lc) @ '':'' @ show_nat (snd lc))))"

lemma dsl_readString_rest: "length (fst (snd (dsl_readString q cs lc))) \<le> length cs"
proof (induction q cs lc rule: dsl_readString.induct)
  case (1 q lc)
  then show ?case by simp
next
  case (2 q c cs lc)
  show ?case
  proof (cases "c = q \<or> c \<noteq> CHR 0x5C")
    case True
    then show ?thesis using 2(2) by (auto simp: split_beta)
  next
    case False
    then show ?thesis using 2(1) by (cases cs) (force simp: split_beta)+
  qed
qed

lemma dsl_scan_rest: "dsl_scan c cs lc = Inr (t, rest, lc') \<Longrightarrow> length rest \<le> length cs"
proof -
  assume s: "dsl_scan c cs lc = Inr (t, rest, lc')"
  show ?thesis
  proof (cases "dsl_single c")
    case None
    consider "rest = tl cs" | "rest = fst (snd (dsl_readString c cs (advance c lc)))"
      | "is_digit c" "rest = dropWhile is_digit (c # cs)"
      | "is_alpha c \<or> c = CHR ''_''" "rest = dropWhile ident_char (c # cs)"
      using s None by (simp add: dsl_scan_def read_while_def split_beta split: if_split_asm)
    then show ?thesis
    proof cases
      case 1
      then show ?thesis by simp
    next
      case 2
      then show ?thesis using dsl_readString_rest by simp
    next
      case 3
      then show ?thesis by (simp add: length_dropWhile_le)
    next
      case 4
      then have "ident_char c" by (auto simp: ident_char_def)
      then show ?thesis using 4 by (simp add: length_dropWhile_le)
    qed
  next
    case (Some ty)
    then show ?thesis using s by (simp add: dsl_scan_def)
  qed
qed

lemma skip_length: "skipWhitespaceAndComments cs lc = (cs', lc') \<Longrightarrow> length cs' \<le> length cs"
proof (induction cs lc arbitrary: cs' lc' rule: skipWhitespaceAndComments.induct)
  case (1 lc)
  then show ?case by simp
next
  case (2 c cs lc)
  have "length (dropWhile (\<lambda>d. d \<noteq> CHR 0x0A) cs) \<le> length cs" by (rule length_dropWhile_le)
  then show ?case using 2 by (fastforce split: if_splits)
qed

function dsl_tokenize :: "string \<Rightarrow> linecol \<Rightarrow> dsl_token list res" where
  "dsl_tokenize cs lc =
     (case skipWhitespaceAndComments cs lc of
        ([], lc') \<Rightarrow> Inr [mk_dsl DEof [] lc']
      | (c # cs', lc') \<Rightarrow>
          bind_r (dsl_scan c cs' lc') (\<lambda>(t, rest, lc'').
          bind_r (dsl_tokenize rest lc'') (\<lambda>ts. Inr (t # ts))))"
  by pat_completeness auto
termination
  by (relation "measure (\<lambda>(cs, lc). length cs)")
    (auto dest!: dsl_scan_rest skip_length [OF sym])

declare dsl_tokenize.simps [simp del]

subsection \<open>Syntax trees\<close>

record task_dsl_node =
  tn_id :: string
  tn_handler :: string
  tn_timeoutMs :: int
  tn_dependsOn :: "string list"
  tn_optional :: bool

record constraint_dsl_node =
  cn_id :: string
  cn_expr :: string
  cn_severity :: severity

record workflow_dsl_node =
  wn_name :: string
  wn_version :: int
  wn_tasks :: "task_dsl_node list"
  wn_constraints :: "constraint_dsl_node list"

subsection \<open>The parser\<close>

type_synonym 'a dsl_parsed = "('a \<times> dsl_token list) res option"

definition dsl_peek :: "dsl_token list \<Rightarrow> dsl_token" where
  "dsl_peek ts = (case ts of [] \<Rightarrow> mk_dsl DEof [] (1, 1) | t # r \<Rightarrow> t)"

definition peekKeyword :: "string \<Rightarrow> dsl_token list \<Rightarrow> bool" where
  "peekKeyword kw ts \<longleftrightarrow> dt_type (dsl_peek ts) = DKeyword \<and> dt_value (dsl_peek ts) = kw"

definition expect :: "dsl_token_type \<Rightarrow> dsl_token list \<Rightarrow> dsl_token dsl_parsed" where
  "expect ty ts =
     (let t = dsl_peek ts
      in if dt_type t \<noteq> ty
         then Some (Inl (JsError (''expected '' @ dsl_token_type_str ty @ '', got '' @
                dsl_token_type_str (dt_type t) @ '' ('' @ dt_value t @ '')'')))
         else ret_p t (tl ts))"

definition expectKeyword :: "string \<Rightarrow> dsl_token list \<Rightarrow> unit dsl_parsed" where
  "expectKeyword kw ts =
     bind_p (expect DKeyword ts) (\<lambda>t ts.
       if dt_value t \<noteq> kw then Some (Inl (JsError (''expected keyword '' @ kw))) else ret_p () ts)"

definition expectIdent :: "dsl_token list \<Rightarrow> string dsl_parsed" where
  "expectIdent ts = bind_p (expect DIdent ts) (\<lambda>t ts. ret_p (dt_value t) ts)"

definition expectIdentOrString :: "dsl_token list \<Rightarrow> string dsl_parsed" where
  "expectIdentOrString ts =
     (let t = dsl_peek ts
      in if dt_type t = DIdent \<or> dt_type t = DString then ret_p (dt_value t) (tl ts)
         else Some (Inl (JsError (''expected ident or string, got '' @ dsl_token_type_str (dt_type t)))))"

text \<open>\<^verbatim>\<open>Number(v)\<close> of a run of digits; above the range of doubles it is infinite.\<close>

definition dsl_number :: "string \<Rightarrow> int res" where
  "dsl_number v =
     (case to_double (of_nat (digits_val 10 v)) of
        Fin r \<Rightarrow> Inr \<lfloor>r\<rfloor>
      | _ \<Rightarrow> Inl (Unmodelled ''infinite number''))"

definition expectNumber :: "dsl_token list \<Rightarrow> int dsl_parsed" where
  "expectNumber ts =
     bind_p (expect DNumber ts) (\<lambda>t ts. Some (bind_r (dsl_number (dt_value t)) (\<lambda>n. Inr (n, ts))))"

fun dependsLoop :: "nat \<Rightarrow> string list \<Rightarrow> dsl_token list \<Rightarrow> string list dsl_parsed" where
  "dependsLoop 0 acc ts = None"
| "dependsLoop (Suc f) acc ts =
     (if dt_type (dsl_peek ts) \<noteq> DRbracket
      then bind_p (expectIdentOrString ts) (\<lambda>d ts.
           bind_p (if dt_type (dsl_peek ts) = DComma
                   then bind_p (expect DComma ts) (\<lambda>t ts. ret_p () ts) else ret_p () ts) (\<lambda>u ts.
           dependsLoop f (acc @ [d]) ts))
      else ret_p acc ts)"

fun taskLoop :: "nat \<Rightarrow> task_dsl_node \<Rightarrow> dsl_token list \<Rightarrow> task_dsl_node dsl_parsed" where
  "taskLoop 0 n ts = None"
| "taskLoop (Suc f) n ts =
     (if dt_type (dsl_peek ts) \<noteq> DRbrace
      then if peekKeyword ''handler'' ts
      then bind_p (expectKeyword ''handler'' ts) (\<lambda>u ts.
           bind_p (expect DColon ts) (\<lambda>u ts.
           bind_p (expect DString ts) (\<lambda>t ts. taskLoop f (n\<lparr>tn_handler := dt_value t\<rparr>) ts)))
      else if peekKeyword ''timeout'' ts
      then bind_p (expectKeyword ''timeout'' ts) (\<lambda>u ts.
           bind_p (expect DColon ts) (\<lambda>u ts.
           bind_p (expectNumber ts) (\<lambda>v ts. taskLoop f (n\<lparr>tn_timeoutMs := v\<rparr>) ts)))
      else if peekKeyword ''depends'' ts
      then bind_p (expectKeyword ''depends'' ts) (\<lambda>u ts.
           bind_p (expect DColon ts) (\<lambda>u ts.
           bind_p (expect DLbracket ts) (\<lambda>u ts.
           bind_p (dependsLoop f (tn_dependsOn n) ts) (\<lambda>ds ts.
           bind_p (expect DRbracket ts) (\<lambda>u ts. taskLoop f (n\<lparr>tn_dependsOn := ds\<rparr>) ts)))))
      else if peekKeyword ''optional'' ts
      then bind_p (expectKeyword ''optional'' ts) (\<lambda>u ts. taskLoop f (n\<lparr>tn_optional := True\<rparr>) ts)
      else Some (Inl (JsError (''unknown task field near '' @ dt_value (dsl_peek ts))))
      else ret_p n ts)"

definition parseTask :: "nat \<Rightarrow> dsl_token list \<Rightarrow> task_dsl_node dsl_parsed" where
  "parseTask f ts =
     bind_p (expectKeyword ''task'' ts) (\<lambda>u ts.
     bind_p (expectIdent ts) (\<lambda>i ts.
     bind_p (expect DColon ts) (\<lambda>u ts.
     bind_p (expect DLbrace ts) (\<lambda>u ts.
     bind_p (taskLoop f \<lparr>tn_id = i, tn_handler = [], tn_timeoutMs = 30000, tn_dependsOn = [],
                         tn_optional = False\<rparr> ts) (\<lambda>n ts.
     bind_p (expect DRbrace ts) (\<lambda>u ts.
       if tn_handler n = [] then Some (Inl (JsError (''task '' @ i @ '' missing handler'')))
       else ret_p n ts))))))"

text \<open>A token that is no field of a constraint neither moves the loop on nor stops it.\<close>

fun constraintLoop :: "nat \<Rightarrow> constraint_dsl_node \<Rightarrow> dsl_token list \<Rightarrow> constraint_dsl_node dsl_parsed" where
  "constraintLoop 0 n ts = None"
| "constraintLoop (Suc f) n ts =
     (if dt_type (dsl_peek ts) \<noteq> DRbrace
      then if peekKeyword ''expr'' ts
      then bind_p (expectKeyword ''expr'' ts) (\<lambda>u ts.
           bind_p (expect DColon ts) (\<lambda>u ts.
           bind_p (expect DString ts) (\<lambda>t ts. constraintLoop f (n\<lparr>cn_expr := dt_value t\<rparr>) ts)))
      else if peekKeyword ''warn'' ts
      then bind_p (expectKeyword ''warn'' ts) (\<lambda>u ts. constraintLoop f (n\<lparr>cn_severity := Warn\<rparr>) ts)
      else if peekKeyword ''block'' ts
      then bind_p (expectKeyword ''block'' ts) (\<lambda>u ts. constraintLoop f (n\<lparr>cn_severity := Block\<rparr>) ts)
      else constraintLoop f n ts
      else ret_p n ts)"

definition parseConstraint :: "nat \<Rightarrow> dsl_token list \<Rightarrow> constraint_dsl_node dsl_parsed" where
  "parseConstraint f ts =
     bind_p (expectKeyword ''constraint'' ts) (\<lambda>u ts.
     bind_p (expectIdent ts) (\<lambda>i ts.
     bind_p (expect DColon ts) (\<lambda>u ts.
     bind_p (expect DLbrace ts) (\<lambda>u ts.
     bind_p (constraintLoop f \<lparr>cn_id = i, cn_expr = [], cn_severity = Block\<rparr> ts) (\<lambda>n ts.
     bind_p (expect DRbrace ts) (\<lambda>u ts. ret_p n ts))))))"

fun bodyLoop ::
    "nat \<Rightarrow> task_dsl_node list \<Rightarrow> constraint_dsl_node list \<Rightarrow> dsl_token list \<Rightarrow>
     (task_dsl_node list \<times> constraint_dsl_node list) dsl_parsed" where
  "bodyLoop 0 tasks cs ts = None"
| "bodyLoop (Suc f) tasks cs ts =
     (if dt_type (dsl_peek ts) \<noteq> DRbrace
      then if peekKeyword ''task'' ts
      then bind_p (parseTask f ts) (\<lambda>t ts. bodyLoop f (tasks @ [t]) cs ts)
      else if peekKeyword ''constraint'' ts
      then bind_p (parseConstraint f ts) (\<lambda>c ts. bodyLoop f tasks (cs @ [c]) ts)
      else Some (Inl (JsError (''unexpected token in workflow body: '' @ dt_value (dsl_peek ts))))
      else ret_p (tasks, cs) ts)"

definition dsl_parse_tokens :: "nat \<Rightarrow> dsl_token list \<Rightarrow> workflow_dsl_node dsl_parsed" where
  "dsl_parse_tokens f ts =
     bind_p (expectKeyword ''workflow'' ts) (\<lambda>u ts.
     bind_p (expectIdent ts) (\<lambda>name ts.
     bind_p (expect DColon ts) (\<lambda>u ts.
     bind_p (expect DLbrace ts) (\<lambda>u ts.
     bind_p (expectKeyword ''version'' ts) (\<lambda>u ts.
     bind_p (expect DColon ts) (\<lambda>u ts.
     bind_p (expectNumber ts) (\<lambda>version ts.
     bind_p (bodyLoop f [] [] ts) (\<lambda>(tasks, cs) ts.
     bind_p (expect DRbrace ts) (\<lambda>u ts.
       ret_p \<lparr>wn_name = name, wn_version = version, wn_tasks = tasks, wn_constraints = cs\<rparr> ts)))))))))"

definition dsl_parse :: "nat \<Rightarrow> string \<Rightarrow> workflow_dsl_node res option" where
  "dsl_parse f source =
     (case dsl_tokenize source (1, 1) of
        Inl e \<Rightarrow> Some (Inl e)
      | Inr ts \<Rightarrow> map_option (\<lambda>r. bind_r r (\<lambda>(w, rest). Inr w)) (dsl_parse_tokens f ts))"

subsection \<open>The optimizer\<close>

fun opt_visit ::
    "nat \<Rightarrow> (string, task_dsl_node) jsmap \<Rightarrow> string \<Rightarrow> string jsset \<times> task_dsl_node list \<Rightarrow>
     (string jsset \<times> task_dsl_node list) option"
  and opt_visits ::
    "nat \<Rightarrow> (string, task_dsl_node) jsmap \<Rightarrow> string list \<Rightarrow> string jsset \<times> task_dsl_node list \<Rightarrow>
     (string jsset \<times> task_dsl_node list) option"
where
  "opt_visit 0 byId i st = None"
| "opt_visit (Suc f) byId i (visited, out) =
     (if i \<in> set visited then Some (visited, out)
      else case map_get byId i of
             None \<Rightarrow> Some (set_add i visited, out)
           | Some t \<Rightarrow>
               map_option (\<lambda>(visited', out'). (visited', out' @ [t]))
                 (opt_visits f byId (tn_dependsOn t) (set_add i visited, out)))"
| "opt_visits f byId [] st = Some st"
| "opt_visits f byId (i # is) st =
     (case opt_visit f byId i st of None \<Rightarrow> None | Some st' \<Rightarrow> opt_visits f byId is st')"

definition sortTasksTopologically :: "task_dsl_node list \<Rightarrow> task_dsl_node list option" where
  "sortTasksTopologically tasks =
     map_option snd (opt_visits (length tasks + 2) (map_from (map (\<lambda>t. (tn_id t, t)) tasks))
       (map tn_id tasks) ([], []))"

definition depth_of :: "(string, nat) jsmap \<Rightarrow> string \<Rightarrow> nat" where
  "depth_of m i = (case map_get m i of Some n \<Rightarrow> n | None \<Rightarrow> 0)"

definition depths :: "task_dsl_node list \<Rightarrow> (string, nat) jsmap" where
  "depths tasks =
     fold (\<lambda>t m. map_set (tn_id t) (fold (\<lambda>d k. max k (depth_of m d)) (tn_dependsOn t) 0 + 1) m) tasks []"

definition mergeParallelTasks :: "task_dsl_node list \<Rightarrow> task_dsl_node list" where
  "mergeParallelTasks tasks = sort_key (\<lambda>t. depth_of (depths tasks) (tn_id t)) tasks"

definition optimize :: "workflow_dsl_node \<Rightarrow> workflow_dsl_node option" where
  "optimize w =
     map_option (\<lambda>tasks. w\<lparr>wn_tasks := mergeParallelTasks tasks\<rparr>) (sortTasksTopologically (wn_tasks w))"

subsection \<open>The compiler\<close>

text \<open>\<^verbatim>\<open>name.replace(/\s+/g, "_").toLowerCase()\<close>\<close>

fun squash_ws :: "bool \<Rightarrow> string \<Rightarrow> string" where
  "squash_ws inside [] = []"
| "squash_ws inside (c # cs) =
     (if is_ws c then (if inside then squash_ws True cs else CHR ''_'' # squash_ws True cs)
      else c # squash_ws False cs)"

definition to_lower :: "char \<Rightarrow> char" where
  "to_lower c =
     (let n = (of_char c :: nat)
      in if (65 \<le> n \<and> n \<le> 90) \<or> (192 \<le> n \<and> n \<le> 222 \<and> n \<noteq> 215) then char_of (n + 32) else c)"

definition toJobDefinition :: "workflow_dsl_node \<Rightarrow> string option \<Rightarrow> iso_date \<Rightarrow> job_definition" where
  "toJobDefinition ast jobId now =
     \<lparr>jd_id = (case jobId of Some i \<Rightarrow> i | None \<Rightarrow> map to_lower (squash_ws False (wn_name ast))),
      jd_name = wn_name ast, jd_version = wn_version ast, jd_description = None,
      jd_tasks = map (\<lambda>t. \<lparr>td_id = tn_id t, td_name = tn_id t, td_handler = tn_handler t,
          td_timeoutMs = tn_timeoutMs t, td_optional = Some (tn_optional t),
          td_dependsOn = (if tn_dependsOn t \<noteq> [] then Some (tn_dependsOn t) else None)\<rparr>) (wn_tasks ast),
      jd_constraints = map (\<lambda>c. \<lparr>jc_id = cn_id c, jc_expression = cn_expr c,
          jc_severity = cn_severity c\<rparr>) (wn_constraints ast),
      jd_retryPolicy = DEFAULT_RETRY_POLICY, jd_allowedTransitions = [],
      jd_metadata = [(''compiledFrom'', ''dsl'')], jd_createdAt = now, jd_updatedAt = now\<rparr>"

definition dsl_compile :: "nat \<Rightarrow> string \<Rightarrow> string option \<Rightarrow> iso_date \<Rightarrow> job_definition res option" where
  "dsl_compile f source jobId now =
     (case dsl_parse f source of
        None \<Rightarrow> None
      | Some (Inl e) \<Rightarrow> Some (Inl e)
      | Some (Inr ast) \<Rightarrow> map_option (\<lambda>w. Inr (toJobDefinition w jobId now)) (optimize ast))"

definition compileFile :: "nat \<Rightarrow> string \<Rightarrow> string \<Rightarrow> iso_date \<Rightarrow> iso_date \<Rightarrow> job_definition res option" where
  "compileFile f content i createdAt now =
     map_option (\<lambda>r. bind_r r (\<lambda>def. Inr (def\<lparr>jd_id := i, jd_createdAt := createdAt,
         jd_updatedAt := createdAt\<rparr>))) (dsl_compile f content (Some i) now)"

subsection \<open>The optimizer's search\<close>

type_synonym task_index = "(string, task_dsl_node) jsmap"

definition known :: "task_index \<Rightarrow> string set" where
  "known m = set (map_keys m)"

lemma known_get: "i \<in> known m \<longleftrightarrow> (\<exists>t. map_get m i = Some t)"
  unfolding known_def using map_get_None_iff [of m i] by (cases "map_get m i") auto

lemma finite_known [simp]: "finite (known m)"
  by (simp add: known_def)

lemma opt_visit_answers:
  shows "card (known m - set v) < f \<Longrightarrow>
           \<exists>v' out'. opt_visit f m i (v, out) = Some (v', out') \<and> set v \<subseteq> set v'"
    and "card (known m - set v) < f \<Longrightarrow>
           \<exists>v' out'. opt_visits f m is (v, out) = Some (v', out') \<and> set v \<subseteq> set v'"
proof (induction f m i "(v, out)" and f m "is" "(v, out)" arbitrary: v out and v out
    rule: opt_visit_opt_visits.induct)
  case (1 byId i st)
  then show ?case by simp
next
  case (2 f byId i v out)
  show ?case
  proof (cases "i \<in> set v")
    case True
    then show ?thesis by simp
  next
    case False
    show ?thesis
    proof (cases "map_get byId i")
      case None
      then show ?thesis using False by auto
    next
      case (Some t)
      then have "i \<in> known byId - set v" using False by (auto simp: known_get)
      then have "known byId - set (set_add i v) \<subset> known byId - set v" by auto
      then have "card (known byId - set (set_add i v)) < card (known byId - set v)"
        by (intro psubset_card_mono) auto
      then have "card (known byId - set (set_add i v)) < f" using 2(2) by simp
      then obtain v' out' where "opt_visits f byId (tn_dependsOn t) (set_add i v, out) = Some (v', out')"
        "set (set_add i v) \<subseteq> set v'"
        using 2(1) [OF False Some] by blast
      then show ?thesis using False Some by auto
    qed
  qed
next
  case (3 f byId)
  then show ?case by simp
next
  case (4 f byId i "is")
  obtain v1 out1 where a: "opt_visit f byId i (v, out) = Some (v1, out1)" "set v \<subseteq> set v1"
    using 4(1) [OF 4(3)] by blast
  have "card (known byId - set v1) \<le> card (known byId - set v)"
    using a(2) by (intro card_mono) auto
  then have "card (known byId - set v1) < f" using 4(3) by simp
  then show ?case using 4(2) [OF a(1)] a by fastforce
qed

text \<open>\<open>S\<close> are the tasks whose visit is under way.\<close>

definition search_inv :: "task_index \<Rightarrow> string set \<Rightarrow> string jsset \<Rightarrow> task_dsl_node list \<Rightarrow> bool" where
  "search_inv m S v out \<longleftrightarrow>
     distinct (map tn_id out) \<and> set (map tn_id out) \<inter> S = {} \<and>
     (\<forall>i \<in> known m. i \<in> set v \<longleftrightarrow> i \<in> set (map tn_id out) \<union> S) \<and>
     (\<forall>t \<in> set out. map_get m (tn_id t) = Some t)"

text \<open>Every known dependency of a task comes before it.\<close>

definition in_order :: "string set \<Rightarrow> task_dsl_node list \<Rightarrow> bool" where
  "in_order K out \<longleftrightarrow>
     (\<forall>xs t ys. out = xs @ t # ys \<longrightarrow> (\<forall>d \<in> set (tn_dependsOn t). d \<in> K \<longrightarrow> d \<in> set (map tn_id xs)))"

definition dsl_rel :: "task_index \<Rightarrow> (string \<times> string) set" where
  "dsl_rel m = {(i, d). \<exists>t. map_get m i = Some t \<and> d \<in> set (tn_dependsOn t)}"

lemma in_order_Nil [simp]: "in_order K []"
  by (simp add: in_order_def)

lemma in_order_snoc:
  "in_order K (out @ [t]) \<longleftrightarrow>
     in_order K out \<and> (\<forall>d \<in> set (tn_dependsOn t). d \<in> K \<longrightarrow> d \<in> set (map tn_id out))"
proof
  assume L: "in_order K (out @ [t])"
  have "d \<in> set (map tn_id xs)"
    if "out = xs @ u # ys" "d \<in> set (tn_dependsOn u)" "d \<in> K" for xs u ys d
  proof -
    have "out @ [t] = xs @ u # (ys @ [t])" using that by simp
    then show ?thesis using L that unfolding in_order_def by blast
  qed
  then have "in_order K out" unfolding in_order_def by blast
  moreover have "\<forall>d \<in> set (tn_dependsOn t). d \<in> K \<longrightarrow> d \<in> set (map tn_id out)"
    using L unfolding in_order_def by blast
  ultimately show "in_order K out \<and> (\<forall>d \<in> set (tn_dependsOn t). d \<in> K \<longrightarrow> d \<in> set (map tn_id out))" ..
next
  assume R: "in_order K out \<and> (\<forall>d \<in> set (tn_dependsOn t). d \<in> K \<longrightarrow> d \<in> set (map tn_id out))"
  have "d \<in> set (map tn_id xs)"
    if "out @ [t] = xs @ u # ys" "d \<in> set (tn_dependsOn u)" "d \<in> K" for xs u ys d
    using that R unfolding in_order_def by (cases ys rule: rev_cases) (auto simp del: set_map)
  then show "in_order K (out @ [t])" unfolding in_order_def by blast
qed

definition index_ok :: "task_index \<Rightarrow> bool" where
  "index_ok m \<longleftrightarrow> (\<forall>i t. map_get m i = Some t \<longrightarrow> tn_id t = i)"

text \<open>The step from the dependencies of a task to the task itself.\<close>

lemma search_push:
  assumes t: "map_get m i = Some t" "tn_id t = i"
    and inv: "search_inv m (insert i S) v out"
    and S: "i \<notin> S"
  shows "search_inv m S v (out @ [t])"
  using assms by (auto simp: search_inv_def)

lemma order_push:
  assumes t: "map_get m i = Some t"
    and ac: "acyclic (dsl_rel m)" and S: "\<forall>s \<in> S. (s, i) \<in> (dsl_rel m)\<^sup>+"
    and deps: "\<forall>d \<in> set (tn_dependsOn t). d \<in> known m \<longrightarrow> d \<in> set (map tn_id out) \<union> insert i S"
    and ord: "in_order (known m) out"
  shows "in_order (known m) (out @ [t])"
proof -
  have "d \<in> set (map tn_id out)" if d: "d \<in> set (tn_dependsOn t)" "d \<in> known m" for d
  proof (rule ccontr)
    assume "d \<notin> set (map tn_id out)"
    then have "d \<in> insert i S" using deps d by blast
    moreover have e: "(i, d) \<in> dsl_rel m" using t d by (auto simp: dsl_rel_def)
    ultimately have "(d, d) \<in> (dsl_rel m)\<^sup>+" using S by (auto intro: trancl_into_trancl)
    then show False using ac by (auto simp: acyclic_def)
  qed
  then show ?thesis using ord by (simp only: in_order_snoc) blast
qed

text \<open>A visited task that is pushed after its dependencies, from what their visits give.\<close>

lemma visit_push:
  assumes t: "map_get m i = Some t" "tn_id t = i" and S: "i \<notin> S"
    and inv: "search_inv m (insert i S) v out1" and sub: "set (map tn_id out) \<subseteq> set (map tn_id out1)"
    and deps: "\<forall>d \<in> set (tn_dependsOn t). d \<in> known m \<longrightarrow> d \<in> set (map tn_id out1) \<union> insert i S"
    and ord: "acyclic (dsl_rel m) \<and> (\<forall>s \<in> insert i S. \<forall>d \<in> set (tn_dependsOn t). (s, d) \<in> (dsl_rel m)\<^sup>+) \<and>
        in_order (known m) out \<longrightarrow> in_order (known m) out1"
  shows "search_inv m S v (out1 @ [t]) \<and> i \<in> set (map tn_id (out1 @ [t])) \<union> S \<and>
     set (map tn_id out) \<subseteq> set (map tn_id (out1 @ [t])) \<and>
     (acyclic (dsl_rel m) \<and> (\<forall>s \<in> S. (s, i) \<in> (dsl_rel m)\<^sup>+) \<and> in_order (known m) out \<longrightarrow>
        in_order (known m) (out1 @ [t]))"
proof (intro conjI impI)
  show "search_inv m S v (out1 @ [t])" by (rule search_push [OF t inv S])
  show "i \<in> set (map tn_id (out1 @ [t])) \<union> S" and "set (map tn_id out) \<subseteq> set (map tn_id (out1 @ [t]))"
    using t(2) sub by auto
  assume "acyclic (dsl_rel m) \<and> (\<forall>s \<in> S. (s, i) \<in> (dsl_rel m)\<^sup>+) \<and> in_order (known m) out"
  then have ac: "acyclic (dsl_rel m)" and up: "\<forall>s \<in> S. (s, i) \<in> (dsl_rel m)\<^sup>+" and o: "in_order (known m) out"
    by blast+
  have "\<forall>s \<in> insert i S. \<forall>d \<in> set (tn_dependsOn t). (s, d) \<in> (dsl_rel m)\<^sup>+"
    using t(1) up by (auto simp: dsl_rel_def intro: trancl_into_trancl)
  then have "in_order (known m) out1" using ord ac o by blast
  then show "in_order (known m) (out1 @ [t])" by (rule order_push [OF t(1) ac up deps])
qed

lemma opt_visit_correct:
  shows "opt_visit f m i (v, out) = Some (v', out') \<Longrightarrow> index_ok m \<Longrightarrow> search_inv m S v out \<Longrightarrow>
           search_inv m S v' out' \<and> (i \<in> known m \<longrightarrow> i \<in> set (map tn_id out') \<union> S) \<and>
           set (map tn_id out) \<subseteq> set (map tn_id out') \<and>
           (acyclic (dsl_rel m) \<and> (\<forall>s \<in> S. (s, i) \<in> (dsl_rel m)\<^sup>+) \<and> in_order (known m) out \<longrightarrow>
              in_order (known m) out')"
    and "opt_visits f m is (v, out) = Some (v', out') \<Longrightarrow> index_ok m \<Longrightarrow> search_inv m S v out \<Longrightarrow>
           search_inv m S v' out' \<and> (\<forall>i \<in> set is. i \<in> known m \<longrightarrow> i \<in> set (map tn_id out') \<union> S) \<and>
           set (map tn_id out) \<subseteq> set (map tn_id out') \<and>
           (acyclic (dsl_rel m) \<and> (\<forall>s \<in> S. \<forall>i \<in> set is. (s, i) \<in> (dsl_rel m)\<^sup>+) \<and> in_order (known m) out \<longrightarrow>
              in_order (known m) out')"
proof (induction f m i "(v, out)" and f m "is" "(v, out)" arbitrary: v out v' out' S and v out v' out' S
    rule: opt_visit_opt_visits.induct)
  case (1 byId i st)
  then show ?case by simp
next
  case (2 f m i v out)
  consider (seen) "i \<in> set v" | (unknown) "i \<notin> set v" "map_get m i = None" | (new) t where "i \<notin> set v" "map_get m i = Some t"
    by (cases "map_get m i") auto
  then show ?case
  proof cases
    case seen
    then show ?thesis using 2(2,4) by (auto simp: search_inv_def)
  next
    case unknown
    then have "i \<notin> known m" by (simp add: known_get)
    then show ?thesis using 2(2,4) unknown by (auto simp: search_inv_def)
  next
    case new
    obtain v1 out1 where r: "opt_visits f m (tn_dependsOn t) (set_add i v, out) = Some (v1, out1)"
      and v': "v' = v1" "out' = out1 @ [t]"
      using 2(2) new by auto
    have tid: "tn_id t = i" using 2(3) new by (auto simp: index_ok_def)
    have notin: "i \<notin> set (map tn_id out) \<union> S" using 2(4) new by (auto simp: search_inv_def known_get)
    have inv: "search_inv m (insert i S) (set_add i v) out"
      using 2(4) notin by (auto simp: search_inv_def)
    from 2(1) [OF new r 2(3) inv] show ?thesis
      unfolding v' using visit_push [OF new(2) tid] notin by blast
  qed
next
  case (3 f m)
  then show ?case by simp
next
  case (4 f m i "is")
  obtain v1 out1 where a: "opt_visit f m i (v, out) = Some (v1, out1)"
    and b: "opt_visits f m is (v1, out1) = Some (v', out')"
    using 4(3) by (auto split: option.splits)
  note A = 4(1) [OF a 4(4,5)]
  note B = 4(2) [OF a b 4(4) conjunct1 [OF A]]
  show ?case
    apply (intro conjI)
    subgoal using B by blast
    subgoal using A B by auto
    subgoal using A B by blast
    subgoal using A B by simp
    done
qed

subsection \<open>The optimizer sorts the tasks\<close>

definition task_map :: "task_dsl_node list \<Rightarrow> task_index" where
  "task_map tasks = map_from (map (\<lambda>t. (tn_id t, t)) tasks)"

text \<open>The ids a task of the list depends on.\<close>

definition dsl_deps :: "task_dsl_node list \<Rightarrow> (string \<times> string) set" where
  "dsl_deps tasks = {(tn_id t, d) | t d. t \<in> set tasks \<and> d \<in> set (tn_dependsOn t)}"

lemma known_task_map: "known (task_map tasks) = set (map tn_id tasks)"
  unfolding known_def task_map_def by (simp only: set_map_keys_map_from) (simp add: image_image)

lemma task_map_get:
  assumes "distinct (map tn_id tasks)"
  shows "map_get (task_map tasks) i = Some t \<longleftrightarrow> t \<in> set tasks \<and> tn_id t = i"
proof -
  have d: "distinct (map fst (map (\<lambda>t. (tn_id t, t)) tasks))" using assms by (simp add: o_def)
  then have "map_get (task_map tasks) i = Some t \<longleftrightarrow> (i, t) \<in> set (map (\<lambda>t. (tn_id t, t)) tasks)"
    unfolding task_map_def by (simp only: map_from_distinct) (rule map_of_eq_Some_iff)
  then show ?thesis by auto
qed

lemma card_known_le: "card (known (task_map tasks)) \<le> length tasks"
  unfolding known_task_map by (rule order_trans [OF card_length]) simp

lemma sort_answers: "\<exists>out. sortTasksTopologically tasks = Some out"
proof -
  have "card (known (task_map tasks) - set []) < length tasks + 2"
    using card_known_le [of tasks] by simp
  then show ?thesis
    using opt_visit_answers(2) unfolding sortTasksTopologically_def task_map_def [symmetric] by fastforce
qed

lemma sort_correct:
  assumes s: "sortTasksTopologically tasks = Some out" and dist: "distinct (map tn_id tasks)"
  shows "mset out = mset tasks"
    and "acyclic (dsl_deps tasks) \<Longrightarrow> in_order (set (map tn_id tasks)) out"
proof -
  let ?m = "task_map tasks"
  obtain v where r: "opt_visits (length tasks + 2) ?m (map tn_id tasks) ([], []) = Some (v, out)"
    using s unfolding sortTasksTopologically_def task_map_def by auto
  have ix: "index_ok ?m" unfolding index_ok_def
  proof (intro allI impI)
    fix i t assume "map_get ?m i = Some t"
    then show "tn_id t = i" by (rule conjunct2 [OF iffD1 [OF task_map_get [OF dist]]])
  qed
  have inv: "search_inv ?m {} [] []" by (simp add: search_inv_def)
  note c0 = opt_visit_correct(2) [OF r ix inv]
  have c1: "search_inv ?m {} v out" using c0 by (rule conjunct1)
  have c2: "\<forall>i \<in> set (map tn_id tasks). i \<in> known ?m \<longrightarrow> i \<in> set (map tn_id out)"
    using conjunct1 [OF conjunct2 [OF c0]] by simp
  have c3: "acyclic (dsl_rel ?m) \<longrightarrow> in_order (known ?m) out"
    using conjunct2 [OF conjunct2 [OF conjunct2 [OF c0]]] by simp
  have d: "distinct (map tn_id out)" and i: "\<forall>t \<in> set out. map_get ?m (tn_id t) = Some t"
    using c1 by (simp_all add: search_inv_def)
  have all: "\<forall>i \<in> set (map tn_id tasks). i \<in> set (map tn_id out)"
    using c2 unfolding known_task_map by blast
  have "set out = set tasks"
  proof (intro equalityI subsetI)
    fix t assume "t \<in> set out"
    then show "t \<in> set tasks" using i task_map_get [OF dist] by blast
  next
    fix t assume t: "t \<in> set tasks"
    then obtain u where u: "u \<in> set out" "tn_id u = tn_id t" using all by fastforce
    then have "map_get ?m (tn_id t) = Some u" using i by metis
    moreover have "map_get ?m (tn_id t) = Some t" using t task_map_get [OF dist] by blast
    ultimately have "Some u = Some t" by (rule trans [OF sym])
    then show "t \<in> set out" using u(1) by blast
  qed
  then show "mset out = mset tasks"
    using d dist by (meson distinct_map set_eq_iff_mset_eq_distinct)
  have "dsl_rel ?m = dsl_deps tasks"
    unfolding dsl_rel_def dsl_deps_def by (auto simp: task_map_get [OF dist])
  then show "acyclic (dsl_deps tasks) \<Longrightarrow> in_order (set (map tn_id tasks)) out"
    using c3 unfolding known_task_map by simp
qed

subsection \<open>Sorting by depth keeps the order\<close>

lemma fold_max_ge: "d \<in> set ds \<Longrightarrow> (f d :: nat) \<le> fold (\<lambda>d k. max k (f d)) ds a"
proof (induction ds arbitrary: a)
  case Nil
  then show ?case by simp
next
  case (Cons e ds)
  have "b \<le> fold (\<lambda>d k. max k (f d)) ds b" for b
    by (induction ds arbitrary: b) (simp, metis fold_simps(2) max.bounded_iff)
  then have "f e \<le> fold (\<lambda>d k. max k (f d)) ds (max a (f e))" by (meson max.bounded_iff)
  then show ?case using Cons by auto
qed

lemma depths_snoc:
  "depths (ts @ [t]) =
     map_set (tn_id t) (fold (\<lambda>d k. max k (depth_of (depths ts) d)) (tn_dependsOn t) 0 + 1) (depths ts)"
  by (simp add: depths_def)

lemma depth_of_set: "depth_of (map_set i n m) j = (if j = i then n else depth_of m j)"
  by (simp add: depth_of_def)

lemma depths_increase:
  assumes "distinct (map tn_id ts)" and "in_order K ts" and "set (map tn_id ts) \<subseteq> K"
    and "u \<in> set ts" and "d \<in> set (tn_dependsOn u)" and "d \<in> K"
  shows "depth_of (depths ts) d < depth_of (depths ts) (tn_id u)"
  using assms
proof (induction ts arbitrary: u d rule: rev_induct)
  case Nil
  then show ?case by simp
next
  case (snoc t ts)
  have o: "in_order K ts" "\<forall>d \<in> set (tn_dependsOn t). d \<in> K \<longrightarrow> d \<in> set (map tn_id ts)"
    using snoc.prems(2) unfolding in_order_snoc by blast+
  show ?case
  proof (cases "u = t")
    case True
    then have d: "d \<in> set (map tn_id ts)" using o(2) snoc.prems by blast
    moreover have "tn_id t \<notin> set (map tn_id ts)" using snoc.prems(1) by simp
    ultimately have "d \<noteq> tn_id t" by metis
    moreover have "depth_of (depths ts) d \<le>
        fold (\<lambda>d k. max k (depth_of (depths ts) d)) (tn_dependsOn t) 0"
      using snoc.prems(5) True by (intro fold_max_ge) simp
    ultimately show ?thesis using True by (simp add: depths_snoc depth_of_set)
  next
    case False
    then have u: "u \<in> set ts" using snoc.prems(4) by simp
    then obtain xs ys where "ts = xs @ u # ys" by (auto simp: in_set_conv_decomp)
    then have "d \<in> set (map tn_id xs)" using o(1) snoc.prems(5,6) unfolding in_order_def by blast
    then have "d \<in> set (map tn_id ts)" using \<open>ts = xs @ u # ys\<close> by simp
    moreover have "tn_id t \<notin> set (map tn_id ts)" using snoc.prems(1) by simp
    moreover have "tn_id u \<in> set (map tn_id ts)" using u by simp
    ultimately have "d \<noteq> tn_id t" "tn_id u \<noteq> tn_id t" by metis+
    moreover have "depth_of (depths ts) d < depth_of (depths ts) (tn_id u)"
      by (rule snoc.IH [OF _ o(1) _ u snoc.prems(5,6)]) (use snoc.prems(1,3) in auto)
    ultimately show ?thesis by (simp add: depths_snoc depth_of_set)
  qed
qed

lemma merge_in_order:
  assumes dist: "distinct (map tn_id ts)" and ord: "in_order K ts" and K: "set (map tn_id ts) = K"
  shows "in_order K (mergeParallelTasks ts)"
  unfolding in_order_def
proof (intro allI impI ballI)
  fix xs t ys d
  assume s: "mergeParallelTasks ts = xs @ t # ys" and d: "d \<in> set (tn_dependsOn t)" "d \<in> K"
  let ?f = "\<lambda>t. depth_of (depths ts) (tn_id t)"
  have set: "set (xs @ t # ys) = set ts"
    unfolding s [symmetric] by (simp add: mergeParallelTasks_def)
  have sorted: "sorted (map ?f (xs @ t # ys))"
    unfolding s [symmetric] by (simp add: mergeParallelTasks_def)
  obtain u where u: "u \<in> set ts" "tn_id u = d" using d(2) K by auto
  have "t \<in> set ts" using set by auto
  then have lt: "?f u < ?f t" using depths_increase [OF dist ord _ _ d] K u by simp
  have "u \<in> set xs \<or> u = t \<or> u \<in> set ys" using u set by auto
  moreover have "u \<notin> set ys" using sorted lt by (auto simp: sorted_append)
  ultimately have "u \<in> set xs" using lt by auto
  then show "d \<in> set (map tn_id xs)" using u by auto
qed


definition sample_dsl :: workflow_dsl_node where
  "sample_dsl =
     \<lparr>wn_name = ''w'', wn_version = 1,
      wn_tasks = [\<lparr>tn_id = ''b'', tn_handler = ''h'', tn_timeoutMs = 1, tn_dependsOn = [''a''], tn_optional = False\<rparr>,
                  \<lparr>tn_id = ''a'', tn_handler = ''h'', tn_timeoutMs = 1, tn_dependsOn = [], tn_optional = False\<rparr>],
      wn_constraints = []\<rparr>"

lemma sample_dsl_acyclic: "acyclic (dsl_deps (wn_tasks sample_dsl))"
proof -
  have "dsl_deps ts = (\<Union>t \<in> set ts. Pair (tn_id t) ` set (tn_dependsOn t))" for ts
    by (auto simp: dsl_deps_def)
  then have "dsl_deps (wn_tasks sample_dsl) = {(''b'', ''a'')}" by (simp add: sample_dsl_def)
  then show ?thesis by (simp add: acyclic_insert) (simp add: acyclic_def)
qed


subsection \<open>Which sources the parser answers\<close>

text \<open>The action answers, and when it answers a value it has consumed at least \<open>k\<close> tokens.\<close>

definition consumes :: "nat \<Rightarrow> dsl_token list \<Rightarrow> 'a dsl_parsed \<Rightarrow> bool" where
  "consumes k ts m \<longleftrightarrow>
     (case m of
        None \<Rightarrow> False
      | Some (Inl e) \<Rightarrow> True
      | Some (Inr (a, ts')) \<Rightarrow> length ts' + k \<le> length ts \<and> set ts' \<subseteq> set ts)"

lemma consumes_error [simp]: "consumes k ts (Some (Inl e))"
  by (simp add: consumes_def)

lemma consumes_ret [simp]: "consumes 0 ts (ret_p a ts)"
  by (simp add: consumes_def ret_p_def)

lemma consumes_bind:
  assumes "consumes j ts m"
    and "\<And>a ts'. length ts' + j \<le> length ts \<Longrightarrow> set ts' \<subseteq> set ts \<Longrightarrow> consumes k ts' (f a ts')"
  shows "consumes (j + k) ts (bind_p m f)"
proof (cases m)
  case None
  then show ?thesis using assms(1) by (simp add: consumes_def)
next
  case (Some r)
  show ?thesis
  proof (cases r)
    case (Inl e)
    then show ?thesis using Some by (simp add: bind_p_def)
  next
    case (Inr p)
    obtain a ts' where p: "p = (a, ts')" by (cases p)
    then have "length ts' + j \<le> length ts" "set ts' \<subseteq> set ts"
      using assms(1) Some Inr by (simp_all add: consumes_def)
    then show ?thesis
      using assms(2) [of ts' a] Some Inr p
      by (auto simp: bind_p_def consumes_def split: option.splits sum.splits prod.splits)
  qed
qed

lemma consumes_mono: "consumes k ts m \<Longrightarrow> j \<le> k \<Longrightarrow> consumes j ts m"
  by (auto simp: consumes_def split: option.splits sum.splits)

lemma consumes_bind1:
  "consumes (Suc 0) ts m \<Longrightarrow>
   (\<And>a ts'. length ts' < length ts \<Longrightarrow> set ts' \<subseteq> set ts \<Longrightarrow> consumes 0 ts' (f a ts')) \<Longrightarrow>
   consumes (Suc 0) ts (bind_p m f)"
  using consumes_bind [of "Suc 0" ts m 0 f] by simp

lemma consumes_bind0:
  "consumes 0 ts m \<Longrightarrow>
   (\<And>a ts'. length ts' \<le> length ts \<Longrightarrow> set ts' \<subseteq> set ts \<Longrightarrow> consumes 0 ts' (f a ts')) \<Longrightarrow>
   consumes 0 ts (bind_p m f)"
  using consumes_bind [of 0 ts m 0 f] by simp

lemma consumes_expect: "ty \<noteq> DEof \<Longrightarrow> consumes (Suc 0) ts (expect ty ts)"
  by (cases ts) (auto simp: expect_def consumes_def ret_p_def dsl_peek_def mk_dsl_def Let_def)

lemma consumes_expectKeyword: "consumes (Suc 0) ts (expectKeyword kw ts)"
  unfolding expectKeyword_def by (rule consumes_bind1) (auto intro: consumes_expect)

lemma consumes_expectIdent: "consumes (Suc 0) ts (expectIdent ts)"
  unfolding expectIdent_def by (rule consumes_bind1) (auto intro: consumes_expect)

lemma consumes_expectIdentOrString: "consumes (Suc 0) ts (expectIdentOrString ts)"
  by (cases ts) (auto simp: expectIdentOrString_def consumes_def ret_p_def dsl_peek_def mk_dsl_def Let_def)

lemma consumes_expectNumber: "consumes (Suc 0) ts (expectNumber ts)"
  unfolding expectNumber_def
proof (rule consumes_bind1)
  show "consumes (Suc 0) ts (expect DNumber ts)" by (simp add: consumes_expect)
next
  fix a :: dsl_token and ts' :: "dsl_token list"
  show "consumes 0 ts' (Some (bind_r (dsl_number (dt_value a)) (\<lambda>n. Inr (n, ts'))))"
    by (cases "dsl_number (dt_value a)") (simp_all add: consumes_def)
qed

lemmas consumes_token [intro] =
  consumes_expect consumes_expectKeyword consumes_expectIdent consumes_expectIdentOrString consumes_expectNumber

lemma consumes_0 [intro]: "consumes (Suc 0) ts m \<Longrightarrow> consumes 0 ts m"
  by (erule consumes_mono) simp

lemma consumes_comma:
  "consumes 0 ts (if dt_type (dsl_peek ts) = DComma
     then bind_p (expect DComma ts) (\<lambda>t ts. ret_p () ts) else ret_p () ts)"
proof (cases "dt_type (dsl_peek ts) = DComma")
  case True
  have "consumes (Suc 0) ts (bind_p (expect DComma ts) (\<lambda>t ts. ret_p () ts))"
    by (rule consumes_bind1) (auto intro: consumes_expect)
  then show ?thesis using True by auto
qed simp

lemma consumes_bind_token:
  "consumes (Suc 0) ts m \<Longrightarrow>
   (\<And>a ts'. length ts' < length ts \<Longrightarrow> set ts' \<subseteq> set ts \<Longrightarrow> consumes 0 ts' (f a ts')) \<Longrightarrow>
   consumes 0 ts (bind_p m f)"
  by (rule consumes_0, rule consumes_bind1)

lemma dependsLoop_answers: "length ts < f \<Longrightarrow> consumes 0 ts (dependsLoop f acc ts)"
proof (induction f arbitrary: acc ts)
  case 0
  then show ?case by simp
next
  case (Suc f)
  then show ?case
    by (auto intro!: consumes_bind_token consumes_bind0 [OF consumes_comma])
qed

lemma taskLoop_answers: "length ts < f \<Longrightarrow> consumes 0 ts (taskLoop f n ts)"
proof (induction f arbitrary: n ts)
  case 0
  then show ?case by simp
next
  case (Suc f)
  then show ?case
    by (auto intro!: consumes_bind_token consumes_bind0 [OF dependsLoop_answers])
qed

lemma parseTask_answers: "length ts \<le> f \<Longrightarrow> consumes (Suc 0) ts (parseTask f ts)"
  unfolding parseTask_def
  by (auto intro!: consumes_bind1 consumes_bind_token consumes_bind0 [OF taskLoop_answers])

lemma no_keyword_mono:
  "\<forall>t \<in> set ts. \<not> (dt_type t = DKeyword \<and> dt_value t = kw) \<Longrightarrow> set ts' \<subseteq> set ts \<Longrightarrow>
   \<forall>t \<in> set ts'. \<not> (dt_type t = DKeyword \<and> dt_value t = kw)"
  by blast

lemma bodyLoop_answers:
  "length ts < f \<Longrightarrow> \<forall>t \<in> set ts. \<not> (dt_type t = DKeyword \<and> dt_value t = ''constraint'') \<Longrightarrow>
   consumes 0 ts (bodyLoop f tasks cs ts)"
proof (induction f arbitrary: tasks ts)
  case 0
  then show ?case by simp
next
  case (Suc f)
  have "\<not> peekKeyword ''constraint'' ts"
    using Suc.prems(2) by (cases ts) (auto simp: peekKeyword_def dsl_peek_def mk_dsl_def)
  moreover have "consumes 0 ts (bind_p (parseTask f ts) (\<lambda>t ts. bodyLoop f (tasks @ [t]) cs ts))"
  proof (rule consumes_bind_token [OF parseTask_answers])
    show "length ts \<le> f" using Suc.prems(1) by simp
  next
    fix t ts' assume l: "length ts' < length ts" and s: "set ts' \<subseteq> set ts"
    show "consumes 0 ts' (bodyLoop f (tasks @ [t]) cs ts')"
      using Suc.IH [of ts'] l s Suc.prems(1) no_keyword_mono [OF Suc.prems(2) s] by simp
  qed
  ultimately show ?case by auto
qed

lemma parse_tokens_answers:
  "length ts < f \<Longrightarrow> \<forall>t \<in> set ts. \<not> (dt_type t = DKeyword \<and> dt_value t = ''constraint'') \<Longrightarrow>
   consumes 0 ts (dsl_parse_tokens f ts)"
  unfolding dsl_parse_tokens_def
  apply (rule consumes_bind_token, rule consumes_expectKeyword)
  apply (rule consumes_bind_token, rule consumes_expectIdent)
  apply (rule consumes_bind_token, rule consumes_expect, simp)+
  apply (rule consumes_bind_token, rule consumes_expectKeyword)
  apply (rule consumes_bind_token, rule consumes_expect, simp)
  apply (rule consumes_bind_token, rule consumes_expectNumber)
  apply (rule consumes_bind0 [OF bodyLoop_answers])
    apply simp
   apply (rule no_keyword_mono, assumption)
   apply blast
  apply (auto intro!: consumes_bind_token)
  done

text \<open>
  A source without constraints is always answered: with one unit of fuel per token and one
  more, lexing and parsing return a workflow or throw.
\<close>

theorem parser_answers_without_constraints:
  assumes "\<forall>ts. dsl_tokenize source (1, 1) = Inr ts \<longrightarrow>
    length ts < f \<and> (\<forall>t \<in> set ts. \<not> (dt_type t = DKeyword \<and> dt_value t = ''constraint''))"
  shows "\<exists>r. dsl_parse f source = Some r"
proof (cases "dsl_tokenize source (1, 1)")
  case (Inl e)
  then show ?thesis by (simp add: dsl_parse_def)
next
  case (Inr ts)
  then have "consumes 0 ts (dsl_parse_tokens f ts)" using assms parse_tokens_answers by blast
  then show ?thesis using Inr by (auto simp: dsl_parse_def consumes_def split: option.splits)
qed

subsection \<open>A stray token in a constraint\<close>

lemma constraintLoop_stuck:
  assumes "dt_type (dsl_peek ts) \<noteq> DRbrace"
    and "\<not> peekKeyword ''expr'' ts" "\<not> peekKeyword ''warn'' ts" "\<not> peekKeyword ''block'' ts"
  shows "constraintLoop f n ts = None"
  by (induction f) (use assms in simp_all)

definition stray_source :: string where
  "stray_source = ''workflow w : { version : 1 constraint c : { severity : warn } }''"

definition missing_brace_source :: string where
  "missing_brace_source = ''workflow w : { version : 1 constraint c : { warn''"

lemma bodyLoop_stuck:
  assumes c: "dt_type c = DKeyword" "dt_value c = ''constraint''"
    and h: "dt_type i = DIdent" "dt_type k = DColon" "dt_type l = DLbrace"
    and stuck: "\<And>n. constraintLoop f n ts = None"
  shows "bodyLoop (Suc f) tasks cs (c # i # k # l # ts) = None"
proof -
  have "peekKeyword ''constraint'' (c # i # k # l # ts)" "\<not> peekKeyword ''task'' (c # i # k # l # ts)"
    using c by (simp_all add: peekKeyword_def dsl_peek_def)
  moreover have "parseConstraint f (c # i # k # l # ts) = None"
    using c h stuck
    by (simp add: parseConstraint_def expectKeyword_def expectIdent_def expect_def dsl_peek_def
        bind_p_def ret_p_def)
  ultimately show ?thesis using c by (simp add: dsl_peek_def bind_p_def)
qed

text \<open>The header tokens of both sources, and what they leave to the body.\<close>

lemma parse_header:
  assumes "dsl_tokenize source (1, 1) = Inr (w # i # k # l # v # k' # n # ts)"
    and "dt_type w = DKeyword" "dt_value w = ''workflow''" "dt_type i = DIdent" "dt_type k = DColon"
      "dt_type l = DLbrace" "dt_type v = DKeyword" "dt_value v = ''version''" "dt_type k' = DColon"
      "dt_type n = DNumber" "dsl_number (dt_value n) = Inr a"
    and "bodyLoop f [] [] ts = None"
  shows "dsl_parse f source = None"
  using assms
  by (simp add: dsl_parse_def dsl_parse_tokens_def expectKeyword_def expectIdent_def expectNumber_def
      expect_def dsl_peek_def bind_p_def ret_p_def)

definition stray_rest :: "dsl_token list" where
  "stray_rest =
     [mk_dsl DColon '':'' (1, 54), mk_dsl DKeyword ''warn'' (1, 56), mk_dsl DRbrace ''}'' (1, 61),
      mk_dsl DRbrace ''}'' (1, 63), mk_dsl DEof [] (1, 64)]"

lemma stray_tokens:
  "dsl_tokenize stray_source (1, 1) = Inr
     [mk_dsl DKeyword ''workflow'' (1, 1), mk_dsl DIdent ''w'' (1, 10), mk_dsl DColon '':'' (1, 12),
      mk_dsl DLbrace ''{'' (1, 14), mk_dsl DKeyword ''version'' (1, 16), mk_dsl DColon '':'' (1, 24),
      mk_dsl DNumber ''1'' (1, 26), mk_dsl DKeyword ''constraint'' (1, 28), mk_dsl DIdent ''c'' (1, 39),
      mk_dsl DColon '':'' (1, 41), mk_dsl DLbrace ''{'' (1, 43), mk_dsl DIdent ''severity'' (1, 45),
      mk_dsl DColon '':'' (1, 54), mk_dsl DKeyword ''warn'' (1, 56), mk_dsl DRbrace ''}'' (1, 61),
      mk_dsl DRbrace ''}'' (1, 63), mk_dsl DEof [] (1, 64)]"
  by code_simp

lemma missing_brace_tokens:
  "dsl_tokenize missing_brace_source (1, 1) = Inr
     [mk_dsl DKeyword ''workflow'' (1, 1), mk_dsl DIdent ''w'' (1, 10), mk_dsl DColon '':'' (1, 12),
      mk_dsl DLbrace ''{'' (1, 14), mk_dsl DKeyword ''version'' (1, 16), mk_dsl DColon '':'' (1, 24),
      mk_dsl DNumber ''1'' (1, 26), mk_dsl DKeyword ''constraint'' (1, 28), mk_dsl DIdent ''c'' (1, 39),
      mk_dsl DColon '':'' (1, 41), mk_dsl DLbrace ''{'' (1, 43), mk_dsl DKeyword ''warn'' (1, 45),
      mk_dsl DEof [] (1, 49)]"
  by code_simp

lemma version_one: "dsl_number ''1'' = Inr 1"
  by code_simp

text \<open>
  A field a constraint does not have, such as \<^verbatim>\<open>severity: warn\<close>, or a constraint whose
  closing brace is missing, hangs the parser: no amount of fuel makes it answer.
\<close>

theorem stray_token_hangs_parser:
  "(\<forall>f. dsl_parse f stray_source = None) \<and> (\<forall>f. dsl_parse f missing_brace_source = None)"
proof (intro conjI allI)
  fix f
  show "dsl_parse f stray_source = None"
  proof (cases f)
    case 0
    then show ?thesis by (intro parse_header [OF stray_tokens]) (simp_all add: mk_dsl_def version_one)
  next
    case (Suc g)
    have "bodyLoop f [] []
        (mk_dsl DKeyword ''constraint'' (1, 28) # mk_dsl DIdent ''c'' (1, 39) # mk_dsl DColon '':'' (1, 41) #
         mk_dsl DLbrace ''{'' (1, 43) # mk_dsl DIdent ''severity'' (1, 45) # stray_rest) = None"
      unfolding Suc
      by (rule bodyLoop_stuck; (rule constraintLoop_stuck)?) (simp_all add: mk_dsl_def dsl_peek_def peekKeyword_def)
    then show ?thesis
      by (intro parse_header [OF stray_tokens]) (simp_all add: stray_rest_def, simp_all add: mk_dsl_def version_one)
  qed
next
  fix f
  have stuck: "constraintLoop g n [mk_dsl DKeyword ''warn'' (1, 45), mk_dsl DEof [] (1, 49)] = None" for g n
  proof (cases g)
    case (Suc h)
    have "constraintLoop h m [mk_dsl DEof [] (1, 49)] = None" for m
      by (rule constraintLoop_stuck) (simp_all add: dsl_peek_def peekKeyword_def mk_dsl_def)
    then show ?thesis
      using Suc by (simp add: dsl_peek_def peekKeyword_def expectKeyword_def expect_def bind_p_def ret_p_def mk_dsl_def)
  qed simp
  show "dsl_parse f missing_brace_source = None"
  proof (cases f)
    case 0
    then show ?thesis by (intro parse_header [OF missing_brace_tokens]) (simp_all add: mk_dsl_def version_one)
  next
    case (Suc g)
    have "bodyLoop f [] []
        (mk_dsl DKeyword ''constraint'' (1, 28) # mk_dsl DIdent ''c'' (1, 39) # mk_dsl DColon '':'' (1, 41) #
         mk_dsl DLbrace ''{'' (1, 43) # [mk_dsl DKeyword ''warn'' (1, 45), mk_dsl DEof [] (1, 49)]) = None"
      unfolding Suc by (rule bodyLoop_stuck [OF _ _ _ _ _ stuck]) (simp_all add: mk_dsl_def)
    then show ?thesis
      by (intro parse_header [OF missing_brace_tokens]) (simp_all, simp_all add: mk_dsl_def version_one)
  qed
qed

lemma parser_answers_without_constraints_witness:
  "\<exists>r. dsl_parse 30 ''workflow w : { version : 2 task a : { handler : 'h' } }'' = Some r"
proof -
  have t: "case dsl_tokenize ''workflow w : { version : 2 task a : { handler : 'h' } }'' (1, 1) of
      Inl e \<Rightarrow> False
    | Inr ts \<Rightarrow> length ts < 30 \<and>
        list_all (\<lambda>t. \<not> (dt_type t = DKeyword \<and> dt_value t = ''constraint'')) ts"
    by code_simp
  show ?thesis
    by (rule parser_answers_without_constraints) (use t in \<open>auto simp: list_all_iff\<close>)
qed

end
