(* ===== verification/Saga.thy ===== *)
theory Saga
  imports Workers
begin

section \<open>Sagas (saga/*.ts)\<close>

text \<open>
  The saga coordinator runs the steps of a definition in order; when one fails it runs the
  compensations of the steps already completed, last one first. The code mutates the step states
  of the instance in place and keeps references to them on the compensation stack; here the stack
  holds their positions in the instance, so what it reads is what the instance holds. The state
  also records the handler calls made so far, which the code does not keep.
\<close>

subsection \<open>The types (saga-types.ts)\<close>

datatype saga_step_status =
  StepPending | StepRunning | StepCompleted | StepFailed | StepCompensating | StepCompensated

datatype saga_status = SagaActive | SagaCompleted | SagaFailed | SagaCompensated

record saga_step_def =
  sd_id :: string
  sd_name :: string
  sd_forward :: string
  sd_compensate :: "string option"
  sd_timeoutMs :: int

record saga_step_state =
  ss_stepId :: string
  ss_status :: saga_step_status
  ss_attempt :: nat
  ss_output :: "jsobj option"
  ss_error :: "string option"
  ss_startedAt :: "iso_date option"
  ss_finishedAt :: "iso_date option"

record saga_instance =
  si_id :: string
  si_runId :: run_id
  si_definitionId :: string
  si_steps :: "saga_step_state list"
  si_status :: saga_status
  si_createdAt :: iso_date
  si_updatedAt :: iso_date

record saga_def =
  sg_id :: string
  sg_name :: string
  sg_steps :: "saga_step_def list"

subsection \<open>The compensation stack (compensation-stack.ts)\<close>

text \<open>\<open>status\<close> is the status of the pushed step, \<open>k\<close> its position.\<close>

definition stack_push :: "saga_step_status \<Rightarrow> 'a \<Rightarrow> 'a list \<Rightarrow> 'a list" where
  "stack_push status k completed = (if status = StepCompleted then completed @ [k] else completed)"

definition stack_pop :: "'a list \<Rightarrow> 'a option \<times> 'a list" where
  "stack_pop completed =
     (if completed = [] then (None, []) else (Some (last completed), butlast completed))"

definition stack_peek :: "'a list \<Rightarrow> 'a option" where
  "stack_peek completed = (if completed = [] then None else Some (last completed))"

definition stack_size :: "'a list \<Rightarrow> nat" where
  "stack_size completed = length completed"

definition toCompensateOrder :: "'a list \<Rightarrow> 'a list" where
  "toCompensateOrder completed = rev completed"

definition stack_clear :: "'a list \<Rightarrow> 'a list" where
  "stack_clear completed = []"

text \<open>What a client of the stack relies on: popping undoes pushing.\<close>

locale lifo =
  fixes empty :: "'s"
    and push :: "'a \<Rightarrow> 's \<Rightarrow> 's"
    and pop :: "'s \<Rightarrow> 'a option \<times> 's"
    and peek :: "'s \<Rightarrow> 'a option"
    and size_of :: "'s \<Rightarrow> nat"
    and order :: "'s \<Rightarrow> 'a list"
  assumes pop_empty: "pop empty = (None, empty)"
    and pop_push: "pop (push x s) = (Some x, s)"
    and peek_pop: "peek s = fst (pop s)"
    and size_empty: "size_of empty = 0"
    and size_push: "size_of (push x s) = Suc (size_of s)"
    and order_empty: "order empty = []"
    and order_push: "order (push x s) = x # order s"
begin

lemma order_pushes: "order (fold push xs s) = rev xs @ order s"
  by (induction xs arbitrary: s) (simp_all add: order_push)

lemma order_all: "order (fold push xs empty) = rev xs"
  by (simp add: order_pushes order_empty)

lemma size_pushes: "size_of (fold push xs s) = length xs + size_of s"
  by (induction xs arbitrary: s) (simp_all add: size_push)

lemma peek_push: "peek (push x s) = Some x"
  by (simp add: peek_pop pop_push)

end

lemmas stack_defs = stack_push_def stack_pop_def stack_peek_def stack_size_def toCompensateOrder_def

interpretation comp_stack: lifo "stack_clear s" "stack_push StepCompleted" stack_pop stack_peek
  stack_size toCompensateOrder
  for s
  by unfold_locales (simp_all add: stack_defs stack_clear_def)

subsection \<open>The coordinator (saga-coordinator.ts)\<close>

record saga_state =
  sg_definitions :: "(string, saga_def) jsmap"
  sg_instances :: "(string, saga_instance) jsmap"
  sg_ticks :: nat
  sg_calls :: "(string \<times> string) list"

type_synonym 'a sga = "(saga_state, err, 'a) act"

definition registerDefinition :: "saga_def \<Rightarrow> saga_state \<Rightarrow> saga_state" where
  "registerDefinition def s = s\<lparr>sg_definitions := map_set (sg_id def) def (sg_definitions s)\<rparr>"

definition saga_get :: "saga_state \<Rightarrow> string \<Rightarrow> saga_instance option" where
  "saga_get s i = map_get (sg_instances s) i"

definition saga_env :: "'a eff \<Rightarrow> 'a sga" where
  "saga_env m s = (case m (sg_ticks s) of (r, n) \<Rightarrow> (r, s\<lparr>sg_ticks := n\<rparr>))"

definition saga_call ::
    "string \<Rightarrow> (handler_context \<Rightarrow> task_definition \<Rightarrow> handler_result eff) \<Rightarrow>
     handler_context \<Rightarrow> task_definition \<Rightarrow> handler_result sga" where
  "saga_call name h ctx task =
     bind_a (writes (\<lambda>s. s\<lparr>sg_calls := sg_calls s @ [(name, hc_taskId ctx)]\<rparr>)) (\<lambda>u.
       saga_env (h ctx task))"

definition saga_task :: "saga_step_def \<Rightarrow> string \<Rightarrow> string \<Rightarrow> task_definition" where
  "saga_task sd name handler =
     \<lparr>td_id = sd_id sd, td_name = name, td_handler = handler, td_timeoutMs = sd_timeoutMs sd,
      td_optional = None, td_dependsOn = None\<rparr>"

definition upd_step :: "nat \<Rightarrow> (saga_step_state \<Rightarrow> saga_step_state) \<Rightarrow> saga_instance \<Rightarrow> saga_instance" where
  "upd_step i f inst = inst\<lparr>si_steps := (si_steps inst)[i := f (si_steps inst ! i)]\<rparr>"

fun index_of :: "string \<Rightarrow> string list \<Rightarrow> nat option" where
  "index_of x [] = None"
| "index_of x (y # ys) = (if x = y then Some 0 else map_option Suc (index_of x ys))"

definition saga_persist :: "env \<Rightarrow> saga_instance \<Rightarrow> saga_instance sga" where
  "saga_persist e inst =
     bind_a (saga_env (read_env (clk e))) (\<lambda>now.
       let inst' = inst\<lparr>si_updatedAt := now\<rparr>
       in bind_a (writes (\<lambda>s. s\<lparr>sg_instances := map_set (si_id inst') inst' (sg_instances s)\<rparr>)) (\<lambda>u.
          ret inst'))"

text \<open>
  One turn of the loop of \<^verbatim>\<open>compensate\<close>. A missing or empty compensation is skipped, and so
  is a handler nobody implements. Whatever result the handler returns, success or not, counts
  as compensated; a handler that throws leaves the step compensating.
\<close>

definition compensate_one :: "env \<Rightarrow> saga_def \<Rightarrow> nat \<Rightarrow> saga_instance \<Rightarrow> saga_instance sga" where
  "compensate_one e def k inst =
     (let completed = si_steps inst ! k
      in case List.find (\<lambda>s. sd_id s = ss_stepId completed) (sg_steps def) of
           None \<Rightarrow> ret inst
         | Some sd \<Rightarrow>
             (case sd_compensate sd of
                None \<Rightarrow> ret inst
              | Some c \<Rightarrow>
                  if c = [] then ret inst
                  else case impls e c of
                    None \<Rightarrow> ret inst
                  | Some h \<Rightarrow>
                      (case index_of (ss_stepId completed) (map ss_stepId (si_steps inst)) of
                         None \<Rightarrow> ret inst
                       | Some j \<Rightarrow>
                           let inst1 = upd_step j (\<lambda>st. st\<lparr>ss_status := StepCompensating\<rparr>) inst
                           in catch_a
                                (bind_a (saga_call c h
                                    \<lparr>hc_runId = si_runId inst, hc_taskId = sd_id sd,
                                     hc_input = (case ss_output completed of Some out \<Rightarrow> out | None \<Rightarrow> []),
                                     hc_priorOutputs = []\<rparr>
                                    (saga_task sd (''compensate-'' @ sd_name sd) c)) (\<lambda>r.
                                  ret (upd_step j (\<lambda>st. st\<lparr>ss_status := StepCompensated\<rparr>) inst1)))
                                (\<lambda>err. ret inst1))))"

fun compensate_all :: "env \<Rightarrow> saga_def \<Rightarrow> nat list \<Rightarrow> saga_instance \<Rightarrow> saga_instance sga" where
  "compensate_all e def [] inst = ret inst"
| "compensate_all e def (k # ks) inst =
     bind_a (compensate_one e def k inst) (compensate_all e def ks)"

definition compensate :: "env \<Rightarrow> saga_def \<Rightarrow> nat list \<Rightarrow> saga_instance \<Rightarrow> saga_instance sga" where
  "compensate e def stack inst =
     bind_a (compensate_all e def (toCompensateOrder stack) inst) (\<lambda>inst'.
       ret (inst'\<lparr>si_status := SagaCompensated\<rparr>))"

text \<open>What the three failure branches of the forward loop share.\<close>

definition saga_fail :: "env \<Rightarrow> saga_def \<Rightarrow> nat list \<Rightarrow> nat \<Rightarrow> string \<Rightarrow> saga_instance \<Rightarrow> saga_instance sga" where
  "saga_fail e def stack i message inst =
     bind_a (compensate e def stack
       ((upd_step i (\<lambda>st. st\<lparr>ss_status := StepFailed, ss_error := Some message\<rparr>) inst)
          \<lparr>si_status := SagaFailed\<rparr>)) (saga_persist e)"

text \<open>One handler call: the message of a failure, or the output.\<close>

definition saga_attempt ::
    "string \<Rightarrow> (handler_context \<Rightarrow> task_definition \<Rightarrow> handler_result eff) \<Rightarrow>
     handler_context \<Rightarrow> task_definition \<Rightarrow> (string + jsobj) sga" where
  "saga_attempt name h ctx task =
     catch_a
       (bind_a (saga_call name h ctx task) (\<lambda>result.
          if hr_success result then ret (Inr (hr_output result))
          else bind_a (lift_r (obj_get (hr_output result) ''error'')) (\<lambda>v.
               bind_a (lift_r (to_string (obj_or v (VStr ''step failed'')))) (\<lambda>m. ret (Inl m)))))
       (\<lambda>err. ret (Inl (err_message err)))"

fun saga_forward ::
    "env \<Rightarrow> saga_def \<Rightarrow> jsobj \<Rightarrow> nat \<Rightarrow> saga_step_def list \<Rightarrow> saga_instance \<Rightarrow> nat list \<Rightarrow>
     (string \<times> jsobj) list \<Rightarrow> saga_instance sga" where
  "saga_forward e def input i [] inst stack prior =
     saga_persist e (inst\<lparr>si_status := SagaCompleted\<rparr>)"
| "saga_forward e def input i (sd # sds) inst stack prior =
     (if length (si_steps inst) \<le> i
      then throw (JsTypeError ''Cannot set properties of undefined (setting 'status')'')
      else bind_a (saga_env (read_env (clk e))) (\<lambda>now.
        let inst1 = upd_step i (\<lambda>st. st\<lparr>ss_status := StepRunning, ss_attempt := ss_attempt st + 1,
              ss_startedAt := Some now\<rparr>) inst
        in case impls e (sd_forward sd) of
             None \<Rightarrow> saga_fail e def stack i (''no handler for '' @ sd_forward sd) inst1
           | Some h \<Rightarrow>
               bind_a (saga_attempt (sd_forward sd) h
                   \<lparr>hc_runId = si_runId inst1, hc_taskId = sd_id sd, hc_input = input,
                    hc_priorOutputs = prior\<rparr> (saga_task sd (sd_name sd) (sd_forward sd))) (\<lambda>r.
               case r of
                 Inl message \<Rightarrow> saga_fail e def stack i message inst1
               | Inr output \<Rightarrow>
                   bind_a (saga_env (read_env (clk e))) (\<lambda>finished.
                     let inst2 = upd_step i (\<lambda>st. st\<lparr>ss_status := StepCompleted,
                           ss_output := Some output, ss_finishedAt := Some finished\<rparr>) inst1
                     in saga_forward e def input (Suc i) sds inst2
                          (stack_push (ss_status (si_steps inst2 ! i)) i stack)
                          (map_set (sd_id sd) output prior)))))"

definition executeForward :: "env \<Rightarrow> saga_instance \<Rightarrow> saga_def \<Rightarrow> jsobj \<Rightarrow> saga_instance sga" where
  "executeForward e inst def input = saga_forward e def input 0 (sg_steps def) inst [] []"

definition saga_start :: "env \<Rightarrow> string \<Rightarrow> jsobj \<Rightarrow> saga_instance sga" where
  "saga_start e definitionId input =
     bind_a (reads (\<lambda>s. map_get (sg_definitions s) definitionId)) (\<lambda>found.
     case found of
       None \<Rightarrow> throw (JsError (''unknown saga definition: '' @ definitionId))
     | Some def \<Rightarrow>
         bind_a (saga_env (read_env (uuid e))) (\<lambda>u.
         bind_a (saga_env (read_env (clk e))) (\<lambda>created.
         bind_a (saga_env (read_env (clk e))) (\<lambda>updated.
           let runId = ''run_'' @ take 12 u;
               inst = \<lparr>si_id = ''saga_'' @ runId, si_runId = runId, si_definitionId = definitionId,
                 si_steps = map (\<lambda>sd. \<lparr>ss_stepId = sd_id sd, ss_status = StepPending, ss_attempt = 0,
                     ss_output = None, ss_error = None, ss_startedAt = None, ss_finishedAt = None\<rparr>)
                   (sg_steps def),
                 si_status = SagaActive, si_createdAt = created, si_updatedAt = updated\<rparr>
           in bind_a (writes (\<lambda>s. s\<lparr>sg_instances := map_set (si_id inst) inst (sg_instances s)\<rparr>)) (\<lambda>w.
              executeForward e inst def input)))))"

subsection \<open>What a run of a saga calls\<close>

text \<open>The handlers stay within the modelled part of JavaScript.\<close>

definition handlers_modelled :: "env \<Rightarrow> bool" where
  "handlers_modelled e \<longleftrightarrow>
     (\<forall>name h c t n. impls e name = Some h \<longrightarrow>
        (\<forall>er. fst (h c t n) = Inl er \<longrightarrow> \<not> is_unmodelled er) \<and>
        (\<forall>r. fst (h c t n) = Inr r \<longrightarrow> \<not> hr_success r \<longrightarrow>
           (\<forall>v. map_of (hr_output r) ''error'' = Some v \<longrightarrow>
              (\<forall>er. to_string (obj_or v (VStr ''step failed'')) = Inl er \<longrightarrow> \<not> is_unmodelled er))))"

lemma catch_ret_total:
  assumes "\<And>er. fst (m s) = Inl er \<Longrightarrow> \<not> is_unmodelled er"
  shows "\<exists>r s'. catch_a m (\<lambda>er. ret (g er)) s = (Inr r, s') \<and> s' = snd (m s)"
proof (cases "m s")
  case (Pair r s')
  then show ?thesis using assms by (cases r) (auto simp: catch_a_def)
qed

text \<open>The compensation that will be called for a step, if any.\<close>

definition comp_name :: "env \<Rightarrow> saga_step_def \<Rightarrow> string option" where
  "comp_name e sd =
     (case sd_compensate sd of
        Some c \<Rightarrow> if c \<noteq> [] \<and> impls e c \<noteq> None then Some c else None
      | None \<Rightarrow> None)"

definition comp_calls :: "env \<Rightarrow> saga_step_def list \<Rightarrow> (string \<times> string) list" where
  "comp_calls e sds = List.map_filter (\<lambda>sd. map_option (\<lambda>c. (c, sd_id sd)) (comp_name e sd)) sds"

definition forward_calls :: "saga_step_def list \<Rightarrow> (string \<times> string) list" where
  "forward_calls sds = map (\<lambda>sd. (sd_forward sd, sd_id sd)) sds"

lemma comp_calls_simps [simp]:
  "comp_calls e [] = []"
  "comp_calls e (sd # sds) = (case comp_name e sd of None \<Rightarrow> [] | Some c \<Rightarrow> [(c, sd_id sd)]) @ comp_calls e sds"
  by (simp_all add: comp_calls_def map_filter_simps split: option.splits)

lemma saga_env_fields [simp]:
  "sg_calls (snd (saga_env m s)) = sg_calls s"
  "sg_instances (snd (saga_env m s)) = sg_instances s"
  "sg_definitions (snd (saga_env m s)) = sg_definitions s"
  by (simp_all add: saga_env_def split: prod.splits)

lemma saga_env_read [simp]:
  "saga_env (read_env f) s = (Inr (f (sg_ticks s)), s\<lparr>sg_ticks := Suc (sg_ticks s)\<rparr>)"
  by (simp add: saga_env_def)

lemma saga_call_fields:
  "sg_calls (snd (saga_call name h c t s)) = sg_calls s @ [(name, hc_taskId c)]"
  "sg_instances (snd (saga_call name h c t s)) = sg_instances s"
  "sg_definitions (snd (saga_call name h c t s)) = sg_definitions s"
  by (simp_all add: saga_call_def bind_a_def writes_def)

lemma saga_call_result: "\<exists>n. fst (saga_call name h c t s) = fst (h c t n)"
  by (rule exI [of _ "sg_ticks s"])
    (simp add: saga_call_def bind_a_def writes_def saga_env_def split: prod.splits)

lemma index_of_distinct: "distinct xs \<Longrightarrow> k < length xs \<Longrightarrow> index_of (xs ! k) xs = Some k"
  by (induction xs arbitrary: k) (auto simp: nth_Cons split: nat.splits)

text \<open>The instance has one step state per step of the definition, in order, under distinct ids.\<close>

definition saga_shape :: "saga_def \<Rightarrow> saga_instance \<Rightarrow> bool" where
  "saga_shape def inst \<longleftrightarrow> distinct (map sd_id (sg_steps def)) \<and>
     map ss_stepId (si_steps inst) = map sd_id (sg_steps def)"

lemma saga_shape_length: "saga_shape def inst \<Longrightarrow> length (si_steps inst) = length (sg_steps def)"
  unfolding saga_shape_def by (metis length_map)

lemma saga_shape_upd:
  assumes "saga_shape def inst" and "\<And>st. ss_stepId (f st) = ss_stepId st"
  shows "saga_shape def (upd_step i f inst)"
proof (cases "i < length (si_steps inst)")
  case True
  then have "map ss_stepId ((si_steps inst)[i := f (si_steps inst ! i)]) = map ss_stepId (si_steps inst)"
    using assms(2) by (simp add: map_update list_update_same_conv)
  then show ?thesis using assms(1) by (simp add: saga_shape_def upd_step_def)
qed (use assms(1) in \<open>simp add: saga_shape_def upd_step_def list_update_beyond\<close>)

lemma saga_shape_fields [simp]:
  "saga_shape def (inst\<lparr>si_status := x\<rparr>) = saga_shape def inst"
  "saga_shape def (inst\<lparr>si_updatedAt := y\<rparr>) = saga_shape def inst"
  by (simp_all add: saga_shape_def)

lemma saga_shape_find:
  assumes "saga_shape def inst" and "k < length (sg_steps def)"
  shows "ss_stepId (si_steps inst ! k) = sd_id (sg_steps def ! k)"
    and "List.find (\<lambda>s. sd_id s = ss_stepId (si_steps inst ! k)) (sg_steps def) = Some (sg_steps def ! k)"
    and "index_of (ss_stepId (si_steps inst ! k)) (map ss_stepId (si_steps inst)) = Some k"
proof -
  have l: "k < length (si_steps inst)" using assms saga_shape_length by fastforce
  show i: "ss_stepId (si_steps inst ! k) = sd_id (sg_steps def ! k)"
    using assms l unfolding saga_shape_def by (metis nth_map)
  show "List.find (\<lambda>s. sd_id s = ss_stepId (si_steps inst ! k)) (sg_steps def) = Some (sg_steps def ! k)"
    unfolding i using assms by (intro find_distinct_key) (auto simp: saga_shape_def)
  show "index_of (ss_stepId (si_steps inst ! k)) (map ss_stepId (si_steps inst)) = Some k"
    using index_of_distinct [of "map ss_stepId (si_steps inst)" k] assms(1) l
    by (simp add: saga_shape_def del: distinct_map)
qed

lemma compensate_one_spec:
  assumes shape: "saga_shape def inst" and k: "k < length (sg_steps def)" and m: "handlers_modelled e"
  shows "\<exists>inst' s'. compensate_one e def k inst s = (Inr inst', s') \<and>
     sg_calls s' = sg_calls s @ comp_calls e [sg_steps def ! k] \<and>
     sg_instances s' = sg_instances s \<and> sg_definitions s' = sg_definitions s \<and>
     (if comp_name e (sg_steps def ! k) = None then inst' = inst
      else \<exists>x \<in> {StepCompensating, StepCompensated}. inst' = upd_step k (\<lambda>st. st\<lparr>ss_status := x\<rparr>) inst)"
proof (cases "comp_name e (sg_steps def ! k)")
  case None
  then have "compensate_one e def k inst s = (Inr inst, s)"
    using saga_shape_find [OF shape k]
    by (auto simp: compensate_one_def comp_name_def Let_def split: option.splits if_splits)
  then show ?thesis using None by simp
next
  case (Some c)
  then obtain h where c: "sd_compensate (sg_steps def ! k) = Some c" "c \<noteq> []" "impls e c = Some h"
    by (auto simp: comp_name_def split: option.splits if_splits)
  let ?inst1 = "upd_step k (\<lambda>st. st\<lparr>ss_status := StepCompensating\<rparr>) inst"
  let ?sd = "sg_steps def ! k"
  let ?ctx = "\<lparr>hc_runId = si_runId inst, hc_taskId = sd_id ?sd,
      hc_input = (case ss_output (si_steps inst ! k) of Some out \<Rightarrow> out | None \<Rightarrow> []), hc_priorOutputs = []\<rparr>"
  let ?task = "saga_task ?sd (''compensate-'' @ sd_name ?sd) c"
  have eq: "compensate_one e def k inst s = catch_a (bind_a (saga_call c h ?ctx ?task) (\<lambda>r.
      ret (upd_step k (\<lambda>st. st\<lparr>ss_status := StepCompensated\<rparr>) ?inst1))) (\<lambda>err. ret ?inst1) s"
    using saga_shape_find [OF shape k] c by (simp add: compensate_one_def Let_def)
  have two: "upd_step k (\<lambda>st. st\<lparr>ss_status := StepCompensated\<rparr>) ?inst1 =
      upd_step k (\<lambda>st. st\<lparr>ss_status := StepCompensated\<rparr>) inst"
    using k saga_shape_length [OF shape] by (simp add: upd_step_def)
  obtain r s1 where call: "saga_call c h ?ctx ?task s = (r, s1)" by (cases "saga_call c h ?ctx ?task s")
  then have f: "sg_calls s1 = sg_calls s @ [(c, sd_id ?sd)]" "sg_instances s1 = sg_instances s"
    "sg_definitions s1 = sg_definitions s"
    using saga_call_fields [of c h ?ctx ?task s] by simp_all
  have "r = Inl er \<Longrightarrow> \<not> is_unmodelled er" for er
    using saga_call_result [of c h ?ctx ?task s] call m c(3) unfolding handlers_modelled_def
    by (metis fst_conv)
  then have "compensate_one e def k inst s =
      (Inr (case r of Inl er \<Rightarrow> ?inst1 | Inr a \<Rightarrow> upd_step k (\<lambda>st. st\<lparr>ss_status := StepCompensated\<rparr>) inst), s1)"
    unfolding eq using call by (cases r) (simp_all add: catch_a_def bind_a_def two)
  then show ?thesis using f Some by (cases r) auto
qed

text \<open>The states a compensation leaves of the steps at the positions \<open>ks\<close>.\<close>

definition comp_steps :: "env \<Rightarrow> saga_def \<Rightarrow> nat set \<Rightarrow> saga_instance \<Rightarrow> saga_instance \<Rightarrow> bool" where
  "comp_steps e def K inst inst' \<longleftrightarrow>
     (\<forall>j < length (sg_steps def).
        if j \<in> K \<and> comp_name e (sg_steps def ! j) \<noteq> None
        then \<exists>x \<in> {StepCompensating, StepCompensated}. si_steps inst' ! j = (si_steps inst ! j)\<lparr>ss_status := x\<rparr>
        else si_steps inst' ! j = si_steps inst ! j)"

lemma comp_steps_fields [simp]:
  "comp_steps e def K (inst\<lparr>si_status := x\<rparr>) inst' = comp_steps e def K inst inst'"
  "comp_steps e def K inst (inst'\<lparr>si_status := x\<rparr>) = comp_steps e def K inst inst'"
  "comp_steps e def K inst (inst'\<lparr>si_updatedAt := y\<rparr>) = comp_steps e def K inst inst'"
  by (simp_all add: comp_steps_def)

lemma compensate_all_spec:
  assumes "saga_shape def inst" and "\<forall>k \<in> set ks. k < length (sg_steps def)" and "handlers_modelled e"
    and "distinct ks"
  shows "\<exists>inst' s'. compensate_all e def ks inst s = (Inr inst', s') \<and>
     sg_calls s' = sg_calls s @ comp_calls e (map (nth (sg_steps def)) ks) \<and>
     sg_instances s' = sg_instances s \<and> sg_definitions s' = sg_definitions s \<and>
     saga_shape def inst' \<and> si_id inst' = si_id inst \<and> comp_steps e def (set ks) inst inst'"
  using assms
proof (induction ks arbitrary: inst s)
  case Nil
  then show ?case by (simp add: comp_steps_def)
next
  case (Cons k ks)
  obtain inst1 s1 where one: "compensate_one e def k inst s = (Inr inst1, s1)"
    and c1: "sg_calls s1 = sg_calls s @ comp_calls e [sg_steps def ! k]"
    and f1: "sg_instances s1 = sg_instances s" "sg_definitions s1 = sg_definitions s"
    and i1: "if comp_name e (sg_steps def ! k) = None then inst1 = inst
      else \<exists>x \<in> {StepCompensating, StepCompensated}. inst1 = upd_step k (\<lambda>st. st\<lparr>ss_status := x\<rparr>) inst"
    using compensate_one_spec [OF Cons.prems(1) _ Cons.prems(3), of k s] Cons.prems(2) by auto
  have sh1: "saga_shape def inst1"
    using i1 Cons.prems(1) by (auto split: if_splits intro: saga_shape_upd)
  have id1: "si_id inst1 = si_id inst" using i1 by (auto simp: upd_step_def split: if_splits)
  obtain inst2 s2 where all: "compensate_all e def ks inst1 s1 = (Inr inst2, s2)"
    and c2: "sg_calls s2 = sg_calls s1 @ comp_calls e (map (nth (sg_steps def)) ks)"
    and f2: "sg_instances s2 = sg_instances s1" "sg_definitions s2 = sg_definitions s1"
    and r2: "saga_shape def inst2" "si_id inst2 = si_id inst1" "comp_steps e def (set ks) inst1 inst2"
    using Cons.IH [OF sh1 _ Cons.prems(3), of s1] Cons.prems(2,4) by auto
  have len: "length (si_steps inst) = length (sg_steps def)" using saga_shape_length Cons.prems(1) .
  have "comp_steps e def (set (k # ks)) inst inst2"
    unfolding comp_steps_def
  proof (intro allI impI)
    fix j assume j: "j < length (sg_steps def)"
    show "if j \<in> set (k # ks) \<and> comp_name e (sg_steps def ! j) \<noteq> None
        then \<exists>x \<in> {StepCompensating, StepCompensated}. si_steps inst2 ! j = (si_steps inst ! j)\<lparr>ss_status := x\<rparr>
        else si_steps inst2 ! j = si_steps inst ! j"
      using r2(3) [unfolded comp_steps_def, rule_format, OF j] i1 Cons.prems(4) j len
      by (cases "j = k") (auto simp: upd_step_def split: if_splits)
  qed
  then show ?case
    using one all c1 c2 f1 f2 r2 id1 by (simp add: bind_a_def)
qed

text \<open>Failing at step \<open>i\<close> after the steps before it have completed.\<close>

lemma saga_fail_spec:
  assumes shape: "saga_shape def inst" and i: "i < length (sg_steps def)" and m: "handlers_modelled e"
  shows "\<exists>inst' s'. saga_fail e def [0..<i] i message inst s = (Inr inst', s') \<and>
     sg_calls s' = sg_calls s @ comp_calls e (rev (take i (sg_steps def))) \<and>
     map_get (sg_instances s') (si_id inst) = Some inst' \<and> si_id inst' = si_id inst \<and>
     si_status inst' = SagaCompensated \<and> saga_shape def inst' \<and>
     ss_status (si_steps inst' ! i) = StepFailed \<and> ss_error (si_steps inst' ! i) = Some message \<and>
     comp_steps e def {..<i}
       (upd_step i (\<lambda>st. st\<lparr>ss_status := StepFailed, ss_error := Some message\<rparr>) inst) inst'"
proof -
  let ?f = "upd_step i (\<lambda>st. st\<lparr>ss_status := StepFailed, ss_error := Some message\<rparr>) inst"
  let ?inst = "?f\<lparr>si_status := SagaFailed\<rparr>"
  have sh: "saga_shape def ?inst" using shape by (simp add: saga_shape_upd)
  have order: "toCompensateOrder [0..<i] = rev [0..<i]" by (simp add: toCompensateOrder_def)
  have take: "map (nth (sg_steps def)) (rev [0..<i]) = rev (take i (sg_steps def))"
  proof -
    have "map (nth (sg_steps def)) [0..<i] = take i (sg_steps def)"
      by (rule nth_equalityI) (use i in auto)
    then show ?thesis by (simp only: rev_map [symmetric])
  qed
  obtain inst1 s1 where all: "compensate_all e def (rev [0..<i]) ?inst s = (Inr inst1, s1)"
    and c: "sg_calls s1 = sg_calls s @ comp_calls e (map (nth (sg_steps def)) (rev [0..<i]))"
    and r: "saga_shape def inst1" "si_id inst1 = si_id ?inst" "comp_steps e def (set (rev [0..<i])) ?inst inst1"
    using compensate_all_spec [OF sh _ m, of "rev [0..<i]" s] i by auto
  have len: "i < length (si_steps inst)" using saga_shape_length [OF shape] i by simp
  have "si_steps inst1 ! i = si_steps ?f ! i"
    using r(3) i unfolding comp_steps_def by auto
  then have st: "ss_status (si_steps inst1 ! i) = StepFailed" "ss_error (si_steps inst1 ! i) = Some message"
    using len by (simp_all add: upd_step_def)
  have "set (rev [0..<i]) = {..<i}" by auto
  then have cs: "comp_steps e def {..<i} ?f inst1" using r(3) by (simp only: comp_steps_fields)
  have "si_id ?inst = si_id inst" by (simp add: upd_step_def)
  then show ?thesis
    using all c r(1,2) cs st
    by (simp add: saga_fail_def compensate_def order bind_a_def saga_persist_def Let_def writes_def take)
qed

subsection \<open>How a saga ends\<close>

text \<open>The steps whose handler was called when the saga failed at step \<open>k\<close>.\<close>

definition called_steps :: "env \<Rightarrow> saga_def \<Rightarrow> nat \<Rightarrow> saga_step_def list" where
  "called_steps e def k =
     take (if impls e (sd_forward (sg_steps def ! k)) = None then k else Suc k) (sg_steps def)"

definition saga_done :: "saga_def \<Rightarrow> saga_instance \<Rightarrow> bool" where
  "saga_done def inst \<longleftrightarrow> si_status inst = SagaCompleted \<and>
     (\<forall>st \<in> set (si_steps inst). ss_status st = StepCompleted)"

definition saga_undone :: "env \<Rightarrow> saga_def \<Rightarrow> nat \<Rightarrow> saga_instance \<Rightarrow> bool" where
  "saga_undone e def k inst \<longleftrightarrow> si_status inst = SagaCompensated \<and>
     (\<forall>j < length (sg_steps def).
        ss_status (si_steps inst ! j) \<in>
          (if j = k then {StepFailed} else if k < j then {StepPending}
           else if comp_name e (sg_steps def ! j) = None then {StepCompleted}
           else {StepCompensating, StepCompensated}))"

text \<open>The loop invariant: the steps before \<open>i\<close> have completed, the others have not started.\<close>

definition forward_inv :: "saga_def \<Rightarrow> nat \<Rightarrow> saga_instance \<Rightarrow> bool" where
  "forward_inv def i inst \<longleftrightarrow> saga_shape def inst \<and> i \<le> length (sg_steps def) \<and>
     (\<forall>j < length (sg_steps def).
        ss_status (si_steps inst ! j) = (if j < i then StepCompleted else StepPending))"

lemma forward_inv_fail:
  assumes inv: "forward_inv def i inst" and i: "i < length (sg_steps def)"
    and same: "\<And>j. j \<noteq> i \<Longrightarrow> si_steps inst1 ! j = si_steps inst ! j"
    and shape: "saga_shape def inst1" and m: "handlers_modelled e"
  shows "\<exists>inst' s'. saga_fail e def [0..<i] i message inst1 s = (Inr inst', s') \<and>
     sg_calls s' = sg_calls s @ comp_calls e (rev (take i (sg_steps def))) \<and>
     map_get (sg_instances s') (si_id inst1) = Some inst' \<and> si_id inst' = si_id inst1 \<and>
     saga_shape def inst' \<and> saga_undone e def i inst'"
proof -
  let ?f = "upd_step i (\<lambda>st. st\<lparr>ss_status := StepFailed, ss_error := Some message\<rparr>) inst1"
  obtain inst' s' where r: "saga_fail e def [0..<i] i message inst1 s = (Inr inst', s')"
    and o: "sg_calls s' = sg_calls s @ comp_calls e (rev (take i (sg_steps def)))"
      "map_get (sg_instances s') (si_id inst1) = Some inst'" "si_id inst' = si_id inst1"
      "saga_shape def inst'"
    and st: "si_status inst' = SagaCompensated" "ss_status (si_steps inst' ! i) = StepFailed"
    and cs: "comp_steps e def {..<i} ?f inst'"
    using saga_fail_spec [OF shape i m] by blast
  have "ss_status (si_steps inst' ! j) \<in>
          (if j = i then {StepFailed} else if i < j then {StepPending}
           else if comp_name e (sg_steps def ! j) = None then {StepCompleted}
           else {StepCompensating, StepCompensated})" if j: "j < length (sg_steps def)" for j
  proof (cases "j = i")
    case True
    then show ?thesis using st by simp
  next
    case False
    then have "si_steps ?f ! j = si_steps inst ! j" using same by (simp add: upd_step_def)
    moreover have "ss_status (si_steps inst ! j) = (if j < i then StepCompleted else StepPending)"
      using inv j by (simp add: forward_inv_def)
    ultimately show ?thesis
      using cs [unfolded comp_steps_def, rule_format, OF j] False by (auto split: if_splits)
  qed
  then show ?thesis using r o st(1) by (auto simp: saga_undone_def)
qed

lemma saga_attempt_total:
  assumes "handlers_modelled e" and "impls e name = Some h"
  shows "\<exists>r s'. saga_attempt name h c t s = (Inr r, s') \<and>
     sg_calls s' = sg_calls s @ [(name, hc_taskId c)]"
proof -
  obtain r s1 where call: "saga_call name h c t s = (r, s1)" by (cases "saga_call name h c t s")
  obtain n where n: "r = fst (h c t n)" using saga_call_result [of name h c t s] call by auto
  have f: "sg_calls s1 = sg_calls s @ [(name, hc_taskId c)]"
    using saga_call_fields(1) [of name h c t s] call by simp
  show ?thesis
  proof (cases r)
    case (Inl er)
    then have "\<not> is_unmodelled er" using assms n unfolding handlers_modelled_def by metis
    then show ?thesis using Inl call f by (simp add: saga_attempt_def catch_a_def bind_a_def)
  next
    case (Inr res)
    show ?thesis
    proof (cases "hr_success res")
      case True
      then show ?thesis using Inr call f by (simp add: saga_attempt_def catch_a_def bind_a_def)
    next
      case False
      define v where "v = (case map_of (hr_output res) ''error'' of Some v \<Rightarrow> v | None \<Rightarrow> VUndef)"
      have g: "obj_get (hr_output res) ''error'' = Inr v"
        by (simp add: obj_get_def v_def object_prototype_names_def split: option.splits)
      have "\<not> is_unmodelled er" if "to_string (obj_or v (VStr ''step failed'')) = Inl er" for er
      proof (cases "map_of (hr_output res) ''error''")
        case None
        then show ?thesis using that by (simp add: v_def obj_or_def nullish_def)
      next
        case (Some w)
        then show ?thesis
          using that assms n Inr False unfolding handlers_modelled_def v_def by (metis option.simps(5))
      qed
      then show ?thesis
        using Inr False call f g
        by (cases "to_string (obj_or v (VStr ''step failed''))")
          (simp_all add: saga_attempt_def catch_a_def bind_a_def lift_r_def)
    qed
  qed
qed

lemma forward_inv_step:
  assumes "forward_inv def i inst" and "i < length (sg_steps def)"
    and "\<And>st. ss_stepId (f st) = ss_stepId st" and "\<And>st. ss_status (f st) = StepCompleted"
  shows "forward_inv def (Suc i) (upd_step i f inst)"
  using assms saga_shape_length [of def inst] saga_shape_upd [of def inst f i]
  by (auto simp: forward_inv_def upd_step_def nth_list_update)

lemma upd_step_twice:
  "upd_step i f (upd_step i g inst) = upd_step i (f \<circ> g) inst"
  by (cases "i < length (si_steps inst)") (simp_all add: upd_step_def list_update_beyond)

text \<open>
  How a run of the forward loop from step \<open>i\<close> on can end, and the calls it adds: all steps
  done, or a failing step \<open>k\<close> and the compensations of those before it.
\<close>

definition saga_outcome :: "env \<Rightarrow> saga_def \<Rightarrow> nat \<Rightarrow> saga_instance \<Rightarrow> (string \<times> string) list \<Rightarrow> bool" where
  "saga_outcome e def i inst calls \<longleftrightarrow>
     saga_done def inst \<and> calls = forward_calls (drop i (sg_steps def)) \<or>
     (\<exists>k \<ge> i. k < length (sg_steps def) \<and> saga_undone e def k inst \<and>
        calls = forward_calls (drop i (called_steps e def k)) @ comp_calls e (rev (take k (sg_steps def))))"

lemma saga_outcome_Cons:
  assumes "saga_outcome e def (Suc i) inst calls" and "i < length (sg_steps def)"
  shows "saga_outcome e def i inst (forward_calls [sg_steps def ! i] @ calls)"
proof -
  have fc: "forward_calls (sd # xs) = forward_calls [sd] @ forward_calls xs" for sd xs
    by (simp add: forward_calls_def)
  have d: "drop i (sg_steps def) = sg_steps def ! i # drop (Suc i) (sg_steps def)"
    using assms(2) by (simp add: Cons_nth_drop_Suc)
  have dk: "drop i (called_steps e def k) = sg_steps def ! i # drop (Suc i) (called_steps e def k)"
    if "Suc i \<le> k" "k < length (sg_steps def)" for k
  proof -
    have "i < length (called_steps e def k)" "called_steps e def k ! i = sg_steps def ! i"
      using that assms(2) by (simp_all add: called_steps_def)
    then show ?thesis using Cons_nth_drop_Suc by metis
  qed
  from assms(1) show ?thesis unfolding saga_outcome_def
  proof (elim disjE exE conjE)
    fix k assume k: "Suc i \<le> k" "k < length (sg_steps def)" and "saga_undone e def k inst"
      and "calls = forward_calls (drop (Suc i) (called_steps e def k)) @ comp_calls e (rev (take k (sg_steps def)))"
    then show "saga_done def inst \<and> forward_calls [sg_steps def ! i] @ calls = forward_calls (drop i (sg_steps def)) \<or>
        (\<exists>k \<ge> i. k < length (sg_steps def) \<and> saga_undone e def k inst \<and>
           forward_calls [sg_steps def ! i] @ calls =
             forward_calls (drop i (called_steps e def k)) @ comp_calls e (rev (take k (sg_steps def))))"
      using fc [of "sg_steps def ! i" "drop (Suc i) (called_steps e def k)"]
      by (intro disjI2 exI [of _ k]) (simp add: dk [OF k])
  qed (simp add: d fc [of _ "drop (Suc i) (sg_steps def)"])
qed

lemma saga_forward_end:
  assumes "forward_inv def (length (sg_steps def)) inst"
  shows "saga_done def (inst\<lparr>si_status := SagaCompleted, si_updatedAt := now\<rparr>)"
proof -
  have "\<forall>st \<in> set (si_steps inst). ss_status st = StepCompleted"
    using assms saga_shape_length [of def inst] by (auto simp: forward_inv_def in_set_conv_nth)
  then show ?thesis by (simp add: saga_done_def)
qed

text \<open>A step that is marked as running and then fails, after the calls \<open>made\<close>.\<close>

lemma saga_step_fails:
  assumes inv: "forward_inv def i inst" and i: "i < length (sg_steps def)" and m: "handlers_modelled e"
    and g: "\<And>st. ss_stepId (g st) = ss_stepId st"
    and s1: "sg_calls s1 = sg_calls s @ made" and made: "made = forward_calls (drop i (called_steps e def i))"
  shows "\<exists>inst' s' calls. saga_fail e def [0..<i] i message (upd_step i g inst) s1 = (Inr inst', s') \<and>
     map_get (sg_instances s') (si_id inst) = Some inst' \<and> si_id inst' = si_id inst \<and> saga_shape def inst' \<and>
     sg_calls s' = sg_calls s @ calls \<and> saga_outcome e def i inst' calls"
proof -
  let ?inst1 = "upd_step i g inst"
  have "saga_shape def ?inst1" using inv g by (simp add: forward_inv_def saga_shape_upd)
  moreover have "si_steps ?inst1 ! j = si_steps inst ! j" if "j \<noteq> i" for j
    using that by (simp add: upd_step_def)
  ultimately obtain inst' s' where "saga_fail e def [0..<i] i message ?inst1 s1 = (Inr inst', s')"
      and c: "sg_calls s' = sg_calls s1 @ comp_calls e (rev (take i (sg_steps def)))"
      and "map_get (sg_instances s') (si_id ?inst1) = Some inst'" "si_id inst' = si_id ?inst1"
        "saga_shape def inst'" and u: "saga_undone e def i inst'"
    using forward_inv_fail [OF inv i _ _ m, of ?inst1] by blast
  moreover have "saga_outcome e def i inst' (made @ comp_calls e (rev (take i (sg_steps def))))"
    using u i made by (auto simp: saga_outcome_def)
  moreover have "si_id ?inst1 = si_id inst" by (simp add: upd_step_def)
  ultimately show ?thesis using s1 c by auto
qed

lemma saga_forward_spec:
  assumes "forward_inv def i inst" and "sds = drop i (sg_steps def)" and "handlers_modelled e"
  shows "\<exists>inst' s' calls. saga_forward e def input i sds inst [0..<i] prior s = (Inr inst', s') \<and>
     map_get (sg_instances s') (si_id inst) = Some inst' \<and> si_id inst' = si_id inst \<and>
     saga_shape def inst' \<and> sg_calls s' = sg_calls s @ calls \<and> saga_outcome e def i inst' calls"
  using assms(1,2)
proof (induction sds arbitrary: i inst prior s)
  case Nil
  then have i: "i = length (sg_steps def)" by (simp add: forward_inv_def)
  have "saga_outcome e def i (inst\<lparr>si_status := SagaCompleted, si_updatedAt := clk e (sg_ticks s)\<rparr>) []"
    using saga_forward_end Nil.prems(1) i by (simp add: saga_outcome_def forward_calls_def)
  then show ?case using Nil.prems(1)
    by (simp add: saga_persist_def bind_a_def Let_def writes_def forward_inv_def saga_shape_def)
next
  case (Cons sd sds)
  have i: "i < length (sg_steps def)" using Cons.prems(2) by (metis drop_all not_le_imp_less list.distinct(1))
  have sd: "sg_steps def ! i = sd" "sds = drop (Suc i) (sg_steps def)"
    using Cons.prems(2) i by (simp_all add: Cons_nth_drop_Suc [symmetric])
  have len: "i < length (si_steps inst)"
    using Cons.prems(1) saga_shape_length i unfolding forward_inv_def by metis
  let ?s1 = "s\<lparr>sg_ticks := Suc (sg_ticks s)\<rparr>"
  let ?g = "\<lambda>st. st\<lparr>ss_status := StepRunning, ss_attempt := ss_attempt st + 1,
      ss_startedAt := Some (clk e (sg_ticks s))\<rparr>"
  let ?inst1 = "upd_step i ?g inst"
  note failing = saga_step_fails [OF Cons.prems(1) i assms(3), of ?g]
  show ?case
  proof (cases "impls e (sd_forward sd)")
    case None
    have "[] = forward_calls (drop i (called_steps e def i))"
      using None sd by (simp add: called_steps_def forward_calls_def)
    with failing [of ?s1 s "[]" "''no handler for '' @ sd_forward sd"]
    show ?thesis using None len by (auto simp: bind_a_def Let_def)
  next
    case (Some h)
    let ?ctx = "\<lparr>hc_runId = si_runId ?inst1, hc_taskId = sd_id sd, hc_input = input, hc_priorOutputs = prior\<rparr>"
    let ?task = "saga_task sd (sd_name sd) (sd_forward sd)"
    obtain r s2 where att: "saga_attempt (sd_forward sd) h ?ctx ?task ?s1 = (Inr r, s2)"
      and c2: "sg_calls s2 = sg_calls s @ forward_calls [sd]"
      using saga_attempt_total [OF assms(3) Some, of ?ctx ?task ?s1] by (auto simp: forward_calls_def)
    show ?thesis
    proof (cases r)
      case (Inl message)
      have "forward_calls [sd] = forward_calls (drop i (called_steps e def i))"
        using Some sd i by (simp add: called_steps_def take_Suc_conv_app_nth)
      with failing [of s2 s "forward_calls [sd]" message] c2
      show ?thesis using Some Inl att len by (auto simp: bind_a_def Let_def)
    next
      case (Inr out)
      let ?f = "\<lambda>st. st\<lparr>ss_status := StepCompleted, ss_output := Some out,
          ss_finishedAt := Some (clk e (sg_ticks s2))\<rparr>"
      let ?inst2 = "upd_step i ?f ?inst1" and ?s3 = "s2\<lparr>sg_ticks := Suc (sg_ticks s2)\<rparr>"
      have inv2: "forward_inv def (Suc i) ?inst2"
        unfolding upd_step_twice using Cons.prems(1) i by (intro forward_inv_step) simp_all
      have stk: "stack_push (ss_status (si_steps ?inst2 ! i)) i [0..<i] = [0..<Suc i]"
        using len by (simp add: upd_step_def stack_push_def)
      have run: "saga_forward e def input i (sd # sds) inst [0..<i] prior s =
          saga_forward e def input (Suc i) sds ?inst2 [0..<Suc i] (map_set (sd_id sd) out prior) ?s3"
        using Some Inr att len stk by (simp add: bind_a_def Let_def del: upt_Suc)
      have id2: "si_id ?inst2 = si_id inst" by (simp add: upd_step_def)
      obtain inst' s' calls where ih: "saga_forward e def input (Suc i) sds ?inst2 [0..<Suc i]
            (map_set (sd_id sd) out prior) ?s3 = (Inr inst', s')"
          "map_get (sg_instances s') (si_id ?inst2) = Some inst'" "si_id inst' = si_id ?inst2"
          "saga_shape def inst'" "sg_calls s' = sg_calls ?s3 @ calls"
        and c: "saga_outcome e def (Suc i) inst' calls"
        using Cons.IH [OF inv2 sd(2), of "map_set (sd_id sd) out prior" ?s3] by blast
      have "sg_calls s' = sg_calls s @ forward_calls [sd] @ calls" using ih(5) c2 by simp
      with saga_outcome_Cons [OF c i] ih(1-4) show ?thesis unfolding run sd(1) id2 by blast
    qed
  qed
qed


text \<open>A saga of three steps whose last forward handler reports a failure.\<close>

definition sample_saga :: saga_def where
  "sample_saga =
     \<lparr>sg_id = ''s'', sg_name = ''s'',
      sg_steps =
        [\<lparr>sd_id = ''a'', sd_name = ''a'', sd_forward = ''ok'', sd_compensate = Some ''undo'', sd_timeoutMs = 1\<rparr>,
         \<lparr>sd_id = ''b'', sd_name = ''b'', sd_forward = ''ok'', sd_compensate = Some ''undo'', sd_timeoutMs = 1\<rparr>,
         \<lparr>sd_id = ''c'', sd_name = ''c'', sd_forward = ''no'', sd_compensate = None, sd_timeoutMs = 1\<rparr>]\<rparr>"

definition sample_saga_env :: env where
  "sample_saga_env =
     \<lparr>clk = (\<lambda>n. ''t''), date_now = (\<lambda>n. 0), rand = (\<lambda>n. Fin 0), uuid = (\<lambda>n. ''u''),
      impls = (\<lambda>h. if h \<in> {''ok'', ''undo''}
        then Some (\<lambda>c t. ret \<lparr>hr_success = True, hr_output = [], hr_metrics = None\<rparr>)
        else if h = ''no'' then Some (\<lambda>c t. ret \<lparr>hr_success = False, hr_output = [], hr_metrics = None\<rparr>)
        else None)\<rparr>"

definition sample_saga_state :: saga_state where
  "sample_saga_state = registerDefinition sample_saga
     \<lparr>sg_definitions = [], sg_instances = [], sg_ticks = 0, sg_calls = []\<rparr>"


end
