(* ===== verification/Sql.thy ===== *)
theory Sql
  imports Stores
begin

section \<open>The SQL layer (storage/sql/*.ts)\<close>

text \<open>
  The query builder and the two repositories that build queries and then delegate to an inner
  store. The builder is compared with a reference that composes the text of a query from pieces,
  without threading the parameters through.
\<close>

subsection \<open>The query builder\<close>

datatype sql_op = SqlEq | SqlNe | SqlGt | SqlLt | SqlGe | SqlLe | SqlIn | SqlLike

text \<open>The text an operator prints as; \<^verbatim>\<open>in\<close> never gets there.\<close>

fun sql_op_str :: "sql_op \<Rightarrow> string" where
  "sql_op_str SqlEq = ''=''"
| "sql_op_str SqlNe = ''!=''"
| "sql_op_str SqlGt = ''>''"
| "sql_op_str SqlLt = ''<''"
| "sql_op_str SqlGe = ''>=''"
| "sql_op_str SqlLe = ''<=''"
| "sql_op_str SqlIn = ''in''"
| "sql_op_str SqlLike = ''LIKE''"

record sql_condition =
  sc_column :: string
  sc_op :: sql_op
  sc_value :: jsval

record sql_query =
  sq_table :: string
  sq_columns :: "string list"
  sq_conditions :: "sql_condition list"
  sq_orderBy :: "(string \<times> bool) option"
  sq_limit :: "jsnum option"
  sq_offset :: "jsnum option"

definition sql_new :: "string \<Rightarrow> sql_query" where
  "sql_new table =
     \<lparr>sq_table = table, sq_columns = [''*''], sq_conditions = [], sq_orderBy = None,
      sq_limit = None, sq_offset = None\<rparr>"

definition sql_select :: "string list \<Rightarrow> sql_query \<Rightarrow> sql_query" where
  "sql_select columns q = q\<lparr>sq_columns := (if columns \<noteq> [] then columns else [''*''])\<rparr>"

definition sql_where :: "string \<Rightarrow> sql_op \<Rightarrow> jsval \<Rightarrow> sql_query \<Rightarrow> sql_query" where
  "sql_where column oper v q =
     q\<lparr>sq_conditions := sq_conditions q @ [\<lparr>sc_column = column, sc_op = oper, sc_value = v\<rparr>]\<rparr>"

definition sql_orderBy :: "string \<Rightarrow> bool \<Rightarrow> sql_query \<Rightarrow> sql_query" where
  "sql_orderBy column desc q = q\<lparr>sq_orderBy := Some (column, desc)\<rparr>"

definition sql_limit :: "jsnum \<Rightarrow> sql_query \<Rightarrow> sql_query" where
  "sql_limit n q = q\<lparr>sq_limit := Some n\<rparr>"

definition sql_offset :: "jsnum \<Rightarrow> sql_query \<Rightarrow> sql_query" where
  "sql_offset n q = q\<lparr>sq_offset := Some n\<rparr>"

text \<open>\<^verbatim>\<open>$n\<close>, the place of the parameter pushed last.\<close>

definition placeholder :: "nat \<Rightarrow> string" where
  "placeholder n = CHR ''$'' # show_nat n"

fun push_all :: "jsval list \<Rightarrow> jsval list \<Rightarrow> string list \<times> jsval list" where
  "push_all [] params = ([], params)"
| "push_all (v # vs) params =
     (let params' = params @ [v]; rest = push_all vs params'
      in (placeholder (length params') # fst rest, snd rest))"

text \<open>One turn of the \<^verbatim>\<open>map\<close> over the conditions; a value of \<^verbatim>\<open>in\<close> that is no array throws.\<close>

definition sql_condition_part :: "sql_condition \<Rightarrow> jsval list \<Rightarrow> (string \<times> jsval list) res" where
  "sql_condition_part c params =
     (if sc_op c = SqlIn
      then (case sc_value c of
              VArr a vs \<Rightarrow>
                (case push_all vs params of (holes, params') \<Rightarrow>
                  Inr (sc_column c @ '' IN ('' @ join '', '' holes @ '')'', params'))
            | _ \<Rightarrow> Inl (JsTypeError ''arr.map is not a function''))
      else let params' = params @ [sc_value c]
           in Inr (sc_column c @ '' '' @ sql_op_str (sc_op c) @ '' '' @ placeholder (length params'), params'))"

fun sql_condition_parts :: "sql_condition list \<Rightarrow> jsval list \<Rightarrow> (string list \<times> jsval list) res" where
  "sql_condition_parts [] params = Inr ([], params)"
| "sql_condition_parts (c # cs) params =
     bind_r (sql_condition_part c params) (\<lambda>(part, params').
     bind_r (sql_condition_parts cs params') (\<lambda>(parts, params'').
       Inr (part # parts, params'')))"

definition sql_build :: "sql_query \<Rightarrow> (string \<times> jsval list) res" where
  "sql_build q =
     bind_r (if sq_conditions q \<noteq> []
             then bind_r (sql_condition_parts (sq_conditions q) []) (\<lambda>(parts, params).
                    Inr ('' WHERE '' @ join '' AND '' parts, params))
             else Inr ([], [])) (\<lambda>(conds, params).
       let sql1 = ''SELECT '' @ join '', '' (sq_columns q) @ '' FROM '' @ sq_table q @ conds;
           sql2 = sql1 @ (case sq_orderBy q of
                    Some (col, desc) \<Rightarrow> '' ORDER BY '' @ col @ '' '' @ (if desc then ''DESC'' else ''ASC'')
                  | None \<Rightarrow> []);
           (sql3, params3) = (case sq_limit q of
                    Some n \<Rightarrow> (let p = params @ [VNum n] in (sql2 @ '' LIMIT '' @ placeholder (length p), p))
                  | None \<Rightarrow> (sql2, params));
           (sql4, params4) = (case sq_offset q of
                    Some n \<Rightarrow> (let p = params3 @ [VNum n] in (sql3 @ '' OFFSET '' @ placeholder (length p), p))
                  | None \<Rightarrow> (sql3, params3))
       in Inr (sql4, params4))"

subsection \<open>The repositories\<close>

text \<open>Every operation delegates; the query it builds first is thrown away.\<close>

definition sql_job_save :: "job_definition \<Rightarrow> job_store \<Rightarrow> unit res \<times> job_store" where
  "sql_job_save definition m =
     (case sql_build (sql_where ''id'' SqlEq (VStr (jd_id definition)) (sql_new ''job_definitions'')) of
        Inl e \<Rightarrow> (Inl e, m)
      | Inr q \<Rightarrow> (Inr (), job_store_save definition m))"

definition sql_job_get :: "job_store \<Rightarrow> job_id \<Rightarrow> job_definition option" where
  "sql_job_get m i = job_store_get m i"

definition sql_job_list :: "job_store \<Rightarrow> job_definition list res" where
  "sql_job_list m =
     bind_r (sql_build (sql_limit (Fin 500) (sql_orderBy ''updated_at'' True (sql_new ''job_definitions''))))
       (\<lambda>q. Inr (job_store_list m))"

definition sql_job_delete :: "job_id \<Rightarrow> job_store \<Rightarrow> bool \<times> job_store" where
  "sql_job_delete i m = job_store_delete i m"

definition sql_run_save :: "job_run \<Rightarrow> run_store \<Rightarrow> run_store" where
  "sql_run_save run m = run_store_save run m"

definition sql_run_get :: "run_store \<Rightarrow> run_id \<Rightarrow> job_run option" where
  "sql_run_get m i = run_store_get m i"

definition sql_run_listByJob :: "run_store \<Rightarrow> job_id \<Rightarrow> job_run list res" where
  "sql_run_listByJob m jobId =
     bind_r (sql_build (sql_orderBy ''started_at'' True
         (sql_where ''job_id'' SqlEq (VStr jobId) (sql_new ''job_runs''))))
       (\<lambda>q. Inr (run_store_listByJob m jobId))"

definition sql_run_listActive :: "run_store \<Rightarrow> job_run list res" where
  "sql_run_listActive m =
     bind_r (sql_build (sql_where ''status'' SqlIn
         (VArr (Fresh 0) [VStr ''pending'', VStr ''running'', VStr ''waiting'']) (sql_new ''job_runs'')))
       (\<lambda>q. Inr (run_store_listActive m))"

subsection \<open>The reference: a query is a text with holes\<close>

type_synonym sql_template = "(string + jsval) list"

definition holes :: "sql_template \<Rightarrow> jsval list" where
  "holes t = List.map_filter (\<lambda>p. case p of Inl s \<Rightarrow> None | Inr v \<Rightarrow> Some v) t"

text \<open>The text, its holes numbered from \<open>n + 1\<close>.\<close>

fun render :: "nat \<Rightarrow> sql_template \<Rightarrow> string" where
  "render n [] = []"
| "render n (Inl s # t) = s @ render n t"
| "render n (Inr v # t) = placeholder (Suc n) @ render (Suc n) t"

fun separated :: "string \<Rightarrow> sql_template list \<Rightarrow> sql_template" where
  "separated sep [] = []"
| "separated sep [t] = t"
| "separated sep (t # u # us) = t @ [Inl sep] @ separated sep (u # us)"

definition condition_template :: "sql_condition \<Rightarrow> sql_template" where
  "condition_template c =
     (if sc_op c = SqlIn
      then [Inl (sc_column c @ '' IN ('')] @
           separated '', '' (case sc_value c of VArr a vs \<Rightarrow> map (\<lambda>v. [Inr v]) vs | _ \<Rightarrow> []) @ [Inl '')'']
      else [Inl (sc_column c @ '' '' @ sql_op_str (sc_op c) @ '' ''), Inr (sc_value c)])"

definition query_template :: "sql_query \<Rightarrow> sql_template" where
  "query_template q =
     [Inl (''SELECT '' @ join '', '' (sq_columns q) @ '' FROM '' @ sq_table q)] @
     (if sq_conditions q = [] then []
      else Inl '' WHERE '' # separated '' AND '' (map condition_template (sq_conditions q))) @
     (case sq_orderBy q of
        None \<Rightarrow> []
      | Some (col, desc) \<Rightarrow> [Inl ('' ORDER BY '' @ col @ (if desc then '' DESC'' else '' ASC''))]) @
     (case sq_limit q of None \<Rightarrow> [] | Some n \<Rightarrow> [Inl '' LIMIT '', Inr (VNum n)]) @
     (case sq_offset q of None \<Rightarrow> [] | Some n \<Rightarrow> [Inl '' OFFSET '', Inr (VNum n)])"

text \<open>Every \<^verbatim>\<open>in\<close> condition has an array.\<close>

definition arrays_given :: "sql_query \<Rightarrow> bool" where
  "arrays_given q \<longleftrightarrow>
     list_all (\<lambda>c. sc_op c = SqlIn \<longrightarrow> (case sc_value c of VArr a vs \<Rightarrow> True | _ \<Rightarrow> False)) (sq_conditions q)"

lemma holes_simps [simp]:
  "holes [] = []" "holes (Inl s # t) = holes t" "holes (Inr v # t) = v # holes t"
  by (simp_all add: holes_def map_filter_simps)

lemma holes_append [simp]: "holes (t @ u) = holes t @ holes u"
  by (simp add: holes_def map_filter_def)

lemma render_append: "render n (t @ u) = render n t @ render (n + length (holes t)) u"
  by (induction n t rule: render.induct) (simp_all)

text \<open>The pieces of a list, each numbered after the ones before it.\<close>

fun render_list :: "nat \<Rightarrow> sql_template list \<Rightarrow> string list" where
  "render_list n [] = []"
| "render_list n (t # ts) = render n t # render_list (n + length (holes t)) ts"

lemma holes_separated [simp]: "holes (separated sep ts) = concat (map holes ts)"
  by (induction sep ts rule: separated.induct) simp_all

lemma render_separated: "render n (separated sep ts) = join sep (render_list n ts)"
  by (induction sep ts arbitrary: n rule: separated.induct) (simp_all add: render_append)

lemma push_all_spec:
  "push_all vs params = (render_list (length params) (map (\<lambda>v. [Inr v]) vs), params @ vs)"
  by (induction vs arbitrary: params) (simp_all add: Let_def)

lemma concat_single: "concat (map (\<lambda>v. [v]) vs) = vs"
  by (induction vs) simp_all

lemma condition_part_spec:
  assumes "sc_op c = SqlIn \<longrightarrow> (case sc_value c of VArr a vs \<Rightarrow> True | _ \<Rightarrow> False)"
  shows "sql_condition_part c params =
     Inr (render (length params) (condition_template c), params @ holes (condition_template c))"
proof (cases "sc_op c = SqlIn")
  case True
  then obtain a vs where "sc_value c = VArr a vs" using assms by (auto split: jsval.splits)
  then show ?thesis
    using True by (simp add: sql_condition_part_def condition_template_def push_all_spec render_append
        render_separated comp_def concat_single)
next
  case False
  then show ?thesis by (simp add: sql_condition_part_def condition_template_def)
qed

lemma condition_parts_spec:
  assumes "list_all (\<lambda>c. sc_op c = SqlIn \<longrightarrow> (case sc_value c of VArr a vs \<Rightarrow> True | _ \<Rightarrow> False)) cs"
  shows "sql_condition_parts cs params =
     Inr (render_list (length params) (map condition_template cs),
          params @ concat (map (\<lambda>c. holes (condition_template c)) cs))"
  using assms by (induction cs arbitrary: params) (simp_all add: condition_part_spec)

lemma sql_build_spec:
  assumes "arrays_given q"
  shows "sql_build q = Inr (render 0 (query_template q), holes (query_template q))"
  using condition_parts_spec [OF assms [unfolded arrays_given_def], of "[]"]
  by (simp add: sql_build_def query_template_def render_append render_separated Let_def comp_def
      split: option.splits prod.splits)

text \<open>
  C18. The built query is its template: the text with \<^verbatim>\<open>$1\<close>, \<^verbatim>\<open>$2\<close>, ... at the places of
  the values, and the values in that order as the parameters. So no value ever becomes part of the
  text, and every placeholder has its parameter.
\<close>

theorem sql_build_is_template:
  assumes "arrays_given q"
  shows "sql_build q = Inr (render 0 (query_template q), holes (query_template q))"
  using assms by (rule sql_build_spec)

lemma sample_digits:
  "char_of (49 :: nat) = CHR ''1''" "char_of (50 :: nat) = CHR ''2''"
  "char_of (51 :: nat) = CHR ''3''" "char_of (52 :: nat) = CHR ''4''"
  by code_simp+

lemma sql_build_is_template_witness:
  "sql_build (sql_limit (Fin 5) (sql_where ''status'' SqlIn (VArr (Fresh 0) [VStr ''a'', VStr ''b''])
       (sql_where ''id'' SqlEq (VStr ''x; DROP'') (sql_new ''t'')))) =
     Inr (''SELECT * FROM t WHERE id = $1 AND status IN ($2, $3) LIMIT $4'',
       [VStr ''x; DROP'', VStr ''a'', VStr ''b'', VNum (Fin 5)])"
  using sql_build_is_template [of "sql_limit (Fin 5) (sql_where ''status'' SqlIn (VArr (Fresh 0) [VStr ''a'', VStr ''b''])
       (sql_where ''id'' SqlEq (VStr ''x; DROP'') (sql_new ''t'')))"]
  by (simp add: arrays_given_def sql_limit_def sql_where_def sql_new_def query_template_def
      condition_template_def placeholder_def show_nat.simps digit_char_def sample_digits)

text \<open>The repositories behave as the stores they wrap: the job repository has the store's interface.\<close>

lemma sql_repository_eqs:
  "sql_job_save definition m = (Inr (), job_store_save definition m)"
  "sql_job_list m = Inr (job_store_list m)"
  "sql_run_listByJob r jobId = Inr (run_store_listByJob r jobId)"
  "sql_run_listActive r = Inr (run_store_listActive r)"
  by (simp_all add: sql_job_save_def sql_job_list_def sql_run_listByJob_def sql_run_listActive_def
      sql_build_spec arrays_given_def sql_where_def sql_orderBy_def sql_limit_def sql_new_def)

definition sql_job_values :: "job_store \<Rightarrow> job_definition list" where
  "sql_job_values m = (case sql_job_list m of Inr xs \<Rightarrow> xs | Inl e \<Rightarrow> [])"

interpretation sql_jobs: keyed_store jd_id "[]" "\<lambda>d m. snd (sql_job_save d m)" sql_job_get
  sql_job_values "store_ok jd_id"
  unfolding sql_job_values_def [abs_def] sql_repository_eqs sql_job_get_def [abs_def] snd_conv sum.case
  by (rule jobs.keyed_store_axioms)

interpretation sql_runs: keyed_store jr_id "[]" sql_run_save sql_run_get map_values "store_ok jr_id"
  unfolding sql_run_save_def [abs_def] sql_run_get_def [abs_def]
  by (rule runs.keyed_store_axioms)

end
