(* ===== verification/Http.thy ===== *)
theory Http
  imports Workers Stores
begin

section \<open>Calls over HTTP: circuit breaker, handler invoker, webhook delivery\<close>

text \<open>
  handlers/http/circuit-breaker.ts, handlers/http/invoker.ts, webhooks/*.ts,
  storage/memory/webhook-store.ts and the event side of services/webhook-service.ts. The network,
  the parser of reply bodies and the HMAC are parameters. The clock reads of a call are functions
  of the number of reads so far, as in the other components.
\<close>

subsection \<open>CircuitBreaker\<close>

datatype circuit_state = CClosed | COpen | CHalfOpen

record breaker =
  cb_state :: circuit_state
  cb_failures :: nat
  cb_lastFailureAt :: int

definition breaker_new :: breaker where
  "breaker_new = \<lparr>cb_state = CClosed, cb_failures = 0, cb_lastFailureAt = 0\<rparr>"

definition canExecute :: "int \<Rightarrow> int \<Rightarrow> breaker \<Rightarrow> bool \<times> breaker" where
  "canExecute cooldownMs now b =
     (if cb_state b = CClosed then (True, b)
      else if cb_state b = COpen
      then (if now - cb_lastFailureAt b \<ge> cooldownMs then (True, b\<lparr>cb_state := CHalfOpen\<rparr>) else (False, b))
      else (True, b))"

definition recordSuccess :: "breaker \<Rightarrow> breaker" where
  "recordSuccess b = b\<lparr>cb_failures := 0, cb_state := CClosed\<rparr>"

definition recordFailure :: "nat \<Rightarrow> int \<Rightarrow> breaker \<Rightarrow> breaker" where
  "recordFailure threshold now b =
     (let b' = b\<lparr>cb_failures := cb_failures b + 1, cb_lastFailureAt := now\<rparr>
      in if cb_failures b' \<ge> threshold then b'\<lparr>cb_state := COpen\<rparr> else b')"

definition getState :: "breaker \<Rightarrow> circuit_state" where
  "getState b = cb_state b"

subsection \<open>HttpHandlerInvoker\<close>

record http_request =
  hq_url :: string
  hq_method :: string
  hq_headers :: "(string \<times> string) list"
  hq_body :: "jsobj option"
  hq_timeoutMs :: int

record http_reply =
  hp_ok :: bool
  hp_status :: int

record http_result =
  hv_ok :: bool
  hv_status :: int
  hv_body :: jsval
  hv_latencyMs :: int

text \<open>
  What the invoker calls: \<open>net_fetch\<close> is the n-th \<^verbatim>\<open>fetch\<close>, \<open>net_text\<close> the reading of the
  n-th reply's body, \<open>net_json\<close> is \<^verbatim>\<open>JSON.parse\<close> and \<open>net_now\<close> the n-th \<^verbatim>\<open>Date.now()\<close>.
\<close>

record network =
  net_fetch :: "nat \<Rightarrow> http_request \<Rightarrow> http_reply res"
  net_text :: "nat \<Rightarrow> string res"
  net_json :: "string \<Rightarrow> jsval option"
  net_now :: "nat \<Rightarrow> int"

record invoker =
  iv_breakers :: "(string, breaker) jsmap"
  iv_fetches :: nat
  iv_reads :: nat

type_synonym 'a inv = "(invoker, err, 'a) act"

definition iv_now :: "network \<Rightarrow> int inv" where
  "iv_now w s = (Inr (net_now w (iv_reads s)), s\<lparr>iv_reads := Suc (iv_reads s)\<rparr>)"

definition iv_fetch :: "network \<Rightarrow> http_request \<Rightarrow> http_reply inv" where
  "iv_fetch w req s = (net_fetch w (iv_fetches s) req, s\<lparr>iv_fetches := Suc (iv_fetches s)\<rparr>)"

definition iv_text :: "network \<Rightarrow> string inv" where
  "iv_text w s = (net_text w (iv_fetches s), s)"

definition getBreaker :: "string \<Rightarrow> breaker inv" where
  "getBreaker handler s =
     (case map_get (iv_breakers s) handler of
        Some b \<Rightarrow> (Inr b, s)
      | None \<Rightarrow> (Inr breaker_new, s\<lparr>iv_breakers := map_set handler breaker_new (iv_breakers s)\<rparr>))"

definition upd_breaker :: "string \<Rightarrow> (breaker \<Rightarrow> breaker) \<Rightarrow> unit inv" where
  "upd_breaker handler f s =
     (case map_get (iv_breakers s) handler of
        Some b \<Rightarrow> (Inr (), s\<lparr>iv_breakers := map_set handler (f b) (iv_breakers s)\<rparr>)
      | None \<Rightarrow> (Inr (), s))"

text \<open>\<^verbatim>\<open>Date.now()\<close> is read only by an open breaker.\<close>

definition breaker_check :: "network \<Rightarrow> int \<Rightarrow> string \<Rightarrow> breaker \<Rightarrow> bool inv" where
  "breaker_check w cooldownMs handler b =
     bind_a (if cb_state b = COpen then iv_now w else ret 0) (\<lambda>now.
       case canExecute cooldownMs now b of (ok, b') \<Rightarrow>
         bind_a (upd_breaker handler (\<lambda>c. b')) (\<lambda>u. ret ok))"

definition error_body :: "string \<Rightarrow> jsval" where
  "error_body m = VObj (Fresh 0) [(''error'', VStr m)]"

text \<open>\<^verbatim>\<open>String(err)\<close> of an error.\<close>

definition error_text :: "err \<Rightarrow> string" where
  "error_text er =
     (if err_message er = [] then err_name er else err_name er @ '': '' @ err_message er)"

text \<open>The call itself, once the breaker has let it through.\<close>

definition invoke_call :: "network \<Rightarrow> nat \<Rightarrow> string \<Rightarrow> http_request \<Rightarrow> http_result inv" where
  "invoke_call w threshold handler req =
     bind_a (iv_now w) (\<lambda>started.
       catch_a
         (bind_a (iv_fetch w req) (\<lambda>reply.
          bind_a (iv_now w) (\<lambda>finished.
          bind_a (iv_text w) (\<lambda>text.
          bind_a (if hp_ok reply then upd_breaker handler recordSuccess
                  else bind_a (iv_now w) (\<lambda>now. upd_breaker handler (recordFailure threshold now))) (\<lambda>u.
          ret \<lparr>hv_ok = hp_ok reply, hv_status = hp_status reply,
               hv_body = (case net_json w text of Some v \<Rightarrow> v | None \<Rightarrow> VStr text),
               hv_latencyMs = finished - started\<rparr>)))))
         (\<lambda>err.
          bind_a (iv_now w) (\<lambda>now.
          bind_a (upd_breaker handler (recordFailure threshold now)) (\<lambda>u.
          bind_a (iv_now w) (\<lambda>finished.
          ret \<lparr>hv_ok = False, hv_status = 0,
               hv_body = error_body (error_text err),
               hv_latencyMs = finished - started\<rparr>)))))"

definition invoke :: "network \<Rightarrow> nat \<Rightarrow> int \<Rightarrow> string \<Rightarrow> http_request \<Rightarrow> http_result inv" where
  "invoke w threshold cooldownMs handler req =
     bind_a (getBreaker handler) (\<lambda>b.
     bind_a (breaker_check w cooldownMs handler b) (\<lambda>ok.
     if \<not> ok
     then ret \<lparr>hv_ok = False, hv_status = 503, hv_body = error_body ''circuit_open'', hv_latencyMs = 0\<rparr>
     else invoke_call w threshold handler req))"

subsection \<open>Webhook endpoints and deliveries\<close>

datatype webhook_event = WRunStarted | WRunCompleted | WRunFailed | WRunDeadLettered | WTaskFailed

record webhook_endpoint =
  we_id :: string
  we_tenantId :: string
  we_url :: string
  we_secret :: string
  we_events :: "webhook_event list"
  we_enabled :: bool
  we_createdAt :: iso_date

datatype delivery_status = DPending | DDelivered | DFailed

record webhook_delivery =
  wd_id :: string
  wd_endpointId :: string
  wd_event :: webhook_event
  wd_payload :: jsobj
  wd_status :: delivery_status
  wd_attempts :: nat
  wd_lastAttemptAt :: "iso_date option"
  wd_responseStatus :: "int option"

type_synonym webhook_store_map = "(string, webhook_endpoint) jsmap"

definition webhook_store_save :: "webhook_endpoint \<Rightarrow> webhook_store_map \<Rightarrow> webhook_store_map" where
  "webhook_store_save endpoint m = map_set (we_id endpoint) endpoint m"

definition webhook_store_get :: "webhook_store_map \<Rightarrow> string \<Rightarrow> webhook_endpoint option" where
  "webhook_store_get m i = map_get m i"

definition webhook_store_listByTenant :: "webhook_store_map \<Rightarrow> string \<Rightarrow> webhook_endpoint list" where
  "webhook_store_listByTenant m tenantId = filter (\<lambda>e. we_tenantId e = tenantId) (map_values m)"

definition webhook_store_listForEvent :: "webhook_store_map \<Rightarrow> string \<Rightarrow> webhook_event \<Rightarrow> webhook_endpoint list" where
  "webhook_store_listForEvent m tenantId event =
     filter (\<lambda>e. we_tenantId e = tenantId \<and> we_enabled e \<and> event \<in> set (we_events e)) (map_values m)"

type_synonym delivery_map = "(string, webhook_delivery) jsmap"

definition delivery_save :: "webhook_delivery \<Rightarrow> delivery_map \<Rightarrow> delivery_map" where
  "delivery_save d m = map_set (wd_id d) d m"

definition delivery_list :: "int \<Rightarrow> delivery_map \<Rightarrow> webhook_delivery list" where
  "delivery_list limit m =
     (let vs = map_values m; start = - limit
      in if start < 0 then drop (nat (int (length vs) + start)) vs else drop (nat start) vs)"

text \<open>
  A post reads the clock twice (\<^verbatim>\<open>sentAt\<close> and the timestamp), signs the body and sends
  it; anything thrown is a failure. \<open>dp_post\<close> is whether the n-th post got a success status.
\<close>

record delivery_env =
  dp_date_now :: "nat \<Rightarrow> int"
  dp_clock :: "nat \<Rightarrow> iso_date"
  dp_hmac :: "string \<Rightarrow> string \<Rightarrow> string"
  dp_stringify :: "webhook_event \<Rightarrow> jsobj \<Rightarrow> iso_date \<Rightarrow> string"
  dp_post :: "nat \<Rightarrow> string \<Rightarrow> string \<Rightarrow> string \<Rightarrow> string \<Rightarrow> bool res"

record delivery_state =
  ds_reads :: nat
  ds_posts :: "(string \<times> string \<times> string \<times> string) list"

definition signPayload :: "delivery_env \<Rightarrow> string \<Rightarrow> string \<Rightarrow> string \<Rightarrow> string" where
  "signPayload e secret body timestamp = dp_hmac e secret (timestamp @ ''.'' @ body)"

text \<open>\<^verbatim>\<open>timingSafeEqual\<close> throws on different lengths, which counts as a mismatch.\<close>

definition verifySignature :: "delivery_env \<Rightarrow> string \<Rightarrow> string \<Rightarrow> string \<Rightarrow> string \<Rightarrow> bool" where
  "verifySignature e secret body timestamp signature =
     (let expected = signPayload e secret body timestamp
      in length expected = length signature \<and> expected = signature)"

definition webhook_post ::
    "delivery_env \<Rightarrow> webhook_endpoint \<Rightarrow> webhook_event \<Rightarrow> jsobj \<Rightarrow> delivery_state \<Rightarrow> bool \<times> delivery_state" where
  "webhook_post e endpoint event payload s =
     (let body = dp_stringify e event payload (dp_clock e (ds_reads s));
          timestamp = show_int (dp_date_now e (Suc (ds_reads s)) div 1000);
          signature = signPayload e (we_secret endpoint) body timestamp;
          s' = s\<lparr>ds_reads := ds_reads s + 2,
                 ds_posts := ds_posts s @ [(we_url endpoint, timestamp, signature, body)]\<rparr>
      in case dp_post e (length (ds_posts s)) (we_url endpoint) timestamp signature body of
           Inr ok \<Rightarrow> (ok, s')
         | Inl err \<Rightarrow> (False, s'))"

fun dispatch_loop ::
    "delivery_env \<Rightarrow> webhook_endpoint \<Rightarrow> webhook_event \<Rightarrow> jsobj \<Rightarrow> nat list \<Rightarrow> webhook_delivery \<Rightarrow>
     delivery_state \<Rightarrow> (webhook_delivery \<times> bool) \<times> delivery_state" where
  "dispatch_loop e endpoint event payload [] d s = ((d\<lparr>wd_status := DFailed\<rparr>, False), s)"
| "dispatch_loop e endpoint event payload (attempt # attempts) d s =
     (let d1 = d\<lparr>wd_attempts := attempt, wd_lastAttemptAt := Some (dp_clock e (ds_reads s))\<rparr>
      in case webhook_post e endpoint event payload (s\<lparr>ds_reads := Suc (ds_reads s)\<rparr>) of
           (True, s') \<Rightarrow> ((d1\<lparr>wd_status := DDelivered, wd_responseStatus := Some 200\<rparr>, True), s')
         | (False, s') \<Rightarrow> dispatch_loop e endpoint event payload attempts d1 s')"

definition dispatch ::
    "delivery_env \<Rightarrow> nat \<Rightarrow> webhook_endpoint \<Rightarrow> webhook_event \<Rightarrow> jsobj \<Rightarrow> delivery_state \<Rightarrow>
     (webhook_delivery \<times> bool) \<times> delivery_state" where
  "dispatch e maxAtt endpoint event payload s =
     dispatch_loop e endpoint event payload [1..<Suc maxAtt]
       \<lparr>wd_id = ''whd_'' @ show_int (dp_date_now e (ds_reads s)), wd_endpointId = we_id endpoint,
        wd_event = event, wd_payload = payload, wd_status = DPending, wd_attempts = 0,
        wd_lastAttemptAt = None, wd_responseStatus = None\<rparr>
       (s\<lparr>ds_reads := Suc (ds_reads s)\<rparr>)"

text \<open>
  \<^verbatim>\<open>WebhookService.register\<close>, with the generated key, id and creation date as arguments;
  it returns the endpoint and the plain secret.
\<close>

definition webhook_register ::
    "string \<Rightarrow> string \<Rightarrow> iso_date \<Rightarrow> string \<Rightarrow> string \<Rightarrow> webhook_event list \<Rightarrow> webhook_store_map \<Rightarrow>
     (webhook_endpoint \<times> string) \<times> webhook_store_map" where
  "webhook_register raw u created tenantId url events m =
     (let endpoint =
            \<lparr>we_id = ''wh_'' @ take 10 u, we_tenantId = tenantId, we_url = url, we_secret = raw,
             we_events = events, we_enabled = True, we_createdAt = created\<rparr>
      in ((endpoint, raw), webhook_store_save endpoint m))"

text \<open>\<^verbatim>\<open>WebhookService.emit\<close>: one dispatch and one saved delivery per endpoint of the event.\<close>

fun emit_all ::
    "delivery_env \<Rightarrow> nat \<Rightarrow> webhook_event \<Rightarrow> jsobj \<Rightarrow> webhook_endpoint list \<Rightarrow>
     delivery_map \<times> delivery_state \<Rightarrow> delivery_map \<times> delivery_state" where
  "emit_all e maxAtt event payload [] st = st"
| "emit_all e maxAtt event payload (ep # eps) (m, s) =
     (case dispatch e maxAtt ep event payload s of
        ((d, ok), s') \<Rightarrow> emit_all e maxAtt event payload eps (delivery_save d m, s'))"

definition webhook_emit ::
    "delivery_env \<Rightarrow> nat \<Rightarrow> webhook_store_map \<Rightarrow> string \<Rightarrow> webhook_event \<Rightarrow> jsobj \<Rightarrow>
     delivery_map \<times> delivery_state \<Rightarrow> delivery_map \<times> delivery_state" where
  "webhook_emit e maxAtt endpoints tenantId event payload st =
     emit_all e maxAtt event payload (webhook_store_listForEvent endpoints tenantId event) st"

subsection \<open>What a breaker remembers\<close>

text \<open>What happened to a breaker, newest first.\<close>

datatype circuit_event = Succeeded | FailedAt int

fun is_failure :: "circuit_event \<Rightarrow> bool" where
  "is_failure Succeeded = False"
| "is_failure (FailedAt t) = True"

inductive breaker_run :: "nat \<Rightarrow> int \<Rightarrow> circuit_event list \<Rightarrow> breaker \<Rightarrow> bool"
  for threshold cooldown
where
  run_new: "breaker_run threshold cooldown [] breaker_new"
| run_check: "breaker_run threshold cooldown h b \<Longrightarrow> breaker_run threshold cooldown h (snd (canExecute cooldown now b))"
| run_success: "breaker_run threshold cooldown h b \<Longrightarrow> breaker_run threshold cooldown (Succeeded # h) (recordSuccess b)"
| run_failure: "breaker_run threshold cooldown h b \<Longrightarrow>
    breaker_run threshold cooldown (FailedAt now # h) (recordFailure threshold now b)"

lemmas breaker_defs = breaker_new_def canExecute_def recordSuccess_def recordFailure_def

definition breaker_inv :: "nat \<Rightarrow> circuit_event list \<Rightarrow> breaker \<Rightarrow> bool" where
  "breaker_inv threshold h b \<longleftrightarrow>
     cb_failures b = length (takeWhile is_failure h) \<and>
     (cb_state b = CClosed \<longleftrightarrow> cb_failures b < threshold) \<and>
     (\<forall>t h'. h = FailedAt t # h' \<longrightarrow> cb_lastFailureAt b = t)"

lemma breaker_run_inv:
  "breaker_run threshold cooldown h b \<Longrightarrow> 0 < threshold \<Longrightarrow> breaker_inv threshold h b"
  by (induction rule: breaker_run.induct) (auto simp: breaker_inv_def breaker_defs Let_def)

lemma breaker_refuses:
  assumes "breaker_run threshold cooldown h b" and "0 < threshold" and "\<not> fst (canExecute cooldown now b)"
  shows "\<exists>t h'. h = FailedAt t # h' \<and> now - t < cooldown \<and> threshold \<le> length (takeWhile is_failure h)"
proof -
  have inv: "breaker_inv threshold h b" using breaker_run_inv assms(1,2) .
  have st: "cb_state b = COpen" "now - cb_lastFailureAt b < cooldown"
    using assms(3) by (auto simp: canExecute_def split: if_splits)
  then have n: "threshold \<le> length (takeWhile is_failure h)" using inv by (auto simp: breaker_inv_def)
  then have "0 < length (takeWhile is_failure h)" using assms(2) by linarith
  then obtain t h' where "h = FailedAt t # h'"
    by (cases h) (auto split: if_splits elim: is_failure.elims)
  then show ?thesis using inv st n by (auto simp: breaker_inv_def)
qed

subsection \<open>A call through the invoker\<close>

text \<open>Every breaker of the invoker has a history.\<close>

definition invoker_ok :: "nat \<Rightarrow> int \<Rightarrow> invoker \<Rightarrow> bool" where
  "invoker_ok threshold cooldown s \<longleftrightarrow>
     (\<forall>name b. map_get (iv_breakers s) name = Some b \<longrightarrow> (\<exists>h. breaker_run threshold cooldown h b))"

text \<open>The network stays within the model: a failed call is an exception of the runtime.\<close>

definition network_ok :: "network \<Rightarrow> bool" where
  "network_ok w \<longleftrightarrow>
     (\<forall>n req er. net_fetch w n req = Inl er \<longrightarrow> \<not> is_unmodelled er) \<and>
     (\<forall>n er. net_text w n = Inl er \<longrightarrow> \<not> is_unmodelled er)"

lemma iv_now_apply [simp]: "iv_now w s = (Inr (net_now w (iv_reads s)), s\<lparr>iv_reads := Suc (iv_reads s)\<rparr>)"
  by (simp add: iv_now_def)

definition current_breaker :: "invoker \<Rightarrow> string \<Rightarrow> breaker" where
  "current_breaker s handler =
     (case map_get (iv_breakers s) handler of Some b \<Rightarrow> b | None \<Rightarrow> breaker_new)"

definition only_breaker :: "string \<Rightarrow> invoker \<Rightarrow> invoker \<Rightarrow> bool" where
  "only_breaker handler s s' \<longleftrightarrow>
     (\<forall>name. name \<noteq> handler \<longrightarrow> map_get (iv_breakers s') name = map_get (iv_breakers s) name)"

text \<open>Both ends of a call, from a state whose breaker let it through.\<close>

lemma invoke_through:
  assumes w: "network_ok w" and b: "map_get (iv_breakers s) handler = Some b"
    and run: "breaker_run threshold cooldown h b"
  shows "\<exists>r s' b' h'. invoke_call w threshold handler req s = (Inr r, s') \<and> iv_fetches s' = Suc (iv_fetches s) \<and>
     iv_breakers s' = map_set handler b' (iv_breakers s) \<and> breaker_run threshold cooldown h' b' \<and>
     (hv_ok r \<longrightarrow> h' = Succeeded # h) \<and> (\<not> hv_ok r \<longrightarrow> (\<exists>t. h' = FailedAt t # h))"
proof -
  have nf: "net_fetch w n q = Inl er \<Longrightarrow> \<not> is_unmodelled er"
    and nt: "net_text w n = Inl er \<Longrightarrow> \<not> is_unmodelled er" for n q er
    using w by (simp_all add: network_ok_def)
  show ?thesis
  proof (cases "net_fetch w (iv_fetches s) req")
    case (Inl er)
    then show ?thesis
      using nf [OF Inl] b run_failure [OF run]
      by (fastforce simp: invoke_call_def bind_a_def catch_a_def iv_fetch_def upd_breaker_def)
  next
    case (Inr reply)
    show ?thesis
    proof (cases "net_text w (Suc (iv_fetches s))")
      case (Inl er)
      then show ?thesis
        using nt [OF Inl] Inr b run_failure [OF run]
        by (fastforce simp: invoke_call_def bind_a_def catch_a_def iv_fetch_def iv_text_def upd_breaker_def)
    next
      case reply: (Inr tx)
      then show ?thesis
        using Inr b run_failure [OF run] run_success [OF run]
        by (cases "hp_ok reply")
          (fastforce simp: invoke_call_def bind_a_def catch_a_def iv_fetch_def iv_text_def upd_breaker_def)+
    qed
  qed
qed

lemma breaker_check_spec:
  assumes "map_get (iv_breakers s) handler = Some b"
    and "now = (if cb_state b = COpen then net_now w (iv_reads s) else 0)"
  shows "\<exists>s'. breaker_check w cooldown handler b s = (Inr (fst (canExecute cooldown now b)), s') \<and>
     map_get (iv_breakers s') handler = Some (snd (canExecute cooldown now b)) \<and>
     only_breaker handler s s' \<and> iv_fetches s' = iv_fetches s"
  using assms(1) unfolding assms(2)
  by (cases "cb_state b = COpen")
    (simp_all add: breaker_check_def bind_a_def upd_breaker_def only_breaker_def split_beta)

lemma invoker_ok_changed:
  assumes "invoker_ok threshold cooldown s" and "only_breaker handler s t"
    and "map_get (iv_breakers t) handler = Some b" and "breaker_run threshold cooldown h b"
  shows "invoker_ok threshold cooldown t"
  using assms unfolding invoker_ok_def only_breaker_def by (metis option.sel option.distinct(1))

text \<open>The first half of a call finds the handler's breaker and asks it.\<close>

lemma invoke_asks_breaker:
  assumes "invoker_ok threshold cooldown s"
    and b: "b = current_breaker s handler" and now: "now = (if cb_state b = COpen then net_now w (iv_reads s) else 0)"
  obtains h s1 s2 where "breaker_run threshold cooldown h b" and "getBreaker handler s = (Inr b, s1)"
    and "breaker_check w cooldown handler b s1 = (Inr (fst (canExecute cooldown now b)), s2)"
    and "map_get (iv_breakers s2) handler = Some (snd (canExecute cooldown now b))"
    and "only_breaker handler s s2" and "iv_fetches s2 = iv_fetches s"
proof -
  obtain h where run: "breaker_run threshold cooldown h b"
    using assms(1) run_new unfolding b invoker_ok_def current_breaker_def
    by (cases "map_get (iv_breakers s) handler") (simp_all, blast+)
  obtain s1 where get: "getBreaker handler s = (Inr b, s1)" and m1: "map_get (iv_breakers s1) handler = Some b"
    and o1: "only_breaker handler s s1" "iv_fetches s1 = iv_fetches s" "iv_reads s1 = iv_reads s"
    unfolding b by (cases "map_get (iv_breakers s) handler")
      (auto simp: getBreaker_def current_breaker_def only_breaker_def)
  have "now = (if cb_state b = COpen then net_now w (iv_reads s1) else 0)" using o1(3) now by simp
  from breaker_check_spec [OF m1 this, of cooldown]
  obtain s2 where chk: "breaker_check w cooldown handler b s1 = (Inr (fst (canExecute cooldown now b)), s2)"
    and m2: "map_get (iv_breakers s2) handler = Some (snd (canExecute cooldown now b))"
    and "only_breaker handler s1 s2" "iv_fetches s2 = iv_fetches s1" by blast
  with o1 show thesis by (intro that [OF run get chk m2]) (simp_all add: only_breaker_def)
qed


definition down_network :: network where
  "down_network = \<lparr>net_fetch = (\<lambda>n q. Inl (JsTypeError ''fetch failed'')), net_text = (\<lambda>n. Inr []),
     net_json = (\<lambda>t. None), net_now = (\<lambda>n. 7)\<rparr>"


subsection \<open>Webhook deliveries\<close>

interpretation webhooks: keyed_store we_id "[]" webhook_store_save webhook_store_get map_values "store_ok we_id"
  unfolding webhook_store_save_def [abs_def] webhook_store_get_def [abs_def]
  by (rule mem_store)

lemma webhook_listForEvent_iff:
  assumes "store_ok we_id m"
  shows "ep \<in> set (webhook_store_listForEvent m tenantId event) \<longleftrightarrow>
     webhook_store_get m (we_id ep) = Some ep \<and> we_tenantId ep = tenantId \<and> we_enabled ep \<and>
     event \<in> set (we_events ep)"
  using webhooks.list_get [OF assms, of ep] by (auto simp: webhook_store_listForEvent_def)

text \<open>The posts of one delivery: as many as attempts, all signed, only the last one accepted.\<close>

definition posts_ok ::
    "delivery_env \<Rightarrow> webhook_endpoint \<Rightarrow> nat \<Rightarrow> (string \<times> string \<times> string \<times> string) list \<Rightarrow> bool \<Rightarrow> bool" where
  "posts_ok e ep start new ok \<longleftrightarrow>
     (\<forall>(url, ts, sig, body) \<in> set new. url = we_url ep \<and> verifySignature e (we_secret ep) body ts sig) \<and>
     (\<forall>j < length new. case new ! j of (url, ts, sig, body) \<Rightarrow>
        (dp_post e (start + j) url ts sig body = Inr True) = (ok \<and> Suc j = length new))"

lemma posts_ok_Cons:
  assumes "url = we_url ep" and "verifySignature e (we_secret ep) body ts sig"
    and "dp_post e start url ts sig body \<noteq> Inr True" and "posts_ok e ep (Suc start) new ok" and "ok \<longrightarrow> new \<noteq> []"
  shows "posts_ok e ep start ((url, ts, sig, body) # new) ok"
  using assms unfolding posts_ok_def by (auto simp: nth_Cons split: nat.splits)

lemma webhook_post_spec:
  "\<exists>ts sig body. webhook_post e ep event payload s =
     (dp_post e (length (ds_posts s)) (we_url ep) ts sig body = Inr True,
      s\<lparr>ds_reads := ds_reads s + 2, ds_posts := ds_posts s @ [(we_url ep, ts, sig, body)]\<rparr>) \<and>
     verifySignature e (we_secret ep) body ts sig"
proof -
  define body where "body = dp_stringify e event payload (dp_clock e (ds_reads s))"
  define ts where "ts = show_int (dp_date_now e (Suc (ds_reads s)) div 1000)"
  define sig where "sig = signPayload e (we_secret ep) body ts"
  have "webhook_post e ep event payload s =
     (dp_post e (length (ds_posts s)) (we_url ep) ts sig body = Inr True,
      s\<lparr>ds_reads := ds_reads s + 2, ds_posts := ds_posts s @ [(we_url ep, ts, sig, body)]\<rparr>)"
    by (simp add: webhook_post_def Let_def body_def [symmetric] ts_def [symmetric] sig_def [symmetric]
        split: sum.splits)
  moreover have "verifySignature e (we_secret ep) body ts sig"
    by (simp add: verifySignature_def sig_def)
  ultimately show ?thesis by blast
qed

lemma dispatch_loop_spec:
  assumes "dispatch_loop e ep event payload [Suc a..<Suc n] d s = ((d', ok), s')"
    and "wd_attempts d = a" and "a \<le> n"
  shows "\<exists>new. ds_posts s' = ds_posts s @ new \<and> wd_attempts d' = a + length new \<and> a + length new \<le> n \<and>
     wd_status d' = (if ok then DDelivered else DFailed) \<and> (ok \<longrightarrow> new \<noteq> []) \<and>
     (\<not> ok \<longrightarrow> a + length new = n) \<and> wd_id d' = wd_id d \<and> posts_ok e ep (length (ds_posts s)) new ok"
  using assms
proof (induction "n - a" arbitrary: a d s)
  case 0
  then show ?case by (auto simp: posts_ok_def)
next
  case (Suc m)
  then have a: "Suc a \<le> n" by simp
  let ?d = "d\<lparr>wd_attempts := Suc a, wd_lastAttemptAt := Some (dp_clock e (ds_reads s))\<rparr>"
  let ?s = "s\<lparr>ds_reads := Suc (ds_reads s)\<rparr>"
  have list: "[Suc a..<Suc n] = Suc a # [Suc (Suc a)..<Suc n]" using a by (simp add: upt_conv_Cons del: upt_Suc)
  obtain ts sig body s1 where post: "webhook_post e ep event payload ?s =
      (dp_post e (length (ds_posts s)) (we_url ep) ts sig body = Inr True, s1)"
    and s1: "ds_posts s1 = ds_posts s @ [(we_url ep, ts, sig, body)]"
    and sig: "verifySignature e (we_secret ep) body ts sig"
    using webhook_post_spec [of e ep event payload ?s] by auto
  show ?case
  proof (cases "dp_post e (length (ds_posts s)) (we_url ep) ts sig body = Inr True")
    case True
    then have "ok" "d' = ?d\<lparr>wd_status := DDelivered, wd_responseStatus := Some 200\<rparr>" "s' = s1"
      using Suc.prems(1) post unfolding list by (simp_all add: Let_def del: upt_Suc)
    then show ?thesis
      using s1 sig True a
      by (intro exI [of _ "[(we_url ep, ts, sig, body)]"]) (simp add: posts_ok_def)
  next
    case False
    then have loop: "dispatch_loop e ep event payload [Suc (Suc a)..<Suc n] ?d s1 = ((d', ok), s')"
      using Suc.prems(1) post unfolding list by (simp add: Let_def del: upt_Suc)
    have m: "m = n - Suc a" and att: "wd_attempts ?d = Suc a" using Suc.hyps(2) by simp_all
    obtain new where new: "ds_posts s' = ds_posts s1 @ new" "wd_attempts d' = Suc a + length new"
        "Suc a + length new \<le> n" "wd_status d' = (if ok then DDelivered else DFailed)" "ok \<longrightarrow> new \<noteq> []"
        "\<not> ok \<longrightarrow> Suc a + length new = n" "wd_id d' = wd_id ?d" "posts_ok e ep (length (ds_posts s1)) new ok"
      using Suc.hyps(1) [OF m loop att a] by blast
    have "posts_ok e ep (length (ds_posts s)) ((we_url ep, ts, sig, body) # new) ok"
      using new(5,8) s1 sig False by (intro posts_ok_Cons) simp_all
    then show ?thesis
      using new s1 by (intro exI [of _ "(we_url ep, ts, sig, body) # new"]) simp
  qed
qed

text \<open>
  C20. A dispatch posts until the first success, at most \<open>maxAttempts\<close> times: the delivery counts
  exactly the posts made, it is delivered when the last of them was accepted and failed when none
  of all \<open>maxAttempts\<close> was, and every post goes to the endpoint's url with a signature that
  verifies under the endpoint's secret.
\<close>

theorem dispatch_delivers_or_exhausts:
  assumes "dispatch e maxAtt ep event payload s = ((d, ok), s')"
  shows "\<exists>new. ds_posts s' = ds_posts s @ new \<and> wd_attempts d = length new \<and> length new \<le> maxAtt \<and>
     wd_status d = (if ok then DDelivered else DFailed) \<and> (\<not> ok \<longrightarrow> length new = maxAtt) \<and>
     posts_ok e ep (length (ds_posts s)) new ok"
  using dispatch_loop_spec [of e ep event payload 0 maxAtt _ _ d ok s'] assms
  unfolding dispatch_def One_nat_def by fastforce

definition flaky_delivery :: delivery_env where
  "flaky_delivery = \<lparr>dp_date_now = (\<lambda>n. 1000), dp_clock = (\<lambda>n. ''t''), dp_hmac = (\<lambda>k m. k @ m),
     dp_stringify = (\<lambda>ev p t. ''{}''), dp_post = (\<lambda>n u t g b. Inr (n = 1))\<rparr>"

definition sample_endpoint :: webhook_endpoint where
  "sample_endpoint = \<lparr>we_id = ''wh'', we_tenantId = ''t'', we_url = ''https://x'', we_secret = ''s'',
     we_events = [WRunFailed], we_enabled = True, we_createdAt = ''t''\<rparr>"

lemma dispatch_delivers_or_exhausts_witness:
  "\<exists>d s'. dispatch flaky_delivery 3 sample_endpoint WRunFailed [] \<lparr>ds_reads = 0, ds_posts = []\<rparr> = ((d, True), s') \<and>
     wd_status d = DDelivered \<and> wd_attempts d = 2 \<and> length (ds_posts s') = 2"
proof -
  obtain d ok s' where r: "dispatch flaky_delivery 3 sample_endpoint WRunFailed []
      \<lparr>ds_reads = 0, ds_posts = []\<rparr> = ((d, ok), s')"
    by (metis surj_pair)
  then have v: "ok" "wd_attempts d = 2"
    by (auto simp: dispatch_def flaky_delivery_def webhook_post_def Let_def numeral_3_eq_3)
  from dispatch_delivers_or_exhausts [OF r] v show ?thesis using r by auto
qed

text \<open>
  A delivery's id is the millisecond it started in. Dispatches of one event to several endpoints
  within the same millisecond therefore overwrite each other's record.
\<close>

lemma dispatch_id:
  assumes "dispatch e maxAtt ep event payload s = ((d, ok), s')"
  shows "wd_id d = ''whd_'' @ show_int (dp_date_now e (ds_reads s))"
  using dispatch_loop_spec [of e ep event payload 0 maxAtt _ _ d ok s'] assms
  unfolding dispatch_def One_nat_def by fastforce

lemma emit_records_collide:
  assumes "\<And>n. dp_date_now e n = t"
    and "emit_all e maxAtt event payload eps (m, s) = (m', s')"
    and "map_keys m = [''whd_'' @ show_int t]"
  shows "map_keys m' = [''whd_'' @ show_int t]"
  using assms(2,3)
proof (induction eps arbitrary: m s)
  case Nil
  then show ?case by simp
next
  case (Cons ep eps)
  obtain d ok s1 where d: "dispatch e maxAtt ep event payload s = ((d, ok), s1)" by (metis surj_pair)
  have "map_keys (delivery_save d m) = [''whd_'' @ show_int t]"
    using Cons.prems(2) dispatch_id [OF d] assms(1) by (simp add: delivery_save_def map_keys_set)
  then show ?case using Cons.IH Cons.prems(1) d by simp
qed

end
