(* ===== verification/Query.thy ===== *)
theory Query
  imports Stores "HOL-Library.Multiset"
begin

section \<open>Searching runs (utils/pagination.ts, query/*.ts)\<close>

text \<open>
  Filtering, sorting and paging the runs of a job. A page request comes from the query string as
  any double, \<^verbatim>\<open>NaN\<close> included, so the page arithmetic is done on doubles. The order of
  \<^verbatim>\<open>localeCompare\<close> is a parameter.
\<close>

subsection \<open>paginate\<close>

definition math_max :: "jsnum \<Rightarrow> jsnum \<Rightarrow> jsnum" where
  "math_max a b =
     (if a = NaN \<or> b = NaN then NaN
      else if num_is_zero a \<and> num_is_zero b then signed_zero (a = NZero \<and> b = NZero)
      else if num_lt a b then b else a)"

definition math_ceil :: "jsnum \<Rightarrow> jsnum" where
  "math_ceil n =
     (case n of Fin r \<Rightarrow> if - 1 < r \<and> r < 0 then NZero else Fin (of_int \<lceil>r\<rceil>) | _ \<Rightarrow> n)"

text \<open>The bound an argument of \<^verbatim>\<open>slice\<close> stands for, in a list of length \<open>len\<close>.\<close>

definition slice_bound :: "nat \<Rightarrow> jsnum \<Rightarrow> nat" where
  "slice_bound len n =
     (case n of
        Fin r \<Rightarrow> let k = (if 0 \<le> r then \<lfloor>r\<rfloor> else \<lceil>r\<rceil>)
                 in if k < 0 then nat (int len + k) else min len (nat k)
      | PInf \<Rightarrow> len
      | _ \<Rightarrow> 0)"

definition js_slice :: "jsnum \<Rightarrow> jsnum \<Rightarrow> 'a list \<Rightarrow> 'a list" where
  "js_slice a b xs =
     (let i = slice_bound (length xs) a; j = slice_bound (length xs) b in drop i (take j xs))"

record page_request =
  pr_page :: jsnum
  pr_pageSize :: jsnum

record 'a page_result =
  pg_items :: "'a list"
  pg_page :: jsnum
  pg_pageSize :: jsnum
  pg_total :: nat
  pg_totalPages :: jsnum

definition paginate :: "'a list \<Rightarrow> page_request \<Rightarrow> 'a page_result" where
  "paginate items req =
     (let page = math_max (Fin 1) (pr_page req);
          pageSize = math_min (Fin 100) (math_max (Fin 1) (pr_pageSize req));
          total = length items;
          start = num_mul (num_sub page (Fin 1)) pageSize;
          pages = math_ceil (num_div (to_double (of_nat total)) pageSize)
      in \<lparr>pg_items = js_slice start (num_add start pageSize) items, pg_page = page,
          pg_pageSize = pageSize, pg_total = total,
          pg_totalPages = (if pages = NaN \<or> num_is_zero pages then Fin 1 else pages)\<rparr>)"

subsection \<open>filterRuns and sortRuns\<close>

text \<open>\<^verbatim>\<open>s < t\<close> on strings compares code units.\<close>

fun str_less :: "string \<Rightarrow> string \<Rightarrow> bool" where
  "str_less s [] = False"
| "str_less [] (d # ds) = True"
| "str_less (c # cs) (d # ds) =
     ((of_char c :: nat) < of_char d \<or> c = d \<and> str_less cs ds)"

record run_filter =
  rf_status :: "workflow_state list option"
  rf_jobId :: "string option"
  rf_triggerPrefix :: "string option"
  rf_since :: "string option"
  rf_until :: "string option"

text \<open>An absent field and an empty string are both falsy.\<close>

definition given :: "string option \<Rightarrow> string option" where
  "given x = (case x of Some s \<Rightarrow> if s = [] then None else Some s | None \<Rightarrow> None)"

definition starts_with :: "string \<Rightarrow> string \<Rightarrow> bool" where
  "starts_with p s \<longleftrightarrow> take (length p) s = p"

definition run_matches :: "run_filter \<Rightarrow> job_run \<Rightarrow> bool" where
  "run_matches flt r =
     (if (case rf_status flt of Some ss \<Rightarrow> ss \<noteq> [] \<and> jr_status r \<notin> set ss | None \<Rightarrow> False) then False
      else if (case given (rf_jobId flt) of Some j \<Rightarrow> jr_jobId r \<noteq> j | None \<Rightarrow> False) then False
      else if (case given (rf_triggerPrefix flt) of Some p \<Rightarrow> \<not> starts_with p (jr_trigger r) | None \<Rightarrow> False) then False
      else if (case given (rf_since flt) of Some t \<Rightarrow> str_less (jr_startedAt r) t | None \<Rightarrow> False) then False
      else if (case (given (rf_until flt), given (jr_finishedAt r)) of
                 (Some t, Some fin) \<Rightarrow> str_less t fin | _ \<Rightarrow> False) then False
      else True)"

definition filterRuns :: "job_run list \<Rightarrow> run_filter \<Rightarrow> job_run list" where
  "filterRuns runs flt = filter (run_matches flt) runs"

text \<open>\<^verbatim>\<open>sort\<close> with a comparator is stable.\<close>

fun insert_by :: "('a \<Rightarrow> 'a \<Rightarrow> int) \<Rightarrow> 'a \<Rightarrow> 'a list \<Rightarrow> 'a list" where
  "insert_by c x [] = [x]"
| "insert_by c x (y # ys) = (if c x y \<le> 0 then x # y # ys else y # insert_by c x ys)"

definition sort_by :: "('a \<Rightarrow> 'a \<Rightarrow> int) \<Rightarrow> 'a list \<Rightarrow> 'a list" where
  "sort_by c xs = foldr (insert_by c) xs []"

datatype run_sort_key = ByStartedAt | ByFinishedAt

fun run_sort_value :: "run_sort_key \<Rightarrow> job_run \<Rightarrow> string" where
  "run_sort_value ByStartedAt r = jr_startedAt r"
| "run_sort_value ByFinishedAt r = (case jr_finishedAt r of Some t \<Rightarrow> t | None \<Rightarrow> [])"

definition sortRuns ::
    "(string \<Rightarrow> string \<Rightarrow> int) \<Rightarrow> run_sort_key \<Rightarrow> bool \<Rightarrow> job_run list \<Rightarrow> job_run list" where
  "sortRuns localeCompare key desc runs =
     sort_by (\<lambda>a b. let av = run_sort_value key a; bv = run_sort_value key b
                    in if desc then localeCompare bv av else localeCompare av bv) runs"

subsection \<open>RunQueryService\<close>

definition search_runs ::
    "(string \<Rightarrow> string \<Rightarrow> int) \<Rightarrow> run_store \<Rightarrow> job_id \<Rightarrow> run_filter \<Rightarrow> page_request \<Rightarrow> job_run page_result" where
  "search_runs localeCompare m jobId flt page =
     (let everything = run_store_listByJob m jobId;
          filtered = sortRuns localeCompare ByStartedAt True (filterRuns everything flt)
      in paginate filtered page)"

definition query_listActive :: "run_store \<Rightarrow> job_run list" where
  "query_listActive m = run_store_listActive m"

subsection \<open>Pages\<close>

text \<open>Rounding moves a quotient by at most one part in \<open>2 ^ 53\<close>.\<close>

lemma round_half_even_error: "\<bar>of_int (round_half_even r) - r\<bar> \<le> 1 / 2"
  unfolding round_half_even_def Let_def by (auto simp: abs_if) linarith+

lemma to_double_near:
  assumes lo: "1 / 2 ^ 7 \<le> r" and hi: "r < 2 ^ 46"
  shows "\<exists>v. to_double r = Fin v \<and> \<bar>v - r\<bar> \<le> r / 2 ^ 53"
proof -
  have pos: "0 < r" using lo by (rule less_le_trans [rotated]) simp
  define e where "e = max (ilog2 r - 52) (- 1074)"
  define v where "v = of_int (round_half_even (r / pow2 e)) * pow2 e"
  have p52: "pow2 (ilog2 r - 52) = pow2 (ilog2 r) / 2 ^ 52"
    by (simp add: pow2_eq_powi power_int_diff)
  have e: "pow2 e \<le> r / 2 ^ 52"
  proof (cases "- 1074 \<le> ilog2 r - 52")
    case True
    then show ?thesis using ilog2_lower [OF pos] by (simp add: e_def p52 divide_right_mono)
  next
    case False
    then have "pow2 e = 1 / 2 ^ 1074" by (simp add: e_def pow2_def)
    also have "\<dots> \<le> (1 / 2 ^ 7) / 2 ^ 52" by simp
    also have "\<dots> \<le> r / 2 ^ 52" using lo by (rule divide_right_mono) simp
    finally show ?thesis .
  qed
  have "v - r = (of_int (round_half_even (r / pow2 e)) - r / pow2 e) * pow2 e"
    using less_imp_neq [OF pow2_pos [of e]] by (simp add: v_def left_diff_distrib)
  then have "\<bar>v - r\<bar> = \<bar>of_int (round_half_even (r / pow2 e)) - r / pow2 e\<bar> * pow2 e"
    by (simp only: abs_mult abs_of_pos [OF pow2_pos])
  also have "\<dots> \<le> 1 / 2 * pow2 e"
    using round_half_even_error by (rule mult_right_mono) (simp add: less_imp_le)
  also have "\<dots> \<le> r / 2 ^ 53" using e by simp
  finally have err: "\<bar>v - r\<bar> \<le> r / 2 ^ 53" .
  have small: "r / 2 ^ 53 < r" using pos by (simp add: field_simps)
  have v0: "0 < v" using err small by linarith
  have "v < 2 * 2 ^ 46" using err small hi by linarith
  then have "v < 2 ^ 47" by simp
  also have "(2 ^ 47 :: rat) \<le> pow2 1024" by (simp add: pow2_def)
  finally have "\<not> pow2 1024 \<le> v" by simp
  then have "to_double r = Fin v"
    using pos v0 by (simp add: to_double_def Let_def e_def [symmetric] v_def [symmetric])
  then show ?thesis using err by blast
qed

text \<open>A fraction with denominator at most 100 is at least a hundredth away from other integers.\<close>

lemma frac_gap:
  assumes qs: "q * of_int s = rat_of_int t" and s: "1 \<le> s" "s \<le> 100" and lt: "q < of_int k"
  shows "q + 1 / 100 \<le> of_int k"
proof -
  have sq: "(1 :: rat) \<le> of_int s" "(of_int s :: rat) \<le> 100" using s by simp_all
  have "q * of_int s < of_int k * of_int s" using lt sq(1) by (intro mult_strict_right_mono) simp_all
  then have "t < k * s" unfolding qs by (simp only: of_int_mult [symmetric] of_int_less_iff)
  then have "t + 1 \<le> k * s" by simp
  then have "rat_of_int (t + 1) \<le> of_int (k * s)" by (simp only: of_int_le_iff)
  then have "1 \<le> (of_int k - q) * of_int s" by (simp add: qs algebra_simps)
  also have "\<dots> \<le> (of_int k - q) * 100" using lt sq(2) by (intro mult_left_mono) simp_all
  finally show ?thesis by simp
qed

lemma ceiling_near:
  assumes qs: "q * of_int s = rat_of_int t" and s: "1 \<le> s" "s \<le> 100"
    and err: "\<bar>v - q\<bar> < 1 / 100" and exact: "\<And>k. q = of_int k \<Longrightarrow> v = q"
  shows "\<lceil>v\<rceil> = \<lceil>q\<rceil>"
proof (cases "q = of_int \<lceil>q\<rceil>")
  case True
  then show ?thesis using exact [OF True] by simp
next
  case False
  have k: "of_int \<lceil>q\<rceil> - 1 < q" "q \<le> of_int \<lceil>q\<rceil>" using ceiling_correct [of q] by simp_all
  have up: "q + 1 / 100 \<le> of_int \<lceil>q\<rceil>" using False k(2) by (intro frac_gap [OF qs s]) (metis order_le_less)
  have "- q * of_int s = rat_of_int (- t)" using qs by simp
  moreover have "- q < of_int (1 - \<lceil>q\<rceil>)" using k(1) by simp
  ultimately have "- q + 1 / 100 \<le> of_int (1 - \<lceil>q\<rceil>)" by (rule frac_gap [OF _ s])
  then have "rat_of_int \<lceil>q\<rceil> - 1 + 1 / 100 \<le> q" by simp
  then show ?thesis using err up by (intro ceiling_unique) linarith+
qed

lemma page_count:
  assumes s: "1 \<le> s" "s \<le> 100" and t: "t < 2 ^ 46"
  shows "math_ceil (num_div (to_double (of_nat t)) (Fin (of_int s))) = Fin (of_int \<lceil>of_nat t / of_int s :: rat\<rceil>)"
proof (cases "t = 0")
  case True
  then show ?thesis
    using s by (simp add: to_double_def num_div_def num_is_inf_def num_is_zero_def num_is_neg_def
        signed_zero_def math_ceil_def)
next
  case False
  define q :: rat where "q = of_nat t / of_int s"
  have tq: "(1 :: rat) \<le> of_nat t" using False by simp
  have sq: "(1 :: rat) \<le> of_int s" "(of_int s :: rat) \<le> 100" using s by simp_all
  have lo: "1 / 100 \<le> q" unfolding q_def using frac_le [OF _ tq _ sq(2)] sq(1) by simp
  have tn: "rat_of_nat t < 2 ^ 46" using t by (metis of_nat_less_iff of_nat_numeral of_nat_power)
  have "q \<le> of_nat t" unfolding q_def using sq(1) tq by (simp add: divide_le_eq mult_le_cancel_left1)
  then have hi: "q < 2 ^ 46" using tn by simp
  have div: "num_div (to_double (of_nat t)) (Fin (of_int s)) = to_double q"
    using s t False by (simp add: to_double_nat num_div_def num_is_inf_def num_is_zero_def num_is_neg_def
        num_val_def q_def)
  obtain v where v: "to_double q = Fin v" "\<bar>v - q\<bar> \<le> q / 2 ^ 53"
    using to_double_near [OF _ hi] lo by auto
  have "q / 2 ^ 53 < 2 ^ 46 / 2 ^ 53" using hi by (rule divide_strict_right_mono) simp
  then have err: "\<bar>v - q\<bar> < 1 / 100" using v(2) by simp
  have exact: "v = q" if k: "q = of_int k" for k
  proof -
    have "rat_of_int k < of_int (2 ^ 46)" using hi k by simp
    then have "k < 2 ^ 46" by (simp only: of_int_less_iff)
    moreover have "0 < rat_of_int k" using lo k by simp
    ultimately show ?thesis using v(1) k to_double_int [of k] by simp
  qed
  have "q * of_int s = of_int (int t)" using s by (simp add: q_def)
  then have "\<lceil>v\<rceil> = \<lceil>q\<rceil>" using ceiling_near s err exact by blast
  moreover have "0 < v" using err lo by linarith
  ultimately show ?thesis unfolding div v(1) by (simp add: math_ceil_def q_def)
qed

text \<open>An integral page request inside the bounds cuts the list at multiples of the page size.\<close>

definition page_at :: "int \<Rightarrow> int \<Rightarrow> page_request" where
  "page_at p s = \<lparr>pr_page = Fin (of_int p), pr_pageSize = Fin (of_int s)\<rparr>"

lemma math_max_int: "math_max (Fin 1) (Fin (of_int a)) = Fin (of_int (max 1 a))"
  by (auto simp: math_max_def num_is_zero_def num_lt_def num_val_def max_def)

lemma clamp_size: "1 \<le> s \<Longrightarrow> s \<le> 100 \<Longrightarrow> math_min (Fin 100) (math_max (Fin 1) (Fin (of_int s))) = Fin (of_int s)"
  using math_min_int [of 100 s] by (simp add: math_max_int max_def min_def)

lemma num_sub_int:
  assumes "1 \<le> a" and "a < 2 ^ 53"
  shows "num_sub (Fin (of_int a)) (Fin 1) = Fin (of_int (a - 1))"
  using assms to_double_int [of "a - 1"] by (simp add: num_sub_def num_add_def num_is_inf_def num_val_def)

lemma num_add_int:
  assumes "0 \<le> a" and "0 \<le> b" and "a + b < 2 ^ 53"
  shows "num_add (Fin (of_int a)) (Fin (of_int b)) = Fin (of_int (a + b))"
  using assms to_double_int [of "a + b"] by (simp add: num_add_def num_is_inf_def num_val_def)

lemma num_mul_int_fin:
  assumes "0 \<le> a" and "0 \<le> b" and "a * b < 2 ^ 53"
  shows "num_mul (Fin (of_int a)) (Fin (of_int b)) = Fin (of_int (a * b))"
  using assms to_double_int [of "a * b"]
  by (auto simp: num_mul_def num_is_inf_def num_is_zero_def num_is_neg_def num_val_def signed_zero_def abs_mult)

lemma slice_bound_int: "0 \<le> k \<Longrightarrow> slice_bound len (Fin (of_int k)) = min len (nat k)"
  by (simp add: slice_bound_def Let_def)

lemma take_chunk: "drop (min (length xs) k) (take (min (length xs) (k + m)) xs) = take m (drop k xs)"
proof (cases "k \<le> length xs")
  case True
  have "take (min (length xs) (k + m)) xs = take (k + m) xs" by (simp add: min_def)
  then show ?thesis using True by (simp add: min_def drop_take)
qed simp

lemma paginate_page:
  assumes s: "1 \<le> s" "s \<le> 100" and p: "1 \<le> p" "p < 2 ^ 46"
  shows "pg_items (paginate xs (page_at p s)) = take (nat s) (drop (nat ((p - 1) * s)) xs)"
proof -
  have "(p - 1) * s \<le> 2 ^ 46 * 100" using s p by (intro mult_mono) auto
  then have b: "(p - 1) * s + s < 2 ^ 53" using s by simp
  have nn: "0 \<le> (p - 1) * s" using s p by simp
  have page: "math_max (Fin 1) (Fin (of_int p)) = Fin (of_int p)" using p by (simp add: math_max_int max_def)
  have sub: "num_sub (Fin (of_int p)) (Fin 1) = Fin (of_int (p - 1))" using p by (intro num_sub_int) simp_all
  have mul: "num_mul (Fin (of_int (p - 1))) (Fin (of_int s)) = Fin (of_int ((p - 1) * s))"
    using s p b by (intro num_mul_int_fin) simp_all
  have add: "num_add (Fin (of_int ((p - 1) * s))) (Fin (of_int s)) = Fin (of_int ((p - 1) * s + s))"
    using nn s b by (intro num_add_int) simp_all
  have "pg_items (paginate xs (page_at p s)) =
      js_slice (Fin (of_int ((p - 1) * s))) (Fin (of_int ((p - 1) * s + s))) xs"
    by (simp only: paginate_def page_at_def Let_def page_result.simps page_request.simps clamp_size [OF s]
        page sub mul add)
  also have "\<dots> = take (nat s) (drop (nat ((p - 1) * s)) xs)"
    using nn s by (simp only: js_slice_def Let_def slice_bound_int add_nonneg_nonneg nat_add_distrib
        take_chunk)
  finally show ?thesis .
qed

lemma paginate_total_pages:
  assumes s: "1 \<le> s" "s \<le> 100" and t: "length xs < 2 ^ 46"
  shows "pg_totalPages (paginate xs (page_at p s)) =
    Fin (of_int (max 1 \<lceil>of_nat (length xs) / of_int s :: rat\<rceil>))"
proof -
  have "0 \<le> (of_nat (length xs) / of_int s :: rat)" using s by simp
  then have "0 \<le> \<lceil>of_nat (length xs) / of_int s :: rat\<rceil>" by linarith
  moreover have "(if Fin (of_int c) = NaN \<or> num_is_zero (Fin (of_int c)) then Fin 1 else Fin (of_int c)) =
      Fin (of_int (max 1 c))" if "0 \<le> c" for c
    using that by (cases "c = 0") (auto simp: num_is_zero_def max_def)
  ultimately show ?thesis
    by (simp only: paginate_def page_at_def Let_def page_result.simps page_request.simps clamp_size [OF s]
        page_count [OF s t])
qed

lemma concat_chunks:
  assumes "0 < s"
  shows "concat (map (\<lambda>p. take s (drop (p * s) xs)) [0..<n]) = take (n * s) xs"
proof (induction n)
  case 0
  then show ?case by simp
next
  case (Suc n)
  then show ?case by (simp add: take_add add.commute [of s])
qed

lemma pages_of_ints: "map (f :: int \<Rightarrow> 'b) [1..int n] = map (\<lambda>p. f (int p + 1)) [0..<n]"
  by (induction n) (simp_all add: upto_rec2 add.commute)

lemma pages_tile:
  assumes "1 \<le> s" and "s \<le> 100" and "length xs < 2 ^ 46"
  shows "\<exists>n \<ge> 1. pg_totalPages (paginate xs (page_at 1 s)) = Fin (of_int n) \<and>
    concat (map (\<lambda>p. pg_items (paginate xs (page_at p s))) [1..n]) = xs \<and>
    (\<forall>p \<in> {1..n}. int (length (pg_items (paginate xs (page_at p s)))) \<le> s)"
proof -
  define n where "n = max 1 \<lceil>of_nat (length xs) / of_int s :: rat\<rceil>"
  have s0: "(0 :: rat) < of_int s" using assms(1) by simp
  have n1: "1 \<le> n" by (simp add: n_def)
  have "rat_of_nat (length xs) / of_int s \<le> of_int n"
    unfolding n_def using le_of_int_ceiling [of "of_nat (length xs) / of_int s :: rat"]
    by (metis max.cobounded2 of_int_le_iff order_trans)
  then have "rat_of_nat (length xs) \<le> of_int (n * s)" using s0 by (simp add: divide_le_eq)
  then have "rat_of_int (int (length xs)) \<le> of_int (n * s)" by simp
  then have cover: "int (length xs) \<le> n * s" by (simp only: of_int_le_iff)
  have "rat_of_nat (length xs) / of_int s \<le> of_nat (length xs)"
    using assms(1) by (simp add: divide_le_eq mult_le_cancel_left1)
  then have "n \<le> max 1 (int (length xs))" unfolding n_def by (auto simp: ceiling_le_iff)
  then have small: "p < 2 ^ 46" if "p \<le> n" for p using that assms(3) by auto
  have item: "pg_items (paginate xs (page_at p s)) = take (nat s) (drop (nat ((p - 1) * s)) xs)"
    if "1 \<le> p" "p \<le> n" for p
    using paginate_page [OF assms(1,2) that(1) small [OF that(2)]] .
  have "map (\<lambda>p. pg_items (paginate xs (page_at p s))) [1..int (nat n)] =
      map (\<lambda>p. take (nat s) (drop (p * nat s) xs)) [0..<nat n]"
    unfolding pages_of_ints using n1 assms(1) by (intro map_cong) (auto simp: item nat_mult_distrib)
  then have "concat (map (\<lambda>p. pg_items (paginate xs (page_at p s))) [1..n]) = take (nat n * nat s) xs"
    using n1 concat_chunks [of "nat s"] assms(1) by simp
  also have "\<dots> = xs" using cover n1 by (simp add: nat_mult_distrib [symmetric] nat_le_iff le_nat_iff)
  finally have "concat (map (\<lambda>p. pg_items (paginate xs (page_at p s))) [1..n]) = xs" .
  moreover have "pg_totalPages (paginate xs (page_at 1 s)) = Fin (of_int n)"
    unfolding n_def by (rule paginate_total_pages [OF assms])
  moreover have "\<forall>p \<in> {1..n}. int (length (pg_items (paginate xs (page_at p s)))) \<le> s"
    using item assms(1) by auto
  ultimately show ?thesis using n1 by blast
qed

text \<open>
  Pages tile the list: for every page size from 1 to 100 the pages from the first to the
  announced last one, put together, are the whole list, and no page is longer than its size.
\<close>

theorem pages_tile_list:
  assumes "1 \<le> s" and "s \<le> 100" and "length xs < 2 ^ 46"
  shows "\<exists>n \<ge> 1. pg_totalPages (paginate xs (page_at 1 s)) = Fin (of_int n) \<and>
    concat (map (\<lambda>p. pg_items (paginate xs (page_at p s))) [1..n]) = xs \<and>
    (\<forall>p \<in> {1..n}. int (length (pg_items (paginate xs (page_at p s)))) \<le> s)"
  using assms by (rule pages_tile)

lemma pages_tile_list_witness:
  "\<exists>n \<ge> 1. pg_totalPages (paginate [1, 2, 3, 4, 5 :: nat] (page_at 1 2)) = Fin (of_int n) \<and>
    concat (map (\<lambda>p. pg_items (paginate [1, 2, 3, 4, 5 :: nat] (page_at p 2))) [1..n]) = [1, 2, 3, 4, 5]"
  using pages_tile_list [of 2 "[1, 2, 3, 4, 5 :: nat]"] by fastforce

subsection \<open>Searching\<close>

text \<open>What the program relies on in \<^verbatim>\<open>localeCompare\<close>: it is a consistent comparator.\<close>

definition comparator_ok :: "(string \<Rightarrow> string \<Rightarrow> int) \<Rightarrow> bool" where
  "comparator_ok cmp \<longleftrightarrow> (\<forall>a b. cmp a b \<le> 0 \<or> cmp b a \<le> 0) \<and>
     (\<forall>a b c. cmp a b \<le> 0 \<longrightarrow> cmp b c \<le> 0 \<longrightarrow> cmp a c \<le> 0)"

lemma mset_insert_by: "mset (insert_by c x xs) = add_mset x (mset xs)"
  by (induction xs) auto

lemma mset_sort_by: "mset (sort_by c xs) = mset xs"
  unfolding sort_by_def by (induction xs) (auto simp: mset_insert_by)

lemma set_insert_by [simp]: "set (insert_by c x xs) = insert x (set xs)"
  by (induction xs) auto

lemma sorted_insert_by:
  assumes "\<And>a b. c a b \<le> 0 \<or> c b a \<le> 0" and "\<And>a b d. c a b \<le> 0 \<Longrightarrow> c b d \<le> 0 \<Longrightarrow> c a d \<le> 0"
    and "sorted_wrt (\<lambda>a b. c a b \<le> 0) xs"
  shows "sorted_wrt (\<lambda>a b. c a b \<le> 0) (insert_by c x xs)"
  using assms(3)
proof (induction xs)
  case Nil
  then show ?case by simp
next
  case (Cons y ys)
  show ?case
  proof (cases "c x y \<le> 0")
    case True
    then show ?thesis using Cons.prems assms(2) by auto
  next
    case False
    then have "c y x \<le> 0" using assms(1) by blast
    then show ?thesis using False Cons by auto
  qed
qed

lemma sorted_sort_by:
  assumes "\<And>a b. c a b \<le> 0 \<or> c b a \<le> 0" and "\<And>a b d. c a b \<le> 0 \<Longrightarrow> c b d \<le> 0 \<Longrightarrow> c a d \<le> 0"
  shows "sorted_wrt (\<lambda>a b. c a b \<le> 0) (sort_by c xs)"
  unfolding sort_by_def by (induction xs) (simp_all add: sorted_insert_by [of c, OF assms])

lemma sortRuns_desc:
  assumes "comparator_ok cmp"
  shows "sorted_wrt (\<lambda>a b. cmp (run_sort_value k b) (run_sort_value k a) \<le> 0) (sortRuns cmp k True runs)"
  unfolding sortRuns_def Let_def if_True
  using assms by (intro sorted_sort_by) (auto simp: comparator_ok_def)

lemma mset_sortRuns: "mset (sortRuns cmp k desc runs) = mset runs"
  by (simp add: sortRuns_def mset_sort_by)

text \<open>
  C21. A search pages through exactly the runs of the job that match the filter, each once, newest
  start first: put together, its pages are a permutation of the matching runs, in descending order
  of their start.
\<close>

theorem search_pages_matching_runs:
  assumes "comparator_ok cmp" and "1 \<le> s" and "s \<le> 100" and "length m < 2 ^ 46"
  shows "\<exists>n. pg_totalPages (search_runs cmp m j flt (page_at 1 s)) = Fin (of_int n) \<and>
    (let pages = concat (map (\<lambda>p. pg_items (search_runs cmp m j flt (page_at p s))) [1..n])
     in mset pages = mset (filter (\<lambda>r. jr_jobId r = j \<and> run_matches flt r) (map_values m)) \<and>
        sorted_wrt (\<lambda>a b. cmp (jr_startedAt b) (jr_startedAt a) \<le> 0) pages)"
proof -
  define xs where "xs = sortRuns cmp ByStartedAt True (filterRuns (run_store_listByJob m j) flt)"
  have ms: "mset xs = mset (filter (\<lambda>r. jr_jobId r = j \<and> run_matches flt r) (map_values m))"
    unfolding xs_def mset_sortRuns filterRuns_def run_store_listByJob_def by (simp add: conj_commute)
  have "length xs = length (filter (\<lambda>r. jr_jobId r = j \<and> run_matches flt r) (map_values m))"
    using ms by (metis size_mset)
  also have "\<dots> \<le> length m" using length_filter_le [of _ "map_values m"] by simp
  finally have "length xs < 2 ^ 46" using assms(4) by simp
  then obtain n where "pg_totalPages (paginate xs (page_at 1 s)) = Fin (of_int n)"
    and "concat (map (\<lambda>p. pg_items (paginate xs (page_at p s))) [1..n]) = xs"
    using pages_tile [OF assms(2,3)] by blast
  moreover have "sorted_wrt (\<lambda>a b. cmp (jr_startedAt b) (jr_startedAt a) \<le> 0) xs"
    unfolding xs_def using sortRuns_desc [OF assms(1), of ByStartedAt] by simp
  ultimately show ?thesis
    using ms unfolding search_runs_def Let_def xs_def [symmetric] by auto
qed

definition code_point_compare :: "string \<Rightarrow> string \<Rightarrow> int" where
  "code_point_compare s t = (if str_less s t then - 1 else if s = t then 0 else 1)"

lemma str_less_total: "str_less s t \<or> s = t \<or> str_less t s"
proof (induction s t rule: str_less.induct)
  case (3 c cs d ds)
  then show ?case
    by (cases "(of_char c :: nat) < of_char d"; cases "(of_char d :: nat) < of_char c")
      (auto dest: antisym simp: not_less of_char_eq_iff)
next
  case (1 s)
  then show ?case by (cases s) auto
qed simp

lemma str_less_trans: "str_less s t \<Longrightarrow> str_less t u \<Longrightarrow> str_less s u"
proof (induction s t arbitrary: u rule: str_less.induct)
  case (3 c cs d ds)
  then show ?case by (cases u) auto
next
  case (2 d ds)
  then show ?case by (cases u) auto
qed simp

lemma code_point_compare_ok: "comparator_ok code_point_compare"
proof -
  have "code_point_compare s t \<le> 0 \<longleftrightarrow> str_less s t \<or> s = t" for s t
    by (simp add: code_point_compare_def)
  then show ?thesis unfolding comparator_ok_def using str_less_total str_less_trans by metis
qed

definition sample_runs :: run_store where
  "sample_runs = (let r = (\<lambda>i t. (i, \<lparr>jr_id = i, jr_jobId = ''j'', jr_workflowId = ''w'', jr_status = Pending,
      jr_startedAt = t, jr_finishedAt = None, jr_trigger = ''api'', jr_input = []\<rparr>))
    in [r ''a'' ''1'', r ''b'' ''3'', r ''c'' ''2''])"

definition since_two :: run_filter where
  "since_two = \<lparr>rf_status = None, rf_jobId = None, rf_triggerPrefix = None, rf_since = Some ''2'', rf_until = None\<rparr>"

lemma search_pages_matching_runs_witness:
  "\<exists>n. pg_totalPages (search_runs code_point_compare sample_runs ''j'' since_two (page_at 1 1)) = Fin (of_int n) \<and>
     mset (concat (map (\<lambda>p. pg_items (search_runs code_point_compare sample_runs ''j'' since_two (page_at p 1))) [1..n])) =
     mset (filter (\<lambda>r. jr_jobId r = ''j'' \<and> run_matches since_two r) (map_values sample_runs))"
proof -
  have l: "length sample_runs < 2 ^ 46" by (simp add: sample_runs_def Let_def)
  have s: "(1 :: int) \<le> 1" "(1 :: int) \<le> 100" by simp_all
  from search_pages_matching_runs [OF code_point_compare_ok s l, of "''j''" since_two] show ?thesis
    unfolding Let_def by blast
qed

end
