(* ===== verification/Dates.thy ===== *)
theory Dates
  imports JsValue
begin

section \<open>Dates and their ISO form\<close>

text \<open>
  What the program uses of \<^verbatim>\<open>Date\<close>: a time value is the number of milliseconds since the
  epoch; its UTC fields, its ISO string and the parsing of that string are computed as the
  language defines them, on the proleptic Gregorian calendar.
\<close>

subsection \<open>Years and months\<close>

definition is_leap :: "int \<Rightarrow> bool" where
  "is_leap y \<longleftrightarrow> y mod 4 = 0 \<and> (y mod 100 \<noteq> 0 \<or> y mod 400 = 0)"

text \<open>\<^verbatim>\<open>DayFromYear\<close>, the number of the first day of a year.\<close>

definition days_from_year :: "int \<Rightarrow> int" where
  "days_from_year y = 365 * (y - 1970) + (y - 1969) div 4 - (y - 1901) div 100 + (y - 1601) div 400"

lemma div_step: "0 < n \<Longrightarrow> (a + 1) div n = a div n + (if (a + 1) mod n = 0 then 1 else (0 :: int))"
proof -
  assume n: "0 < n"
  have "(a + 1) div n = a div n + (a mod n + 1) div n"
    by (metis add.assoc div_mult_self4 mult_div_mod_eq n less_irrefl)
  moreover have "(a + 1) mod n = (a mod n + 1) mod n" by (simp add: mod_add_left_eq)
  moreover have "a mod n + 1 \<le> n" "0 \<le> a mod n"
    using pos_mod_bound [OF n, of a] pos_mod_sign [OF n, of a] by linarith+
  ultimately show ?thesis
  proof (cases "a mod n + 1 = n")
    case False
    with \<open>a mod n + 1 \<le> n\<close> \<open>0 \<le> a mod n\<close>
    have "(a mod n + 1) div n = 0" "(a mod n + 1) mod n = a mod n + 1"
      by (simp_all add: div_pos_pos_trivial mod_pos_pos_trivial)
    moreover have "a mod n + 1 \<noteq> 0" using \<open>0 \<le> a mod n\<close> by linarith
    ultimately show ?thesis
      using \<open>(a + 1) div n = a div n + (a mod n + 1) div n\<close> \<open>(a + 1) mod n = (a mod n + 1) mod n\<close> by simp
  qed (use n in simp)
qed

lemma days_from_year_Suc: "days_from_year (y + 1) = days_from_year y + (if is_leap y then 366 else 365)"
proof -
  have m: "(y - 1968) mod 4 = y mod 4" "(y - 1900) mod 100 = y mod 100" "(y - 1600) mod 400 = y mod 400"
    using mod_mult_self1 [of y "- 492" 4] mod_mult_self1 [of y "- 19" 100] mod_mult_self1 [of y "- 4" 400]
    by simp_all
  have a: "(y + 1 - 1969) div 4 = (y - 1969) div 4 + (if y mod 4 = 0 then 1 else 0)"
    using div_step [of 4 "y - 1969"] m(1) by (simp add: algebra_simps)
  have b: "(y + 1 - 1901) div 100 = (y - 1901) div 100 + (if y mod 100 = 0 then 1 else 0)"
    using div_step [of 100 "y - 1901"] m(2) by (simp add: algebra_simps)
  have c: "(y + 1 - 1601) div 400 = (y - 1601) div 400 + (if y mod 400 = 0 then 1 else 0)"
    using div_step [of 400 "y - 1601"] m(3) by (simp add: algebra_simps)
  have "y mod 100 = 0 \<Longrightarrow> y mod 4 = 0"
    unfolding dvd_eq_mod_eq_0 [symmetric] by (rule dvd_trans [of 4 100]) simp_all
  moreover have "y mod 400 = 0 \<Longrightarrow> y mod 100 = 0"
    unfolding dvd_eq_mod_eq_0 [symmetric] by (rule dvd_trans [of 100 400]) simp_all
  moreover have "days_from_year (y + 1) = days_from_year y + 365 + (if y mod 4 = 0 then 1 else 0) -
      (if y mod 100 = 0 then 1 else 0) + (if y mod 400 = 0 then 1 else 0)"
    unfolding days_from_year_def a b c by simp
  ultimately show ?thesis
    unfolding is_leap_def
    by (cases "y mod 4 = 0"; cases "y mod 100 = 0"; cases "y mod 400 = 0") (simp_all (no_asm_simp))
qed

text \<open>The year of a day: climb from an underestimate.\<close>

function year_climb :: "int \<Rightarrow> int \<Rightarrow> int" where
  "year_climb d y = (if days_from_year (y + 1) \<le> d then year_climb d (y + 1) else y)"
  by pat_completeness auto
termination
  by (relation "measure (\<lambda>(d, y). nat (d - days_from_year y))") (auto simp: days_from_year_Suc split: if_splits)

declare year_climb.simps [simp del]

definition year_of_day :: "int \<Rightarrow> int" where
  "year_of_day d = year_climb d (1968 + (if 0 \<le> d then d div 366 else d div 365))"

lemma year_climb_bounds:
  "days_from_year y \<le> d \<Longrightarrow>
     days_from_year (year_climb d y) \<le> d \<and> d < days_from_year (year_climb d y + 1)"
proof (induction d y rule: year_climb.induct)
  case (1 d y)
  then show ?case by (subst (1 2) year_climb.simps) auto
qed

lemma leap_slack:
  assumes "0 \<le> k \<and> 366 * k \<le> d \<or> k < 0 \<and> 365 * k \<le> d"
    and "4 * p \<le> k - 1" and "k + 67 < 100 * q + 100" and "400 * r \<le> k + 367"
  shows "365 * (k - 2) + p - q + r \<le> (d :: int)"
  using assms by (elim disjE) simp_all

lemma year_start_low: "days_from_year (1968 + (if 0 \<le> d then d div 366 else d div 365)) \<le> d"
proof -
  have e: "days_from_year (1968 + k) = 365 * (k - 2) + (k - 1) div 4 - (k + 67) div 100 + (k + 367) div 400" for k
    by (simp add: days_from_year_def add.commute)
  have b: "n * (a div n) \<le> a" "a < n * (a div n) + n" if "0 < n" for a n :: int
    using mult_div_mod_eq [of n a] pos_mod_sign [OF that, of a] pos_mod_bound [OF that, of a] by linarith+
  have b4: "4 * (a div 4) \<le> a" and b100: "a < 100 * (a div 100) + 100" and b400: "400 * (a div 400) \<le> a" for a :: int
    using b(1) [of 4 a] b(2) [of 100 a] b(1) [of 400 a] by simp_all
  have l: "365 * (k - 2) + (k - 1) div 4 - (k + 67) div 100 + (k + 367) div 400 \<le> d"
    if "0 \<le> k \<and> 366 * k \<le> d \<or> k < 0 \<and> 365 * k \<le> d" for k
    using that leap_slack [of k d, OF _ b4 b100 b400] by blast
  show ?thesis
    unfolding e using b(1) [of 366 d] b(1) [of 365 d] by (intro l) (auto simp: div_less_iff_less_mult)
qed

lemma year_of_day_bounds: "days_from_year (year_of_day d) \<le> d \<and> d < days_from_year (year_of_day d + 1)"
  unfolding year_of_day_def by (rule year_climb_bounds [OF year_start_low])

definition month_lengths :: "int \<Rightarrow> int list" where
  "month_lengths y = [31, if is_leap y then 29 else 28, 31, 30, 31, 30, 31, 31, 30, 31, 30, 31]"

fun split_month :: "int list \<Rightarrow> int \<Rightarrow> int \<times> int" where
  "split_month [] k = (1, k + 1)"
| "split_month (l # ls) k =
     (if k < l then (1, k + 1) else (case split_month ls (k - l) of (m, d) \<Rightarrow> (m + 1, d)))"

definition day_of :: "int \<Rightarrow> int \<Rightarrow> int \<Rightarrow> int" where
  "day_of y m d = days_from_year y + sum_list (take (nat (m - 1)) (month_lengths y)) + d - 1"

lemma split_month_bounds:
  assumes "0 \<le> k" and "k < sum_list ls" and "\<forall>l \<in> set ls. 0 < l"
  shows "case split_month ls k of (m, d) \<Rightarrow>
    1 \<le> m \<and> m \<le> int (length ls) \<and> 1 \<le> d \<and> d \<le> ls ! nat (m - 1) \<and>
    sum_list (take (nat (m - 1)) ls) + d - 1 = k"
  using assms
proof (induction ls k rule: split_month.induct)
  case (1 k)
  then show ?case by simp
next
  case (2 l ls k)
  show ?case
  proof (cases "k < l")
    case True
    then show ?thesis using 2 by simp
  next
    case False
    obtain m d where md: "split_month ls (k - l) = (m, d)" by (cases "split_month ls (k - l)")
    have "1 \<le> m \<and> m \<le> int (length ls) \<and> 1 \<le> d \<and> d \<le> ls ! nat (m - 1) \<and>
        sum_list (take (nat (m - 1)) ls) + d - 1 = k - l"
      using 2(1) [OF False] 2(2-4) False md by simp
    moreover from this obtain j where "m = int j + 1" by (metis diff_add_cancel zero_le_imp_eq_int le_diff_eq add_0)
    moreover have "nat (int j + 1) = Suc j" "nat (1 + int j) = Suc j" by simp_all
    ultimately show ?thesis using False md by simp
  qed
qed

subsection \<open>The fields of a time value\<close>

definition day_number :: "int \<Rightarrow> int" where
  "day_number t = t div 86400000"

definition utc_year :: "int \<Rightarrow> int" where
  "utc_year t = year_of_day (day_number t)"

definition utc_month_date :: "int \<Rightarrow> int \<times> int" where
  "utc_month_date t =
     (let y = utc_year t in split_month (month_lengths y) (day_number t - days_from_year y))"

definition utc_hours :: "int \<Rightarrow> int" where
  "utc_hours t = t div 3600000 mod 24"

definition utc_minutes :: "int \<Rightarrow> int" where
  "utc_minutes t = t div 60000 mod 60"

definition utc_seconds :: "int \<Rightarrow> int" where
  "utc_seconds t = t div 1000 mod 60"

definition utc_millis :: "int \<Rightarrow> int" where
  "utc_millis t = t mod 1000"

definition utc_weekday :: "int \<Rightarrow> int" where
  "utc_weekday t = (day_number t + 4) mod 7"

lemma time_of_day:
  "day_number t * 86400000 + utc_hours t * 3600000 + utc_minutes t * 60000 + utc_seconds t * 1000 +
   utc_millis t = t"
  unfolding day_number_def utc_hours_def utc_minutes_def utc_seconds_def utc_millis_def
proof -
  have a: "t div 1000 * 1000 + t mod 1000 = t" by simp
  have b: "t div 60000 * 60 + t div 1000 mod 60 = t div 1000"
    using div_mult_mod_eq [of "t div 1000" 60] by (simp add: zdiv_zmult2_eq [symmetric])
  have c: "t div 3600000 * 60 + t div 60000 mod 60 = t div 60000"
    using div_mult_mod_eq [of "t div 60000" 60] by (simp add: zdiv_zmult2_eq [symmetric])
  have d: "t div 86400000 * 24 + t div 3600000 mod 24 = t div 3600000"
    using div_mult_mod_eq [of "t div 3600000" 24] by (simp add: zdiv_zmult2_eq [symmetric])
  show "t div 86400000 * 86400000 + t div 3600000 mod 24 * 3600000 + t div 60000 mod 60 * 60000 +
      t div 1000 mod 60 * 1000 + t mod 1000 = t"
    using a b c d by linarith
qed

lemma month_date_day:
  "case utc_month_date t of (m, d) \<Rightarrow>
     1 \<le> m \<and> m \<le> 12 \<and> 1 \<le> d \<and> d \<le> month_lengths (utc_year t) ! nat (m - 1) \<and>
     day_of (utc_year t) m d = day_number t"
proof -
  let ?y = "utc_year t"
  have b: "days_from_year ?y \<le> day_number t" "day_number t < days_from_year (?y + 1)"
    using year_of_day_bounds [of "day_number t"] by (simp_all add: utc_year_def)
  have "sum_list (month_lengths ?y) = (if is_leap ?y then 366 else 365)" by (simp add: month_lengths_def)
  then have "day_number t - days_from_year ?y < sum_list (month_lengths ?y)"
    using b(2) by (simp add: days_from_year_Suc)
  then have "case split_month (month_lengths ?y) (day_number t - days_from_year ?y) of (m, d) \<Rightarrow>
    1 \<le> m \<and> m \<le> int (length (month_lengths ?y)) \<and> 1 \<le> d \<and> d \<le> month_lengths ?y ! nat (m - 1) \<and>
    sum_list (take (nat (m - 1)) (month_lengths ?y)) + d - 1 = day_number t - days_from_year ?y"
    using b(1) by (intro split_month_bounds) (auto simp: month_lengths_def)
  moreover have "length (month_lengths ?y) = 12" by (simp add: month_lengths_def)
  ultimately show ?thesis by (auto simp: utc_month_date_def Let_def day_of_def)
qed

subsection \<open>The ISO string\<close>

text \<open>A number with leading zeros, and a year outside 0 to 9999 with its sign and six digits.\<close>

definition dig :: "int \<Rightarrow> int \<Rightarrow> char" where
  "dig n p = digit_char (nat (n div p mod 10))"

definition iso_year :: "int \<Rightarrow> string" where
  "iso_year y =
     (if 0 \<le> y \<and> y \<le> 9999 then [dig y 1000, dig y 100, dig y 10, dig y 1]
      else (if y < 0 then CHR ''-'' else CHR ''+'') #
        [dig \<bar>y\<bar> 100000, dig \<bar>y\<bar> 10000, dig \<bar>y\<bar> 1000, dig \<bar>y\<bar> 100, dig \<bar>y\<bar> 10, dig \<bar>y\<bar> 1])"

definition two :: "int \<Rightarrow> string" where
  "two n = [dig n 10, dig n 1]"

definition to_iso :: "int \<Rightarrow> string" where
  "to_iso t =
     (case utc_month_date t of (m, d) \<Rightarrow>
        iso_year (utc_year t) @ ''-'' @ two m @ ''-'' @ two d @ ''T'' @ two (utc_hours t) @ '':'' @
        two (utc_minutes t) @ '':'' @ two (utc_seconds t) @ ''.'' @
        [dig (utc_millis t) 100, dig (utc_millis t) 10, dig (utc_millis t) 1] @ ''Z'')"

text \<open>
  \<^verbatim>\<open>new Date(s)\<close> for the form above with a four-digit year; other strings, and days outside
  their month, are not followed.
\<close>

definition num_at :: "string \<Rightarrow> nat \<Rightarrow> nat \<Rightarrow> int" where
  "num_at s i n = int (digits_val 10 (take n (drop i s)))"

definition iso_shape :: "string \<Rightarrow> bool" where
  "iso_shape s \<longleftrightarrow> length s = 24 \<and>
     list_all (\<lambda>i. is_digit (s ! i)) [0, 1, 2, 3, 5, 6, 8, 9, 11, 12, 14, 15, 17, 18, 20, 21, 22] \<and>
     s ! 4 = CHR ''-'' \<and> s ! 7 = CHR ''-'' \<and> s ! 10 = CHR ''T'' \<and> s ! 13 = CHR '':'' \<and>
     s ! 16 = CHR '':'' \<and> s ! 19 = CHR ''.'' \<and> s ! 23 = CHR ''Z''"

definition parse_iso :: "string \<Rightarrow> int res" where
  "parse_iso s =
     (let y = num_at s 0 4; m = num_at s 5 2; d = num_at s 8 2; hh = num_at s 11 2; mm = num_at s 14 2;
          ss = num_at s 17 2; ms = num_at s 20 3
      in if iso_shape s \<and> 1 \<le> m \<and> m \<le> 12 \<and> 1 \<le> d \<and> d \<le> month_lengths y ! nat (m - 1) \<and> hh < 24 \<and> mm < 60 \<and> ss < 60
         then Inr (day_of y m d * 86400000 + hh * 3600000 + mm * 60000 + ss * 1000 + ms)
         else Inl (Unmodelled ''date string''))"

lemma digit_char_val [simp]: "n < 10 \<Longrightarrow> digit_val (digit_char n) = n"
  by (simp add: digit_val_def digit_char_def Let_def)

lemma digit_char_is_digit [simp]: "n < 10 \<Longrightarrow> is_digit (digit_char n)"
  by (simp add: is_digit_def digit_char_def)

lemma dig_simps [simp]: "is_digit (dig n p)" "digit_val (dig n p) = nat (n div p mod 10)"
proof -
  have "nat (n div p mod 10) < 10" by simp
  then show "is_digit (dig n p)" "digit_val (dig n p) = nat (n div p mod 10)"
    unfolding dig_def by (rule digit_char_is_digit, rule digit_char_val)
qed

lemma digit_step: "0 < p \<Longrightarrow> n div p mod 10 + 10 * (n div (p * 10)) = n div p" for n p :: int
  using mod_mult_div_eq [of "n div p" 10] zdiv_zmult2_eq [of 10 n p] by simp

lemma digit_steps:
  fixes n :: int
  shows "n mod 10 + 10 * (n div 10) = n" "n div 10 mod 10 + 10 * (n div 100) = n div 10"
    "n div 100 mod 10 + 10 * (n div 1000) = n div 100" "n div 1000 mod 10 + 10 * (n div 10000) = n div 1000"
  using digit_step [of 10 n] digit_step [of 100 n] digit_step [of 1000 n] by simp_all

lemma int_digits [simp]: "int (nat (n mod 10)) = n mod 10"
  by simp

lemma digits_num:
  "int (digits_val 10 [dig n 10, dig n 1]) = n div 10 mod 10 * 10 + n mod 10"
  "int (digits_val 10 [dig n 100, dig n 10, dig n 1]) = (n div 100 mod 10 * 10 + n div 10 mod 10) * 10 + n mod 10"
  "int (digits_val 10 [dig n 1000, dig n 100, dig n 10, dig n 1]) =
     ((n div 1000 mod 10 * 10 + n div 100 mod 10) * 10 + n div 10 mod 10) * 10 + n mod 10"
  by (simp_all only: digits_val_def foldl.simps dig_simps of_nat_add of_nat_mult int_digits of_nat_numeral
      div_by_1 mult_0_right mult_zero_left add_0 of_nat_0 mult.commute [of 10])

lemma digits_join:
  fixes a b c d n x y z w :: int
  shows "a + 10 * x = n \<Longrightarrow> b + 10 * y = x \<Longrightarrow> y = 0 \<Longrightarrow> b * 10 + a = n"
    and "a + 10 * x = n \<Longrightarrow> b + 10 * y = x \<Longrightarrow> c + 10 * z = y \<Longrightarrow> z = 0 \<Longrightarrow> (c * 10 + b) * 10 + a = n"
    and "a + 10 * x = n \<Longrightarrow> b + 10 * y = x \<Longrightarrow> c + 10 * z = y \<Longrightarrow> d + 10 * w = z \<Longrightarrow> w = 0 \<Longrightarrow>
      ((d * 10 + c) * 10 + b) * 10 + a = n"
  by simp_all

lemma digits_two: "0 \<le> n \<Longrightarrow> n < 100 \<Longrightarrow> int (digits_val 10 [dig n 10, dig n 1]) = n"
  unfolding digits_num by (rule digits_join(1) [OF digit_steps(1,2)]) simp

lemma digits_three: "0 \<le> n \<Longrightarrow> n < 1000 \<Longrightarrow> int (digits_val 10 [dig n 100, dig n 10, dig n 1]) = n"
  unfolding digits_num by (rule digits_join(2) [OF digit_steps(1-3)]) simp

lemma digits_four: "0 \<le> n \<Longrightarrow> n < 10000 \<Longrightarrow> int (digits_val 10 [dig n 1000, dig n 100, dig n 10, dig n 1]) = n"
  unfolding digits_num by (rule digits_join(3) [OF digit_steps]) simp

lemma parse_to_iso:
  assumes "0 \<le> utc_year t" and "utc_year t \<le> 9999"
  shows "parse_iso (to_iso t) = Inr t"
proof -
  obtain m d where md: "utc_month_date t = (m, d)" by (cases "utc_month_date t")
  have b: "1 \<le> m" "m \<le> 12" "1 \<le> d" "d \<le> month_lengths (utc_year t) ! nat (m - 1)"
    "day_of (utc_year t) m d = day_number t"
    using month_date_day [of t] by (simp_all add: md)
  have "set (month_lengths (utc_year t)) \<subseteq> {..31}" by (simp add: month_lengths_def)
  moreover have "nat (m - 1) < length (month_lengths (utc_year t))" using b by (simp add: month_lengths_def)
  ultimately have "month_lengths (utc_year t) ! nat (m - 1) \<le> 31" by (meson atMost_iff nth_mem subsetD)
  then have d31: "d < 100" using b(4) by simp
  have hms: "0 \<le> utc_hours t" "utc_hours t < 24" "0 \<le> utc_minutes t" "utc_minutes t < 60"
    "0 \<le> utc_seconds t" "utc_seconds t < 60" "0 \<le> utc_millis t" "utc_millis t < 1000"
    by (simp_all add: utc_hours_def utc_minutes_def utc_seconds_def utc_millis_def)
  let ?s = "to_iso t"
  have s: "?s = [dig (utc_year t) 1000, dig (utc_year t) 100, dig (utc_year t) 10, dig (utc_year t) 1,
      CHR ''-'', dig m 10, dig m 1, CHR ''-'', dig d 10, dig d 1, CHR ''T'', dig (utc_hours t) 10, dig (utc_hours t) 1,
      CHR '':'', dig (utc_minutes t) 10, dig (utc_minutes t) 1, CHR '':'', dig (utc_seconds t) 10, dig (utc_seconds t) 1,
      CHR ''.'', dig (utc_millis t) 100, dig (utc_millis t) 10, dig (utc_millis t) 1, CHR ''Z'']"
    using assms by (simp add: to_iso_def md iso_year_def two_def)
  have n: "num_at ?s 0 4 = utc_year t" "num_at ?s 5 2 = m" "num_at ?s 8 2 = d" "num_at ?s 11 2 = utc_hours t"
    "num_at ?s 14 2 = utc_minutes t" "num_at ?s 17 2 = utc_seconds t" "num_at ?s 20 3 = utc_millis t"
    unfolding num_at_def s using assms b hms d31 digits_two digits_three digits_four
    by (simp_all add: numeral_eq_Suc)
  have shape: "iso_shape ?s" unfolding s iso_shape_def by (simp add: numeral_eq_Suc)
  show ?thesis
    unfolding parse_iso_def Let_def n using shape b hms by (simp add: time_of_day)
qed



end
