(* ===== verification/Cron.thy ===== *)
theory Cron
  imports Dates Execution
begin

section \<open>Cron schedules\<close>

text \<open>
  utils/cron.ts, validators/schedule-validator.ts, storage/memory/schedule-store.ts,
  services/schedule-service.ts and workers/cron-ticker.ts. The clock of the schedule service gives
  a time value per read. A tick of the ticker creates the runs of the due schedules through the
  workflow service's model; the executions it starts without waiting for them are only recorded.
\<close>

subsection \<open>Cron expressions (utils/cron.ts)\<close>

text \<open>\<^verbatim>\<open>s.split(/\s+/)\<close> and \<^verbatim>\<open>s.split(",")\<close>\<close>

function split_ws :: "string \<Rightarrow> string list" where
  "split_ws s =
     (let w = takeWhile (\<lambda>c. \<not> is_ws c) s; r = dropWhile (\<lambda>c. \<not> is_ws c) s
      in if r = [] then [w] else w # split_ws (dropWhile is_ws r))"
  by pat_completeness auto
termination
proof (relation "measure length", simp)
  fix s w r :: string
  assume r: "r = dropWhile (\<lambda>c. \<not> is_ws c) s" and "r \<noteq> []"
  then obtain c cs where cs: "r = c # cs" "is_ws c"
    by (metis (no_types, lifting) hd_dropWhile list.collapse)
  then have "length (dropWhile is_ws r) \<le> length cs" by (simp add: length_dropWhile_le)
  also have "\<dots> < length r" by (simp add: cs)
  also have "\<dots> \<le> length s" by (simp add: r length_dropWhile_le)
  finally show "(dropWhile is_ws r, s) \<in> measure length" by simp
qed

declare split_ws.simps [simp del]

text \<open>\<^verbatim>\<open>value % step\<close> of a non-negative integer and a positive step.\<close>

definition rem_is_zero :: "int \<Rightarrow> jsnum \<Rightarrow> bool" where
  "rem_is_zero v step =
     (case step of
        Fin r \<Rightarrow> of_int v - r * of_int \<lfloor>of_int v / r\<rfloor> = 0
      | PInf \<Rightarrow> v = 0
      | _ \<Rightarrow> False)"

definition matchField :: "string \<Rightarrow> int \<Rightarrow> bool" where
  "matchField expr v =
     (if expr = ''*'' then True
      else if take 2 expr = ''*/''
      then (let step = str_to_num (drop 2 expr) in num_lt (Fin 0) step \<and> rem_is_zero v step)
      else if str_includes expr '',''
      then list_ex (\<lambda>p. num_eq (str_to_num p) (Fin (of_int v))) (split_on (CHR '','') expr)
      else num_eq (str_to_num expr) (Fin (of_int v)))"

definition matchesCron :: "string \<Rightarrow> int \<Rightarrow> bool" where
  "matchesCron expression date =
     (case split_ws (trim expression) of
        [minExpr, hourExpr, domExpr, monthExpr, dowExpr] \<Rightarrow>
          (case utc_month_date date of (month, monthDay) \<Rightarrow>
             matchField minExpr (utc_minutes date) \<and> matchField hourExpr (utc_hours date) \<and>
             matchField domExpr monthDay \<and> matchField monthExpr month \<and>
             matchField dowExpr (utc_weekday date))
      | _ \<Rightarrow> False)"

text \<open>The loop over the minutes of 366 days; \<open>None\<close> when it ran to its end.\<close>

fun cron_search :: "nat \<Rightarrow> string \<Rightarrow> int \<Rightarrow> int option" where
  "cron_search 0 expression cursor = None"
| "cron_search (Suc i) expression cursor =
     (let cursor' = cursor + 60000
      in if matchesCron expression cursor' then Some cursor' else cron_search i expression cursor')"

definition whole_minute :: "int \<Rightarrow> int" where
  "whole_minute t = t div 60000 * 60000"

definition nextCronRun :: "string \<Rightarrow> int \<Rightarrow> int res" where
  "nextCronRun expression after =
     (case cron_search (60 * 24 * 366) expression (whole_minute after) of
        Some t \<Rightarrow> Inr t
      | None \<Rightarrow> Inl (JsError ''no cron match within horizon''))"

subsection \<open>ScheduleValidator\<close>

definition FORBIDDEN :: "string list" where
  "FORBIDDEN = [''@'', ''rm '', ''curl '', ''wget '']"

definition validateCron :: "string \<Rightarrow> unit res" where
  "validateCron expression =
     (if length (split_ws (trim expression)) \<noteq> 5
      then Inl (ValidationError ''cron must have 5 fields'' [])
      else if list_ex (\<lambda>token. str_includes expression token) FORBIDDEN
      then Inl (ValidationError ''cron expression contains forbidden token'' [])
      else Inr ())"

subsection \<open>Schedules and their store\<close>

record cron_schedule =
  cs_id :: string
  cs_tenantId :: string
  cs_jobId :: job_id
  cs_cronExpression :: string
  cs_timezone :: string
  cs_enabled :: bool
  cs_lastTriggeredAt :: "iso_date option"
  cs_nextRunAt :: "iso_date option"
  cs_defaultInput :: jsobj
  cs_createdAt :: iso_date

type_synonym schedule_store_map = "(string, cron_schedule) jsmap"

definition schedule_save :: "cron_schedule \<Rightarrow> schedule_store_map \<Rightarrow> schedule_store_map" where
  "schedule_save schedule m = map_set (cs_id schedule) schedule m"

definition schedule_get :: "schedule_store_map \<Rightarrow> string \<Rightarrow> cron_schedule option" where
  "schedule_get m i = map_get m i"

definition schedule_listByTenant :: "schedule_store_map \<Rightarrow> string \<Rightarrow> cron_schedule list" where
  "schedule_listByTenant m tenantId = filter (\<lambda>s. cs_tenantId s = tenantId) (map_values m)"

definition schedule_listEnabled :: "schedule_store_map \<Rightarrow> cron_schedule list" where
  "schedule_listEnabled m = filter cs_enabled (map_values m)"

interpretation schedules: keyed_store cs_id "[]" schedule_save schedule_get map_values "store_ok cs_id"
  unfolding schedule_save_def [abs_def] schedule_get_def [abs_def]
  by (rule mem_store)

subsection \<open>ScheduleService\<close>

record sched_env =
  se_now :: "nat \<Rightarrow> int"
  se_uuid :: "nat \<Rightarrow> string"

record cron_system =
  cy_engine :: engine
  cy_schedules :: schedule_store_map
  cy_reads :: nat
  cy_started :: "run_id list"

type_synonym 'a cron = "(cron_system, err, 'a) act"

definition cron_read :: "(nat \<Rightarrow> 'a) \<Rightarrow> 'a cron" where
  "cron_read f s = (Inr (f (cy_reads s)), s\<lparr>cy_reads := Suc (cy_reads s)\<rparr>)"

definition schedule_put :: "cron_schedule \<Rightarrow> unit cron" where
  "schedule_put schedule = writes (\<lambda>s. s\<lparr>cy_schedules := schedule_save schedule (cy_schedules s)\<rparr>)"

definition schedule_create ::
    "sched_env \<Rightarrow> string \<Rightarrow> job_id \<Rightarrow> string \<Rightarrow> string option \<Rightarrow> jsobj option \<Rightarrow> cron_schedule cron" where
  "schedule_create v tenantId jobId expression timezone input =
     bind_a (cron_read (se_now v)) (\<lambda>now1.
     case nextCronRun expression now1 of
       Inl err \<Rightarrow> throw (ValidationError (''invalid cron expression: '' @ expression) [])
     | Inr t \<Rightarrow>
         bind_a (cron_read (se_now v)) (\<lambda>created.
         bind_a (cron_read (se_uuid v)) (\<lambda>u.
         bind_a (cron_read (se_now v)) (\<lambda>now2.
         bind_a (lift_r (nextCronRun expression now2)) (\<lambda>next_at.
           let schedule = \<lparr>cs_id = ''sched_'' @ take 10 u, cs_tenantId = tenantId, cs_jobId = jobId,
                 cs_cronExpression = expression,
                 cs_timezone = (case timezone of Some z \<Rightarrow> z | None \<Rightarrow> ''UTC''), cs_enabled = True,
                 cs_lastTriggeredAt = None, cs_nextRunAt = Some (to_iso next_at),
                 cs_defaultInput = (case input of Some i \<Rightarrow> i | None \<Rightarrow> []), cs_createdAt = to_iso created\<rparr>
           in bind_a (schedule_put schedule) (\<lambda>w. ret schedule))))))"

definition schedule_due :: "int \<Rightarrow> cron_schedule \<Rightarrow> bool res" where
  "schedule_due now s =
     (case cs_nextRunAt s of
        Some t \<Rightarrow> if t = [] then Inr (matchesCron (cs_cronExpression s) now)
                  else bind_r (parse_iso t) (\<lambda>d. Inr (d \<le> now))
      | None \<Rightarrow> Inr (matchesCron (cs_cronExpression s) now))"

fun filter_r :: "('a \<Rightarrow> bool res) \<Rightarrow> 'a list \<Rightarrow> 'a list res" where
  "filter_r P [] = Inr []"
| "filter_r P (x # xs) =
     bind_r (P x) (\<lambda>b. bind_r (filter_r P xs) (\<lambda>ys. Inr (if b then x # ys else ys)))"

definition dueSchedules :: "sched_env \<Rightarrow> cron_schedule list cron" where
  "dueSchedules v =
     bind_a (reads (\<lambda>s. schedule_listEnabled (cy_schedules s))) (\<lambda>enabled.
     bind_a (cron_read (se_now v)) (\<lambda>now.
     lift_r (filter_r (schedule_due now) enabled)))"

definition markTriggered :: "sched_env \<Rightarrow> cron_schedule \<Rightarrow> cron_schedule cron" where
  "markTriggered v schedule =
     bind_a (cron_read (se_now v)) (\<lambda>now.
     bind_a (lift_r (nextCronRun (cs_cronExpression schedule) now)) (\<lambda>next_at.
     bind_a (cron_read (se_now v)) (\<lambda>last.
       let updated = schedule\<lparr>cs_lastTriggeredAt := Some (to_iso last), cs_nextRunAt := Some (to_iso next_at)\<rparr>
       in bind_a (schedule_put updated) (\<lambda>w. ret updated))))"

definition service_listByTenant :: "string \<Rightarrow> cron_schedule list cron" where
  "service_listByTenant tenantId = reads (\<lambda>s. schedule_listByTenant (cy_schedules s) tenantId)"

definition schedule_disable :: "string \<Rightarrow> unit cron" where
  "schedule_disable i =
     bind_a (reads (\<lambda>s. schedule_get (cy_schedules s) i)) (\<lambda>found.
     case found of
       None \<Rightarrow> throw (ValidationError (''schedule not found: '' @ i) [])
     | Some s \<Rightarrow> schedule_put (s\<lparr>cs_enabled := False\<rparr>))"

subsection \<open>CronTicker\<close>

definition in_engine :: "'a eng \<Rightarrow> 'a cron" where
  "in_engine m s = (case m (cy_engine s) of (r, en) \<Rightarrow> (r, s\<lparr>cy_engine := en\<rparr>))"

fun tick_all :: "env \<Rightarrow> sched_env \<Rightarrow> cron_schedule list \<Rightarrow> unit cron" where
  "tick_all e v [] = ret ()"
| "tick_all e v (s # due) =
     bind_a (in_engine (createRun e (cs_jobId s) ''cron'' (cs_defaultInput s))) (\<lambda>(run, w, def).
     bind_a (markTriggered v s) (\<lambda>updated.
     bind_a (writes (\<lambda>st. st\<lparr>cy_started := cy_started st @ [jr_id run]\<rparr>)) (\<lambda>u.
       tick_all e v due)))"

definition tick :: "env \<Rightarrow> sched_env \<Rightarrow> unit cron" where
  "tick e v = bind_a (dueSchedules v) (tick_all e v)"

subsection \<open>The next run is the earliest one\<close>

lemma cron_search_Some:
  "cron_search n x c = Some t \<Longrightarrow>
     \<exists>k. 1 \<le> k \<and> k \<le> n \<and> t = c + int k * 60000 \<and> matchesCron x t \<and>
       (\<forall>j. 1 \<le> j \<and> j < k \<longrightarrow> \<not> matchesCron x (c + int j * 60000))"
proof (induction n x c rule: cron_search.induct)
  case (1 x c)
  then show ?case by simp
next
  case (2 i x c)
  show ?case
  proof (cases "matchesCron x (c + 60000)")
    case True
    then show ?thesis using 2(2) by (intro exI [of _ 1]) (auto simp: Let_def)
  next
    case False
    then obtain k where k: "1 \<le> k" "k \<le> i" "t = c + 60000 + int k * 60000" "matchesCron x t"
      and n: "\<forall>j. 1 \<le> j \<and> j < k \<longrightarrow> \<not> matchesCron x (c + 60000 + int j * 60000)"
      using 2(1) [OF refl False] 2(2) by (auto simp: Let_def)
    have "\<not> matchesCron x (c + int j * 60000)" if "1 \<le> j" "j < Suc k" for j
    proof (cases j)
      case (Suc m)
      then show ?thesis using that n [rule_format, of m] False by (cases m) (auto simp: algebra_simps)
    qed (use that in simp)
    then show ?thesis using k by (intro exI [of _ "Suc k"]) (auto simp: algebra_simps)
  qed
qed

lemma cron_search_None:
  "cron_search n x c = None \<Longrightarrow> 1 \<le> k \<Longrightarrow> k \<le> n \<Longrightarrow> \<not> matchesCron x (c + int k * 60000)"
proof (induction n x c arbitrary: k rule: cron_search.induct)
  case (1 x c)
  then show ?case by simp
next
  case (2 i x c)
  have no: "\<not> matchesCron x (c + 60000)" "cron_search i x (c + 60000) = None"
    using 2(2) by (auto simp: Let_def split: if_splits)
  then show ?case
    using 2(1) [OF refl no(1) no(2), of "k - 1"] 2(3,4)
    by (cases "k = 1") (auto simp: of_nat_diff algebra_simps)
qed

lemma whole_minute_facts: "whole_minute a \<le> a" "a < whole_minute a + 60000" "whole_minute a mod 60000 = 0"
proof -
  show "whole_minute a mod 60000 = 0" by (simp add: whole_minute_def)
  have "whole_minute a + a mod 60000 = a" by (simp add: whole_minute_def)
  then show "whole_minute a \<le> a" "a < whole_minute a + 60000"
    using pos_mod_sign [of 60000 a] pos_mod_bound [of 60000 a] by linarith+
qed

text \<open>The whole minutes after \<open>a\<close> are the ones the loop visits.\<close>

lemma later_minutes:
  assumes "a < u" and "u mod 60000 = 0"
  obtains k where "1 \<le> k" and "u = whole_minute a + int k * 60000"
proof -
  have "60000 dvd u - whole_minute a" using assms(2) whole_minute_facts(3) by (simp add: dvd_eq_mod_eq_0 mod_diff_eq [symmetric])
  then obtain q where q: "u - whole_minute a = 60000 * q" by (rule dvdE)
  moreover have "0 < u - whole_minute a" using assms(1) whole_minute_facts(1) [of a] by linarith
  ultimately have "1 \<le> q" by simp
  then show thesis using q that [of "nat q"] by simp
qed

text \<open>
  C23. The next run of an expression is the earliest whole minute after the given instant at which
  all five fields match, and there is no next run exactly when none of the 366 * 24 * 60 minutes
  after it matches. So an expression that first matches later than that, such as the 29th of
  February in most years, counts as invalid.
\<close>

theorem next_cron_is_earliest:
  "case nextCronRun x a of
     Inr t \<Rightarrow> a < t \<and> t \<le> whole_minute a + 527040 * 60000 \<and> t mod 60000 = 0 \<and> matchesCron x t \<and>
       (\<forall>u. a < u \<and> u < t \<and> u mod 60000 = 0 \<longrightarrow> \<not> matchesCron x u)
   | Inl er \<Rightarrow> er = JsError ''no cron match within horizon'' \<and>
       (\<forall>u. a < u \<and> u \<le> whole_minute a + 527040 * 60000 \<and> u mod 60000 = 0 \<longrightarrow> \<not> matchesCron x u)"
proof (cases "cron_search 527040 x (whole_minute a)")
  case None
  have "\<not> matchesCron x u" if u: "a < u" "u \<le> whole_minute a + 527040 * 60000" "u mod 60000 = 0" for u
  proof -
    obtain k where k: "1 \<le> k" "u = whole_minute a + int k * 60000" using later_minutes [OF u(1,3)] .
    then have "k \<le> 527040" using u(2) by simp
    then show ?thesis using cron_search_None [OF None k(1)] k(2) by simp
  qed
  then show ?thesis using None by (simp add: nextCronRun_def)
next
  case (Some t)
  obtain k where k: "1 \<le> k" "k \<le> 527040" "t = whole_minute a + int k * 60000" "matchesCron x t"
    and first: "\<forall>j. 1 \<le> j \<and> j < k \<longrightarrow> \<not> matchesCron x (whole_minute a + int j * 60000)"
    using cron_search_Some [OF Some] by blast
  have "\<not> matchesCron x u" if u: "a < u" "u < t" "u mod 60000 = 0" for u
  proof -
    obtain j where j: "1 \<le> j" "u = whole_minute a + int j * 60000" using later_minutes [OF u(1,3)] .
    then have "j < k" using u(2) k(3) by simp
    then show ?thesis using first j by blast
  qed
  moreover have "a < t" using k(1,3) whole_minute_facts(2) [of a] by linarith
  moreover have "t mod 60000 = 0" using k(3) whole_minute_facts(3) [of a] by (simp add: mod_add_eq [symmetric])
  ultimately show ?thesis using Some k by (simp add: nextCronRun_def)
qed

lemma next_cron_is_earliest_witness:
  "\<exists>t. nextCronRun ''*/5 * * * *'' 60001 = Inr t \<and> 60001 < t \<and> matchesCron ''*/5 * * * *'' t"
proof -
  have "matchesCron ''*/5 * * * *'' 300000" by code_simp
  moreover have "whole_minute 60001 = 60000" by (simp add: whole_minute_def)
  ultimately have "\<exists>t. nextCronRun ''*/5 * * * *'' 60001 = Inr t"
    using next_cron_is_earliest [where x = "''*/5 * * * *''" and a = 60001]
    by (cases "nextCronRun ''*/5 * * * *'' 60001") force+
  then show ?thesis using next_cron_is_earliest [where x = "''*/5 * * * *''" and a = 60001] by auto
qed

subsection \<open>After a trigger\<close>

lemma nextCronRun_later: "nextCronRun x a = Inr t \<Longrightarrow> a < t"
  using cron_search_Some [of 527040 x "whole_minute a" t] whole_minute_facts(2) [of a]
  by (auto simp: nextCronRun_def split: option.splits)

lemma nextCronRun_next_minute:
  "matchesCron x (whole_minute a + 60000) \<Longrightarrow> nextCronRun x a = Inr (whole_minute a + 60000)"
  using cron_search.simps(2) [of 527039 x "whole_minute a"] by (simp add: nextCronRun_def)

lemma to_iso_nonempty: "to_iso t \<noteq> []"
  by (simp add: to_iso_def split: prod.splits)

lemmas cron_defs = bind_a_def cron_read_def lift_r_def schedule_put_def writes_def reads_def

text \<open>
  A triggered schedule waits: marking it stores it with a next run after the present, and it
  is due again exactly from that instant on, the stored text being read back without loss.
\<close>

theorem triggered_schedule_waits:
  assumes "markTriggered v s st = (Inr s', st')"
  shows "\<exists>t. nextCronRun (cs_cronExpression s) (se_now v (cy_reads st)) = Inr t \<and>
     se_now v (cy_reads st) < t \<and> schedule_get (cy_schedules st') (cs_id s) = Some s' \<and>
     (0 \<le> utc_year t \<and> utc_year t \<le> 9999 \<longrightarrow> (\<forall>now. schedule_due now s' = Inr (t \<le> now)))"
proof -
  obtain t where t: "nextCronRun (cs_cronExpression s) (se_now v (cy_reads st)) = Inr t"
    and s': "s' = s\<lparr>cs_lastTriggeredAt := Some (to_iso (se_now v (Suc (cy_reads st)))),
               cs_nextRunAt := Some (to_iso t)\<rparr>"
    and st': "cy_schedules st' = schedule_save s' (cy_schedules st)"
    using assms
    by (cases "nextCronRun (cs_cronExpression s) (se_now v (cy_reads st))")
      (auto simp: markTriggered_def cron_defs Let_def)
  have "schedule_due now s' = Inr (t \<le> now)" if "0 \<le> utc_year t" "utc_year t \<le> 9999" for now
    using parse_to_iso [OF that] to_iso_nonempty [of t] by (simp add: schedule_due_def s')
  moreover have "schedule_get (cy_schedules st') (cs_id s) = Some s'"
    unfolding st' by (simp add: schedule_get_def schedule_save_def s')
  ultimately show ?thesis using t nextCronRun_later [OF t] by blast
qed

definition sample_schedule :: cron_schedule where
  "sample_schedule =
     \<lparr>cs_id = ''sched_1'', cs_tenantId = ''t'', cs_jobId = ''missing'', cs_cronExpression = ''* * * * *'',
      cs_timezone = ''UTC'', cs_enabled = True, cs_lastTriggeredAt = None,
      cs_nextRunAt = Some (to_iso 60000), cs_defaultInput = [], cs_createdAt = to_iso 0\<rparr>"

definition sample_system :: cron_system where
  "sample_system =
     \<lparr>cy_engine = engine_empty, cy_schedules = [(''sched_1'', sample_schedule)], cy_reads = 0, cy_started = []\<rparr>"

lemma triggered_schedule_waits_witness:
  "\<exists>s' st'. markTriggered \<lparr>se_now = \<lambda>n. 0, se_uuid = \<lambda>n. []\<rparr> sample_schedule sample_system = (Inr s', st') \<and>
     schedule_get (cy_schedules st') ''sched_1'' = Some s' \<and> (\<forall>now. schedule_due now s' = Inr (60000 \<le> now))"
proof -
  let ?v = "\<lparr>se_now = \<lambda>n. 0, se_uuid = \<lambda>n. []\<rparr>"
  have "matchesCron ''* * * * *'' 60000" by code_simp
  then have n: "nextCronRun ''* * * * *'' 0 = Inr 60000"
    using nextCronRun_next_minute [of "''* * * * *''" 0] by (simp add: whole_minute_def)
  then obtain s' st' where m: "markTriggered ?v sample_schedule sample_system = (Inr s', st')"
    by (simp add: markTriggered_def cron_defs Let_def sample_schedule_def)
  have "utc_year 60000 = 1970" by code_simp
  then show ?thesis
    using triggered_schedule_waits [OF m] m n by (auto simp: sample_schedule_def sample_system_def)
qed

subsection \<open>A schedule whose job does not exist\<close>

text \<open>The system after \<open>n\<close> ticks, whatever each of them ended with.\<close>

fun ticks :: "env \<Rightarrow> sched_env \<Rightarrow> nat \<Rightarrow> cron_system \<Rightarrow> cron_system" where
  "ticks e v 0 st = st"
| "ticks e v (Suc n) st = ticks e v n (snd (tick e v st))"

lemma createRun_unknown:
  "job_store_get (en_jobs s) j = None \<Longrightarrow>
     createRun e j trigger input s = (Inl (NotFoundError ''JobDefinition'' j), s)"
  by (simp add: createRun_def bind_a_def reads_def)

lemma tick_stuck:
  assumes en: "schedule_listEnabled (cy_schedules st) = s # rest"
    and due: "schedule_due (se_now v (cy_reads st)) s = Inr True"
    and job: "job_store_get (en_jobs (cy_engine st)) (cs_jobId s) = None"
  shows "\<exists>er. tick e v st = (Inl er, st\<lparr>cy_reads := Suc (cy_reads st)\<rparr>)"
proof (cases "filter_r (schedule_due (se_now v (cy_reads st))) rest")
  case (Inl er)
  then show ?thesis using en due by (simp add: tick_def dueSchedules_def cron_defs)
next
  case (Inr ys)
  then show ?thesis
    using en due createRun_unknown [OF job] by (simp add: tick_def dueSchedules_def cron_defs in_engine_def)
qed

text \<open>
  One bad schedule starves the others. \<^verbatim>\<open>create\<close> does not check that the job exists; when
  the first enabled schedule is due and its job is unknown, every tick from then on throws, and
  no run is created and no schedule is marked, however many others are due.
\<close>

theorem unknown_job_starves_schedules:
  assumes "schedule_listEnabled (cy_schedules st) = s # rest"
    and "cs_nextRunAt s = Some due_at" and "parse_iso due_at = Inr d" and "d \<le> se_now v (cy_reads st)"
    and "mono (se_now v)" and "job_store_get (en_jobs (cy_engine st)) (cs_jobId s) = None"
  shows "ticks e v n st = st\<lparr>cy_reads := cy_reads st + n\<rparr> \<and> (\<exists>er. fst (tick e v (ticks e v n st)) = Inl er)"
proof -
  have due_at: "due_at \<noteq> []" using assms(3) by (auto simp: parse_iso_def iso_shape_def Let_def)
  have due: "schedule_due (se_now v (cy_reads st + k)) s = Inr True" for k
  proof -
    have "se_now v (cy_reads st) \<le> se_now v (cy_reads st + k)" using assms(5) by (rule monoD) simp
    then show ?thesis using assms(2-4) due_at by (simp add: schedule_due_def)
  qed
  have run: "ticks e v n (st\<lparr>cy_reads := cy_reads st + k\<rparr>) = st\<lparr>cy_reads := cy_reads st + k + n\<rparr>" for n k
  proof (induction n arbitrary: k)
    case (Suc n)
    obtain er where "tick e v (st\<lparr>cy_reads := cy_reads st + k\<rparr>) = (Inl er, st\<lparr>cy_reads := Suc (cy_reads st + k)\<rparr>)"
      using tick_stuck [of "st\<lparr>cy_reads := cy_reads st + k\<rparr>" s rest v e] assms(1,6) due by auto
    then show ?case using Suc.IH [of "Suc k"] by simp
  qed simp
  have "ticks e v n st = st\<lparr>cy_reads := cy_reads st + n\<rparr>" using run [of n 0] by simp
  moreover obtain er where "tick e v (st\<lparr>cy_reads := cy_reads st + n\<rparr>) =
      (Inl er, st\<lparr>cy_reads := Suc (cy_reads st + n)\<rparr>)"
    using tick_stuck [of "st\<lparr>cy_reads := cy_reads st + n\<rparr>" s rest v e] assms(1,6) due by auto
  ultimately show ?thesis by simp
qed

lemma unknown_job_starves_schedules_witness:
  "\<forall>e. \<exists>er. fst (tick e \<lparr>se_now = \<lambda>n. 60000 + int n, se_uuid = \<lambda>n. []\<rparr>
           (ticks e \<lparr>se_now = \<lambda>n. 60000 + int n, se_uuid = \<lambda>n. []\<rparr> 3 sample_system)) = Inl er"
proof
  fix e
  let ?v = "\<lparr>se_now = \<lambda>n. 60000 + int n, se_uuid = \<lambda>n. []\<rparr>"
  have "schedule_listEnabled (cy_schedules sample_system) = sample_schedule # []"
    by (simp add: schedule_listEnabled_def sample_system_def sample_schedule_def)
  moreover have "cs_nextRunAt sample_schedule = Some (to_iso 60000)" by (simp add: sample_schedule_def)
  moreover have "parse_iso (to_iso 60000) = Inr 60000" by code_simp
  moreover have "60000 \<le> se_now ?v (cy_reads sample_system)" by (simp add: sample_system_def)
  moreover have "mono (se_now ?v)" by (simp add: mono_def)
  moreover have "job_store_get (en_jobs (cy_engine sample_system)) (cs_jobId sample_schedule) = None"
    by (simp add: sample_system_def engine_empty_def job_store_get_def)
  ultimately show "\<exists>er. fst (tick e ?v (ticks e ?v 3 sample_system)) = Inl er" by (rule unknown_job_starves_schedules [THEN conjunct2])
qed

end
