(* ===== verification/Handlers.thy ===== *)
theory Handlers
  imports JobValidation Stores
begin

section \<open>Handlers and the job service\<close>

text \<open>
  domain/handler-manifest.ts, handlers/registry.ts, handlers/resolver.ts and
  services/job-service.ts. The schema library that parses the input of \<^verbatim>\<open>register\<close> is a parameter;
  what config/schema.ts asks of it is written out in \<open>input_ok\<close>, and \<open>parses_schema\<close> says that
  the library checks it.
\<close>

subsection \<open>The handler manifest and its registry\<close>

record handler_manifest =
  hm_name :: string
  hm_version :: string
  hm_description :: string
  hm_timeoutMs :: int
  hm_retryable :: bool
  hm_tags :: "string list"

definition BUILTIN_HANDLERS :: "handler_manifest list" where
  "BUILTIN_HANDLERS =
    [\<lparr>hm_name = ''invoice.fetch'', hm_version = ''2.1'', hm_description = ''Pull invoice batch from ERP'',
      hm_timeoutMs = 30000, hm_retryable = True, hm_tags = [''erp'', ''finance'']\<rparr>,
     \<lparr>hm_name = ''invoice.normalize'', hm_version = ''1.4'', hm_description = ''Normalize line items'',
      hm_timeoutMs = 15000, hm_retryable = True, hm_tags = [''finance'']\<rparr>,
     \<lparr>hm_name = ''invoice.post_gl'', hm_version = ''1.0'', hm_description = ''Post journal entries to GL'',
      hm_timeoutMs = 30000, hm_retryable = True, hm_tags = [''finance'', ''erp'']\<rparr>,
     \<lparr>hm_name = ''reconcile.extract'', hm_version = ''2.0'', hm_description = ''Extract ledger transactions'',
      hm_timeoutMs = 90000, hm_retryable = True, hm_tags = [''finance'']\<rparr>,
     \<lparr>hm_name = ''reconcile.match'', hm_version = ''3.0'', hm_description = ''Match PO to invoice lines'',
      hm_timeoutMs = 60000, hm_retryable = True, hm_tags = [''finance'']\<rparr>,
     \<lparr>hm_name = ''onboard.validate'', hm_version = ''1.0'', hm_description = ''KYC validation gate'',
      hm_timeoutMs = 20000, hm_retryable = False, hm_tags = [''compliance'']\<rparr>,
     \<lparr>hm_name = ''onboard.provision'', hm_version = ''1.2'', hm_description = ''Provision tenant resources'',
      hm_timeoutMs = 45000, hm_retryable = True, hm_tags = [''platform'']\<rparr>,
     \<lparr>hm_name = ''external.risky_notify'', hm_version = ''0.9'', hm_description = ''Third-party notification'',
      hm_timeoutMs = 8000, hm_retryable = True, hm_tags = [''external'']\<rparr>,
     \<lparr>hm_name = ''report.aggregate'', hm_version = ''1.1'', hm_description = ''Roll up metrics for BI export'',
      hm_timeoutMs = 120000, hm_retryable = True, hm_tags = [''analytics'']\<rparr>]"

type_synonym handler_registry = "(string, handler_manifest) jsmap"

definition registry_new :: handler_registry where
  "registry_new = fold (\<lambda>h m. map_set (hm_name h) h m) BUILTIN_HANDLERS []"

definition registry_register :: "handler_manifest \<Rightarrow> handler_registry \<Rightarrow> unit res \<times> handler_registry" where
  "registry_register entry m =
     (if map_get m (hm_name entry) \<noteq> None
      then (Inl (ValidationError (''handler already registered: '' @ hm_name entry) []), m)
      else (Inr (), map_set (hm_name entry) entry m))"

definition registry_get :: "handler_registry \<Rightarrow> string \<Rightarrow> handler_manifest option" where
  "registry_get m name = map_get m name"

definition registry_list :: "handler_registry \<Rightarrow> string option \<Rightarrow> handler_manifest list" where
  "registry_list m tag =
     (case tag of
        Some t \<Rightarrow> if t = [] then map_values m else filter (\<lambda>h. t \<in> set (hm_tags h)) (map_values m)
      | None \<Rightarrow> map_values m)"

definition assertKnown :: "handler_registry \<Rightarrow> string \<Rightarrow> unit res" where
  "assertKnown m handler =
     (if map_get m handler \<noteq> None then Inr ()
      else Inl (ValidationError (''unknown handler: '' @ handler) [handler]))"

subsection \<open>HandlerResolver: a task may ask for twice the handler's time, not more\<close>

definition resolve_task :: "handler_registry \<Rightarrow> task_definition \<Rightarrow> task_definition" where
  "resolve_task m t =
     (case registry_get m (td_handler t) of
        None \<Rightarrow> t
      | Some manifest \<Rightarrow>
          if hm_timeoutMs manifest * 2 < td_timeoutMs t
          then t\<lparr>td_timeoutMs := hm_timeoutMs manifest * 2\<rparr> else t)"

definition resolveTasks :: "handler_registry \<Rightarrow> task_definition list \<Rightarrow> task_definition list" where
  "resolveTasks m tasks = map (resolve_task m) tasks"

subsection \<open>The input schema (config/schema.ts)\<close>

text \<open>
  What \<^verbatim>\<open>jobDefinitionInputSchema.parse\<close> returns, the defaults filled in. A number of the schema is
  an integer throughout, except the backoff multiplier.
\<close>

record job_input =
  ji_id :: string
  ji_name :: string
  ji_version :: int
  ji_description :: "string option"
  ji_tasks :: "task_definition list"
  ji_constraints :: "job_constraint list"
  ji_retryPolicy :: "retry_policy option"
  ji_allowedTransitions :: "string list"
  ji_metadata :: "(string \<times> string) list"

definition policy_ok :: "retry_policy \<Rightarrow> bool" where
  "policy_ok p \<longleftrightarrow>
     1 \<le> maxAttempts p \<and> maxAttempts p \<le> 20 \<and> 0 \<le> initialDelayMs p \<and>
     1 \<le> backoffMultiplier p \<and> 0 \<le> maxDelayMs p"

definition input_ok :: "job_input \<Rightarrow> bool" where
  "input_ok i \<longleftrightarrow>
     ji_id i \<noteq> [] \<and> ji_name i \<noteq> [] \<and> 0 < ji_version i \<and> ji_tasks i \<noteq> [] \<and>
     list_all (\<lambda>t. td_id t \<noteq> [] \<and> td_name t \<noteq> [] \<and> td_handler t \<noteq> [] \<and> 0 < td_timeoutMs t) (ji_tasks i) \<and>
     (case ji_retryPolicy i of Some p \<Rightarrow> policy_ok p | None \<Rightarrow> True)"

type_synonym schema = "jsval \<Rightarrow> job_input res"

definition parses_schema :: "schema \<Rightarrow> bool" where
  "parses_schema parse \<longleftrightarrow> (\<forall>v i. parse v = Inr i \<longrightarrow> input_ok i)"

subsection \<open>JobService\<close>

record job_service =
  js_handlers :: "handler_registry option"
  js_resolver :: "handler_registry option"

text \<open>The clock and the fresh id are read once each; \<open>newJobId\<close> is only called without an id.\<close>

definition definition_of :: "job_input \<Rightarrow> job_id \<Rightarrow> iso_date \<Rightarrow> job_definition" where
  "definition_of parsed i now =
     \<lparr>jd_id = i, jd_name = ji_name parsed, jd_version = ji_version parsed,
      jd_description = ji_description parsed, jd_tasks = ji_tasks parsed,
      jd_constraints = ji_constraints parsed,
      jd_retryPolicy = (case ji_retryPolicy parsed of Some p \<Rightarrow> p | None \<Rightarrow> DEFAULT_RETRY_POLICY),
      jd_allowedTransitions = ji_allowedTransitions parsed, jd_metadata = ji_metadata parsed,
      jd_createdAt = now, jd_updatedAt = now\<rparr>"

fun assert_all_known :: "handler_registry option \<Rightarrow> task_definition list \<Rightarrow> unit res" where
  "assert_all_known h [] = Inr ()"
| "assert_all_known h (t # ts) =
     bind_r (case h of Some m \<Rightarrow> assertKnown m (td_handler t) | None \<Rightarrow> Inr ()) (\<lambda>u. assert_all_known h ts)"

definition job_register ::
    "schema \<Rightarrow> job_service \<Rightarrow> iso_date \<Rightarrow> string \<Rightarrow> jsval \<Rightarrow> (job_store, err, job_definition) act" where
  "job_register parse js now u input =
     bind_a (lift_r (parse input)) (\<lambda>parsed.
     let i = (if ji_id parsed \<noteq> [] then ji_id parsed else ''job_'' @ take 12 u);
         def = definition_of parsed i now in
     bind_a (lift_r (assert_all_known (js_handlers js) (jd_tasks def))) (\<lambda>known.
     let def' = (case js_resolver js of
                   Some m \<Rightarrow> def\<lparr>jd_tasks := resolveTasks m (jd_tasks def)\<rparr> | None \<Rightarrow> def) in
     bind_a (lift_r (validate def')) (\<lambda>valid.
     bind_a (lift_r (validateDependencyOrder (jd_tasks def'))) (\<lambda>ordered.
     bind_a (writes (job_store_save def')) (\<lambda>saved. ret def')))))"

definition job_service_get :: "job_id \<Rightarrow> (job_store, err, job_definition) act" where
  "job_service_get i =
     bind_a (reads (\<lambda>s. job_store_get s i)) (\<lambda>found.
       case found of None \<Rightarrow> throw (NotFoundError ''JobDefinition'' i) | Some def \<Rightarrow> ret def)"

definition job_service_list :: "(job_store, err, job_definition list) act" where
  "job_service_list = reads job_store_list"

lemma depends_simps:
  "depends [] = {}" "depends (t # ts) = Pair (td_id t) ` set (td_deps t) \<union> depends ts"
  by (auto simp: depends_def)

subsection \<open>The registry\<close>

lemma registry_register_get:
  "registry_register entry m = (Inr (), m') \<Longrightarrow>
     registry_get m' n = (if n = hm_name entry then Some entry else registry_get m n)"
  by (auto simp: registry_register_def registry_get_def split: if_splits)

text \<open>A registered handler is never replaced.\<close>

lemma registry_register_keeps:
  "registry_get m n = Some h \<Longrightarrow> registry_get (snd (registry_register entry m)) n = Some h"
  by (auto simp: registry_register_def registry_get_def)

lemma assert_all_known_iff:
  "assert_all_known (Some m) ts = Inr () \<longleftrightarrow> (\<forall>t \<in> set ts. registry_get m (td_handler t) \<noteq> None)"
  by (induction ts) (auto simp: assertKnown_def registry_get_def)

lemma assert_all_known_error:
  "assert_all_known h ts = Inl e \<Longrightarrow> \<exists>m ds. e = ValidationError m ds"
  by (induction ts) (auto simp: assertKnown_def bind_r_eq_Inl split: option.splits if_splits)

subsection \<open>The resolver\<close>

lemma resolve_task_fields [simp]:
  "td_id (resolve_task m t) = td_id t" "td_deps (resolve_task m t) = td_deps t"
  "td_handler (resolve_task m t) = td_handler t"
  by (simp_all add: resolve_task_def td_deps_def split: option.splits)

lemma resolve_task_cap:
  "registry_get m (td_handler t) = Some h \<Longrightarrow>
     td_timeoutMs (resolve_task m t) = min (td_timeoutMs t) (hm_timeoutMs h * 2)"
  by (simp add: resolve_task_def)

lemma resolveTasks_ids [simp]: "map td_id (resolveTasks m ts) = map td_id ts"
  by (simp add: resolveTasks_def comp_def)

lemma resolveTasks_Nil [simp]: "resolveTasks m ts = [] \<longleftrightarrow> ts = []"
  by (simp add: resolveTasks_def)

lemma depends_resolveTasks [simp]: "depends (resolveTasks m ts) = depends ts"
proof -
  have "(\<exists>t \<in> set (resolveTasks m ts). td_id t = i \<and> d \<in> set (td_deps t)) \<longleftrightarrow>
      (\<exists>t \<in> set ts. td_id t = i \<and> d \<in> set (td_deps t))" for i d
    by (simp add: resolveTasks_def)
  moreover have "(i, d) \<in> depends us \<longleftrightarrow> (\<exists>t \<in> set us. td_id t = i \<and> d \<in> set (td_deps t))" for us i d
    by (auto simp: depends_def)
  ultimately show ?thesis by auto
qed

text \<open>Manifests with positive times, as all the built-in ones, keep positive task times positive.\<close>

definition times_positive :: "handler_registry \<Rightarrow> bool" where
  "times_positive m \<longleftrightarrow> (\<forall>n h. registry_get m n = Some h \<longrightarrow> 0 < hm_timeoutMs h)"

lemma tasks_ok_resolveTasks:
  assumes "times_positive m" and "\<forall>t \<in> set ts. 0 < td_timeoutMs t"
  shows "tasks_ok (resolveTasks m ts) \<longleftrightarrow> tasks_ok ts"
proof -
  have pos: "0 < td_timeoutMs (resolve_task m t)" if "t \<in> set ts" for t
    using assms that resolve_task_cap [of m t]
    by (cases "registry_get m (td_handler t)") (auto simp: times_positive_def resolve_task_def)
  have ids: "td_id ` set (resolveTasks m ts) = td_id ` set ts"
    by (simp only: set_map [symmetric] resolveTasks_ids)
  show ?thesis
    unfolding tasks_ok_def resolveTasks_ids set_map ids
    using assms(2) pos by (simp add: resolveTasks_def)
qed

subsection \<open>What registration accepts\<close>

definition service_with :: "handler_registry \<Rightarrow> job_service" where
  "service_with m = \<lparr>js_handlers = Some m, js_resolver = Some m\<rparr>"

definition capped_definition :: "handler_registry \<Rightarrow> job_input \<Rightarrow> iso_date \<Rightarrow> job_definition" where
  "capped_definition m i now =
     (definition_of i (ji_id i) now)\<lparr>jd_tasks := resolveTasks m (ji_tasks i)\<rparr>"

lemma capped_definition_fields [simp]:
  "jd_id (capped_definition m i now) = ji_id i" "jd_tasks (capped_definition m i now) = resolveTasks m (ji_tasks i)"
  "jd_retryPolicy (capped_definition m i now) =
     (case ji_retryPolicy i of Some p \<Rightarrow> p | None \<Rightarrow> DEFAULT_RETRY_POLICY)"
  by (simp_all add: capped_definition_def definition_of_def)

lemma job_register_eq:
  assumes "parse input = Inr i" and "ji_id i \<noteq> []"
  shows "job_register parse (service_with m) now u input s =
    (case bind_r (assert_all_known (Some m) (ji_tasks i)) (\<lambda>_.
          bind_r (validate (capped_definition m i now)) (\<lambda>_.
            validateDependencyOrder (resolveTasks m (ji_tasks i)))) of
       Inl e \<Rightarrow> (Inl e, s)
     | Inr _ \<Rightarrow> (Inr (capped_definition m i now), job_store_save (capped_definition m i now) s))"
  using assms
  by (simp add: job_register_def service_with_def bind_a_def lift_r_def writes_def ret_def Let_def
      definition_of_def capped_definition_def bind_r_def split: sum.split)

lemma registration_result:
  assumes "parses_schema parse" and "parse input = Inr i" and "times_positive m"
  shows "if (\<forall>t \<in> set (ji_tasks i). registry_get m (td_handler t) \<noteq> None) \<and>
            tasks_ok (ji_tasks i) \<and> acyclic (depends (ji_tasks i))
         then job_register parse (service_with m) now u input s =
                (Inr (capped_definition m i now), job_store_save (capped_definition m i now) s) \<and>
              well_formed_job (capped_definition m i now)
         else \<exists>msg ds. job_register parse (service_with m) now u input s = (Inl (ValidationError msg ds), s)"
proof -
  let ?def = "capped_definition m i now" and ?ts = "ji_tasks i"
  have ok: "input_ok i" using assms(1,2) by (auto simp: parses_schema_def)
  have pos: "\<forall>t \<in> set ?ts. 0 < td_timeoutMs t" using ok by (auto simp: input_ok_def list_all_iff)
  have wf: "well_formed_job ?def \<longleftrightarrow> tasks_ok ?ts \<and> acyclic (depends ?ts)"
    using ok tasks_ok_resolveTasks [OF assms(3) pos]
    by (auto simp: well_formed_job_def input_ok_def policy_ok_def DEFAULT_RETRY_POLICY_def
        split: option.splits)
  have val: "bind_r (validate ?def) (\<lambda>_. validateDependencyOrder (resolveTasks m ?ts)) = Inr () \<longleftrightarrow> well_formed_job ?def"
    using validated_iff [of ?def] by simp
  have err: "\<exists>msg ds. e = ValidationError msg ds"
    if "bind_r (validate ?def) (\<lambda>_. validateDependencyOrder (resolveTasks m ?ts)) = Inl e" for e
    using that validate_cases [of ?def]
    by (auto simp: bind_r_eq_Inl validateDependencyOrder_def split: sum.splits)
  have eq: "job_register parse (service_with m) now u input s =
    (case bind_r (assert_all_known (Some m) ?ts) (\<lambda>_.
          bind_r (validate ?def) (\<lambda>_. validateDependencyOrder (resolveTasks m ?ts))) of
       Inl e \<Rightarrow> (Inl e, s) | Inr _ \<Rightarrow> (Inr ?def, job_store_save ?def s))"
    using assms(2) ok by (intro job_register_eq) (simp_all add: input_ok_def)
  show ?thesis
  proof (cases "assert_all_known (Some m) ?ts")
    case (Inl e)
    then have "\<not> (\<forall>t \<in> set ?ts. registry_get m (td_handler t) \<noteq> None)"
      using assert_all_known_iff [of m ?ts] by (simp del: not_None_eq)
    then show ?thesis using eq Inl assert_all_known_error [OF Inl] by auto
  next
    case (Inr x)
    then have k: "\<forall>t \<in> set ?ts. registry_get m (td_handler t) \<noteq> None"
      using assert_all_known_iff [of m ?ts] by simp
    show ?thesis
    proof (cases "bind_r (validate ?def) (\<lambda>_. validateDependencyOrder (resolveTasks m ?ts))")
      case (Inl e)
      then have "\<not> well_formed_job ?def" using val by simp
      then show ?thesis using eq Inr Inl err [OF Inl] wf by auto
    next
      case r: (Inr y)
      then have "well_formed_job ?def" using val by simp
      then show ?thesis using eq Inr r k wf by auto
    qed
  qed
qed

text \<open>
  Registration accepts exactly the good inputs: an input the schema parses is registered
  iff every task's handler is known, the task list is well formed and its dependencies have no
  cycle. Then the stored definition is the parsed one under its own id, with every task's time
  capped at twice its handler's; otherwise a validation error is thrown and the store is as before.
\<close>

theorem registration_accepts_iff:
  assumes "parses_schema parse" and "parse input = Inr i" and "times_positive m"
  shows "if (\<forall>t \<in> set (ji_tasks i). registry_get m (td_handler t) \<noteq> None) \<and>
            tasks_ok (ji_tasks i) \<and> acyclic (depends (ji_tasks i))
         then job_register parse (service_with m) now u input s =
                (Inr (capped_definition m i now), job_store_save (capped_definition m i now) s) \<and>
              well_formed_job (capped_definition m i now)
         else \<exists>msg ds. job_register parse (service_with m) now u input s = (Inl (ValidationError msg ds), s)"
  using assms by (rule registration_result)

subsection \<open>What a store of registered jobs holds\<close>

definition sound_job :: "handler_registry \<Rightarrow> job_definition \<Rightarrow> bool" where
  "sound_job m def \<longleftrightarrow>
     well_formed_job def \<and>
     (\<forall>t \<in> set (jd_tasks def). \<exists>h. registry_get m (td_handler t) = Some h \<and>
        td_timeoutMs t \<le> 2 * hm_timeoutMs h)"

definition sound_store :: "handler_registry \<Rightarrow> job_store \<Rightarrow> bool" where
  "sound_store m s \<longleftrightarrow> store_ok jd_id s \<and> (\<forall>i def. job_store_get s i = Some def \<longrightarrow> sound_job m def)"

lemma sound_store_empty: "sound_store m []"
  using jobs.get_empty jobs.invar_empty by (simp add: sound_store_def)

lemma sound_store_save: "sound_store m s \<Longrightarrow> sound_job m def \<Longrightarrow> sound_store m (job_store_save def s)"
  using jobs.invar_save [of s def] jobs.get_save [of s def] by (auto simp: sound_store_def split: if_splits)

lemma sound_capped:
  assumes "\<forall>t \<in> set (ji_tasks i). registry_get m (td_handler t) \<noteq> None"
    and "well_formed_job (capped_definition m i now)"
  shows "sound_job m (capped_definition m i now)"
proof -
  have "\<exists>h. registry_get m (td_handler t) = Some h \<and> td_timeoutMs (resolve_task m t) \<le> 2 * hm_timeoutMs h"
    if "t \<in> set (ji_tasks i)" for t
  proof -
    have "registry_get m (td_handler t) \<noteq> None" using assms(1) that by blast
    then obtain h where "registry_get m (td_handler t) = Some h" by blast
    then show ?thesis using resolve_task_cap [of m t h] by simp
  qed
  then show ?thesis using assms(2) by (simp add: sound_job_def resolveTasks_def)
qed

text \<open>
  C24. The store of a job service holds sound definitions only: whatever is sent to
  \<^verbatim>\<open>register\<close>, with whatever outcome, every stored definition stays well formed, names known
  handlers only and asks for at most twice their time; and registering one more handler keeps it so.
\<close>

theorem registered_jobs_stay_sound:
  assumes "parses_schema parse" and "times_positive m" and "sound_store m s"
  shows "sound_store m (snd (job_register parse (service_with m) now u input s)) \<and>
    sound_store (snd (registry_register entry m)) (snd (job_register parse (service_with m) now u input s))"
proof -
  let ?s' = "snd (job_register parse (service_with m) now u input s)"
  have "sound_store m ?s'"
  proof (cases "parse input")
    case (Inl e)
    then show ?thesis using assms(3) by (simp add: job_register_def bind_a_def lift_r_def)
  next
    case (Inr i)
    note r = registration_result [OF assms(1) Inr assms(2), of now u s]
    show ?thesis
    proof (cases "(\<forall>t \<in> set (ji_tasks i). registry_get m (td_handler t) \<noteq> None) \<and>
            tasks_ok (ji_tasks i) \<and> acyclic (depends (ji_tasks i))")
      case True
      then show ?thesis
        using r [unfolded if_P [OF True]] sound_store_save [OF assms(3) sound_capped] by simp
    next
      case False
      then have "?s' = s" using r [unfolded if_not_P [OF False]] by auto
      then show ?thesis using assms(3) by simp
    qed
  qed
  moreover have "sound_job (snd (registry_register entry m)) def" if "sound_job m def" for def
    using that registry_register_keeps unfolding sound_job_def by blast
  ultimately show ?thesis by (auto simp: sound_store_def)
qed

definition sample_input :: job_input where
  "sample_input =
     \<lparr>ji_id = ''j1'', ji_name = ''Notify'', ji_version = 1, ji_description = None,
      ji_tasks =
        [\<lparr>td_id = ''a'', td_name = ''Roll up'', td_handler = ''report.aggregate'', td_timeoutMs = 60000,
          td_optional = None, td_dependsOn = None\<rparr>,
         \<lparr>td_id = ''b'', td_name = ''Notify'', td_handler = ''external.risky_notify'', td_timeoutMs = 60000,
          td_optional = None, td_dependsOn = Some [''a'']\<rparr>],
      ji_constraints = [], ji_retryPolicy = None, ji_allowedTransitions = [], ji_metadata = []\<rparr>"

lemma sample_schema: "parses_schema (\<lambda>v. Inr sample_input)"
  by (simp add: parses_schema_def input_ok_def sample_input_def)

lemma registry_new_eq: "registry_new = map (\<lambda>h. (hm_name h, h)) BUILTIN_HANDLERS"
  by (simp add: registry_new_def BUILTIN_HANDLERS_def)

lemma registry_new_positive: "times_positive registry_new"
  unfolding times_positive_def registry_get_def registry_new_eq
  by (auto simp: BUILTIN_HANDLERS_def split: if_splits)

lemma registration_accepts_iff_witness:
  "\<exists>def. fst (job_register (\<lambda>v. Inr sample_input) (service_with registry_new) ''t0'' ''u'' VUndef []) = Inr def \<and>
     map td_timeoutMs (jd_tasks def) = [60000, 16000]"
proof -
  let ?ts = "ji_tasks sample_input"
  have "\<forall>t \<in> set ?ts. registry_get registry_new (td_handler t) \<noteq> None"
    by (simp add: sample_input_def registry_get_def registry_new_eq BUILTIN_HANDLERS_def)
  moreover have "tasks_ok ?ts" by (simp add: tasks_ok_def sample_input_def)
  moreover have "depends ?ts = {(''b'', ''a'')}" by (simp add: depends_simps sample_input_def td_deps_def)
  then have "acyclic (depends ?ts)" by (simp add: acyclic_def trancl_insert)
  moreover have "map td_timeoutMs (resolveTasks registry_new ?ts) = [60000, 16000]"
    by (simp add: resolveTasks_def resolve_task_def sample_input_def registry_get_def registry_new_eq BUILTIN_HANDLERS_def)
  ultimately show ?thesis
    using registration_accepts_iff [OF sample_schema, where i = sample_input and input = VUndef
        and m = registry_new and now = "''t0''" and u = "''u''" and s = "[]"]
      registry_new_positive by simp
qed

lemma registered_jobs_stay_sound_witness:
  "sound_store registry_new (snd (job_register (\<lambda>v. Inr sample_input) (service_with registry_new) ''t0'' ''u'' VUndef []))"
  using registered_jobs_stay_sound [OF sample_schema registry_new_positive sound_store_empty] by blast

end
