(* ===== verification/EnterprisePack.thy ===== *)
theory EnterprisePack
  imports Domain
begin

section \<open>The enterprise job pack\<close>

text \<open>
  definitions/jobs/enterprise_job_01.ts to enterprise_job_80.ts and their list in
  definitions/jobs/index.ts, one definition per file. \<open>pack_shape\<close> shows that all of them are one
  template: a chain of four tasks whose handlers are all that differs but for the number.
\<close>

definition JobEnterprise01 :: job_definition where
  "JobEnterprise01 =
     \<lparr>jd_id = ''enterprise_job_01'', jd_name = ''Enterprise workflow 1'', jd_version = 1,
      jd_description = Some ''Generated enterprise job with staged handlers and dependency chain.'',
      jd_tasks =
      [\<lparr>td_id = ''task_0'', td_name = ''Step 0'', td_handler = ''invoice.normalize'', td_timeoutMs = 20000,
        td_optional = None, td_dependsOn = None\<rparr>,
       \<lparr>td_id = ''task_1'', td_name = ''Step 1'', td_handler = ''invoice.post_gl'', td_timeoutMs = 25000,
        td_optional = None, td_dependsOn = Some [''task_0'']\<rparr>,
       \<lparr>td_id = ''task_2'', td_name = ''Step 2'', td_handler = ''reconcile.extract'', td_timeoutMs = 30000,
        td_optional = None, td_dependsOn = Some [''task_1'']\<rparr>,
       \<lparr>td_id = ''task_3'', td_name = ''Step 3'', td_handler = ''reconcile.match'', td_timeoutMs = 35000,
        td_optional = None, td_dependsOn = Some [''task_2'']\<rparr>],
      jd_constraints =
      [\<lparr>jc_id = ''c1'', jc_expression = ''context.approved == true'', jc_severity = Block\<rparr>,
       \<lparr>jc_id = ''c2'', jc_expression = ''context.amount < 1000000'', jc_severity = Warn\<rparr>],
      jd_retryPolicy = DEFAULT_RETRY_POLICY, jd_allowedTransitions = [],
      jd_metadata = [(''domain'', ''finance''), (''pack'', ''1''), (''tier'', ''enterprise'')],
      jd_createdAt = ''2026-01-15T00:00:00.000Z'', jd_updatedAt = ''2026-01-15T00:00:00.000Z''\<rparr>"

definition JobEnterprise02 :: job_definition where
  "JobEnterprise02 =
     \<lparr>jd_id = ''enterprise_job_02'', jd_name = ''Enterprise workflow 2'', jd_version = 1,
      jd_description = Some ''Generated enterprise job with staged handlers and dependency chain.'',
      jd_tasks =
      [\<lparr>td_id = ''task_0'', td_name = ''Step 0'', td_handler = ''invoice.post_gl'', td_timeoutMs = 20000,
        td_optional = None, td_dependsOn = None\<rparr>,
       \<lparr>td_id = ''task_1'', td_name = ''Step 1'', td_handler = ''reconcile.extract'', td_timeoutMs = 25000,
        td_optional = None, td_dependsOn = Some [''task_0'']\<rparr>,
       \<lparr>td_id = ''task_2'', td_name = ''Step 2'', td_handler = ''reconcile.match'', td_timeoutMs = 30000,
        td_optional = None, td_dependsOn = Some [''task_1'']\<rparr>,
       \<lparr>td_id = ''task_3'', td_name = ''Step 3'', td_handler = ''onboard.validate'', td_timeoutMs = 35000,
        td_optional = None, td_dependsOn = Some [''task_2'']\<rparr>],
      jd_constraints =
      [\<lparr>jc_id = ''c1'', jc_expression = ''context.approved == true'', jc_severity = Block\<rparr>,
       \<lparr>jc_id = ''c2'', jc_expression = ''context.amount < 1000000'', jc_severity = Warn\<rparr>],
      jd_retryPolicy = DEFAULT_RETRY_POLICY, jd_allowedTransitions = [],
      jd_metadata = [(''domain'', ''finance''), (''pack'', ''2''), (''tier'', ''enterprise'')],
      jd_createdAt = ''2026-01-15T00:00:00.000Z'', jd_updatedAt = ''2026-01-15T00:00:00.000Z''\<rparr>"

definition JobEnterprise03 :: job_definition where
  "JobEnterprise03 =
     \<lparr>jd_id = ''enterprise_job_03'', jd_name = ''Enterprise workflow 3'', jd_version = 1,
      jd_description = Some ''Generated enterprise job with staged handlers and dependency chain.'',
      jd_tasks =
      [\<lparr>td_id = ''task_0'', td_name = ''Step 0'', td_handler = ''reconcile.extract'', td_timeoutMs = 20000,
        td_optional = None, td_dependsOn = None\<rparr>,
       \<lparr>td_id = ''task_1'', td_name = ''Step 1'', td_handler = ''reconcile.match'', td_timeoutMs = 25000,
        td_optional = None, td_dependsOn = Some [''task_0'']\<rparr>,
       \<lparr>td_id = ''task_2'', td_name = ''Step 2'', td_handler = ''onboard.validate'', td_timeoutMs = 30000,
        td_optional = None, td_dependsOn = Some [''task_1'']\<rparr>,
       \<lparr>td_id = ''task_3'', td_name = ''Step 3'', td_handler = ''onboard.provision'', td_timeoutMs = 35000,
        td_optional = None, td_dependsOn = Some [''task_2'']\<rparr>],
      jd_constraints =
      [\<lparr>jc_id = ''c1'', jc_expression = ''context.approved == true'', jc_severity = Block\<rparr>,
       \<lparr>jc_id = ''c2'', jc_expression = ''context.amount < 1000000'', jc_severity = Warn\<rparr>],
      jd_retryPolicy = DEFAULT_RETRY_POLICY, jd_allowedTransitions = [],
      jd_metadata = [(''domain'', ''finance''), (''pack'', ''3''), (''tier'', ''enterprise'')],
      jd_createdAt = ''2026-01-15T00:00:00.000Z'', jd_updatedAt = ''2026-01-15T00:00:00.000Z''\<rparr>"

definition JobEnterprise04 :: job_definition where
  "JobEnterprise04 =
     \<lparr>jd_id = ''enterprise_job_04'', jd_name = ''Enterprise workflow 4'', jd_version = 1,
      jd_description = Some ''Generated enterprise job with staged handlers and dependency chain.'',
      jd_tasks =
      [\<lparr>td_id = ''task_0'', td_name = ''Step 0'', td_handler = ''reconcile.match'', td_timeoutMs = 20000,
        td_optional = None, td_dependsOn = None\<rparr>,
       \<lparr>td_id = ''task_1'', td_name = ''Step 1'', td_handler = ''onboard.validate'', td_timeoutMs = 25000,
        td_optional = None, td_dependsOn = Some [''task_0'']\<rparr>,
       \<lparr>td_id = ''task_2'', td_name = ''Step 2'', td_handler = ''onboard.provision'', td_timeoutMs = 30000,
        td_optional = None, td_dependsOn = Some [''task_1'']\<rparr>,
       \<lparr>td_id = ''task_3'', td_name = ''Step 3'', td_handler = ''report.aggregate'', td_timeoutMs = 35000,
        td_optional = None, td_dependsOn = Some [''task_2'']\<rparr>],
      jd_constraints =
      [\<lparr>jc_id = ''c1'', jc_expression = ''context.approved == true'', jc_severity = Block\<rparr>,
       \<lparr>jc_id = ''c2'', jc_expression = ''context.amount < 1000000'', jc_severity = Warn\<rparr>],
      jd_retryPolicy = DEFAULT_RETRY_POLICY, jd_allowedTransitions = [],
      jd_metadata = [(''domain'', ''finance''), (''pack'', ''4''), (''tier'', ''enterprise'')],
      jd_createdAt = ''2026-01-15T00:00:00.000Z'', jd_updatedAt = ''2026-01-15T00:00:00.000Z''\<rparr>"

definition JobEnterprise05 :: job_definition where
  "JobEnterprise05 =
     \<lparr>jd_id = ''enterprise_job_05'', jd_name = ''Enterprise workflow 5'', jd_version = 1,
      jd_description = Some ''Generated enterprise job with staged handlers and dependency chain.'',
      jd_tasks =
      [\<lparr>td_id = ''task_0'', td_name = ''Step 0'', td_handler = ''onboard.validate'', td_timeoutMs = 20000,
        td_optional = None, td_dependsOn = None\<rparr>,
       \<lparr>td_id = ''task_1'', td_name = ''Step 1'', td_handler = ''onboard.provision'', td_timeoutMs = 25000,
        td_optional = None, td_dependsOn = Some [''task_0'']\<rparr>,
       \<lparr>td_id = ''task_2'', td_name = ''Step 2'', td_handler = ''report.aggregate'', td_timeoutMs = 30000,
        td_optional = None, td_dependsOn = Some [''task_1'']\<rparr>,
       \<lparr>td_id = ''task_3'', td_name = ''Step 3'', td_handler = ''invoice.fetch'', td_timeoutMs = 35000,
        td_optional = None, td_dependsOn = Some [''task_2'']\<rparr>],
      jd_constraints =
      [\<lparr>jc_id = ''c1'', jc_expression = ''context.approved == true'', jc_severity = Block\<rparr>,
       \<lparr>jc_id = ''c2'', jc_expression = ''context.amount < 1000000'', jc_severity = Warn\<rparr>],
      jd_retryPolicy = DEFAULT_RETRY_POLICY, jd_allowedTransitions = [],
      jd_metadata = [(''domain'', ''finance''), (''pack'', ''5''), (''tier'', ''enterprise'')],
      jd_createdAt = ''2026-01-15T00:00:00.000Z'', jd_updatedAt = ''2026-01-15T00:00:00.000Z''\<rparr>"

definition JobEnterprise06 :: job_definition where
  "JobEnterprise06 =
     \<lparr>jd_id = ''enterprise_job_06'', jd_name = ''Enterprise workflow 6'', jd_version = 1,
      jd_description = Some ''Generated enterprise job with staged handlers and dependency chain.'',
      jd_tasks =
      [\<lparr>td_id = ''task_0'', td_name = ''Step 0'', td_handler = ''onboard.provision'', td_timeoutMs = 20000,
        td_optional = None, td_dependsOn = None\<rparr>,
       \<lparr>td_id = ''task_1'', td_name = ''Step 1'', td_handler = ''report.aggregate'', td_timeoutMs = 25000,
        td_optional = None, td_dependsOn = Some [''task_0'']\<rparr>,
       \<lparr>td_id = ''task_2'', td_name = ''Step 2'', td_handler = ''invoice.fetch'', td_timeoutMs = 30000,
        td_optional = None, td_dependsOn = Some [''task_1'']\<rparr>,
       \<lparr>td_id = ''task_3'', td_name = ''Step 3'', td_handler = ''invoice.normalize'', td_timeoutMs = 35000,
        td_optional = None, td_dependsOn = Some [''task_2'']\<rparr>],
      jd_constraints =
      [\<lparr>jc_id = ''c1'', jc_expression = ''context.approved == true'', jc_severity = Block\<rparr>,
       \<lparr>jc_id = ''c2'', jc_expression = ''context.amount < 1000000'', jc_severity = Warn\<rparr>],
      jd_retryPolicy = DEFAULT_RETRY_POLICY, jd_allowedTransitions = [],
      jd_metadata = [(''domain'', ''finance''), (''pack'', ''6''), (''tier'', ''enterprise'')],
      jd_createdAt = ''2026-01-15T00:00:00.000Z'', jd_updatedAt = ''2026-01-15T00:00:00.000Z''\<rparr>"

definition JobEnterprise07 :: job_definition where
  "JobEnterprise07 =
     \<lparr>jd_id = ''enterprise_job_07'', jd_name = ''Enterprise workflow 7'', jd_version = 1,
      jd_description = Some ''Generated enterprise job with staged handlers and dependency chain.'',
      jd_tasks =
      [\<lparr>td_id = ''task_0'', td_name = ''Step 0'', td_handler = ''report.aggregate'', td_timeoutMs = 20000,
        td_optional = None, td_dependsOn = None\<rparr>,
       \<lparr>td_id = ''task_1'', td_name = ''Step 1'', td_handler = ''invoice.fetch'', td_timeoutMs = 25000,
        td_optional = None, td_dependsOn = Some [''task_0'']\<rparr>,
       \<lparr>td_id = ''task_2'', td_name = ''Step 2'', td_handler = ''invoice.normalize'', td_timeoutMs = 30000,
        td_optional = None, td_dependsOn = Some [''task_1'']\<rparr>,
       \<lparr>td_id = ''task_3'', td_name = ''Step 3'', td_handler = ''invoice.post_gl'', td_timeoutMs = 35000,
        td_optional = None, td_dependsOn = Some [''task_2'']\<rparr>],
      jd_constraints =
      [\<lparr>jc_id = ''c1'', jc_expression = ''context.approved == true'', jc_severity = Block\<rparr>,
       \<lparr>jc_id = ''c2'', jc_expression = ''context.amount < 1000000'', jc_severity = Warn\<rparr>],
      jd_retryPolicy = DEFAULT_RETRY_POLICY, jd_allowedTransitions = [],
      jd_metadata = [(''domain'', ''finance''), (''pack'', ''7''), (''tier'', ''enterprise'')],
      jd_createdAt = ''2026-01-15T00:00:00.000Z'', jd_updatedAt = ''2026-01-15T00:00:00.000Z''\<rparr>"

definition JobEnterprise08 :: job_definition where
  "JobEnterprise08 =
     \<lparr>jd_id = ''enterprise_job_08'', jd_name = ''Enterprise workflow 8'', jd_version = 1,
      jd_description = Some ''Generated enterprise job with staged handlers and dependency chain.'',
      jd_tasks =
      [\<lparr>td_id = ''task_0'', td_name = ''Step 0'', td_handler = ''invoice.fetch'', td_timeoutMs = 20000,
        td_optional = None, td_dependsOn = None\<rparr>,
       \<lparr>td_id = ''task_1'', td_name = ''Step 1'', td_handler = ''invoice.normalize'', td_timeoutMs = 25000,
        td_optional = None, td_dependsOn = Some [''task_0'']\<rparr>,
       \<lparr>td_id = ''task_2'', td_name = ''Step 2'', td_handler = ''invoice.post_gl'', td_timeoutMs = 30000,
        td_optional = None, td_dependsOn = Some [''task_1'']\<rparr>,
       \<lparr>td_id = ''task_3'', td_name = ''Step 3'', td_handler = ''reconcile.extract'', td_timeoutMs = 35000,
        td_optional = None, td_dependsOn = Some [''task_2'']\<rparr>],
      jd_constraints =
      [\<lparr>jc_id = ''c1'', jc_expression = ''context.approved == true'', jc_severity = Block\<rparr>,
       \<lparr>jc_id = ''c2'', jc_expression = ''context.amount < 1000000'', jc_severity = Warn\<rparr>],
      jd_retryPolicy = DEFAULT_RETRY_POLICY, jd_allowedTransitions = [],
      jd_metadata = [(''domain'', ''finance''), (''pack'', ''8''), (''tier'', ''enterprise'')],
      jd_createdAt = ''2026-01-15T00:00:00.000Z'', jd_updatedAt = ''2026-01-15T00:00:00.000Z''\<rparr>"

definition JobEnterprise09 :: job_definition where
  "JobEnterprise09 =
     \<lparr>jd_id = ''enterprise_job_09'', jd_name = ''Enterprise workflow 9'', jd_version = 1,
      jd_description = Some ''Generated enterprise job with staged handlers and dependency chain.'',
      jd_tasks =
      [\<lparr>td_id = ''task_0'', td_name = ''Step 0'', td_handler = ''invoice.normalize'', td_timeoutMs = 20000,
        td_optional = None, td_dependsOn = None\<rparr>,
       \<lparr>td_id = ''task_1'', td_name = ''Step 1'', td_handler = ''invoice.post_gl'', td_timeoutMs = 25000,
        td_optional = None, td_dependsOn = Some [''task_0'']\<rparr>,
       \<lparr>td_id = ''task_2'', td_name = ''Step 2'', td_handler = ''reconcile.extract'', td_timeoutMs = 30000,
        td_optional = None, td_dependsOn = Some [''task_1'']\<rparr>,
       \<lparr>td_id = ''task_3'', td_name = ''Step 3'', td_handler = ''reconcile.match'', td_timeoutMs = 35000,
        td_optional = None, td_dependsOn = Some [''task_2'']\<rparr>],
      jd_constraints =
      [\<lparr>jc_id = ''c1'', jc_expression = ''context.approved == true'', jc_severity = Block\<rparr>,
       \<lparr>jc_id = ''c2'', jc_expression = ''context.amount < 1000000'', jc_severity = Warn\<rparr>],
      jd_retryPolicy = DEFAULT_RETRY_POLICY, jd_allowedTransitions = [],
      jd_metadata = [(''domain'', ''finance''), (''pack'', ''9''), (''tier'', ''enterprise'')],
      jd_createdAt = ''2026-01-15T00:00:00.000Z'', jd_updatedAt = ''2026-01-15T00:00:00.000Z''\<rparr>"

definition JobEnterprise10 :: job_definition where
  "JobEnterprise10 =
     \<lparr>jd_id = ''enterprise_job_10'', jd_name = ''Enterprise workflow 10'', jd_version = 1,
      jd_description = Some ''Generated enterprise job with staged handlers and dependency chain.'',
      jd_tasks =
      [\<lparr>td_id = ''task_0'', td_name = ''Step 0'', td_handler = ''invoice.post_gl'', td_timeoutMs = 20000,
        td_optional = None, td_dependsOn = None\<rparr>,
       \<lparr>td_id = ''task_1'', td_name = ''Step 1'', td_handler = ''reconcile.extract'', td_timeoutMs = 25000,
        td_optional = None, td_dependsOn = Some [''task_0'']\<rparr>,
       \<lparr>td_id = ''task_2'', td_name = ''Step 2'', td_handler = ''reconcile.match'', td_timeoutMs = 30000,
        td_optional = None, td_dependsOn = Some [''task_1'']\<rparr>,
       \<lparr>td_id = ''task_3'', td_name = ''Step 3'', td_handler = ''onboard.validate'', td_timeoutMs = 35000,
        td_optional = None, td_dependsOn = Some [''task_2'']\<rparr>],
      jd_constraints =
      [\<lparr>jc_id = ''c1'', jc_expression = ''context.approved == true'', jc_severity = Block\<rparr>,
       \<lparr>jc_id = ''c2'', jc_expression = ''context.amount < 1000000'', jc_severity = Warn\<rparr>],
      jd_retryPolicy = DEFAULT_RETRY_POLICY, jd_allowedTransitions = [],
      jd_metadata = [(''domain'', ''finance''), (''pack'', ''10''), (''tier'', ''enterprise'')],
      jd_createdAt = ''2026-01-15T00:00:00.000Z'', jd_updatedAt = ''2026-01-15T00:00:00.000Z''\<rparr>"

definition JobEnterprise11 :: job_definition where
  "JobEnterprise11 =
     \<lparr>jd_id = ''enterprise_job_11'', jd_name = ''Enterprise workflow 11'', jd_version = 1,
      jd_description = Some ''Generated enterprise job with staged handlers and dependency chain.'',
      jd_tasks =
      [\<lparr>td_id = ''task_0'', td_name = ''Step 0'', td_handler = ''reconcile.extract'', td_timeoutMs = 20000,
        td_optional = None, td_dependsOn = None\<rparr>,
       \<lparr>td_id = ''task_1'', td_name = ''Step 1'', td_handler = ''reconcile.match'', td_timeoutMs = 25000,
        td_optional = None, td_dependsOn = Some [''task_0'']\<rparr>,
       \<lparr>td_id = ''task_2'', td_name = ''Step 2'', td_handler = ''onboard.validate'', td_timeoutMs = 30000,
        td_optional = None, td_dependsOn = Some [''task_1'']\<rparr>,
       \<lparr>td_id = ''task_3'', td_name = ''Step 3'', td_handler = ''onboard.provision'', td_timeoutMs = 35000,
        td_optional = None, td_dependsOn = Some [''task_2'']\<rparr>],
      jd_constraints =
      [\<lparr>jc_id = ''c1'', jc_expression = ''context.approved == true'', jc_severity = Block\<rparr>,
       \<lparr>jc_id = ''c2'', jc_expression = ''context.amount < 1000000'', jc_severity = Warn\<rparr>],
      jd_retryPolicy = DEFAULT_RETRY_POLICY, jd_allowedTransitions = [],
      jd_metadata = [(''domain'', ''finance''), (''pack'', ''11''), (''tier'', ''enterprise'')],
      jd_createdAt = ''2026-01-15T00:00:00.000Z'', jd_updatedAt = ''2026-01-15T00:00:00.000Z''\<rparr>"

definition JobEnterprise12 :: job_definition where
  "JobEnterprise12 =
     \<lparr>jd_id = ''enterprise_job_12'', jd_name = ''Enterprise workflow 12'', jd_version = 1,
      jd_description = Some ''Generated enterprise job with staged handlers and dependency chain.'',
      jd_tasks =
      [\<lparr>td_id = ''task_0'', td_name = ''Step 0'', td_handler = ''reconcile.match'', td_timeoutMs = 20000,
        td_optional = None, td_dependsOn = None\<rparr>,
       \<lparr>td_id = ''task_1'', td_name = ''Step 1'', td_handler = ''onboard.validate'', td_timeoutMs = 25000,
        td_optional = None, td_dependsOn = Some [''task_0'']\<rparr>,
       \<lparr>td_id = ''task_2'', td_name = ''Step 2'', td_handler = ''onboard.provision'', td_timeoutMs = 30000,
        td_optional = None, td_dependsOn = Some [''task_1'']\<rparr>,
       \<lparr>td_id = ''task_3'', td_name = ''Step 3'', td_handler = ''report.aggregate'', td_timeoutMs = 35000,
        td_optional = None, td_dependsOn = Some [''task_2'']\<rparr>],
      jd_constraints =
      [\<lparr>jc_id = ''c1'', jc_expression = ''context.approved == true'', jc_severity = Block\<rparr>,
       \<lparr>jc_id = ''c2'', jc_expression = ''context.amount < 1000000'', jc_severity = Warn\<rparr>],
      jd_retryPolicy = DEFAULT_RETRY_POLICY, jd_allowedTransitions = [],
      jd_metadata = [(''domain'', ''finance''), (''pack'', ''12''), (''tier'', ''enterprise'')],
      jd_createdAt = ''2026-01-15T00:00:00.000Z'', jd_updatedAt = ''2026-01-15T00:00:00.000Z''\<rparr>"

definition JobEnterprise13 :: job_definition where
  "JobEnterprise13 =
     \<lparr>jd_id = ''enterprise_job_13'', jd_name = ''Enterprise workflow 13'', jd_version = 1,
      jd_description = Some ''Generated enterprise job with staged handlers and dependency chain.'',
      jd_tasks =
      [\<lparr>td_id = ''task_0'', td_name = ''Step 0'', td_handler = ''onboard.validate'', td_timeoutMs = 20000,
        td_optional = None, td_dependsOn = None\<rparr>,
       \<lparr>td_id = ''task_1'', td_name = ''Step 1'', td_handler = ''onboard.provision'', td_timeoutMs = 25000,
        td_optional = None, td_dependsOn = Some [''task_0'']\<rparr>,
       \<lparr>td_id = ''task_2'', td_name = ''Step 2'', td_handler = ''report.aggregate'', td_timeoutMs = 30000,
        td_optional = None, td_dependsOn = Some [''task_1'']\<rparr>,
       \<lparr>td_id = ''task_3'', td_name = ''Step 3'', td_handler = ''invoice.fetch'', td_timeoutMs = 35000,
        td_optional = None, td_dependsOn = Some [''task_2'']\<rparr>],
      jd_constraints =
      [\<lparr>jc_id = ''c1'', jc_expression = ''context.approved == true'', jc_severity = Block\<rparr>,
       \<lparr>jc_id = ''c2'', jc_expression = ''context.amount < 1000000'', jc_severity = Warn\<rparr>],
      jd_retryPolicy = DEFAULT_RETRY_POLICY, jd_allowedTransitions = [],
      jd_metadata = [(''domain'', ''finance''), (''pack'', ''13''), (''tier'', ''enterprise'')],
      jd_createdAt = ''2026-01-15T00:00:00.000Z'', jd_updatedAt = ''2026-01-15T00:00:00.000Z''\<rparr>"

definition JobEnterprise14 :: job_definition where
  "JobEnterprise14 =
     \<lparr>jd_id = ''enterprise_job_14'', jd_name = ''Enterprise workflow 14'', jd_version = 1,
      jd_description = Some ''Generated enterprise job with staged handlers and dependency chain.'',
      jd_tasks =
      [\<lparr>td_id = ''task_0'', td_name = ''Step 0'', td_handler = ''onboard.provision'', td_timeoutMs = 20000,
        td_optional = None, td_dependsOn = None\<rparr>,
       \<lparr>td_id = ''task_1'', td_name = ''Step 1'', td_handler = ''report.aggregate'', td_timeoutMs = 25000,
        td_optional = None, td_dependsOn = Some [''task_0'']\<rparr>,
       \<lparr>td_id = ''task_2'', td_name = ''Step 2'', td_handler = ''invoice.fetch'', td_timeoutMs = 30000,
        td_optional = None, td_dependsOn = Some [''task_1'']\<rparr>,
       \<lparr>td_id = ''task_3'', td_name = ''Step 3'', td_handler = ''invoice.normalize'', td_timeoutMs = 35000,
        td_optional = None, td_dependsOn = Some [''task_2'']\<rparr>],
      jd_constraints =
      [\<lparr>jc_id = ''c1'', jc_expression = ''context.approved == true'', jc_severity = Block\<rparr>,
       \<lparr>jc_id = ''c2'', jc_expression = ''context.amount < 1000000'', jc_severity = Warn\<rparr>],
      jd_retryPolicy = DEFAULT_RETRY_POLICY, jd_allowedTransitions = [],
      jd_metadata = [(''domain'', ''finance''), (''pack'', ''14''), (''tier'', ''enterprise'')],
      jd_createdAt = ''2026-01-15T00:00:00.000Z'', jd_updatedAt = ''2026-01-15T00:00:00.000Z''\<rparr>"

definition JobEnterprise15 :: job_definition where
  "JobEnterprise15 =
     \<lparr>jd_id = ''enterprise_job_15'', jd_name = ''Enterprise workflow 15'', jd_version = 1,
      jd_description = Some ''Generated enterprise job with staged handlers and dependency chain.'',
      jd_tasks =
      [\<lparr>td_id = ''task_0'', td_name = ''Step 0'', td_handler = ''report.aggregate'', td_timeoutMs = 20000,
        td_optional = None, td_dependsOn = None\<rparr>,
       \<lparr>td_id = ''task_1'', td_name = ''Step 1'', td_handler = ''invoice.fetch'', td_timeoutMs = 25000,
        td_optional = None, td_dependsOn = Some [''task_0'']\<rparr>,
       \<lparr>td_id = ''task_2'', td_name = ''Step 2'', td_handler = ''invoice.normalize'', td_timeoutMs = 30000,
        td_optional = None, td_dependsOn = Some [''task_1'']\<rparr>,
       \<lparr>td_id = ''task_3'', td_name = ''Step 3'', td_handler = ''invoice.post_gl'', td_timeoutMs = 35000,
        td_optional = None, td_dependsOn = Some [''task_2'']\<rparr>],
      jd_constraints =
      [\<lparr>jc_id = ''c1'', jc_expression = ''context.approved == true'', jc_severity = Block\<rparr>,
       \<lparr>jc_id = ''c2'', jc_expression = ''context.amount < 1000000'', jc_severity = Warn\<rparr>],
      jd_retryPolicy = DEFAULT_RETRY_POLICY, jd_allowedTransitions = [],
      jd_metadata = [(''domain'', ''finance''), (''pack'', ''15''), (''tier'', ''enterprise'')],
      jd_createdAt = ''2026-01-15T00:00:00.000Z'', jd_updatedAt = ''2026-01-15T00:00:00.000Z''\<rparr>"

definition JobEnterprise16 :: job_definition where
  "JobEnterprise16 =
     \<lparr>jd_id = ''enterprise_job_16'', jd_name = ''Enterprise workflow 16'', jd_version = 1,
      jd_description = Some ''Generated enterprise job with staged handlers and dependency chain.'',
      jd_tasks =
      [\<lparr>td_id = ''task_0'', td_name = ''Step 0'', td_handler = ''invoice.fetch'', td_timeoutMs = 20000,
        td_optional = None, td_dependsOn = None\<rparr>,
       \<lparr>td_id = ''task_1'', td_name = ''Step 1'', td_handler = ''invoice.normalize'', td_timeoutMs = 25000,
        td_optional = None, td_dependsOn = Some [''task_0'']\<rparr>,
       \<lparr>td_id = ''task_2'', td_name = ''Step 2'', td_handler = ''invoice.post_gl'', td_timeoutMs = 30000,
        td_optional = None, td_dependsOn = Some [''task_1'']\<rparr>,
       \<lparr>td_id = ''task_3'', td_name = ''Step 3'', td_handler = ''reconcile.extract'', td_timeoutMs = 35000,
        td_optional = None, td_dependsOn = Some [''task_2'']\<rparr>],
      jd_constraints =
      [\<lparr>jc_id = ''c1'', jc_expression = ''context.approved == true'', jc_severity = Block\<rparr>,
       \<lparr>jc_id = ''c2'', jc_expression = ''context.amount < 1000000'', jc_severity = Warn\<rparr>],
      jd_retryPolicy = DEFAULT_RETRY_POLICY, jd_allowedTransitions = [],
      jd_metadata = [(''domain'', ''finance''), (''pack'', ''16''), (''tier'', ''enterprise'')],
      jd_createdAt = ''2026-01-15T00:00:00.000Z'', jd_updatedAt = ''2026-01-15T00:00:00.000Z''\<rparr>"

definition JobEnterprise17 :: job_definition where
  "JobEnterprise17 =
     \<lparr>jd_id = ''enterprise_job_17'', jd_name = ''Enterprise workflow 17'', jd_version = 1,
      jd_description = Some ''Generated enterprise job with staged handlers and dependency chain.'',
      jd_tasks =
      [\<lparr>td_id = ''task_0'', td_name = ''Step 0'', td_handler = ''invoice.normalize'', td_timeoutMs = 20000,
        td_optional = None, td_dependsOn = None\<rparr>,
       \<lparr>td_id = ''task_1'', td_name = ''Step 1'', td_handler = ''invoice.post_gl'', td_timeoutMs = 25000,
        td_optional = None, td_dependsOn = Some [''task_0'']\<rparr>,
       \<lparr>td_id = ''task_2'', td_name = ''Step 2'', td_handler = ''reconcile.extract'', td_timeoutMs = 30000,
        td_optional = None, td_dependsOn = Some [''task_1'']\<rparr>,
       \<lparr>td_id = ''task_3'', td_name = ''Step 3'', td_handler = ''reconcile.match'', td_timeoutMs = 35000,
        td_optional = None, td_dependsOn = Some [''task_2'']\<rparr>],
      jd_constraints =
      [\<lparr>jc_id = ''c1'', jc_expression = ''context.approved == true'', jc_severity = Block\<rparr>,
       \<lparr>jc_id = ''c2'', jc_expression = ''context.amount < 1000000'', jc_severity = Warn\<rparr>],
      jd_retryPolicy = DEFAULT_RETRY_POLICY, jd_allowedTransitions = [],
      jd_metadata = [(''domain'', ''finance''), (''pack'', ''17''), (''tier'', ''enterprise'')],
      jd_createdAt = ''2026-01-15T00:00:00.000Z'', jd_updatedAt = ''2026-01-15T00:00:00.000Z''\<rparr>"

definition JobEnterprise18 :: job_definition where
  "JobEnterprise18 =
     \<lparr>jd_id = ''enterprise_job_18'', jd_name = ''Enterprise workflow 18'', jd_version = 1,
      jd_description = Some ''Generated enterprise job with staged handlers and dependency chain.'',
      jd_tasks =
      [\<lparr>td_id = ''task_0'', td_name = ''Step 0'', td_handler = ''invoice.post_gl'', td_timeoutMs = 20000,
        td_optional = None, td_dependsOn = None\<rparr>,
       \<lparr>td_id = ''task_1'', td_name = ''Step 1'', td_handler = ''reconcile.extract'', td_timeoutMs = 25000,
        td_optional = None, td_dependsOn = Some [''task_0'']\<rparr>,
       \<lparr>td_id = ''task_2'', td_name = ''Step 2'', td_handler = ''reconcile.match'', td_timeoutMs = 30000,
        td_optional = None, td_dependsOn = Some [''task_1'']\<rparr>,
       \<lparr>td_id = ''task_3'', td_name = ''Step 3'', td_handler = ''onboard.validate'', td_timeoutMs = 35000,
        td_optional = None, td_dependsOn = Some [''task_2'']\<rparr>],
      jd_constraints =
      [\<lparr>jc_id = ''c1'', jc_expression = ''context.approved == true'', jc_severity = Block\<rparr>,
       \<lparr>jc_id = ''c2'', jc_expression = ''context.amount < 1000000'', jc_severity = Warn\<rparr>],
      jd_retryPolicy = DEFAULT_RETRY_POLICY, jd_allowedTransitions = [],
      jd_metadata = [(''domain'', ''finance''), (''pack'', ''18''), (''tier'', ''enterprise'')],
      jd_createdAt = ''2026-01-15T00:00:00.000Z'', jd_updatedAt = ''2026-01-15T00:00:00.000Z''\<rparr>"

definition JobEnterprise19 :: job_definition where
  "JobEnterprise19 =
     \<lparr>jd_id = ''enterprise_job_19'', jd_name = ''Enterprise workflow 19'', jd_version = 1,
      jd_description = Some ''Generated enterprise job with staged handlers and dependency chain.'',
      jd_tasks =
      [\<lparr>td_id = ''task_0'', td_name = ''Step 0'', td_handler = ''reconcile.extract'', td_timeoutMs = 20000,
        td_optional = None, td_dependsOn = None\<rparr>,
       \<lparr>td_id = ''task_1'', td_name = ''Step 1'', td_handler = ''reconcile.match'', td_timeoutMs = 25000,
        td_optional = None, td_dependsOn = Some [''task_0'']\<rparr>,
       \<lparr>td_id = ''task_2'', td_name = ''Step 2'', td_handler = ''onboard.validate'', td_timeoutMs = 30000,
        td_optional = None, td_dependsOn = Some [''task_1'']\<rparr>,
       \<lparr>td_id = ''task_3'', td_name = ''Step 3'', td_handler = ''onboard.provision'', td_timeoutMs = 35000,
        td_optional = None, td_dependsOn = Some [''task_2'']\<rparr>],
      jd_constraints =
      [\<lparr>jc_id = ''c1'', jc_expression = ''context.approved == true'', jc_severity = Block\<rparr>,
       \<lparr>jc_id = ''c2'', jc_expression = ''context.amount < 1000000'', jc_severity = Warn\<rparr>],
      jd_retryPolicy = DEFAULT_RETRY_POLICY, jd_allowedTransitions = [],
      jd_metadata = [(''domain'', ''finance''), (''pack'', ''19''), (''tier'', ''enterprise'')],
      jd_createdAt = ''2026-01-15T00:00:00.000Z'', jd_updatedAt = ''2026-01-15T00:00:00.000Z''\<rparr>"

definition JobEnterprise20 :: job_definition where
  "JobEnterprise20 =
     \<lparr>jd_id = ''enterprise_job_20'', jd_name = ''Enterprise workflow 20'', jd_version = 1,
      jd_description = Some ''Generated enterprise job with staged handlers and dependency chain.'',
      jd_tasks =
      [\<lparr>td_id = ''task_0'', td_name = ''Step 0'', td_handler = ''reconcile.match'', td_timeoutMs = 20000,
        td_optional = None, td_dependsOn = None\<rparr>,
       \<lparr>td_id = ''task_1'', td_name = ''Step 1'', td_handler = ''onboard.validate'', td_timeoutMs = 25000,
        td_optional = None, td_dependsOn = Some [''task_0'']\<rparr>,
       \<lparr>td_id = ''task_2'', td_name = ''Step 2'', td_handler = ''onboard.provision'', td_timeoutMs = 30000,
        td_optional = None, td_dependsOn = Some [''task_1'']\<rparr>,
       \<lparr>td_id = ''task_3'', td_name = ''Step 3'', td_handler = ''report.aggregate'', td_timeoutMs = 35000,
        td_optional = None, td_dependsOn = Some [''task_2'']\<rparr>],
      jd_constraints =
      [\<lparr>jc_id = ''c1'', jc_expression = ''context.approved == true'', jc_severity = Block\<rparr>,
       \<lparr>jc_id = ''c2'', jc_expression = ''context.amount < 1000000'', jc_severity = Warn\<rparr>],
      jd_retryPolicy = DEFAULT_RETRY_POLICY, jd_allowedTransitions = [],
      jd_metadata = [(''domain'', ''finance''), (''pack'', ''20''), (''tier'', ''enterprise'')],
      jd_createdAt = ''2026-01-15T00:00:00.000Z'', jd_updatedAt = ''2026-01-15T00:00:00.000Z''\<rparr>"

definition JobEnterprise21 :: job_definition where
  "JobEnterprise21 =
     \<lparr>jd_id = ''enterprise_job_21'', jd_name = ''Enterprise workflow 21'', jd_version = 1,
      jd_description = Some ''Generated enterprise job with staged handlers and dependency chain.'',
      jd_tasks =
      [\<lparr>td_id = ''task_0'', td_name = ''Step 0'', td_handler = ''onboard.validate'', td_timeoutMs = 20000,
        td_optional = None, td_dependsOn = None\<rparr>,
       \<lparr>td_id = ''task_1'', td_name = ''Step 1'', td_handler = ''onboard.provision'', td_timeoutMs = 25000,
        td_optional = None, td_dependsOn = Some [''task_0'']\<rparr>,
       \<lparr>td_id = ''task_2'', td_name = ''Step 2'', td_handler = ''report.aggregate'', td_timeoutMs = 30000,
        td_optional = None, td_dependsOn = Some [''task_1'']\<rparr>,
       \<lparr>td_id = ''task_3'', td_name = ''Step 3'', td_handler = ''invoice.fetch'', td_timeoutMs = 35000,
        td_optional = None, td_dependsOn = Some [''task_2'']\<rparr>],
      jd_constraints =
      [\<lparr>jc_id = ''c1'', jc_expression = ''context.approved == true'', jc_severity = Block\<rparr>,
       \<lparr>jc_id = ''c2'', jc_expression = ''context.amount < 1000000'', jc_severity = Warn\<rparr>],
      jd_retryPolicy = DEFAULT_RETRY_POLICY, jd_allowedTransitions = [],
      jd_metadata = [(''domain'', ''finance''), (''pack'', ''21''), (''tier'', ''enterprise'')],
      jd_createdAt = ''2026-01-15T00:00:00.000Z'', jd_updatedAt = ''2026-01-15T00:00:00.000Z''\<rparr>"

definition JobEnterprise22 :: job_definition where
  "JobEnterprise22 =
     \<lparr>jd_id = ''enterprise_job_22'', jd_name = ''Enterprise workflow 22'', jd_version = 1,
      jd_description = Some ''Generated enterprise job with staged handlers and dependency chain.'',
      jd_tasks =
      [\<lparr>td_id = ''task_0'', td_name = ''Step 0'', td_handler = ''onboard.provision'', td_timeoutMs = 20000,
        td_optional = None, td_dependsOn = None\<rparr>,
       \<lparr>td_id = ''task_1'', td_name = ''Step 1'', td_handler = ''report.aggregate'', td_timeoutMs = 25000,
        td_optional = None, td_dependsOn = Some [''task_0'']\<rparr>,
       \<lparr>td_id = ''task_2'', td_name = ''Step 2'', td_handler = ''invoice.fetch'', td_timeoutMs = 30000,
        td_optional = None, td_dependsOn = Some [''task_1'']\<rparr>,
       \<lparr>td_id = ''task_3'', td_name = ''Step 3'', td_handler = ''invoice.normalize'', td_timeoutMs = 35000,
        td_optional = None, td_dependsOn = Some [''task_2'']\<rparr>],
      jd_constraints =
      [\<lparr>jc_id = ''c1'', jc_expression = ''context.approved == true'', jc_severity = Block\<rparr>,
       \<lparr>jc_id = ''c2'', jc_expression = ''context.amount < 1000000'', jc_severity = Warn\<rparr>],
      jd_retryPolicy = DEFAULT_RETRY_POLICY, jd_allowedTransitions = [],
      jd_metadata = [(''domain'', ''finance''), (''pack'', ''22''), (''tier'', ''enterprise'')],
      jd_createdAt = ''2026-01-15T00:00:00.000Z'', jd_updatedAt = ''2026-01-15T00:00:00.000Z''\<rparr>"

definition JobEnterprise23 :: job_definition where
  "JobEnterprise23 =
     \<lparr>jd_id = ''enterprise_job_23'', jd_name = ''Enterprise workflow 23'', jd_version = 1,
      jd_description = Some ''Generated enterprise job with staged handlers and dependency chain.'',
      jd_tasks =
      [\<lparr>td_id = ''task_0'', td_name = ''Step 0'', td_handler = ''report.aggregate'', td_timeoutMs = 20000,
        td_optional = None, td_dependsOn = None\<rparr>,
       \<lparr>td_id = ''task_1'', td_name = ''Step 1'', td_handler = ''invoice.fetch'', td_timeoutMs = 25000,
        td_optional = None, td_dependsOn = Some [''task_0'']\<rparr>,
       \<lparr>td_id = ''task_2'', td_name = ''Step 2'', td_handler = ''invoice.normalize'', td_timeoutMs = 30000,
        td_optional = None, td_dependsOn = Some [''task_1'']\<rparr>,
       \<lparr>td_id = ''task_3'', td_name = ''Step 3'', td_handler = ''invoice.post_gl'', td_timeoutMs = 35000,
        td_optional = None, td_dependsOn = Some [''task_2'']\<rparr>],
      jd_constraints =
      [\<lparr>jc_id = ''c1'', jc_expression = ''context.approved == true'', jc_severity = Block\<rparr>,
       \<lparr>jc_id = ''c2'', jc_expression = ''context.amount < 1000000'', jc_severity = Warn\<rparr>],
      jd_retryPolicy = DEFAULT_RETRY_POLICY, jd_allowedTransitions = [],
      jd_metadata = [(''domain'', ''finance''), (''pack'', ''23''), (''tier'', ''enterprise'')],
      jd_createdAt = ''2026-01-15T00:00:00.000Z'', jd_updatedAt = ''2026-01-15T00:00:00.000Z''\<rparr>"

definition JobEnterprise24 :: job_definition where
  "JobEnterprise24 =
     \<lparr>jd_id = ''enterprise_job_24'', jd_name = ''Enterprise workflow 24'', jd_version = 1,
      jd_description = Some ''Generated enterprise job with staged handlers and dependency chain.'',
      jd_tasks =
      [\<lparr>td_id = ''task_0'', td_name = ''Step 0'', td_handler = ''invoice.fetch'', td_timeoutMs = 20000,
        td_optional = None, td_dependsOn = None\<rparr>,
       \<lparr>td_id = ''task_1'', td_name = ''Step 1'', td_handler = ''invoice.normalize'', td_timeoutMs = 25000,
        td_optional = None, td_dependsOn = Some [''task_0'']\<rparr>,
       \<lparr>td_id = ''task_2'', td_name = ''Step 2'', td_handler = ''invoice.post_gl'', td_timeoutMs = 30000,
        td_optional = None, td_dependsOn = Some [''task_1'']\<rparr>,
       \<lparr>td_id = ''task_3'', td_name = ''Step 3'', td_handler = ''reconcile.extract'', td_timeoutMs = 35000,
        td_optional = None, td_dependsOn = Some [''task_2'']\<rparr>],
      jd_constraints =
      [\<lparr>jc_id = ''c1'', jc_expression = ''context.approved == true'', jc_severity = Block\<rparr>,
       \<lparr>jc_id = ''c2'', jc_expression = ''context.amount < 1000000'', jc_severity = Warn\<rparr>],
      jd_retryPolicy = DEFAULT_RETRY_POLICY, jd_allowedTransitions = [],
      jd_metadata = [(''domain'', ''finance''), (''pack'', ''24''), (''tier'', ''enterprise'')],
      jd_createdAt = ''2026-01-15T00:00:00.000Z'', jd_updatedAt = ''2026-01-15T00:00:00.000Z''\<rparr>"

definition JobEnterprise25 :: job_definition where
  "JobEnterprise25 =
     \<lparr>jd_id = ''enterprise_job_25'', jd_name = ''Enterprise workflow 25'', jd_version = 1,
      jd_description = Some ''Generated enterprise job with staged handlers and dependency chain.'',
      jd_tasks =
      [\<lparr>td_id = ''task_0'', td_name = ''Step 0'', td_handler = ''invoice.normalize'', td_timeoutMs = 20000,
        td_optional = None, td_dependsOn = None\<rparr>,
       \<lparr>td_id = ''task_1'', td_name = ''Step 1'', td_handler = ''invoice.post_gl'', td_timeoutMs = 25000,
        td_optional = None, td_dependsOn = Some [''task_0'']\<rparr>,
       \<lparr>td_id = ''task_2'', td_name = ''Step 2'', td_handler = ''reconcile.extract'', td_timeoutMs = 30000,
        td_optional = None, td_dependsOn = Some [''task_1'']\<rparr>,
       \<lparr>td_id = ''task_3'', td_name = ''Step 3'', td_handler = ''reconcile.match'', td_timeoutMs = 35000,
        td_optional = None, td_dependsOn = Some [''task_2'']\<rparr>],
      jd_constraints =
      [\<lparr>jc_id = ''c1'', jc_expression = ''context.approved == true'', jc_severity = Block\<rparr>,
       \<lparr>jc_id = ''c2'', jc_expression = ''context.amount < 1000000'', jc_severity = Warn\<rparr>],
      jd_retryPolicy = DEFAULT_RETRY_POLICY, jd_allowedTransitions = [],
      jd_metadata = [(''domain'', ''finance''), (''pack'', ''25''), (''tier'', ''enterprise'')],
      jd_createdAt = ''2026-01-15T00:00:00.000Z'', jd_updatedAt = ''2026-01-15T00:00:00.000Z''\<rparr>"

definition JobEnterprise26 :: job_definition where
  "JobEnterprise26 =
     \<lparr>jd_id = ''enterprise_job_26'', jd_name = ''Enterprise workflow 26'', jd_version = 1,
      jd_description = Some ''Generated enterprise job with staged handlers and dependency chain.'',
      jd_tasks =
      [\<lparr>td_id = ''task_0'', td_name = ''Step 0'', td_handler = ''invoice.post_gl'', td_timeoutMs = 20000,
        td_optional = None, td_dependsOn = None\<rparr>,
       \<lparr>td_id = ''task_1'', td_name = ''Step 1'', td_handler = ''reconcile.extract'', td_timeoutMs = 25000,
        td_optional = None, td_dependsOn = Some [''task_0'']\<rparr>,
       \<lparr>td_id = ''task_2'', td_name = ''Step 2'', td_handler = ''reconcile.match'', td_timeoutMs = 30000,
        td_optional = None, td_dependsOn = Some [''task_1'']\<rparr>,
       \<lparr>td_id = ''task_3'', td_name = ''Step 3'', td_handler = ''onboard.validate'', td_timeoutMs = 35000,
        td_optional = None, td_dependsOn = Some [''task_2'']\<rparr>],
      jd_constraints =
      [\<lparr>jc_id = ''c1'', jc_expression = ''context.approved == true'', jc_severity = Block\<rparr>,
       \<lparr>jc_id = ''c2'', jc_expression = ''context.amount < 1000000'', jc_severity = Warn\<rparr>],
      jd_retryPolicy = DEFAULT_RETRY_POLICY, jd_allowedTransitions = [],
      jd_metadata = [(''domain'', ''finance''), (''pack'', ''26''), (''tier'', ''enterprise'')],
      jd_createdAt = ''2026-01-15T00:00:00.000Z'', jd_updatedAt = ''2026-01-15T00:00:00.000Z''\<rparr>"

definition JobEnterprise27 :: job_definition where
  "JobEnterprise27 =
     \<lparr>jd_id = ''enterprise_job_27'', jd_name = ''Enterprise workflow 27'', jd_version = 1,
      jd_description = Some ''Generated enterprise job with staged handlers and dependency chain.'',
      jd_tasks =
      [\<lparr>td_id = ''task_0'', td_name = ''Step 0'', td_handler = ''reconcile.extract'', td_timeoutMs = 20000,
        td_optional = None, td_dependsOn = None\<rparr>,
       \<lparr>td_id = ''task_1'', td_name = ''Step 1'', td_handler = ''reconcile.match'', td_timeoutMs = 25000,
        td_optional = None, td_dependsOn = Some [''task_0'']\<rparr>,
       \<lparr>td_id = ''task_2'', td_name = ''Step 2'', td_handler = ''onboard.validate'', td_timeoutMs = 30000,
        td_optional = None, td_dependsOn = Some [''task_1'']\<rparr>,
       \<lparr>td_id = ''task_3'', td_name = ''Step 3'', td_handler = ''onboard.provision'', td_timeoutMs = 35000,
        td_optional = None, td_dependsOn = Some [''task_2'']\<rparr>],
      jd_constraints =
      [\<lparr>jc_id = ''c1'', jc_expression = ''context.approved == true'', jc_severity = Block\<rparr>,
       \<lparr>jc_id = ''c2'', jc_expression = ''context.amount < 1000000'', jc_severity = Warn\<rparr>],
      jd_retryPolicy = DEFAULT_RETRY_POLICY, jd_allowedTransitions = [],
      jd_metadata = [(''domain'', ''finance''), (''pack'', ''27''), (''tier'', ''enterprise'')],
      jd_createdAt = ''2026-01-15T00:00:00.000Z'', jd_updatedAt = ''2026-01-15T00:00:00.000Z''\<rparr>"

definition JobEnterprise28 :: job_definition where
  "JobEnterprise28 =
     \<lparr>jd_id = ''enterprise_job_28'', jd_name = ''Enterprise workflow 28'', jd_version = 1,
      jd_description = Some ''Generated enterprise job with staged handlers and dependency chain.'',
      jd_tasks =
      [\<lparr>td_id = ''task_0'', td_name = ''Step 0'', td_handler = ''reconcile.match'', td_timeoutMs = 20000,
        td_optional = None, td_dependsOn = None\<rparr>,
       \<lparr>td_id = ''task_1'', td_name = ''Step 1'', td_handler = ''onboard.validate'', td_timeoutMs = 25000,
        td_optional = None, td_dependsOn = Some [''task_0'']\<rparr>,
       \<lparr>td_id = ''task_2'', td_name = ''Step 2'', td_handler = ''onboard.provision'', td_timeoutMs = 30000,
        td_optional = None, td_dependsOn = Some [''task_1'']\<rparr>,
       \<lparr>td_id = ''task_3'', td_name = ''Step 3'', td_handler = ''report.aggregate'', td_timeoutMs = 35000,
        td_optional = None, td_dependsOn = Some [''task_2'']\<rparr>],
      jd_constraints =
      [\<lparr>jc_id = ''c1'', jc_expression = ''context.approved == true'', jc_severity = Block\<rparr>,
       \<lparr>jc_id = ''c2'', jc_expression = ''context.amount < 1000000'', jc_severity = Warn\<rparr>],
      jd_retryPolicy = DEFAULT_RETRY_POLICY, jd_allowedTransitions = [],
      jd_metadata = [(''domain'', ''finance''), (''pack'', ''28''), (''tier'', ''enterprise'')],
      jd_createdAt = ''2026-01-15T00:00:00.000Z'', jd_updatedAt = ''2026-01-15T00:00:00.000Z''\<rparr>"

definition JobEnterprise29 :: job_definition where
  "JobEnterprise29 =
     \<lparr>jd_id = ''enterprise_job_29'', jd_name = ''Enterprise workflow 29'', jd_version = 1,
      jd_description = Some ''Generated enterprise job with staged handlers and dependency chain.'',
      jd_tasks =
      [\<lparr>td_id = ''task_0'', td_name = ''Step 0'', td_handler = ''onboard.validate'', td_timeoutMs = 20000,
        td_optional = None, td_dependsOn = None\<rparr>,
       \<lparr>td_id = ''task_1'', td_name = ''Step 1'', td_handler = ''onboard.provision'', td_timeoutMs = 25000,
        td_optional = None, td_dependsOn = Some [''task_0'']\<rparr>,
       \<lparr>td_id = ''task_2'', td_name = ''Step 2'', td_handler = ''report.aggregate'', td_timeoutMs = 30000,
        td_optional = None, td_dependsOn = Some [''task_1'']\<rparr>,
       \<lparr>td_id = ''task_3'', td_name = ''Step 3'', td_handler = ''invoice.fetch'', td_timeoutMs = 35000,
        td_optional = None, td_dependsOn = Some [''task_2'']\<rparr>],
      jd_constraints =
      [\<lparr>jc_id = ''c1'', jc_expression = ''context.approved == true'', jc_severity = Block\<rparr>,
       \<lparr>jc_id = ''c2'', jc_expression = ''context.amount < 1000000'', jc_severity = Warn\<rparr>],
      jd_retryPolicy = DEFAULT_RETRY_POLICY, jd_allowedTransitions = [],
      jd_metadata = [(''domain'', ''finance''), (''pack'', ''29''), (''tier'', ''enterprise'')],
      jd_createdAt = ''2026-01-15T00:00:00.000Z'', jd_updatedAt = ''2026-01-15T00:00:00.000Z''\<rparr>"

definition JobEnterprise30 :: job_definition where
  "JobEnterprise30 =
     \<lparr>jd_id = ''enterprise_job_30'', jd_name = ''Enterprise workflow 30'', jd_version = 1,
      jd_description = Some ''Generated enterprise job with staged handlers and dependency chain.'',
      jd_tasks =
      [\<lparr>td_id = ''task_0'', td_name = ''Step 0'', td_handler = ''onboard.provision'', td_timeoutMs = 20000,
        td_optional = None, td_dependsOn = None\<rparr>,
       \<lparr>td_id = ''task_1'', td_name = ''Step 1'', td_handler = ''report.aggregate'', td_timeoutMs = 25000,
        td_optional = None, td_dependsOn = Some [''task_0'']\<rparr>,
       \<lparr>td_id = ''task_2'', td_name = ''Step 2'', td_handler = ''invoice.fetch'', td_timeoutMs = 30000,
        td_optional = None, td_dependsOn = Some [''task_1'']\<rparr>,
       \<lparr>td_id = ''task_3'', td_name = ''Step 3'', td_handler = ''invoice.normalize'', td_timeoutMs = 35000,
        td_optional = None, td_dependsOn = Some [''task_2'']\<rparr>],
      jd_constraints =
      [\<lparr>jc_id = ''c1'', jc_expression = ''context.approved == true'', jc_severity = Block\<rparr>,
       \<lparr>jc_id = ''c2'', jc_expression = ''context.amount < 1000000'', jc_severity = Warn\<rparr>],
      jd_retryPolicy = DEFAULT_RETRY_POLICY, jd_allowedTransitions = [],
      jd_metadata = [(''domain'', ''finance''), (''pack'', ''30''), (''tier'', ''enterprise'')],
      jd_createdAt = ''2026-01-15T00:00:00.000Z'', jd_updatedAt = ''2026-01-15T00:00:00.000Z''\<rparr>"

definition JobEnterprise31 :: job_definition where
  "JobEnterprise31 =
     \<lparr>jd_id = ''enterprise_job_31'', jd_name = ''Enterprise workflow 31'', jd_version = 1,
      jd_description = Some ''Generated enterprise job with staged handlers and dependency chain.'',
      jd_tasks =
      [\<lparr>td_id = ''task_0'', td_name = ''Step 0'', td_handler = ''report.aggregate'', td_timeoutMs = 20000,
        td_optional = None, td_dependsOn = None\<rparr>,
       \<lparr>td_id = ''task_1'', td_name = ''Step 1'', td_handler = ''invoice.fetch'', td_timeoutMs = 25000,
        td_optional = None, td_dependsOn = Some [''task_0'']\<rparr>,
       \<lparr>td_id = ''task_2'', td_name = ''Step 2'', td_handler = ''invoice.normalize'', td_timeoutMs = 30000,
        td_optional = None, td_dependsOn = Some [''task_1'']\<rparr>,
       \<lparr>td_id = ''task_3'', td_name = ''Step 3'', td_handler = ''invoice.post_gl'', td_timeoutMs = 35000,
        td_optional = None, td_dependsOn = Some [''task_2'']\<rparr>],
      jd_constraints =
      [\<lparr>jc_id = ''c1'', jc_expression = ''context.approved == true'', jc_severity = Block\<rparr>,
       \<lparr>jc_id = ''c2'', jc_expression = ''context.amount < 1000000'', jc_severity = Warn\<rparr>],
      jd_retryPolicy = DEFAULT_RETRY_POLICY, jd_allowedTransitions = [],
      jd_metadata = [(''domain'', ''finance''), (''pack'', ''31''), (''tier'', ''enterprise'')],
      jd_createdAt = ''2026-01-15T00:00:00.000Z'', jd_updatedAt = ''2026-01-15T00:00:00.000Z''\<rparr>"

definition JobEnterprise32 :: job_definition where
  "JobEnterprise32 =
     \<lparr>jd_id = ''enterprise_job_32'', jd_name = ''Enterprise workflow 32'', jd_version = 1,
      jd_description = Some ''Generated enterprise job with staged handlers and dependency chain.'',
      jd_tasks =
      [\<lparr>td_id = ''task_0'', td_name = ''Step 0'', td_handler = ''invoice.fetch'', td_timeoutMs = 20000,
        td_optional = None, td_dependsOn = None\<rparr>,
       \<lparr>td_id = ''task_1'', td_name = ''Step 1'', td_handler = ''invoice.normalize'', td_timeoutMs = 25000,
        td_optional = None, td_dependsOn = Some [''task_0'']\<rparr>,
       \<lparr>td_id = ''task_2'', td_name = ''Step 2'', td_handler = ''invoice.post_gl'', td_timeoutMs = 30000,
        td_optional = None, td_dependsOn = Some [''task_1'']\<rparr>,
       \<lparr>td_id = ''task_3'', td_name = ''Step 3'', td_handler = ''reconcile.extract'', td_timeoutMs = 35000,
        td_optional = None, td_dependsOn = Some [''task_2'']\<rparr>],
      jd_constraints =
      [\<lparr>jc_id = ''c1'', jc_expression = ''context.approved == true'', jc_severity = Block\<rparr>,
       \<lparr>jc_id = ''c2'', jc_expression = ''context.amount < 1000000'', jc_severity = Warn\<rparr>],
      jd_retryPolicy = DEFAULT_RETRY_POLICY, jd_allowedTransitions = [],
      jd_metadata = [(''domain'', ''finance''), (''pack'', ''32''), (''tier'', ''enterprise'')],
      jd_createdAt = ''2026-01-15T00:00:00.000Z'', jd_updatedAt = ''2026-01-15T00:00:00.000Z''\<rparr>"

definition JobEnterprise33 :: job_definition where
  "JobEnterprise33 =
     \<lparr>jd_id = ''enterprise_job_33'', jd_name = ''Enterprise workflow 33'', jd_version = 1,
      jd_description = Some ''Generated enterprise job with staged handlers and dependency chain.'',
      jd_tasks =
      [\<lparr>td_id = ''task_0'', td_name = ''Step 0'', td_handler = ''invoice.normalize'', td_timeoutMs = 20000,
        td_optional = None, td_dependsOn = None\<rparr>,
       \<lparr>td_id = ''task_1'', td_name = ''Step 1'', td_handler = ''invoice.post_gl'', td_timeoutMs = 25000,
        td_optional = None, td_dependsOn = Some [''task_0'']\<rparr>,
       \<lparr>td_id = ''task_2'', td_name = ''Step 2'', td_handler = ''reconcile.extract'', td_timeoutMs = 30000,
        td_optional = None, td_dependsOn = Some [''task_1'']\<rparr>,
       \<lparr>td_id = ''task_3'', td_name = ''Step 3'', td_handler = ''reconcile.match'', td_timeoutMs = 35000,
        td_optional = None, td_dependsOn = Some [''task_2'']\<rparr>],
      jd_constraints =
      [\<lparr>jc_id = ''c1'', jc_expression = ''context.approved == true'', jc_severity = Block\<rparr>,
       \<lparr>jc_id = ''c2'', jc_expression = ''context.amount < 1000000'', jc_severity = Warn\<rparr>],
      jd_retryPolicy = DEFAULT_RETRY_POLICY, jd_allowedTransitions = [],
      jd_metadata = [(''domain'', ''finance''), (''pack'', ''33''), (''tier'', ''enterprise'')],
      jd_createdAt = ''2026-01-15T00:00:00.000Z'', jd_updatedAt = ''2026-01-15T00:00:00.000Z''\<rparr>"

definition JobEnterprise34 :: job_definition where
  "JobEnterprise34 =
     \<lparr>jd_id = ''enterprise_job_34'', jd_name = ''Enterprise workflow 34'', jd_version = 1,
      jd_description = Some ''Generated enterprise job with staged handlers and dependency chain.'',
      jd_tasks =
      [\<lparr>td_id = ''task_0'', td_name = ''Step 0'', td_handler = ''invoice.post_gl'', td_timeoutMs = 20000,
        td_optional = None, td_dependsOn = None\<rparr>,
       \<lparr>td_id = ''task_1'', td_name = ''Step 1'', td_handler = ''reconcile.extract'', td_timeoutMs = 25000,
        td_optional = None, td_dependsOn = Some [''task_0'']\<rparr>,
       \<lparr>td_id = ''task_2'', td_name = ''Step 2'', td_handler = ''reconcile.match'', td_timeoutMs = 30000,
        td_optional = None, td_dependsOn = Some [''task_1'']\<rparr>,
       \<lparr>td_id = ''task_3'', td_name = ''Step 3'', td_handler = ''onboard.validate'', td_timeoutMs = 35000,
        td_optional = None, td_dependsOn = Some [''task_2'']\<rparr>],
      jd_constraints =
      [\<lparr>jc_id = ''c1'', jc_expression = ''context.approved == true'', jc_severity = Block\<rparr>,
       \<lparr>jc_id = ''c2'', jc_expression = ''context.amount < 1000000'', jc_severity = Warn\<rparr>],
      jd_retryPolicy = DEFAULT_RETRY_POLICY, jd_allowedTransitions = [],
      jd_metadata = [(''domain'', ''finance''), (''pack'', ''34''), (''tier'', ''enterprise'')],
      jd_createdAt = ''2026-01-15T00:00:00.000Z'', jd_updatedAt = ''2026-01-15T00:00:00.000Z''\<rparr>"

definition JobEnterprise35 :: job_definition where
  "JobEnterprise35 =
     \<lparr>jd_id = ''enterprise_job_35'', jd_name = ''Enterprise workflow 35'', jd_version = 1,
      jd_description = Some ''Generated enterprise job with staged handlers and dependency chain.'',
      jd_tasks =
      [\<lparr>td_id = ''task_0'', td_name = ''Step 0'', td_handler = ''reconcile.extract'', td_timeoutMs = 20000,
        td_optional = None, td_dependsOn = None\<rparr>,
       \<lparr>td_id = ''task_1'', td_name = ''Step 1'', td_handler = ''reconcile.match'', td_timeoutMs = 25000,
        td_optional = None, td_dependsOn = Some [''task_0'']\<rparr>,
       \<lparr>td_id = ''task_2'', td_name = ''Step 2'', td_handler = ''onboard.validate'', td_timeoutMs = 30000,
        td_optional = None, td_dependsOn = Some [''task_1'']\<rparr>,
       \<lparr>td_id = ''task_3'', td_name = ''Step 3'', td_handler = ''onboard.provision'', td_timeoutMs = 35000,
        td_optional = None, td_dependsOn = Some [''task_2'']\<rparr>],
      jd_constraints =
      [\<lparr>jc_id = ''c1'', jc_expression = ''context.approved == true'', jc_severity = Block\<rparr>,
       \<lparr>jc_id = ''c2'', jc_expression = ''context.amount < 1000000'', jc_severity = Warn\<rparr>],
      jd_retryPolicy = DEFAULT_RETRY_POLICY, jd_allowedTransitions = [],
      jd_metadata = [(''domain'', ''finance''), (''pack'', ''35''), (''tier'', ''enterprise'')],
      jd_createdAt = ''2026-01-15T00:00:00.000Z'', jd_updatedAt = ''2026-01-15T00:00:00.000Z''\<rparr>"

definition JobEnterprise36 :: job_definition where
  "JobEnterprise36 =
     \<lparr>jd_id = ''enterprise_job_36'', jd_name = ''Enterprise workflow 36'', jd_version = 1,
      jd_description = Some ''Generated enterprise job with staged handlers and dependency chain.'',
      jd_tasks =
      [\<lparr>td_id = ''task_0'', td_name = ''Step 0'', td_handler = ''reconcile.match'', td_timeoutMs = 20000,
        td_optional = None, td_dependsOn = None\<rparr>,
       \<lparr>td_id = ''task_1'', td_name = ''Step 1'', td_handler = ''onboard.validate'', td_timeoutMs = 25000,
        td_optional = None, td_dependsOn = Some [''task_0'']\<rparr>,
       \<lparr>td_id = ''task_2'', td_name = ''Step 2'', td_handler = ''onboard.provision'', td_timeoutMs = 30000,
        td_optional = None, td_dependsOn = Some [''task_1'']\<rparr>,
       \<lparr>td_id = ''task_3'', td_name = ''Step 3'', td_handler = ''report.aggregate'', td_timeoutMs = 35000,
        td_optional = None, td_dependsOn = Some [''task_2'']\<rparr>],
      jd_constraints =
      [\<lparr>jc_id = ''c1'', jc_expression = ''context.approved == true'', jc_severity = Block\<rparr>,
       \<lparr>jc_id = ''c2'', jc_expression = ''context.amount < 1000000'', jc_severity = Warn\<rparr>],
      jd_retryPolicy = DEFAULT_RETRY_POLICY, jd_allowedTransitions = [],
      jd_metadata = [(''domain'', ''finance''), (''pack'', ''36''), (''tier'', ''enterprise'')],
      jd_createdAt = ''2026-01-15T00:00:00.000Z'', jd_updatedAt = ''2026-01-15T00:00:00.000Z''\<rparr>"

definition JobEnterprise37 :: job_definition where
  "JobEnterprise37 =
     \<lparr>jd_id = ''enterprise_job_37'', jd_name = ''Enterprise workflow 37'', jd_version = 1,
      jd_description = Some ''Generated enterprise job with staged handlers and dependency chain.'',
      jd_tasks =
      [\<lparr>td_id = ''task_0'', td_name = ''Step 0'', td_handler = ''onboard.validate'', td_timeoutMs = 20000,
        td_optional = None, td_dependsOn = None\<rparr>,
       \<lparr>td_id = ''task_1'', td_name = ''Step 1'', td_handler = ''onboard.provision'', td_timeoutMs = 25000,
        td_optional = None, td_dependsOn = Some [''task_0'']\<rparr>,
       \<lparr>td_id = ''task_2'', td_name = ''Step 2'', td_handler = ''report.aggregate'', td_timeoutMs = 30000,
        td_optional = None, td_dependsOn = Some [''task_1'']\<rparr>,
       \<lparr>td_id = ''task_3'', td_name = ''Step 3'', td_handler = ''invoice.fetch'', td_timeoutMs = 35000,
        td_optional = None, td_dependsOn = Some [''task_2'']\<rparr>],
      jd_constraints =
      [\<lparr>jc_id = ''c1'', jc_expression = ''context.approved == true'', jc_severity = Block\<rparr>,
       \<lparr>jc_id = ''c2'', jc_expression = ''context.amount < 1000000'', jc_severity = Warn\<rparr>],
      jd_retryPolicy = DEFAULT_RETRY_POLICY, jd_allowedTransitions = [],
      jd_metadata = [(''domain'', ''finance''), (''pack'', ''37''), (''tier'', ''enterprise'')],
      jd_createdAt = ''2026-01-15T00:00:00.000Z'', jd_updatedAt = ''2026-01-15T00:00:00.000Z''\<rparr>"

definition JobEnterprise38 :: job_definition where
  "JobEnterprise38 =
     \<lparr>jd_id = ''enterprise_job_38'', jd_name = ''Enterprise workflow 38'', jd_version = 1,
      jd_description = Some ''Generated enterprise job with staged handlers and dependency chain.'',
      jd_tasks =
      [\<lparr>td_id = ''task_0'', td_name = ''Step 0'', td_handler = ''onboard.provision'', td_timeoutMs = 20000,
        td_optional = None, td_dependsOn = None\<rparr>,
       \<lparr>td_id = ''task_1'', td_name = ''Step 1'', td_handler = ''report.aggregate'', td_timeoutMs = 25000,
        td_optional = None, td_dependsOn = Some [''task_0'']\<rparr>,
       \<lparr>td_id = ''task_2'', td_name = ''Step 2'', td_handler = ''invoice.fetch'', td_timeoutMs = 30000,
        td_optional = None, td_dependsOn = Some [''task_1'']\<rparr>,
       \<lparr>td_id = ''task_3'', td_name = ''Step 3'', td_handler = ''invoice.normalize'', td_timeoutMs = 35000,
        td_optional = None, td_dependsOn = Some [''task_2'']\<rparr>],
      jd_constraints =
      [\<lparr>jc_id = ''c1'', jc_expression = ''context.approved == true'', jc_severity = Block\<rparr>,
       \<lparr>jc_id = ''c2'', jc_expression = ''context.amount < 1000000'', jc_severity = Warn\<rparr>],
      jd_retryPolicy = DEFAULT_RETRY_POLICY, jd_allowedTransitions = [],
      jd_metadata = [(''domain'', ''finance''), (''pack'', ''38''), (''tier'', ''enterprise'')],
      jd_createdAt = ''2026-01-15T00:00:00.000Z'', jd_updatedAt = ''2026-01-15T00:00:00.000Z''\<rparr>"

definition JobEnterprise39 :: job_definition where
  "JobEnterprise39 =
     \<lparr>jd_id = ''enterprise_job_39'', jd_name = ''Enterprise workflow 39'', jd_version = 1,
      jd_description = Some ''Generated enterprise job with staged handlers and dependency chain.'',
      jd_tasks =
      [\<lparr>td_id = ''task_0'', td_name = ''Step 0'', td_handler = ''report.aggregate'', td_timeoutMs = 20000,
        td_optional = None, td_dependsOn = None\<rparr>,
       \<lparr>td_id = ''task_1'', td_name = ''Step 1'', td_handler = ''invoice.fetch'', td_timeoutMs = 25000,
        td_optional = None, td_dependsOn = Some [''task_0'']\<rparr>,
       \<lparr>td_id = ''task_2'', td_name = ''Step 2'', td_handler = ''invoice.normalize'', td_timeoutMs = 30000,
        td_optional = None, td_dependsOn = Some [''task_1'']\<rparr>,
       \<lparr>td_id = ''task_3'', td_name = ''Step 3'', td_handler = ''invoice.post_gl'', td_timeoutMs = 35000,
        td_optional = None, td_dependsOn = Some [''task_2'']\<rparr>],
      jd_constraints =
      [\<lparr>jc_id = ''c1'', jc_expression = ''context.approved == true'', jc_severity = Block\<rparr>,
       \<lparr>jc_id = ''c2'', jc_expression = ''context.amount < 1000000'', jc_severity = Warn\<rparr>],
      jd_retryPolicy = DEFAULT_RETRY_POLICY, jd_allowedTransitions = [],
      jd_metadata = [(''domain'', ''finance''), (''pack'', ''39''), (''tier'', ''enterprise'')],
      jd_createdAt = ''2026-01-15T00:00:00.000Z'', jd_updatedAt = ''2026-01-15T00:00:00.000Z''\<rparr>"

definition JobEnterprise40 :: job_definition where
  "JobEnterprise40 =
     \<lparr>jd_id = ''enterprise_job_40'', jd_name = ''Enterprise workflow 40'', jd_version = 1,
      jd_description = Some ''Generated enterprise job with staged handlers and dependency chain.'',
      jd_tasks =
      [\<lparr>td_id = ''task_0'', td_name = ''Step 0'', td_handler = ''invoice.fetch'', td_timeoutMs = 20000,
        td_optional = None, td_dependsOn = None\<rparr>,
       \<lparr>td_id = ''task_1'', td_name = ''Step 1'', td_handler = ''invoice.normalize'', td_timeoutMs = 25000,
        td_optional = None, td_dependsOn = Some [''task_0'']\<rparr>,
       \<lparr>td_id = ''task_2'', td_name = ''Step 2'', td_handler = ''invoice.post_gl'', td_timeoutMs = 30000,
        td_optional = None, td_dependsOn = Some [''task_1'']\<rparr>,
       \<lparr>td_id = ''task_3'', td_name = ''Step 3'', td_handler = ''reconcile.extract'', td_timeoutMs = 35000,
        td_optional = None, td_dependsOn = Some [''task_2'']\<rparr>],
      jd_constraints =
      [\<lparr>jc_id = ''c1'', jc_expression = ''context.approved == true'', jc_severity = Block\<rparr>,
       \<lparr>jc_id = ''c2'', jc_expression = ''context.amount < 1000000'', jc_severity = Warn\<rparr>],
      jd_retryPolicy = DEFAULT_RETRY_POLICY, jd_allowedTransitions = [],
      jd_metadata = [(''domain'', ''finance''), (''pack'', ''40''), (''tier'', ''enterprise'')],
      jd_createdAt = ''2026-01-15T00:00:00.000Z'', jd_updatedAt = ''2026-01-15T00:00:00.000Z''\<rparr>"

definition JobEnterprise41 :: job_definition where
  "JobEnterprise41 =
     \<lparr>jd_id = ''enterprise_job_41'', jd_name = ''Enterprise workflow 41'', jd_version = 1,
      jd_description = Some ''Generated enterprise job with staged handlers and dependency chain.'',
      jd_tasks =
      [\<lparr>td_id = ''task_0'', td_name = ''Step 0'', td_handler = ''invoice.normalize'', td_timeoutMs = 20000,
        td_optional = None, td_dependsOn = None\<rparr>,
       \<lparr>td_id = ''task_1'', td_name = ''Step 1'', td_handler = ''invoice.post_gl'', td_timeoutMs = 25000,
        td_optional = None, td_dependsOn = Some [''task_0'']\<rparr>,
       \<lparr>td_id = ''task_2'', td_name = ''Step 2'', td_handler = ''reconcile.extract'', td_timeoutMs = 30000,
        td_optional = None, td_dependsOn = Some [''task_1'']\<rparr>,
       \<lparr>td_id = ''task_3'', td_name = ''Step 3'', td_handler = ''reconcile.match'', td_timeoutMs = 35000,
        td_optional = None, td_dependsOn = Some [''task_2'']\<rparr>],
      jd_constraints =
      [\<lparr>jc_id = ''c1'', jc_expression = ''context.approved == true'', jc_severity = Block\<rparr>,
       \<lparr>jc_id = ''c2'', jc_expression = ''context.amount < 1000000'', jc_severity = Warn\<rparr>],
      jd_retryPolicy = DEFAULT_RETRY_POLICY, jd_allowedTransitions = [],
      jd_metadata = [(''domain'', ''finance''), (''pack'', ''41''), (''tier'', ''enterprise'')],
      jd_createdAt = ''2026-01-15T00:00:00.000Z'', jd_updatedAt = ''2026-01-15T00:00:00.000Z''\<rparr>"

definition JobEnterprise42 :: job_definition where
  "JobEnterprise42 =
     \<lparr>jd_id = ''enterprise_job_42'', jd_name = ''Enterprise workflow 42'', jd_version = 1,
      jd_description = Some ''Generated enterprise job with staged handlers and dependency chain.'',
      jd_tasks =
      [\<lparr>td_id = ''task_0'', td_name = ''Step 0'', td_handler = ''invoice.post_gl'', td_timeoutMs = 20000,
        td_optional = None, td_dependsOn = None\<rparr>,
       \<lparr>td_id = ''task_1'', td_name = ''Step 1'', td_handler = ''reconcile.extract'', td_timeoutMs = 25000,
        td_optional = None, td_dependsOn = Some [''task_0'']\<rparr>,
       \<lparr>td_id = ''task_2'', td_name = ''Step 2'', td_handler = ''reconcile.match'', td_timeoutMs = 30000,
        td_optional = None, td_dependsOn = Some [''task_1'']\<rparr>,
       \<lparr>td_id = ''task_3'', td_name = ''Step 3'', td_handler = ''onboard.validate'', td_timeoutMs = 35000,
        td_optional = None, td_dependsOn = Some [''task_2'']\<rparr>],
      jd_constraints =
      [\<lparr>jc_id = ''c1'', jc_expression = ''context.approved == true'', jc_severity = Block\<rparr>,
       \<lparr>jc_id = ''c2'', jc_expression = ''context.amount < 1000000'', jc_severity = Warn\<rparr>],
      jd_retryPolicy = DEFAULT_RETRY_POLICY, jd_allowedTransitions = [],
      jd_metadata = [(''domain'', ''finance''), (''pack'', ''42''), (''tier'', ''enterprise'')],
      jd_createdAt = ''2026-01-15T00:00:00.000Z'', jd_updatedAt = ''2026-01-15T00:00:00.000Z''\<rparr>"

definition JobEnterprise43 :: job_definition where
  "JobEnterprise43 =
     \<lparr>jd_id = ''enterprise_job_43'', jd_name = ''Enterprise workflow 43'', jd_version = 1,
      jd_description = Some ''Generated enterprise job with staged handlers and dependency chain.'',
      jd_tasks =
      [\<lparr>td_id = ''task_0'', td_name = ''Step 0'', td_handler = ''reconcile.extract'', td_timeoutMs = 20000,
        td_optional = None, td_dependsOn = None\<rparr>,
       \<lparr>td_id = ''task_1'', td_name = ''Step 1'', td_handler = ''reconcile.match'', td_timeoutMs = 25000,
        td_optional = None, td_dependsOn = Some [''task_0'']\<rparr>,
       \<lparr>td_id = ''task_2'', td_name = ''Step 2'', td_handler = ''onboard.validate'', td_timeoutMs = 30000,
        td_optional = None, td_dependsOn = Some [''task_1'']\<rparr>,
       \<lparr>td_id = ''task_3'', td_name = ''Step 3'', td_handler = ''onboard.provision'', td_timeoutMs = 35000,
        td_optional = None, td_dependsOn = Some [''task_2'']\<rparr>],
      jd_constraints =
      [\<lparr>jc_id = ''c1'', jc_expression = ''context.approved == true'', jc_severity = Block\<rparr>,
       \<lparr>jc_id = ''c2'', jc_expression = ''context.amount < 1000000'', jc_severity = Warn\<rparr>],
      jd_retryPolicy = DEFAULT_RETRY_POLICY, jd_allowedTransitions = [],
      jd_metadata = [(''domain'', ''finance''), (''pack'', ''43''), (''tier'', ''enterprise'')],
      jd_createdAt = ''2026-01-15T00:00:00.000Z'', jd_updatedAt = ''2026-01-15T00:00:00.000Z''\<rparr>"

definition JobEnterprise44 :: job_definition where
  "JobEnterprise44 =
     \<lparr>jd_id = ''enterprise_job_44'', jd_name = ''Enterprise workflow 44'', jd_version = 1,
      jd_description = Some ''Generated enterprise job with staged handlers and dependency chain.'',
      jd_tasks =
      [\<lparr>td_id = ''task_0'', td_name = ''Step 0'', td_handler = ''reconcile.match'', td_timeoutMs = 20000,
        td_optional = None, td_dependsOn = None\<rparr>,
       \<lparr>td_id = ''task_1'', td_name = ''Step 1'', td_handler = ''onboard.validate'', td_timeoutMs = 25000,
        td_optional = None, td_dependsOn = Some [''task_0'']\<rparr>,
       \<lparr>td_id = ''task_2'', td_name = ''Step 2'', td_handler = ''onboard.provision'', td_timeoutMs = 30000,
        td_optional = None, td_dependsOn = Some [''task_1'']\<rparr>,
       \<lparr>td_id = ''task_3'', td_name = ''Step 3'', td_handler = ''report.aggregate'', td_timeoutMs = 35000,
        td_optional = None, td_dependsOn = Some [''task_2'']\<rparr>],
      jd_constraints =
      [\<lparr>jc_id = ''c1'', jc_expression = ''context.approved == true'', jc_severity = Block\<rparr>,
       \<lparr>jc_id = ''c2'', jc_expression = ''context.amount < 1000000'', jc_severity = Warn\<rparr>],
      jd_retryPolicy = DEFAULT_RETRY_POLICY, jd_allowedTransitions = [],
      jd_metadata = [(''domain'', ''finance''), (''pack'', ''44''), (''tier'', ''enterprise'')],
      jd_createdAt = ''2026-01-15T00:00:00.000Z'', jd_updatedAt = ''2026-01-15T00:00:00.000Z''\<rparr>"

definition JobEnterprise45 :: job_definition where
  "JobEnterprise45 =
     \<lparr>jd_id = ''enterprise_job_45'', jd_name = ''Enterprise workflow 45'', jd_version = 1,
      jd_description = Some ''Generated enterprise job with staged handlers and dependency chain.'',
      jd_tasks =
      [\<lparr>td_id = ''task_0'', td_name = ''Step 0'', td_handler = ''onboard.validate'', td_timeoutMs = 20000,
        td_optional = None, td_dependsOn = None\<rparr>,
       \<lparr>td_id = ''task_1'', td_name = ''Step 1'', td_handler = ''onboard.provision'', td_timeoutMs = 25000,
        td_optional = None, td_dependsOn = Some [''task_0'']\<rparr>,
       \<lparr>td_id = ''task_2'', td_name = ''Step 2'', td_handler = ''report.aggregate'', td_timeoutMs = 30000,
        td_optional = None, td_dependsOn = Some [''task_1'']\<rparr>,
       \<lparr>td_id = ''task_3'', td_name = ''Step 3'', td_handler = ''invoice.fetch'', td_timeoutMs = 35000,
        td_optional = None, td_dependsOn = Some [''task_2'']\<rparr>],
      jd_constraints =
      [\<lparr>jc_id = ''c1'', jc_expression = ''context.approved == true'', jc_severity = Block\<rparr>,
       \<lparr>jc_id = ''c2'', jc_expression = ''context.amount < 1000000'', jc_severity = Warn\<rparr>],
      jd_retryPolicy = DEFAULT_RETRY_POLICY, jd_allowedTransitions = [],
      jd_metadata = [(''domain'', ''finance''), (''pack'', ''45''), (''tier'', ''enterprise'')],
      jd_createdAt = ''2026-01-15T00:00:00.000Z'', jd_updatedAt = ''2026-01-15T00:00:00.000Z''\<rparr>"

definition JobEnterprise46 :: job_definition where
  "JobEnterprise46 =
     \<lparr>jd_id = ''enterprise_job_46'', jd_name = ''Enterprise workflow 46'', jd_version = 1,
      jd_description = Some ''Generated enterprise job with staged handlers and dependency chain.'',
      jd_tasks =
      [\<lparr>td_id = ''task_0'', td_name = ''Step 0'', td_handler = ''onboard.provision'', td_timeoutMs = 20000,
        td_optional = None, td_dependsOn = None\<rparr>,
       \<lparr>td_id = ''task_1'', td_name = ''Step 1'', td_handler = ''report.aggregate'', td_timeoutMs = 25000,
        td_optional = None, td_dependsOn = Some [''task_0'']\<rparr>,
       \<lparr>td_id = ''task_2'', td_name = ''Step 2'', td_handler = ''invoice.fetch'', td_timeoutMs = 30000,
        td_optional = None, td_dependsOn = Some [''task_1'']\<rparr>,
       \<lparr>td_id = ''task_3'', td_name = ''Step 3'', td_handler = ''invoice.normalize'', td_timeoutMs = 35000,
        td_optional = None, td_dependsOn = Some [''task_2'']\<rparr>],
      jd_constraints =
      [\<lparr>jc_id = ''c1'', jc_expression = ''context.approved == true'', jc_severity = Block\<rparr>,
       \<lparr>jc_id = ''c2'', jc_expression = ''context.amount < 1000000'', jc_severity = Warn\<rparr>],
      jd_retryPolicy = DEFAULT_RETRY_POLICY, jd_allowedTransitions = [],
      jd_metadata = [(''domain'', ''finance''), (''pack'', ''46''), (''tier'', ''enterprise'')],
      jd_createdAt = ''2026-01-15T00:00:00.000Z'', jd_updatedAt = ''2026-01-15T00:00:00.000Z''\<rparr>"

definition JobEnterprise47 :: job_definition where
  "JobEnterprise47 =
     \<lparr>jd_id = ''enterprise_job_47'', jd_name = ''Enterprise workflow 47'', jd_version = 1,
      jd_description = Some ''Generated enterprise job with staged handlers and dependency chain.'',
      jd_tasks =
      [\<lparr>td_id = ''task_0'', td_name = ''Step 0'', td_handler = ''report.aggregate'', td_timeoutMs = 20000,
        td_optional = None, td_dependsOn = None\<rparr>,
       \<lparr>td_id = ''task_1'', td_name = ''Step 1'', td_handler = ''invoice.fetch'', td_timeoutMs = 25000,
        td_optional = None, td_dependsOn = Some [''task_0'']\<rparr>,
       \<lparr>td_id = ''task_2'', td_name = ''Step 2'', td_handler = ''invoice.normalize'', td_timeoutMs = 30000,
        td_optional = None, td_dependsOn = Some [''task_1'']\<rparr>,
       \<lparr>td_id = ''task_3'', td_name = ''Step 3'', td_handler = ''invoice.post_gl'', td_timeoutMs = 35000,
        td_optional = None, td_dependsOn = Some [''task_2'']\<rparr>],
      jd_constraints =
      [\<lparr>jc_id = ''c1'', jc_expression = ''context.approved == true'', jc_severity = Block\<rparr>,
       \<lparr>jc_id = ''c2'', jc_expression = ''context.amount < 1000000'', jc_severity = Warn\<rparr>],
      jd_retryPolicy = DEFAULT_RETRY_POLICY, jd_allowedTransitions = [],
      jd_metadata = [(''domain'', ''finance''), (''pack'', ''47''), (''tier'', ''enterprise'')],
      jd_createdAt = ''2026-01-15T00:00:00.000Z'', jd_updatedAt = ''2026-01-15T00:00:00.000Z''\<rparr>"

definition JobEnterprise48 :: job_definition where
  "JobEnterprise48 =
     \<lparr>jd_id = ''enterprise_job_48'', jd_name = ''Enterprise workflow 48'', jd_version = 1,
      jd_description = Some ''Generated enterprise job with staged handlers and dependency chain.'',
      jd_tasks =
      [\<lparr>td_id = ''task_0'', td_name = ''Step 0'', td_handler = ''invoice.fetch'', td_timeoutMs = 20000,
        td_optional = None, td_dependsOn = None\<rparr>,
       \<lparr>td_id = ''task_1'', td_name = ''Step 1'', td_handler = ''invoice.normalize'', td_timeoutMs = 25000,
        td_optional = None, td_dependsOn = Some [''task_0'']\<rparr>,
       \<lparr>td_id = ''task_2'', td_name = ''Step 2'', td_handler = ''invoice.post_gl'', td_timeoutMs = 30000,
        td_optional = None, td_dependsOn = Some [''task_1'']\<rparr>,
       \<lparr>td_id = ''task_3'', td_name = ''Step 3'', td_handler = ''reconcile.extract'', td_timeoutMs = 35000,
        td_optional = None, td_dependsOn = Some [''task_2'']\<rparr>],
      jd_constraints =
      [\<lparr>jc_id = ''c1'', jc_expression = ''context.approved == true'', jc_severity = Block\<rparr>,
       \<lparr>jc_id = ''c2'', jc_expression = ''context.amount < 1000000'', jc_severity = Warn\<rparr>],
      jd_retryPolicy = DEFAULT_RETRY_POLICY, jd_allowedTransitions = [],
      jd_metadata = [(''domain'', ''finance''), (''pack'', ''48''), (''tier'', ''enterprise'')],
      jd_createdAt = ''2026-01-15T00:00:00.000Z'', jd_updatedAt = ''2026-01-15T00:00:00.000Z''\<rparr>"

definition JobEnterprise49 :: job_definition where
  "JobEnterprise49 =
     \<lparr>jd_id = ''enterprise_job_49'', jd_name = ''Enterprise workflow 49'', jd_version = 1,
      jd_description = Some ''Generated enterprise job with staged handlers and dependency chain.'',
      jd_tasks =
      [\<lparr>td_id = ''task_0'', td_name = ''Step 0'', td_handler = ''invoice.normalize'', td_timeoutMs = 20000,
        td_optional = None, td_dependsOn = None\<rparr>,
       \<lparr>td_id = ''task_1'', td_name = ''Step 1'', td_handler = ''invoice.post_gl'', td_timeoutMs = 25000,
        td_optional = None, td_dependsOn = Some [''task_0'']\<rparr>,
       \<lparr>td_id = ''task_2'', td_name = ''Step 2'', td_handler = ''reconcile.extract'', td_timeoutMs = 30000,
        td_optional = None, td_dependsOn = Some [''task_1'']\<rparr>,
       \<lparr>td_id = ''task_3'', td_name = ''Step 3'', td_handler = ''reconcile.match'', td_timeoutMs = 35000,
        td_optional = None, td_dependsOn = Some [''task_2'']\<rparr>],
      jd_constraints =
      [\<lparr>jc_id = ''c1'', jc_expression = ''context.approved == true'', jc_severity = Block\<rparr>,
       \<lparr>jc_id = ''c2'', jc_expression = ''context.amount < 1000000'', jc_severity = Warn\<rparr>],
      jd_retryPolicy = DEFAULT_RETRY_POLICY, jd_allowedTransitions = [],
      jd_metadata = [(''domain'', ''finance''), (''pack'', ''49''), (''tier'', ''enterprise'')],
      jd_createdAt = ''2026-01-15T00:00:00.000Z'', jd_updatedAt = ''2026-01-15T00:00:00.000Z''\<rparr>"

definition JobEnterprise50 :: job_definition where
  "JobEnterprise50 =
     \<lparr>jd_id = ''enterprise_job_50'', jd_name = ''Enterprise workflow 50'', jd_version = 1,
      jd_description = Some ''Generated enterprise job with staged handlers and dependency chain.'',
      jd_tasks =
      [\<lparr>td_id = ''task_0'', td_name = ''Step 0'', td_handler = ''invoice.post_gl'', td_timeoutMs = 20000,
        td_optional = None, td_dependsOn = None\<rparr>,
       \<lparr>td_id = ''task_1'', td_name = ''Step 1'', td_handler = ''reconcile.extract'', td_timeoutMs = 25000,
        td_optional = None, td_dependsOn = Some [''task_0'']\<rparr>,
       \<lparr>td_id = ''task_2'', td_name = ''Step 2'', td_handler = ''reconcile.match'', td_timeoutMs = 30000,
        td_optional = None, td_dependsOn = Some [''task_1'']\<rparr>,
       \<lparr>td_id = ''task_3'', td_name = ''Step 3'', td_handler = ''onboard.validate'', td_timeoutMs = 35000,
        td_optional = None, td_dependsOn = Some [''task_2'']\<rparr>],
      jd_constraints =
      [\<lparr>jc_id = ''c1'', jc_expression = ''context.approved == true'', jc_severity = Block\<rparr>,
       \<lparr>jc_id = ''c2'', jc_expression = ''context.amount < 1000000'', jc_severity = Warn\<rparr>],
      jd_retryPolicy = DEFAULT_RETRY_POLICY, jd_allowedTransitions = [],
      jd_metadata = [(''domain'', ''finance''), (''pack'', ''50''), (''tier'', ''enterprise'')],
      jd_createdAt = ''2026-01-15T00:00:00.000Z'', jd_updatedAt = ''2026-01-15T00:00:00.000Z''\<rparr>"

definition JobEnterprise51 :: job_definition where
  "JobEnterprise51 =
     \<lparr>jd_id = ''enterprise_job_51'', jd_name = ''Enterprise workflow 51'', jd_version = 1,
      jd_description = Some ''Generated enterprise job with staged handlers and dependency chain.'',
      jd_tasks =
      [\<lparr>td_id = ''task_0'', td_name = ''Step 0'', td_handler = ''reconcile.extract'', td_timeoutMs = 20000,
        td_optional = None, td_dependsOn = None\<rparr>,
       \<lparr>td_id = ''task_1'', td_name = ''Step 1'', td_handler = ''reconcile.match'', td_timeoutMs = 25000,
        td_optional = None, td_dependsOn = Some [''task_0'']\<rparr>,
       \<lparr>td_id = ''task_2'', td_name = ''Step 2'', td_handler = ''onboard.validate'', td_timeoutMs = 30000,
        td_optional = None, td_dependsOn = Some [''task_1'']\<rparr>,
       \<lparr>td_id = ''task_3'', td_name = ''Step 3'', td_handler = ''onboard.provision'', td_timeoutMs = 35000,
        td_optional = None, td_dependsOn = Some [''task_2'']\<rparr>],
      jd_constraints =
      [\<lparr>jc_id = ''c1'', jc_expression = ''context.approved == true'', jc_severity = Block\<rparr>,
       \<lparr>jc_id = ''c2'', jc_expression = ''context.amount < 1000000'', jc_severity = Warn\<rparr>],
      jd_retryPolicy = DEFAULT_RETRY_POLICY, jd_allowedTransitions = [],
      jd_metadata = [(''domain'', ''finance''), (''pack'', ''51''), (''tier'', ''enterprise'')],
      jd_createdAt = ''2026-01-15T00:00:00.000Z'', jd_updatedAt = ''2026-01-15T00:00:00.000Z''\<rparr>"

definition JobEnterprise52 :: job_definition where
  "JobEnterprise52 =
     \<lparr>jd_id = ''enterprise_job_52'', jd_name = ''Enterprise workflow 52'', jd_version = 1,
      jd_description = Some ''Generated enterprise job with staged handlers and dependency chain.'',
      jd_tasks =
      [\<lparr>td_id = ''task_0'', td_name = ''Step 0'', td_handler = ''reconcile.match'', td_timeoutMs = 20000,
        td_optional = None, td_dependsOn = None\<rparr>,
       \<lparr>td_id = ''task_1'', td_name = ''Step 1'', td_handler = ''onboard.validate'', td_timeoutMs = 25000,
        td_optional = None, td_dependsOn = Some [''task_0'']\<rparr>,
       \<lparr>td_id = ''task_2'', td_name = ''Step 2'', td_handler = ''onboard.provision'', td_timeoutMs = 30000,
        td_optional = None, td_dependsOn = Some [''task_1'']\<rparr>,
       \<lparr>td_id = ''task_3'', td_name = ''Step 3'', td_handler = ''report.aggregate'', td_timeoutMs = 35000,
        td_optional = None, td_dependsOn = Some [''task_2'']\<rparr>],
      jd_constraints =
      [\<lparr>jc_id = ''c1'', jc_expression = ''context.approved == true'', jc_severity = Block\<rparr>,
       \<lparr>jc_id = ''c2'', jc_expression = ''context.amount < 1000000'', jc_severity = Warn\<rparr>],
      jd_retryPolicy = DEFAULT_RETRY_POLICY, jd_allowedTransitions = [],
      jd_metadata = [(''domain'', ''finance''), (''pack'', ''52''), (''tier'', ''enterprise'')],
      jd_createdAt = ''2026-01-15T00:00:00.000Z'', jd_updatedAt = ''2026-01-15T00:00:00.000Z''\<rparr>"

definition JobEnterprise53 :: job_definition where
  "JobEnterprise53 =
     \<lparr>jd_id = ''enterprise_job_53'', jd_name = ''Enterprise workflow 53'', jd_version = 1,
      jd_description = Some ''Generated enterprise job with staged handlers and dependency chain.'',
      jd_tasks =
      [\<lparr>td_id = ''task_0'', td_name = ''Step 0'', td_handler = ''onboard.validate'', td_timeoutMs = 20000,
        td_optional = None, td_dependsOn = None\<rparr>,
       \<lparr>td_id = ''task_1'', td_name = ''Step 1'', td_handler = ''onboard.provision'', td_timeoutMs = 25000,
        td_optional = None, td_dependsOn = Some [''task_0'']\<rparr>,
       \<lparr>td_id = ''task_2'', td_name = ''Step 2'', td_handler = ''report.aggregate'', td_timeoutMs = 30000,
        td_optional = None, td_dependsOn = Some [''task_1'']\<rparr>,
       \<lparr>td_id = ''task_3'', td_name = ''Step 3'', td_handler = ''invoice.fetch'', td_timeoutMs = 35000,
        td_optional = None, td_dependsOn = Some [''task_2'']\<rparr>],
      jd_constraints =
      [\<lparr>jc_id = ''c1'', jc_expression = ''context.approved == true'', jc_severity = Block\<rparr>,
       \<lparr>jc_id = ''c2'', jc_expression = ''context.amount < 1000000'', jc_severity = Warn\<rparr>],
      jd_retryPolicy = DEFAULT_RETRY_POLICY, jd_allowedTransitions = [],
      jd_metadata = [(''domain'', ''finance''), (''pack'', ''53''), (''tier'', ''enterprise'')],
      jd_createdAt = ''2026-01-15T00:00:00.000Z'', jd_updatedAt = ''2026-01-15T00:00:00.000Z''\<rparr>"

definition JobEnterprise54 :: job_definition where
  "JobEnterprise54 =
     \<lparr>jd_id = ''enterprise_job_54'', jd_name = ''Enterprise workflow 54'', jd_version = 1,
      jd_description = Some ''Generated enterprise job with staged handlers and dependency chain.'',
      jd_tasks =
      [\<lparr>td_id = ''task_0'', td_name = ''Step 0'', td_handler = ''onboard.provision'', td_timeoutMs = 20000,
        td_optional = None, td_dependsOn = None\<rparr>,
       \<lparr>td_id = ''task_1'', td_name = ''Step 1'', td_handler = ''report.aggregate'', td_timeoutMs = 25000,
        td_optional = None, td_dependsOn = Some [''task_0'']\<rparr>,
       \<lparr>td_id = ''task_2'', td_name = ''Step 2'', td_handler = ''invoice.fetch'', td_timeoutMs = 30000,
        td_optional = None, td_dependsOn = Some [''task_1'']\<rparr>,
       \<lparr>td_id = ''task_3'', td_name = ''Step 3'', td_handler = ''invoice.normalize'', td_timeoutMs = 35000,
        td_optional = None, td_dependsOn = Some [''task_2'']\<rparr>],
      jd_constraints =
      [\<lparr>jc_id = ''c1'', jc_expression = ''context.approved == true'', jc_severity = Block\<rparr>,
       \<lparr>jc_id = ''c2'', jc_expression = ''context.amount < 1000000'', jc_severity = Warn\<rparr>],
      jd_retryPolicy = DEFAULT_RETRY_POLICY, jd_allowedTransitions = [],
      jd_metadata = [(''domain'', ''finance''), (''pack'', ''54''), (''tier'', ''enterprise'')],
      jd_createdAt = ''2026-01-15T00:00:00.000Z'', jd_updatedAt = ''2026-01-15T00:00:00.000Z''\<rparr>"

definition JobEnterprise55 :: job_definition where
  "JobEnterprise55 =
     \<lparr>jd_id = ''enterprise_job_55'', jd_name = ''Enterprise workflow 55'', jd_version = 1,
      jd_description = Some ''Generated enterprise job with staged handlers and dependency chain.'',
      jd_tasks =
      [\<lparr>td_id = ''task_0'', td_name = ''Step 0'', td_handler = ''report.aggregate'', td_timeoutMs = 20000,
        td_optional = None, td_dependsOn = None\<rparr>,
       \<lparr>td_id = ''task_1'', td_name = ''Step 1'', td_handler = ''invoice.fetch'', td_timeoutMs = 25000,
        td_optional = None, td_dependsOn = Some [''task_0'']\<rparr>,
       \<lparr>td_id = ''task_2'', td_name = ''Step 2'', td_handler = ''invoice.normalize'', td_timeoutMs = 30000,
        td_optional = None, td_dependsOn = Some [''task_1'']\<rparr>,
       \<lparr>td_id = ''task_3'', td_name = ''Step 3'', td_handler = ''invoice.post_gl'', td_timeoutMs = 35000,
        td_optional = None, td_dependsOn = Some [''task_2'']\<rparr>],
      jd_constraints =
      [\<lparr>jc_id = ''c1'', jc_expression = ''context.approved == true'', jc_severity = Block\<rparr>,
       \<lparr>jc_id = ''c2'', jc_expression = ''context.amount < 1000000'', jc_severity = Warn\<rparr>],
      jd_retryPolicy = DEFAULT_RETRY_POLICY, jd_allowedTransitions = [],
      jd_metadata = [(''domain'', ''finance''), (''pack'', ''55''), (''tier'', ''enterprise'')],
      jd_createdAt = ''2026-01-15T00:00:00.000Z'', jd_updatedAt = ''2026-01-15T00:00:00.000Z''\<rparr>"

definition JobEnterprise56 :: job_definition where
  "JobEnterprise56 =
     \<lparr>jd_id = ''enterprise_job_56'', jd_name = ''Enterprise workflow 56'', jd_version = 1,
      jd_description = Some ''Generated enterprise job with staged handlers and dependency chain.'',
      jd_tasks =
      [\<lparr>td_id = ''task_0'', td_name = ''Step 0'', td_handler = ''invoice.fetch'', td_timeoutMs = 20000,
        td_optional = None, td_dependsOn = None\<rparr>,
       \<lparr>td_id = ''task_1'', td_name = ''Step 1'', td_handler = ''invoice.normalize'', td_timeoutMs = 25000,
        td_optional = None, td_dependsOn = Some [''task_0'']\<rparr>,
       \<lparr>td_id = ''task_2'', td_name = ''Step 2'', td_handler = ''invoice.post_gl'', td_timeoutMs = 30000,
        td_optional = None, td_dependsOn = Some [''task_1'']\<rparr>,
       \<lparr>td_id = ''task_3'', td_name = ''Step 3'', td_handler = ''reconcile.extract'', td_timeoutMs = 35000,
        td_optional = None, td_dependsOn = Some [''task_2'']\<rparr>],
      jd_constraints =
      [\<lparr>jc_id = ''c1'', jc_expression = ''context.approved == true'', jc_severity = Block\<rparr>,
       \<lparr>jc_id = ''c2'', jc_expression = ''context.amount < 1000000'', jc_severity = Warn\<rparr>],
      jd_retryPolicy = DEFAULT_RETRY_POLICY, jd_allowedTransitions = [],
      jd_metadata = [(''domain'', ''finance''), (''pack'', ''56''), (''tier'', ''enterprise'')],
      jd_createdAt = ''2026-01-15T00:00:00.000Z'', jd_updatedAt = ''2026-01-15T00:00:00.000Z''\<rparr>"

definition JobEnterprise57 :: job_definition where
  "JobEnterprise57 =
     \<lparr>jd_id = ''enterprise_job_57'', jd_name = ''Enterprise workflow 57'', jd_version = 1,
      jd_description = Some ''Generated enterprise job with staged handlers and dependency chain.'',
      jd_tasks =
      [\<lparr>td_id = ''task_0'', td_name = ''Step 0'', td_handler = ''invoice.normalize'', td_timeoutMs = 20000,
        td_optional = None, td_dependsOn = None\<rparr>,
       \<lparr>td_id = ''task_1'', td_name = ''Step 1'', td_handler = ''invoice.post_gl'', td_timeoutMs = 25000,
        td_optional = None, td_dependsOn = Some [''task_0'']\<rparr>,
       \<lparr>td_id = ''task_2'', td_name = ''Step 2'', td_handler = ''reconcile.extract'', td_timeoutMs = 30000,
        td_optional = None, td_dependsOn = Some [''task_1'']\<rparr>,
       \<lparr>td_id = ''task_3'', td_name = ''Step 3'', td_handler = ''reconcile.match'', td_timeoutMs = 35000,
        td_optional = None, td_dependsOn = Some [''task_2'']\<rparr>],
      jd_constraints =
      [\<lparr>jc_id = ''c1'', jc_expression = ''context.approved == true'', jc_severity = Block\<rparr>,
       \<lparr>jc_id = ''c2'', jc_expression = ''context.amount < 1000000'', jc_severity = Warn\<rparr>],
      jd_retryPolicy = DEFAULT_RETRY_POLICY, jd_allowedTransitions = [],
      jd_metadata = [(''domain'', ''finance''), (''pack'', ''57''), (''tier'', ''enterprise'')],
      jd_createdAt = ''2026-01-15T00:00:00.000Z'', jd_updatedAt = ''2026-01-15T00:00:00.000Z''\<rparr>"

definition JobEnterprise58 :: job_definition where
  "JobEnterprise58 =
     \<lparr>jd_id = ''enterprise_job_58'', jd_name = ''Enterprise workflow 58'', jd_version = 1,
      jd_description = Some ''Generated enterprise job with staged handlers and dependency chain.'',
      jd_tasks =
      [\<lparr>td_id = ''task_0'', td_name = ''Step 0'', td_handler = ''invoice.post_gl'', td_timeoutMs = 20000,
        td_optional = None, td_dependsOn = None\<rparr>,
       \<lparr>td_id = ''task_1'', td_name = ''Step 1'', td_handler = ''reconcile.extract'', td_timeoutMs = 25000,
        td_optional = None, td_dependsOn = Some [''task_0'']\<rparr>,
       \<lparr>td_id = ''task_2'', td_name = ''Step 2'', td_handler = ''reconcile.match'', td_timeoutMs = 30000,
        td_optional = None, td_dependsOn = Some [''task_1'']\<rparr>,
       \<lparr>td_id = ''task_3'', td_name = ''Step 3'', td_handler = ''onboard.validate'', td_timeoutMs = 35000,
        td_optional = None, td_dependsOn = Some [''task_2'']\<rparr>],
      jd_constraints =
      [\<lparr>jc_id = ''c1'', jc_expression = ''context.approved == true'', jc_severity = Block\<rparr>,
       \<lparr>jc_id = ''c2'', jc_expression = ''context.amount < 1000000'', jc_severity = Warn\<rparr>],
      jd_retryPolicy = DEFAULT_RETRY_POLICY, jd_allowedTransitions = [],
      jd_metadata = [(''domain'', ''finance''), (''pack'', ''58''), (''tier'', ''enterprise'')],
      jd_createdAt = ''2026-01-15T00:00:00.000Z'', jd_updatedAt = ''2026-01-15T00:00:00.000Z''\<rparr>"

definition JobEnterprise59 :: job_definition where
  "JobEnterprise59 =
     \<lparr>jd_id = ''enterprise_job_59'', jd_name = ''Enterprise workflow 59'', jd_version = 1,
      jd_description = Some ''Generated enterprise job with staged handlers and dependency chain.'',
      jd_tasks =
      [\<lparr>td_id = ''task_0'', td_name = ''Step 0'', td_handler = ''reconcile.extract'', td_timeoutMs = 20000,
        td_optional = None, td_dependsOn = None\<rparr>,
       \<lparr>td_id = ''task_1'', td_name = ''Step 1'', td_handler = ''reconcile.match'', td_timeoutMs = 25000,
        td_optional = None, td_dependsOn = Some [''task_0'']\<rparr>,
       \<lparr>td_id = ''task_2'', td_name = ''Step 2'', td_handler = ''onboard.validate'', td_timeoutMs = 30000,
        td_optional = None, td_dependsOn = Some [''task_1'']\<rparr>,
       \<lparr>td_id = ''task_3'', td_name = ''Step 3'', td_handler = ''onboard.provision'', td_timeoutMs = 35000,
        td_optional = None, td_dependsOn = Some [''task_2'']\<rparr>],
      jd_constraints =
      [\<lparr>jc_id = ''c1'', jc_expression = ''context.approved == true'', jc_severity = Block\<rparr>,
       \<lparr>jc_id = ''c2'', jc_expression = ''context.amount < 1000000'', jc_severity = Warn\<rparr>],
      jd_retryPolicy = DEFAULT_RETRY_POLICY, jd_allowedTransitions = [],
      jd_metadata = [(''domain'', ''finance''), (''pack'', ''59''), (''tier'', ''enterprise'')],
      jd_createdAt = ''2026-01-15T00:00:00.000Z'', jd_updatedAt = ''2026-01-15T00:00:00.000Z''\<rparr>"

definition JobEnterprise60 :: job_definition where
  "JobEnterprise60 =
     \<lparr>jd_id = ''enterprise_job_60'', jd_name = ''Enterprise workflow 60'', jd_version = 1,
      jd_description = Some ''Generated enterprise job with staged handlers and dependency chain.'',
      jd_tasks =
      [\<lparr>td_id = ''task_0'', td_name = ''Step 0'', td_handler = ''reconcile.match'', td_timeoutMs = 20000,
        td_optional = None, td_dependsOn = None\<rparr>,
       \<lparr>td_id = ''task_1'', td_name = ''Step 1'', td_handler = ''onboard.validate'', td_timeoutMs = 25000,
        td_optional = None, td_dependsOn = Some [''task_0'']\<rparr>,
       \<lparr>td_id = ''task_2'', td_name = ''Step 2'', td_handler = ''onboard.provision'', td_timeoutMs = 30000,
        td_optional = None, td_dependsOn = Some [''task_1'']\<rparr>,
       \<lparr>td_id = ''task_3'', td_name = ''Step 3'', td_handler = ''report.aggregate'', td_timeoutMs = 35000,
        td_optional = None, td_dependsOn = Some [''task_2'']\<rparr>],
      jd_constraints =
      [\<lparr>jc_id = ''c1'', jc_expression = ''context.approved == true'', jc_severity = Block\<rparr>,
       \<lparr>jc_id = ''c2'', jc_expression = ''context.amount < 1000000'', jc_severity = Warn\<rparr>],
      jd_retryPolicy = DEFAULT_RETRY_POLICY, jd_allowedTransitions = [],
      jd_metadata = [(''domain'', ''finance''), (''pack'', ''60''), (''tier'', ''enterprise'')],
      jd_createdAt = ''2026-01-15T00:00:00.000Z'', jd_updatedAt = ''2026-01-15T00:00:00.000Z''\<rparr>"

definition JobEnterprise61 :: job_definition where
  "JobEnterprise61 =
     \<lparr>jd_id = ''enterprise_job_61'', jd_name = ''Enterprise workflow 61'', jd_version = 1,
      jd_description = Some ''Generated enterprise job with staged handlers and dependency chain.'',
      jd_tasks =
      [\<lparr>td_id = ''task_0'', td_name = ''Step 0'', td_handler = ''onboard.validate'', td_timeoutMs = 20000,
        td_optional = None, td_dependsOn = None\<rparr>,
       \<lparr>td_id = ''task_1'', td_name = ''Step 1'', td_handler = ''onboard.provision'', td_timeoutMs = 25000,
        td_optional = None, td_dependsOn = Some [''task_0'']\<rparr>,
       \<lparr>td_id = ''task_2'', td_name = ''Step 2'', td_handler = ''report.aggregate'', td_timeoutMs = 30000,
        td_optional = None, td_dependsOn = Some [''task_1'']\<rparr>,
       \<lparr>td_id = ''task_3'', td_name = ''Step 3'', td_handler = ''invoice.fetch'', td_timeoutMs = 35000,
        td_optional = None, td_dependsOn = Some [''task_2'']\<rparr>],
      jd_constraints =
      [\<lparr>jc_id = ''c1'', jc_expression = ''context.approved == true'', jc_severity = Block\<rparr>,
       \<lparr>jc_id = ''c2'', jc_expression = ''context.amount < 1000000'', jc_severity = Warn\<rparr>],
      jd_retryPolicy = DEFAULT_RETRY_POLICY, jd_allowedTransitions = [],
      jd_metadata = [(''domain'', ''finance''), (''pack'', ''61''), (''tier'', ''enterprise'')],
      jd_createdAt = ''2026-01-15T00:00:00.000Z'', jd_updatedAt = ''2026-01-15T00:00:00.000Z''\<rparr>"

definition JobEnterprise62 :: job_definition where
  "JobEnterprise62 =
     \<lparr>jd_id = ''enterprise_job_62'', jd_name = ''Enterprise workflow 62'', jd_version = 1,
      jd_description = Some ''Generated enterprise job with staged handlers and dependency chain.'',
      jd_tasks =
      [\<lparr>td_id = ''task_0'', td_name = ''Step 0'', td_handler = ''onboard.provision'', td_timeoutMs = 20000,
        td_optional = None, td_dependsOn = None\<rparr>,
       \<lparr>td_id = ''task_1'', td_name = ''Step 1'', td_handler = ''report.aggregate'', td_timeoutMs = 25000,
        td_optional = None, td_dependsOn = Some [''task_0'']\<rparr>,
       \<lparr>td_id = ''task_2'', td_name = ''Step 2'', td_handler = ''invoice.fetch'', td_timeoutMs = 30000,
        td_optional = None, td_dependsOn = Some [''task_1'']\<rparr>,
       \<lparr>td_id = ''task_3'', td_name = ''Step 3'', td_handler = ''invoice.normalize'', td_timeoutMs = 35000,
        td_optional = None, td_dependsOn = Some [''task_2'']\<rparr>],
      jd_constraints =
      [\<lparr>jc_id = ''c1'', jc_expression = ''context.approved == true'', jc_severity = Block\<rparr>,
       \<lparr>jc_id = ''c2'', jc_expression = ''context.amount < 1000000'', jc_severity = Warn\<rparr>],
      jd_retryPolicy = DEFAULT_RETRY_POLICY, jd_allowedTransitions = [],
      jd_metadata = [(''domain'', ''finance''), (''pack'', ''62''), (''tier'', ''enterprise'')],
      jd_createdAt = ''2026-01-15T00:00:00.000Z'', jd_updatedAt = ''2026-01-15T00:00:00.000Z''\<rparr>"

definition JobEnterprise63 :: job_definition where
  "JobEnterprise63 =
     \<lparr>jd_id = ''enterprise_job_63'', jd_name = ''Enterprise workflow 63'', jd_version = 1,
      jd_description = Some ''Generated enterprise job with staged handlers and dependency chain.'',
      jd_tasks =
      [\<lparr>td_id = ''task_0'', td_name = ''Step 0'', td_handler = ''report.aggregate'', td_timeoutMs = 20000,
        td_optional = None, td_dependsOn = None\<rparr>,
       \<lparr>td_id = ''task_1'', td_name = ''Step 1'', td_handler = ''invoice.fetch'', td_timeoutMs = 25000,
        td_optional = None, td_dependsOn = Some [''task_0'']\<rparr>,
       \<lparr>td_id = ''task_2'', td_name = ''Step 2'', td_handler = ''invoice.normalize'', td_timeoutMs = 30000,
        td_optional = None, td_dependsOn = Some [''task_1'']\<rparr>,
       \<lparr>td_id = ''task_3'', td_name = ''Step 3'', td_handler = ''invoice.post_gl'', td_timeoutMs = 35000,
        td_optional = None, td_dependsOn = Some [''task_2'']\<rparr>],
      jd_constraints =
      [\<lparr>jc_id = ''c1'', jc_expression = ''context.approved == true'', jc_severity = Block\<rparr>,
       \<lparr>jc_id = ''c2'', jc_expression = ''context.amount < 1000000'', jc_severity = Warn\<rparr>],
      jd_retryPolicy = DEFAULT_RETRY_POLICY, jd_allowedTransitions = [],
      jd_metadata = [(''domain'', ''finance''), (''pack'', ''63''), (''tier'', ''enterprise'')],
      jd_createdAt = ''2026-01-15T00:00:00.000Z'', jd_updatedAt = ''2026-01-15T00:00:00.000Z''\<rparr>"

definition JobEnterprise64 :: job_definition where
  "JobEnterprise64 =
     \<lparr>jd_id = ''enterprise_job_64'', jd_name = ''Enterprise workflow 64'', jd_version = 1,
      jd_description = Some ''Generated enterprise job with staged handlers and dependency chain.'',
      jd_tasks =
      [\<lparr>td_id = ''task_0'', td_name = ''Step 0'', td_handler = ''invoice.fetch'', td_timeoutMs = 20000,
        td_optional = None, td_dependsOn = None\<rparr>,
       \<lparr>td_id = ''task_1'', td_name = ''Step 1'', td_handler = ''invoice.normalize'', td_timeoutMs = 25000,
        td_optional = None, td_dependsOn = Some [''task_0'']\<rparr>,
       \<lparr>td_id = ''task_2'', td_name = ''Step 2'', td_handler = ''invoice.post_gl'', td_timeoutMs = 30000,
        td_optional = None, td_dependsOn = Some [''task_1'']\<rparr>,
       \<lparr>td_id = ''task_3'', td_name = ''Step 3'', td_handler = ''reconcile.extract'', td_timeoutMs = 35000,
        td_optional = None, td_dependsOn = Some [''task_2'']\<rparr>],
      jd_constraints =
      [\<lparr>jc_id = ''c1'', jc_expression = ''context.approved == true'', jc_severity = Block\<rparr>,
       \<lparr>jc_id = ''c2'', jc_expression = ''context.amount < 1000000'', jc_severity = Warn\<rparr>],
      jd_retryPolicy = DEFAULT_RETRY_POLICY, jd_allowedTransitions = [],
      jd_metadata = [(''domain'', ''finance''), (''pack'', ''64''), (''tier'', ''enterprise'')],
      jd_createdAt = ''2026-01-15T00:00:00.000Z'', jd_updatedAt = ''2026-01-15T00:00:00.000Z''\<rparr>"

definition JobEnterprise65 :: job_definition where
  "JobEnterprise65 =
     \<lparr>jd_id = ''enterprise_job_65'', jd_name = ''Enterprise workflow 65'', jd_version = 1,
      jd_description = Some ''Generated enterprise job with staged handlers and dependency chain.'',
      jd_tasks =
      [\<lparr>td_id = ''task_0'', td_name = ''Step 0'', td_handler = ''invoice.normalize'', td_timeoutMs = 20000,
        td_optional = None, td_dependsOn = None\<rparr>,
       \<lparr>td_id = ''task_1'', td_name = ''Step 1'', td_handler = ''invoice.post_gl'', td_timeoutMs = 25000,
        td_optional = None, td_dependsOn = Some [''task_0'']\<rparr>,
       \<lparr>td_id = ''task_2'', td_name = ''Step 2'', td_handler = ''reconcile.extract'', td_timeoutMs = 30000,
        td_optional = None, td_dependsOn = Some [''task_1'']\<rparr>,
       \<lparr>td_id = ''task_3'', td_name = ''Step 3'', td_handler = ''reconcile.match'', td_timeoutMs = 35000,
        td_optional = None, td_dependsOn = Some [''task_2'']\<rparr>],
      jd_constraints =
      [\<lparr>jc_id = ''c1'', jc_expression = ''context.approved == true'', jc_severity = Block\<rparr>,
       \<lparr>jc_id = ''c2'', jc_expression = ''context.amount < 1000000'', jc_severity = Warn\<rparr>],
      jd_retryPolicy = DEFAULT_RETRY_POLICY, jd_allowedTransitions = [],
      jd_metadata = [(''domain'', ''finance''), (''pack'', ''65''), (''tier'', ''enterprise'')],
      jd_createdAt = ''2026-01-15T00:00:00.000Z'', jd_updatedAt = ''2026-01-15T00:00:00.000Z''\<rparr>"

definition JobEnterprise66 :: job_definition where
  "JobEnterprise66 =
     \<lparr>jd_id = ''enterprise_job_66'', jd_name = ''Enterprise workflow 66'', jd_version = 1,
      jd_description = Some ''Generated enterprise job with staged handlers and dependency chain.'',
      jd_tasks =
      [\<lparr>td_id = ''task_0'', td_name = ''Step 0'', td_handler = ''invoice.post_gl'', td_timeoutMs = 20000,
        td_optional = None, td_dependsOn = None\<rparr>,
       \<lparr>td_id = ''task_1'', td_name = ''Step 1'', td_handler = ''reconcile.extract'', td_timeoutMs = 25000,
        td_optional = None, td_dependsOn = Some [''task_0'']\<rparr>,
       \<lparr>td_id = ''task_2'', td_name = ''Step 2'', td_handler = ''reconcile.match'', td_timeoutMs = 30000,
        td_optional = None, td_dependsOn = Some [''task_1'']\<rparr>,
       \<lparr>td_id = ''task_3'', td_name = ''Step 3'', td_handler = ''onboard.validate'', td_timeoutMs = 35000,
        td_optional = None, td_dependsOn = Some [''task_2'']\<rparr>],
      jd_constraints =
      [\<lparr>jc_id = ''c1'', jc_expression = ''context.approved == true'', jc_severity = Block\<rparr>,
       \<lparr>jc_id = ''c2'', jc_expression = ''context.amount < 1000000'', jc_severity = Warn\<rparr>],
      jd_retryPolicy = DEFAULT_RETRY_POLICY, jd_allowedTransitions = [],
      jd_metadata = [(''domain'', ''finance''), (''pack'', ''66''), (''tier'', ''enterprise'')],
      jd_createdAt = ''2026-01-15T00:00:00.000Z'', jd_updatedAt = ''2026-01-15T00:00:00.000Z''\<rparr>"

definition JobEnterprise67 :: job_definition where
  "JobEnterprise67 =
     \<lparr>jd_id = ''enterprise_job_67'', jd_name = ''Enterprise workflow 67'', jd_version = 1,
      jd_description = Some ''Generated enterprise job with staged handlers and dependency chain.'',
      jd_tasks =
      [\<lparr>td_id = ''task_0'', td_name = ''Step 0'', td_handler = ''reconcile.extract'', td_timeoutMs = 20000,
        td_optional = None, td_dependsOn = None\<rparr>,
       \<lparr>td_id = ''task_1'', td_name = ''Step 1'', td_handler = ''reconcile.match'', td_timeoutMs = 25000,
        td_optional = None, td_dependsOn = Some [''task_0'']\<rparr>,
       \<lparr>td_id = ''task_2'', td_name = ''Step 2'', td_handler = ''onboard.validate'', td_timeoutMs = 30000,
        td_optional = None, td_dependsOn = Some [''task_1'']\<rparr>,
       \<lparr>td_id = ''task_3'', td_name = ''Step 3'', td_handler = ''onboard.provision'', td_timeoutMs = 35000,
        td_optional = None, td_dependsOn = Some [''task_2'']\<rparr>],
      jd_constraints =
      [\<lparr>jc_id = ''c1'', jc_expression = ''context.approved == true'', jc_severity = Block\<rparr>,
       \<lparr>jc_id = ''c2'', jc_expression = ''context.amount < 1000000'', jc_severity = Warn\<rparr>],
      jd_retryPolicy = DEFAULT_RETRY_POLICY, jd_allowedTransitions = [],
      jd_metadata = [(''domain'', ''finance''), (''pack'', ''67''), (''tier'', ''enterprise'')],
      jd_createdAt = ''2026-01-15T00:00:00.000Z'', jd_updatedAt = ''2026-01-15T00:00:00.000Z''\<rparr>"

definition JobEnterprise68 :: job_definition where
  "JobEnterprise68 =
     \<lparr>jd_id = ''enterprise_job_68'', jd_name = ''Enterprise workflow 68'', jd_version = 1,
      jd_description = Some ''Generated enterprise job with staged handlers and dependency chain.'',
      jd_tasks =
      [\<lparr>td_id = ''task_0'', td_name = ''Step 0'', td_handler = ''reconcile.match'', td_timeoutMs = 20000,
        td_optional = None, td_dependsOn = None\<rparr>,
       \<lparr>td_id = ''task_1'', td_name = ''Step 1'', td_handler = ''onboard.validate'', td_timeoutMs = 25000,
        td_optional = None, td_dependsOn = Some [''task_0'']\<rparr>,
       \<lparr>td_id = ''task_2'', td_name = ''Step 2'', td_handler = ''onboard.provision'', td_timeoutMs = 30000,
        td_optional = None, td_dependsOn = Some [''task_1'']\<rparr>,
       \<lparr>td_id = ''task_3'', td_name = ''Step 3'', td_handler = ''report.aggregate'', td_timeoutMs = 35000,
        td_optional = None, td_dependsOn = Some [''task_2'']\<rparr>],
      jd_constraints =
      [\<lparr>jc_id = ''c1'', jc_expression = ''context.approved == true'', jc_severity = Block\<rparr>,
       \<lparr>jc_id = ''c2'', jc_expression = ''context.amount < 1000000'', jc_severity = Warn\<rparr>],
      jd_retryPolicy = DEFAULT_RETRY_POLICY, jd_allowedTransitions = [],
      jd_metadata = [(''domain'', ''finance''), (''pack'', ''68''), (''tier'', ''enterprise'')],
      jd_createdAt = ''2026-01-15T00:00:00.000Z'', jd_updatedAt = ''2026-01-15T00:00:00.000Z''\<rparr>"

definition JobEnterprise69 :: job_definition where
  "JobEnterprise69 =
     \<lparr>jd_id = ''enterprise_job_69'', jd_name = ''Enterprise workflow 69'', jd_version = 1,
      jd_description = Some ''Generated enterprise job with staged handlers and dependency chain.'',
      jd_tasks =
      [\<lparr>td_id = ''task_0'', td_name = ''Step 0'', td_handler = ''onboard.validate'', td_timeoutMs = 20000,
        td_optional = None, td_dependsOn = None\<rparr>,
       \<lparr>td_id = ''task_1'', td_name = ''Step 1'', td_handler = ''onboard.provision'', td_timeoutMs = 25000,
        td_optional = None, td_dependsOn = Some [''task_0'']\<rparr>,
       \<lparr>td_id = ''task_2'', td_name = ''Step 2'', td_handler = ''report.aggregate'', td_timeoutMs = 30000,
        td_optional = None, td_dependsOn = Some [''task_1'']\<rparr>,
       \<lparr>td_id = ''task_3'', td_name = ''Step 3'', td_handler = ''invoice.fetch'', td_timeoutMs = 35000,
        td_optional = None, td_dependsOn = Some [''task_2'']\<rparr>],
      jd_constraints =
      [\<lparr>jc_id = ''c1'', jc_expression = ''context.approved == true'', jc_severity = Block\<rparr>,
       \<lparr>jc_id = ''c2'', jc_expression = ''context.amount < 1000000'', jc_severity = Warn\<rparr>],
      jd_retryPolicy = DEFAULT_RETRY_POLICY, jd_allowedTransitions = [],
      jd_metadata = [(''domain'', ''finance''), (''pack'', ''69''), (''tier'', ''enterprise'')],
      jd_createdAt = ''2026-01-15T00:00:00.000Z'', jd_updatedAt = ''2026-01-15T00:00:00.000Z''\<rparr>"

definition JobEnterprise70 :: job_definition where
  "JobEnterprise70 =
     \<lparr>jd_id = ''enterprise_job_70'', jd_name = ''Enterprise workflow 70'', jd_version = 1,
      jd_description = Some ''Generated enterprise job with staged handlers and dependency chain.'',
      jd_tasks =
      [\<lparr>td_id = ''task_0'', td_name = ''Step 0'', td_handler = ''onboard.provision'', td_timeoutMs = 20000,
        td_optional = None, td_dependsOn = None\<rparr>,
       \<lparr>td_id = ''task_1'', td_name = ''Step 1'', td_handler = ''report.aggregate'', td_timeoutMs = 25000,
        td_optional = None, td_dependsOn = Some [''task_0'']\<rparr>,
       \<lparr>td_id = ''task_2'', td_name = ''Step 2'', td_handler = ''invoice.fetch'', td_timeoutMs = 30000,
        td_optional = None, td_dependsOn = Some [''task_1'']\<rparr>,
       \<lparr>td_id = ''task_3'', td_name = ''Step 3'', td_handler = ''invoice.normalize'', td_timeoutMs = 35000,
        td_optional = None, td_dependsOn = Some [''task_2'']\<rparr>],
      jd_constraints =
      [\<lparr>jc_id = ''c1'', jc_expression = ''context.approved == true'', jc_severity = Block\<rparr>,
       \<lparr>jc_id = ''c2'', jc_expression = ''context.amount < 1000000'', jc_severity = Warn\<rparr>],
      jd_retryPolicy = DEFAULT_RETRY_POLICY, jd_allowedTransitions = [],
      jd_metadata = [(''domain'', ''finance''), (''pack'', ''70''), (''tier'', ''enterprise'')],
      jd_createdAt = ''2026-01-15T00:00:00.000Z'', jd_updatedAt = ''2026-01-15T00:00:00.000Z''\<rparr>"

definition JobEnterprise71 :: job_definition where
  "JobEnterprise71 =
     \<lparr>jd_id = ''enterprise_job_71'', jd_name = ''Enterprise workflow 71'', jd_version = 1,
      jd_description = Some ''Generated enterprise job with staged handlers and dependency chain.'',
      jd_tasks =
      [\<lparr>td_id = ''task_0'', td_name = ''Step 0'', td_handler = ''report.aggregate'', td_timeoutMs = 20000,
        td_optional = None, td_dependsOn = None\<rparr>,
       \<lparr>td_id = ''task_1'', td_name = ''Step 1'', td_handler = ''invoice.fetch'', td_timeoutMs = 25000,
        td_optional = None, td_dependsOn = Some [''task_0'']\<rparr>,
       \<lparr>td_id = ''task_2'', td_name = ''Step 2'', td_handler = ''invoice.normalize'', td_timeoutMs = 30000,
        td_optional = None, td_dependsOn = Some [''task_1'']\<rparr>,
       \<lparr>td_id = ''task_3'', td_name = ''Step 3'', td_handler = ''invoice.post_gl'', td_timeoutMs = 35000,
        td_optional = None, td_dependsOn = Some [''task_2'']\<rparr>],
      jd_constraints =
      [\<lparr>jc_id = ''c1'', jc_expression = ''context.approved == true'', jc_severity = Block\<rparr>,
       \<lparr>jc_id = ''c2'', jc_expression = ''context.amount < 1000000'', jc_severity = Warn\<rparr>],
      jd_retryPolicy = DEFAULT_RETRY_POLICY, jd_allowedTransitions = [],
      jd_metadata = [(''domain'', ''finance''), (''pack'', ''71''), (''tier'', ''enterprise'')],
      jd_createdAt = ''2026-01-15T00:00:00.000Z'', jd_updatedAt = ''2026-01-15T00:00:00.000Z''\<rparr>"

definition JobEnterprise72 :: job_definition where
  "JobEnterprise72 =
     \<lparr>jd_id = ''enterprise_job_72'', jd_name = ''Enterprise workflow 72'', jd_version = 1,
      jd_description = Some ''Generated enterprise job with staged handlers and dependency chain.'',
      jd_tasks =
      [\<lparr>td_id = ''task_0'', td_name = ''Step 0'', td_handler = ''invoice.fetch'', td_timeoutMs = 20000,
        td_optional = None, td_dependsOn = None\<rparr>,
       \<lparr>td_id = ''task_1'', td_name = ''Step 1'', td_handler = ''invoice.normalize'', td_timeoutMs = 25000,
        td_optional = None, td_dependsOn = Some [''task_0'']\<rparr>,
       \<lparr>td_id = ''task_2'', td_name = ''Step 2'', td_handler = ''invoice.post_gl'', td_timeoutMs = 30000,
        td_optional = None, td_dependsOn = Some [''task_1'']\<rparr>,
       \<lparr>td_id = ''task_3'', td_name = ''Step 3'', td_handler = ''reconcile.extract'', td_timeoutMs = 35000,
        td_optional = None, td_dependsOn = Some [''task_2'']\<rparr>],
      jd_constraints =
      [\<lparr>jc_id = ''c1'', jc_expression = ''context.approved == true'', jc_severity = Block\<rparr>,
       \<lparr>jc_id = ''c2'', jc_expression = ''context.amount < 1000000'', jc_severity = Warn\<rparr>],
      jd_retryPolicy = DEFAULT_RETRY_POLICY, jd_allowedTransitions = [],
      jd_metadata = [(''domain'', ''finance''), (''pack'', ''72''), (''tier'', ''enterprise'')],
      jd_createdAt = ''2026-01-15T00:00:00.000Z'', jd_updatedAt = ''2026-01-15T00:00:00.000Z''\<rparr>"

definition JobEnterprise73 :: job_definition where
  "JobEnterprise73 =
     \<lparr>jd_id = ''enterprise_job_73'', jd_name = ''Enterprise workflow 73'', jd_version = 1,
      jd_description = Some ''Generated enterprise job with staged handlers and dependency chain.'',
      jd_tasks =
      [\<lparr>td_id = ''task_0'', td_name = ''Step 0'', td_handler = ''invoice.normalize'', td_timeoutMs = 20000,
        td_optional = None, td_dependsOn = None\<rparr>,
       \<lparr>td_id = ''task_1'', td_name = ''Step 1'', td_handler = ''invoice.post_gl'', td_timeoutMs = 25000,
        td_optional = None, td_dependsOn = Some [''task_0'']\<rparr>,
       \<lparr>td_id = ''task_2'', td_name = ''Step 2'', td_handler = ''reconcile.extract'', td_timeoutMs = 30000,
        td_optional = None, td_dependsOn = Some [''task_1'']\<rparr>,
       \<lparr>td_id = ''task_3'', td_name = ''Step 3'', td_handler = ''reconcile.match'', td_timeoutMs = 35000,
        td_optional = None, td_dependsOn = Some [''task_2'']\<rparr>],
      jd_constraints =
      [\<lparr>jc_id = ''c1'', jc_expression = ''context.approved == true'', jc_severity = Block\<rparr>,
       \<lparr>jc_id = ''c2'', jc_expression = ''context.amount < 1000000'', jc_severity = Warn\<rparr>],
      jd_retryPolicy = DEFAULT_RETRY_POLICY, jd_allowedTransitions = [],
      jd_metadata = [(''domain'', ''finance''), (''pack'', ''73''), (''tier'', ''enterprise'')],
      jd_createdAt = ''2026-01-15T00:00:00.000Z'', jd_updatedAt = ''2026-01-15T00:00:00.000Z''\<rparr>"

definition JobEnterprise74 :: job_definition where
  "JobEnterprise74 =
     \<lparr>jd_id = ''enterprise_job_74'', jd_name = ''Enterprise workflow 74'', jd_version = 1,
      jd_description = Some ''Generated enterprise job with staged handlers and dependency chain.'',
      jd_tasks =
      [\<lparr>td_id = ''task_0'', td_name = ''Step 0'', td_handler = ''invoice.post_gl'', td_timeoutMs = 20000,
        td_optional = None, td_dependsOn = None\<rparr>,
       \<lparr>td_id = ''task_1'', td_name = ''Step 1'', td_handler = ''reconcile.extract'', td_timeoutMs = 25000,
        td_optional = None, td_dependsOn = Some [''task_0'']\<rparr>,
       \<lparr>td_id = ''task_2'', td_name = ''Step 2'', td_handler = ''reconcile.match'', td_timeoutMs = 30000,
        td_optional = None, td_dependsOn = Some [''task_1'']\<rparr>,
       \<lparr>td_id = ''task_3'', td_name = ''Step 3'', td_handler = ''onboard.validate'', td_timeoutMs = 35000,
        td_optional = None, td_dependsOn = Some [''task_2'']\<rparr>],
      jd_constraints =
      [\<lparr>jc_id = ''c1'', jc_expression = ''context.approved == true'', jc_severity = Block\<rparr>,
       \<lparr>jc_id = ''c2'', jc_expression = ''context.amount < 1000000'', jc_severity = Warn\<rparr>],
      jd_retryPolicy = DEFAULT_RETRY_POLICY, jd_allowedTransitions = [],
      jd_metadata = [(''domain'', ''finance''), (''pack'', ''74''), (''tier'', ''enterprise'')],
      jd_createdAt = ''2026-01-15T00:00:00.000Z'', jd_updatedAt = ''2026-01-15T00:00:00.000Z''\<rparr>"

definition JobEnterprise75 :: job_definition where
  "JobEnterprise75 =
     \<lparr>jd_id = ''enterprise_job_75'', jd_name = ''Enterprise workflow 75'', jd_version = 1,
      jd_description = Some ''Generated enterprise job with staged handlers and dependency chain.'',
      jd_tasks =
      [\<lparr>td_id = ''task_0'', td_name = ''Step 0'', td_handler = ''reconcile.extract'', td_timeoutMs = 20000,
        td_optional = None, td_dependsOn = None\<rparr>,
       \<lparr>td_id = ''task_1'', td_name = ''Step 1'', td_handler = ''reconcile.match'', td_timeoutMs = 25000,
        td_optional = None, td_dependsOn = Some [''task_0'']\<rparr>,
       \<lparr>td_id = ''task_2'', td_name = ''Step 2'', td_handler = ''onboard.validate'', td_timeoutMs = 30000,
        td_optional = None, td_dependsOn = Some [''task_1'']\<rparr>,
       \<lparr>td_id = ''task_3'', td_name = ''Step 3'', td_handler = ''onboard.provision'', td_timeoutMs = 35000,
        td_optional = None, td_dependsOn = Some [''task_2'']\<rparr>],
      jd_constraints =
      [\<lparr>jc_id = ''c1'', jc_expression = ''context.approved == true'', jc_severity = Block\<rparr>,
       \<lparr>jc_id = ''c2'', jc_expression = ''context.amount < 1000000'', jc_severity = Warn\<rparr>],
      jd_retryPolicy = DEFAULT_RETRY_POLICY, jd_allowedTransitions = [],
      jd_metadata = [(''domain'', ''finance''), (''pack'', ''75''), (''tier'', ''enterprise'')],
      jd_createdAt = ''2026-01-15T00:00:00.000Z'', jd_updatedAt = ''2026-01-15T00:00:00.000Z''\<rparr>"

definition JobEnterprise76 :: job_definition where
  "JobEnterprise76 =
     \<lparr>jd_id = ''enterprise_job_76'', jd_name = ''Enterprise workflow 76'', jd_version = 1,
      jd_description = Some ''Generated enterprise job with staged handlers and dependency chain.'',
      jd_tasks =
      [\<lparr>td_id = ''task_0'', td_name = ''Step 0'', td_handler = ''reconcile.match'', td_timeoutMs = 20000,
        td_optional = None, td_dependsOn = None\<rparr>,
       \<lparr>td_id = ''task_1'', td_name = ''Step 1'', td_handler = ''onboard.validate'', td_timeoutMs = 25000,
        td_optional = None, td_dependsOn = Some [''task_0'']\<rparr>,
       \<lparr>td_id = ''task_2'', td_name = ''Step 2'', td_handler = ''onboard.provision'', td_timeoutMs = 30000,
        td_optional = None, td_dependsOn = Some [''task_1'']\<rparr>,
       \<lparr>td_id = ''task_3'', td_name = ''Step 3'', td_handler = ''report.aggregate'', td_timeoutMs = 35000,
        td_optional = None, td_dependsOn = Some [''task_2'']\<rparr>],
      jd_constraints =
      [\<lparr>jc_id = ''c1'', jc_expression = ''context.approved == true'', jc_severity = Block\<rparr>,
       \<lparr>jc_id = ''c2'', jc_expression = ''context.amount < 1000000'', jc_severity = Warn\<rparr>],
      jd_retryPolicy = DEFAULT_RETRY_POLICY, jd_allowedTransitions = [],
      jd_metadata = [(''domain'', ''finance''), (''pack'', ''76''), (''tier'', ''enterprise'')],
      jd_createdAt = ''2026-01-15T00:00:00.000Z'', jd_updatedAt = ''2026-01-15T00:00:00.000Z''\<rparr>"

definition JobEnterprise77 :: job_definition where
  "JobEnterprise77 =
     \<lparr>jd_id = ''enterprise_job_77'', jd_name = ''Enterprise workflow 77'', jd_version = 1,
      jd_description = Some ''Generated enterprise job with staged handlers and dependency chain.'',
      jd_tasks =
      [\<lparr>td_id = ''task_0'', td_name = ''Step 0'', td_handler = ''onboard.validate'', td_timeoutMs = 20000,
        td_optional = None, td_dependsOn = None\<rparr>,
       \<lparr>td_id = ''task_1'', td_name = ''Step 1'', td_handler = ''onboard.provision'', td_timeoutMs = 25000,
        td_optional = None, td_dependsOn = Some [''task_0'']\<rparr>,
       \<lparr>td_id = ''task_2'', td_name = ''Step 2'', td_handler = ''report.aggregate'', td_timeoutMs = 30000,
        td_optional = None, td_dependsOn = Some [''task_1'']\<rparr>,
       \<lparr>td_id = ''task_3'', td_name = ''Step 3'', td_handler = ''invoice.fetch'', td_timeoutMs = 35000,
        td_optional = None, td_dependsOn = Some [''task_2'']\<rparr>],
      jd_constraints =
      [\<lparr>jc_id = ''c1'', jc_expression = ''context.approved == true'', jc_severity = Block\<rparr>,
       \<lparr>jc_id = ''c2'', jc_expression = ''context.amount < 1000000'', jc_severity = Warn\<rparr>],
      jd_retryPolicy = DEFAULT_RETRY_POLICY, jd_allowedTransitions = [],
      jd_metadata = [(''domain'', ''finance''), (''pack'', ''77''), (''tier'', ''enterprise'')],
      jd_createdAt = ''2026-01-15T00:00:00.000Z'', jd_updatedAt = ''2026-01-15T00:00:00.000Z''\<rparr>"

definition JobEnterprise78 :: job_definition where
  "JobEnterprise78 =
     \<lparr>jd_id = ''enterprise_job_78'', jd_name = ''Enterprise workflow 78'', jd_version = 1,
      jd_description = Some ''Generated enterprise job with staged handlers and dependency chain.'',
      jd_tasks =
      [\<lparr>td_id = ''task_0'', td_name = ''Step 0'', td_handler = ''onboard.provision'', td_timeoutMs = 20000,
        td_optional = None, td_dependsOn = None\<rparr>,
       \<lparr>td_id = ''task_1'', td_name = ''Step 1'', td_handler = ''report.aggregate'', td_timeoutMs = 25000,
        td_optional = None, td_dependsOn = Some [''task_0'']\<rparr>,
       \<lparr>td_id = ''task_2'', td_name = ''Step 2'', td_handler = ''invoice.fetch'', td_timeoutMs = 30000,
        td_optional = None, td_dependsOn = Some [''task_1'']\<rparr>,
       \<lparr>td_id = ''task_3'', td_name = ''Step 3'', td_handler = ''invoice.normalize'', td_timeoutMs = 35000,
        td_optional = None, td_dependsOn = Some [''task_2'']\<rparr>],
      jd_constraints =
      [\<lparr>jc_id = ''c1'', jc_expression = ''context.approved == true'', jc_severity = Block\<rparr>,
       \<lparr>jc_id = ''c2'', jc_expression = ''context.amount < 1000000'', jc_severity = Warn\<rparr>],
      jd_retryPolicy = DEFAULT_RETRY_POLICY, jd_allowedTransitions = [],
      jd_metadata = [(''domain'', ''finance''), (''pack'', ''78''), (''tier'', ''enterprise'')],
      jd_createdAt = ''2026-01-15T00:00:00.000Z'', jd_updatedAt = ''2026-01-15T00:00:00.000Z''\<rparr>"

definition JobEnterprise79 :: job_definition where
  "JobEnterprise79 =
     \<lparr>jd_id = ''enterprise_job_79'', jd_name = ''Enterprise workflow 79'', jd_version = 1,
      jd_description = Some ''Generated enterprise job with staged handlers and dependency chain.'',
      jd_tasks =
      [\<lparr>td_id = ''task_0'', td_name = ''Step 0'', td_handler = ''report.aggregate'', td_timeoutMs = 20000,
        td_optional = None, td_dependsOn = None\<rparr>,
       \<lparr>td_id = ''task_1'', td_name = ''Step 1'', td_handler = ''invoice.fetch'', td_timeoutMs = 25000,
        td_optional = None, td_dependsOn = Some [''task_0'']\<rparr>,
       \<lparr>td_id = ''task_2'', td_name = ''Step 2'', td_handler = ''invoice.normalize'', td_timeoutMs = 30000,
        td_optional = None, td_dependsOn = Some [''task_1'']\<rparr>,
       \<lparr>td_id = ''task_3'', td_name = ''Step 3'', td_handler = ''invoice.post_gl'', td_timeoutMs = 35000,
        td_optional = None, td_dependsOn = Some [''task_2'']\<rparr>],
      jd_constraints =
      [\<lparr>jc_id = ''c1'', jc_expression = ''context.approved == true'', jc_severity = Block\<rparr>,
       \<lparr>jc_id = ''c2'', jc_expression = ''context.amount < 1000000'', jc_severity = Warn\<rparr>],
      jd_retryPolicy = DEFAULT_RETRY_POLICY, jd_allowedTransitions = [],
      jd_metadata = [(''domain'', ''finance''), (''pack'', ''79''), (''tier'', ''enterprise'')],
      jd_createdAt = ''2026-01-15T00:00:00.000Z'', jd_updatedAt = ''2026-01-15T00:00:00.000Z''\<rparr>"

definition JobEnterprise80 :: job_definition where
  "JobEnterprise80 =
     \<lparr>jd_id = ''enterprise_job_80'', jd_name = ''Enterprise workflow 80'', jd_version = 1,
      jd_description = Some ''Generated enterprise job with staged handlers and dependency chain.'',
      jd_tasks =
      [\<lparr>td_id = ''task_0'', td_name = ''Step 0'', td_handler = ''invoice.fetch'', td_timeoutMs = 20000,
        td_optional = None, td_dependsOn = None\<rparr>,
       \<lparr>td_id = ''task_1'', td_name = ''Step 1'', td_handler = ''invoice.normalize'', td_timeoutMs = 25000,
        td_optional = None, td_dependsOn = Some [''task_0'']\<rparr>,
       \<lparr>td_id = ''task_2'', td_name = ''Step 2'', td_handler = ''invoice.post_gl'', td_timeoutMs = 30000,
        td_optional = None, td_dependsOn = Some [''task_1'']\<rparr>,
       \<lparr>td_id = ''task_3'', td_name = ''Step 3'', td_handler = ''reconcile.extract'', td_timeoutMs = 35000,
        td_optional = None, td_dependsOn = Some [''task_2'']\<rparr>],
      jd_constraints =
      [\<lparr>jc_id = ''c1'', jc_expression = ''context.approved == true'', jc_severity = Block\<rparr>,
       \<lparr>jc_id = ''c2'', jc_expression = ''context.amount < 1000000'', jc_severity = Warn\<rparr>],
      jd_retryPolicy = DEFAULT_RETRY_POLICY, jd_allowedTransitions = [],
      jd_metadata = [(''domain'', ''finance''), (''pack'', ''80''), (''tier'', ''enterprise'')],
      jd_createdAt = ''2026-01-15T00:00:00.000Z'', jd_updatedAt = ''2026-01-15T00:00:00.000Z''\<rparr>"

definition ENTERPRISE_JOB_PACK :: "job_definition list" where
  "ENTERPRISE_JOB_PACK =
    [JobEnterprise01, JobEnterprise02, JobEnterprise03, JobEnterprise04, JobEnterprise05,
     JobEnterprise06, JobEnterprise07, JobEnterprise08, JobEnterprise09, JobEnterprise10,
     JobEnterprise11, JobEnterprise12, JobEnterprise13, JobEnterprise14, JobEnterprise15,
     JobEnterprise16, JobEnterprise17, JobEnterprise18, JobEnterprise19, JobEnterprise20,
     JobEnterprise21, JobEnterprise22, JobEnterprise23, JobEnterprise24, JobEnterprise25,
     JobEnterprise26, JobEnterprise27, JobEnterprise28, JobEnterprise29, JobEnterprise30,
     JobEnterprise31, JobEnterprise32, JobEnterprise33, JobEnterprise34, JobEnterprise35,
     JobEnterprise36, JobEnterprise37, JobEnterprise38, JobEnterprise39, JobEnterprise40,
     JobEnterprise41, JobEnterprise42, JobEnterprise43, JobEnterprise44, JobEnterprise45,
     JobEnterprise46, JobEnterprise47, JobEnterprise48, JobEnterprise49, JobEnterprise50,
     JobEnterprise51, JobEnterprise52, JobEnterprise53, JobEnterprise54, JobEnterprise55,
     JobEnterprise56, JobEnterprise57, JobEnterprise58, JobEnterprise59, JobEnterprise60,
     JobEnterprise61, JobEnterprise62, JobEnterprise63, JobEnterprise64, JobEnterprise65,
     JobEnterprise66, JobEnterprise67, JobEnterprise68, JobEnterprise69, JobEnterprise70,
     JobEnterprise71, JobEnterprise72, JobEnterprise73, JobEnterprise74, JobEnterprise75,
     JobEnterprise76, JobEnterprise77, JobEnterprise78, JobEnterprise79, JobEnterprise80]"

lemmas pack_defs =
  JobEnterprise01_def JobEnterprise02_def JobEnterprise03_def JobEnterprise04_def
  JobEnterprise05_def JobEnterprise06_def JobEnterprise07_def JobEnterprise08_def
  JobEnterprise09_def JobEnterprise10_def JobEnterprise11_def JobEnterprise12_def
  JobEnterprise13_def JobEnterprise14_def JobEnterprise15_def JobEnterprise16_def
  JobEnterprise17_def JobEnterprise18_def JobEnterprise19_def JobEnterprise20_def
  JobEnterprise21_def JobEnterprise22_def JobEnterprise23_def JobEnterprise24_def
  JobEnterprise25_def JobEnterprise26_def JobEnterprise27_def JobEnterprise28_def
  JobEnterprise29_def JobEnterprise30_def JobEnterprise31_def JobEnterprise32_def
  JobEnterprise33_def JobEnterprise34_def JobEnterprise35_def JobEnterprise36_def
  JobEnterprise37_def JobEnterprise38_def JobEnterprise39_def JobEnterprise40_def
  JobEnterprise41_def JobEnterprise42_def JobEnterprise43_def JobEnterprise44_def
  JobEnterprise45_def JobEnterprise46_def JobEnterprise47_def JobEnterprise48_def
  JobEnterprise49_def JobEnterprise50_def JobEnterprise51_def JobEnterprise52_def
  JobEnterprise53_def JobEnterprise54_def JobEnterprise55_def JobEnterprise56_def
  JobEnterprise57_def JobEnterprise58_def JobEnterprise59_def JobEnterprise60_def
  JobEnterprise61_def JobEnterprise62_def JobEnterprise63_def JobEnterprise64_def
  JobEnterprise65_def JobEnterprise66_def JobEnterprise67_def JobEnterprise68_def
  JobEnterprise69_def JobEnterprise70_def JobEnterprise71_def JobEnterprise72_def
  JobEnterprise73_def JobEnterprise74_def JobEnterprise75_def JobEnterprise76_def
  JobEnterprise77_def JobEnterprise78_def JobEnterprise79_def JobEnterprise80_def

subsection \<open>The shape of the pack\<close>

definition enterprise_template ::
    "string \<Rightarrow> string \<Rightarrow> string \<Rightarrow> string \<Rightarrow> string \<Rightarrow> string \<Rightarrow> string \<Rightarrow> job_definition" where
  "enterprise_template i name pack h0 h1 h2 h3 =
     \<lparr>jd_id = i, jd_name = name, jd_version = 1,
      jd_description = Some ''Generated enterprise job with staged handlers and dependency chain.'',
      jd_tasks =
      [\<lparr>td_id = ''task_0'', td_name = ''Step 0'', td_handler = h0, td_timeoutMs = 20000,
        td_optional = None, td_dependsOn = None\<rparr>,
       \<lparr>td_id = ''task_1'', td_name = ''Step 1'', td_handler = h1, td_timeoutMs = 25000,
        td_optional = None, td_dependsOn = Some [''task_0'']\<rparr>,
       \<lparr>td_id = ''task_2'', td_name = ''Step 2'', td_handler = h2, td_timeoutMs = 30000,
        td_optional = None, td_dependsOn = Some [''task_1'']\<rparr>,
       \<lparr>td_id = ''task_3'', td_name = ''Step 3'', td_handler = h3, td_timeoutMs = 35000,
        td_optional = None, td_dependsOn = Some [''task_2'']\<rparr>],
      jd_constraints =
      [\<lparr>jc_id = ''c1'', jc_expression = ''context.approved == true'', jc_severity = Block\<rparr>,
       \<lparr>jc_id = ''c2'', jc_expression = ''context.amount < 1000000'', jc_severity = Warn\<rparr>],
      jd_retryPolicy = DEFAULT_RETRY_POLICY, jd_allowedTransitions = [],
      jd_metadata = [(''domain'', ''finance''), (''pack'', pack), (''tier'', ''enterprise'')],
      jd_createdAt = ''2026-01-15T00:00:00.000Z'', jd_updatedAt = ''2026-01-15T00:00:00.000Z''\<rparr>"

definition pack_handlers :: "string list" where
  "pack_handlers =
     [''invoice.fetch'', ''invoice.normalize'', ''invoice.post_gl'', ''reconcile.extract'', ''reconcile.match'',
      ''onboard.validate'', ''onboard.provision'', ''report.aggregate'']"

definition in_template :: "job_definition \<Rightarrow> bool" where
  "in_template def \<longleftrightarrow>
     (case map td_handler (jd_tasks def) of
        [h0, h1, h2, h3] \<Rightarrow>
          def = enterprise_template (jd_id def) (jd_name def) (snd (jd_metadata def ! 1)) h0 h1 h2 h3 \<and>
          {h0, h1, h2, h3} \<subseteq> set pack_handlers
      | _ \<Rightarrow> False)"

lemma pack_shape: "list_all in_template ENTERPRISE_JOB_PACK"
  unfolding ENTERPRISE_JOB_PACK_def
  by (simp only: list.pred_inject, intro conjI TrueI;
    simp only: pack_defs in_template_def enterprise_template_def pack_handlers_def job_definition.simps
      task_definition.simps list.map list.case; simp)

lemma in_template_cases:
  assumes "in_template def"
  obtains i n p h0 h1 h2 h3 where "def = enterprise_template i n p h0 h1 h2 h3"
    and "{h0, h1, h2, h3} \<subseteq> set pack_handlers"
  using assms that by (auto simp: in_template_def simp del: insert_subset split: list.splits)

text \<open>The ids end in the numbers 1 to 80.\<close>

definition id_number :: "string \<Rightarrow> nat" where
  "id_number s = 10 * (of_char (s ! 15) - 48) + (of_char (s ! 16) - 48)"

lemma pack_ids: "map jd_id ENTERPRISE_JOB_PACK =
    [''enterprise_job_01'', ''enterprise_job_02'', ''enterprise_job_03'', ''enterprise_job_04'',
     ''enterprise_job_05'', ''enterprise_job_06'', ''enterprise_job_07'', ''enterprise_job_08'',
     ''enterprise_job_09'', ''enterprise_job_10'', ''enterprise_job_11'', ''enterprise_job_12'',
     ''enterprise_job_13'', ''enterprise_job_14'', ''enterprise_job_15'', ''enterprise_job_16'',
     ''enterprise_job_17'', ''enterprise_job_18'', ''enterprise_job_19'', ''enterprise_job_20'',
     ''enterprise_job_21'', ''enterprise_job_22'', ''enterprise_job_23'', ''enterprise_job_24'',
     ''enterprise_job_25'', ''enterprise_job_26'', ''enterprise_job_27'', ''enterprise_job_28'',
     ''enterprise_job_29'', ''enterprise_job_30'', ''enterprise_job_31'', ''enterprise_job_32'',
     ''enterprise_job_33'', ''enterprise_job_34'', ''enterprise_job_35'', ''enterprise_job_36'',
     ''enterprise_job_37'', ''enterprise_job_38'', ''enterprise_job_39'', ''enterprise_job_40'',
     ''enterprise_job_41'', ''enterprise_job_42'', ''enterprise_job_43'', ''enterprise_job_44'',
     ''enterprise_job_45'', ''enterprise_job_46'', ''enterprise_job_47'', ''enterprise_job_48'',
     ''enterprise_job_49'', ''enterprise_job_50'', ''enterprise_job_51'', ''enterprise_job_52'',
     ''enterprise_job_53'', ''enterprise_job_54'', ''enterprise_job_55'', ''enterprise_job_56'',
     ''enterprise_job_57'', ''enterprise_job_58'', ''enterprise_job_59'', ''enterprise_job_60'',
     ''enterprise_job_61'', ''enterprise_job_62'', ''enterprise_job_63'', ''enterprise_job_64'',
     ''enterprise_job_65'', ''enterprise_job_66'', ''enterprise_job_67'', ''enterprise_job_68'',
     ''enterprise_job_69'', ''enterprise_job_70'', ''enterprise_job_71'', ''enterprise_job_72'',
     ''enterprise_job_73'', ''enterprise_job_74'', ''enterprise_job_75'', ''enterprise_job_76'',
     ''enterprise_job_77'', ''enterprise_job_78'', ''enterprise_job_79'', ''enterprise_job_80'']"
  by (simp only: ENTERPRISE_JOB_PACK_def list.map pack_defs job_definition.simps)

lemma pack_numbers: "map id_number (map jd_id ENTERPRISE_JOB_PACK) = [1..<81]"
  unfolding pack_ids id_number_def by (simp add: upt_rec)

lemma pack_ids_distinct: "distinct (map jd_id ENTERPRISE_JOB_PACK)"
proof -
  have "distinct (map id_number (map jd_id ENTERPRISE_JOB_PACK))"
    unfolding pack_numbers by (rule distinct_upt)
  then show ?thesis by (rule distinct_map [THEN iffD1, THEN conjunct1])
qed

lemma pack_ids_prefix: "list_all (\<lambda>i. take 15 i = ''enterprise_job_'') (map jd_id ENTERPRISE_JOB_PACK)"
  unfolding pack_ids by simp

lemma pack_length: "length ENTERPRISE_JOB_PACK = 80"
  using pack_numbers [THEN arg_cong [of _ _ length]] by simp

end
