(* ===== verification/Completion.thy ===== *)
theory Completion
  imports Runs
begin

section \<open>Runs that complete\<close>

text \<open>
  When every handler call succeeds and no constraint of the job blocks, an execution completes
  the workflow. The lemmas reuse the steps of \<open>Runs\<close> with the failing branches closed.
\<close>

definition sim_succeeds :: "simulator \<Rightarrow> bool" where
  "sim_succeeds sim \<longleftrightarrow> (\<forall>h i c n. \<exists>r n'. sim h i c n = (Inr r, n') \<and> sr_success r)"

definition rules_pass :: "job_definition \<Rightarrow> bool" where
  "rules_pass def \<longleftrightarrow> (\<forall>c. rule_engine_apply def c = Inr ())"

lemma sim_succeeds_modelled: "sim_succeeds sim \<Longrightarrow> sim_modelled sim"
  unfolding sim_succeeds_def sim_modelled_def by (metis fst_conv sum.distinct(1))

lemma executor_run_success:
  assumes "sim_succeeds sim" and "executor_run e sim t d p input n = (Inr res, n')"
  shows "tr_status (er_task res) = TSucceeded"
proof -
  let ?ctx = "\<lparr>hc_runId = tr_runId t, hc_taskId = tr_definitionTaskId t, hc_input = input, hc_priorOutputs = []\<rparr>"
  obtain sr n1 where "sim (td_handler d) input ?ctx (Suc n) = (Inr sr, n1)" "sr_success sr"
    using assms(1) unfolding sim_succeeds_def by blast
  then show ?thesis using assms(2) by (auto simp: executor_run_def catch_a_def Let_def)
qed

lemma run_task_success:
  assumes "sim_succeeds sim" and "run_task e sim def w d s = (Inr (w', stop), s')"
  shows "\<not> stop"
proof
  assume "stop"
  then obtain t res n n' where ex: "executor_run e sim t d (jd_retryPolicy def) (wf_context w) n = (Inr res, n')"
    and "tr_status (er_task res) = TFailed"
    using assms(2)
    by (auto simp: run_task_def bind_a_eq with_env_def split: option.splits if_splits prod.splits sum.splits)
  then show False using executor_run_success [OF assms(1) ex] by simp
qed

lemma exec_loop_completes:
  assumes "current r s w" and "wf_state w = Running" and "run_inv def w" and "no_failure w"
    and wf: "well_formed_job def" and sim: "sim_succeeds sim" and pass: "rules_pass def"
    and "pending_work def w < fuel"
  shows "\<exists>w' s'. exec_loop e sim run def fuel w s = Some (Inr w', s') \<and> moved r w s w' s' \<and>
           run_inv def w' \<and> wf_state w' = Completed \<and> all_done w'"
  using assms(1-4,8)
proof (induction fuel arbitrary: w s)
  case 0
  then show ?case by simp
next
  case (Suc fuel)
  show ?case
  proof (cases "nextRunnable (wf_tasks w) (jd_tasks def)")
    case None
    obtain w' s' where f: "finish_or_wait e run def w s = (Inr w', s')" "moved r w s w' s'"
      "run_inv def w'" "wf_state w' = Completed" "all_done w'"
      using finish_passes [OF Suc.prems(1-3) wf Suc.prems(4) None] pass unfolding rules_pass_def by blast
    then have "exec_loop e sim run def (Suc fuel) w s = Some (Inr w', s')"
      using Suc.prems(2) None by (simp add: exec_body_def bind_a_eq)
    then show ?thesis using f by blast
  next
    case (Some d)
    obtain w1 s1 stop where r: "run_task e sim def w d s = (Inr (w1, stop), s1)"
      and m: "moved r w s w1 s1" and inv1: "run_inv def w1"
      and c: "if stop then wf_state w1 = Failed \<and> has_failure w1
              else wf_state w1 = Running \<and> no_failure w1 \<and> pending_work def w1 < pending_work def w"
      using run_task_step [OF Suc.prems(1-3) wf Suc.prems(4) sim_succeeds_modelled [OF sim] Some] by blast
    have "\<not> stop" using run_task_success [OF sim r] .
    then obtain w' s' where "exec_loop e sim run def fuel w1 s1 = Some (Inr w', s')"
      "moved r w1 s1 w' s'" "run_inv def w'" "wf_state w' = Completed" "all_done w'"
      using Suc.IH [OF moved_current [OF m] _ inv1] c Suc.prems(5) by auto
    moreover have "exec_body e sim run def w s = (Inr (w1, False), s1)"
      using Some r \<open>\<not> stop\<close> by (simp add: exec_body_def)
    ultimately show ?thesis using Suc.prems(2) moved_trans [OF m] by auto
  qed
qed

lemma execute_locked_completes:
  assumes cur: "current r s w" and st: "wf_state w \<in> {Pending, Running}" and inv: "run_inv def w"
    and nf: "no_failure w" and wf: "well_formed_job def" and sim: "sim_succeeds sim" and pass: "rules_pass def"
    and run: "run_store_get (en_runs s) r = Some run" "job_store_get (en_jobs s) (jr_jobId run) = Some def"
  shows "\<exists>w' s'. execute_locked e sim (exec_fuel def) r s = Some (Inr (), s') \<and>
           moved r w s w' s' \<and> wf_state w' = Completed \<and> all_done w'"
proof -
  obtain w1 s1 where start: "startRun e w s = (Inr w1, s1)" and m1: "moved r w s w1 s1"
    and w1: "wf_state w1 = Running" "wf_tasks w1 = wf_tasks w"
    using startRun_step [OF cur st] by blast
  have inv1: "run_inv def w1" "no_failure w1"
    using inv nf w1 by (simp_all add: run_inv_def no_failure_def)
  have "pending_work def w1 < exec_fuel def"
    using pending_work_bound [OF inv1(1)] by (simp add: exec_fuel_def)
  then obtain w2 s2 where loop: "exec_loop e sim run def (exec_fuel def) w1 s1 = Some (Inr w2, s2)"
    and m2: "moved r w1 s1 w2 s2" and fin: "wf_state w2 = Completed" "all_done w2"
    using exec_loop_completes [OF moved_current [OF m1] w1(1) inv1 wf sim pass] by blast
  have "workflow_store_getByRunId (en_workflows s) r = Some w" using cur by (simp add: current_def)
  then have "execute_locked e sim (exec_fuel def) r s = Some (Inr (), s2)"
    using run start loop fin by (simp add: execute_locked_def dead_letter_if_exhausted_def)
  then show ?thesis using moved_trans [OF m1 m2] fin by blast
qed

lemma executeRun_completes:
  assumes ready: "ready_run def r s w" and wf: "well_formed_job def"
    and sim: "sim_succeeds sim" and pass: "rules_pass def"
  shows "\<exists>w' s'. executeRun e sim (exec_fuel def) r s = Some (Inr (), s') \<and>
           current r s' w' \<and> wf_state w' = Completed \<and> all_done w' \<and> en_dead s' = en_dead s"
proof -
  obtain run where run: "run_store_get (en_runs s) r = Some run"
    "job_store_get (en_jobs s) (jr_jobId run) = Some def"
    using ready by (auto simp: ready_run_def)
  have free: "r \<notin> set (en_localLocks s)" and lk: "map_get (en_runLocks s) r \<in> {None, Some owner}"
    using ready by (simp_all add: ready_run_def)
  let ?L = "map_set r owner (en_runLocks s)"
  have acq: "lock_acquire r owner (en_runLocks s) = Inr ?L" using lk by (auto simp: lock_acquire_def)
  define s1 where "s1 = s\<lparr>en_localLocks := set_add r (en_localLocks s), en_runLocks := ?L\<rparr>"
  have cur1: "current r s1 w" using ready by (simp add: ready_run_def current_def s1_def)
  obtain w' s2 where ex: "execute_locked e sim (exec_fuel def) r s1 = Some (Inr (), s2)"
    and m: "moved r w s1 w' s2" and fin: "wf_state w' = Completed" "all_done w'"
    using execute_locked_completes [OF cur1, of def sim run e] ready wf sim pass run
    by (auto simp: ready_run_def s1_def)
  have "executeRun e sim (exec_fuel def) r s = Some (Inr (), release_locks r s2)"
    using free acq ex by (simp add: executeRun_def s1_def Let_def)
  moreover have "current r (release_locks r s2) w'"
    using m by (simp add: moved_def current_def release_locks_def)
  moreover have "en_dead (release_locks r s2) = en_dead s"
    using m by (simp add: moved_def release_locks_def s1_def)
  ultimately show ?thesis using fin by blast
qed

text \<open>
  C26. Runs complete: a ready run of a well-formed job whose handlers all succeed and whose
  constraints do not block is executed to the end. The call returns without an exception, every
  task is done, and the stored workflow and the stored run are both completed.
\<close>

theorem successful_run_completes:
  assumes "ready_run def r s w" and "well_formed_job def" and "sim_succeeds sim" and "rules_pass def"
  shows "\<exists>w' run s'. executeRun e sim (exec_fuel def) r s = Some (Inr (), s') \<and>
           workflow_store_getByRunId (en_workflows s') r = Some w' \<and> wf_state w' = Completed \<and>
           (\<forall>t \<in> set (wf_tasks w'). tr_status t \<in> {TSucceeded, TSkipped}) \<and>
           run_store_get (en_runs s') r = Some run \<and> jr_status run = Completed"
  using executeRun_completes [OF assms, of e] by (auto simp: current_def all_done_def task_done_def)

text \<open>The built-in simulator with failure rate zero succeeds whenever no implementation is registered.\<close>

definition calm_config :: engine_config where
  "calm_config = \<lparr>cfg_workerConcurrency = 4, cfg_latencyMin = Fin 10, cfg_latencyMax = Fin 20,
     cfg_failRatePercent = Fin 0\<rparr>"

lemma calm_succeeds:
  assumes "impls e = (\<lambda>h. None)"
  shows "sim_succeeds (simulator_execute e calm_config)"
  using assms
  by (auto simp: sim_succeeds_def simulator_execute_def randomLatency_def shouldFail_def
      buildOutput_def calm_config_def num_le_def num_lt_def bind_a_def)

lemma no_constraints_pass: "jd_constraints def = [] \<Longrightarrow> rules_pass def"
  by (simp add: rules_pass_def rule_engine_apply_def assertPassing_def evaluate_constraints_def)

lemma successful_run_completes_witness:
  "\<exists>s'. executeRun plain_env (simulator_execute plain_env calm_config) (exec_fuel chain_job) ''run_u0''
     created_engine = Some (Inr (), s')"
proof -
  obtain w where w: "ready_run chain_job ''run_u0'' created_engine w" by (rule created_ready)
  have "sim_succeeds (simulator_execute plain_env calm_config)"
    by (rule calm_succeeds) (simp add: plain_env_def)
  moreover have "rules_pass chain_job"
    by (rule no_constraints_pass) (simp add: chain_job_def empty_job_def)
  ultimately show ?thesis using successful_run_completes [OF w chain_job_ok(1)] by blast
qed

end
