(* ===== verification/Catalog.thy ===== *)
theory Catalog
  imports Handlers EnterprisePack Completion
begin

section \<open>The job catalog and the templates\<close>

text \<open>
  definitions/catalog.ts, definitions/catalog-extended.ts, definitions/loader.ts,
  services/catalog-service.ts, templates/catalog.ts and templates/instantiator.ts.
\<close>

subsection \<open>The standard and the extended catalog\<close>

definition catalog_job ::
    "string \<Rightarrow> string \<Rightarrow> int \<Rightarrow> task_definition list \<Rightarrow> job_constraint list \<Rightarrow> (string \<times> string) list \<Rightarrow> job_definition" where
  "catalog_job i name version tasks constraints metadata =
     \<lparr>jd_id = i, jd_name = name, jd_version = version, jd_description = None, jd_tasks = tasks,
      jd_constraints = constraints, jd_retryPolicy = DEFAULT_RETRY_POLICY, jd_allowedTransitions = [],
      jd_metadata = metadata, jd_createdAt = ''2026-01-01T00:00:00.000Z'',
      jd_updatedAt = ''2026-01-01T00:00:00.000Z''\<rparr>"

definition STANDARD_JOB_CATALOG :: "job_definition list" where
  "STANDARD_JOB_CATALOG =
    [catalog_job ''invoice_fetch_daily'' ''Daily invoice fetch'' 1
       [\<lparr>td_id = ''pull'', td_name = ''Pull from ERP'', td_handler = ''invoice.fetch'', td_timeoutMs = 45000,
         td_optional = None, td_dependsOn = None\<rparr>,
        \<lparr>td_id = ''validate'', td_name = ''Validate schema'', td_handler = ''invoice.normalize'', td_timeoutMs = 20000,
         td_optional = None, td_dependsOn = Some [''pull'']\<rparr>] [] [],
     catalog_job ''invoice_post_gl'' ''GL posting run'' 2
       [\<lparr>td_id = ''prepare'', td_name = ''Prepare entries'', td_handler = ''invoice.normalize'', td_timeoutMs = 30000,
         td_optional = None, td_dependsOn = None\<rparr>,
        \<lparr>td_id = ''post'', td_name = ''Post entries'', td_handler = ''invoice.post_gl'', td_timeoutMs = 60000,
         td_optional = None, td_dependsOn = Some [''prepare'']\<rparr>,
        \<lparr>td_id = ''audit'', td_name = ''Audit trail'', td_handler = ''report.aggregate'', td_timeoutMs = 15000,
         td_optional = None, td_dependsOn = Some [''post'']\<rparr>] [] [],
     catalog_job ''reconcile_us_ledger'' ''US ledger reconcile'' 3
       [\<lparr>td_id = ''extract'', td_name = ''Extract'', td_handler = ''reconcile.extract'', td_timeoutMs = 120000,
         td_optional = None, td_dependsOn = None\<rparr>,
        \<lparr>td_id = ''match'', td_name = ''Match'', td_handler = ''reconcile.match'', td_timeoutMs = 180000,
         td_optional = None, td_dependsOn = Some [''extract'']\<rparr>,
        \<lparr>td_id = ''exceptions'', td_name = ''Flag exceptions'', td_handler = ''report.aggregate'', td_timeoutMs = 30000,
         td_optional = None, td_dependsOn = Some [''match'']\<rparr>] [] [],
     catalog_job ''reconcile_eu_ledger'' ''EU ledger reconcile'' 3
       [\<lparr>td_id = ''extract'', td_name = ''Extract'', td_handler = ''reconcile.extract'', td_timeoutMs = 120000,
         td_optional = None, td_dependsOn = None\<rparr>,
        \<lparr>td_id = ''match'', td_name = ''Match'', td_handler = ''reconcile.match'', td_timeoutMs = 180000,
         td_optional = None, td_dependsOn = Some [''extract'']\<rparr>] [] [],
     catalog_job ''onboard_enterprise'' ''Enterprise onboarding'' 1
       [\<lparr>td_id = ''kyc'', td_name = ''KYC'', td_handler = ''onboard.validate'', td_timeoutMs = 25000,
         td_optional = None, td_dependsOn = None\<rparr>,
        \<lparr>td_id = ''provision'', td_name = ''Provision'', td_handler = ''onboard.provision'', td_timeoutMs = 90000,
         td_optional = None, td_dependsOn = Some [''kyc'']\<rparr>] [] [],
     catalog_job ''onboard_smb'' ''SMB onboarding'' 1
       [\<lparr>td_id = ''kyc'', td_name = ''KYC light'', td_handler = ''onboard.validate'', td_timeoutMs = 15000,
         td_optional = None, td_dependsOn = None\<rparr>,
        \<lparr>td_id = ''provision'', td_name = ''Provision'', td_handler = ''onboard.provision'', td_timeoutMs = 45000,
         td_optional = None, td_dependsOn = Some [''kyc'']\<rparr>] [] [],
     catalog_job ''notify_ops_digest'' ''Ops digest notification'' 1
       [\<lparr>td_id = ''aggregate'', td_name = ''Aggregate'', td_handler = ''report.aggregate'', td_timeoutMs = 60000,
         td_optional = None, td_dependsOn = None\<rparr>,
        \<lparr>td_id = ''notify'', td_name = ''Notify'', td_handler = ''external.risky_notify'', td_timeoutMs = 10000,
         td_optional = Some True, td_dependsOn = Some [''aggregate'']\<rparr>] [] [],
     catalog_job ''month_end_close'' ''Month end close'' 4
       [\<lparr>td_id = ''freeze'', td_name = ''Freeze subledgers'', td_handler = ''reconcile.extract'', td_timeoutMs = 60000,
         td_optional = None, td_dependsOn = None\<rparr>,
        \<lparr>td_id = ''reconcile'', td_name = ''Reconcile all'', td_handler = ''reconcile.match'', td_timeoutMs = 240000,
         td_optional = None, td_dependsOn = Some [''freeze'']\<rparr>,
        \<lparr>td_id = ''report'', td_name = ''CFO report'', td_handler = ''report.aggregate'', td_timeoutMs = 90000,
         td_optional = None, td_dependsOn = Some [''reconcile'']\<rparr>,
        \<lparr>td_id = ''publish'', td_name = ''Publish'', td_handler = ''invoice.post_gl'', td_timeoutMs = 45000,
         td_optional = None, td_dependsOn = Some [''report'']\<rparr>] [] []]"

definition getCatalogJob :: "string \<Rightarrow> job_definition option" where
  "getCatalogJob i = List.find (\<lambda>j. jd_id j = i) STANDARD_JOB_CATALOG"

definition listCatalogJobs :: "job_definition list" where
  "listCatalogJobs = STANDARD_JOB_CATALOG"

definition ext_job :: "string \<Rightarrow> string \<Rightarrow> task_definition list \<Rightarrow> job_definition" where
  "ext_job i name tasks =
     \<lparr>jd_id = i, jd_name = name, jd_version = 1, jd_description = None, jd_tasks = tasks,
      jd_constraints = [], jd_retryPolicy = DEFAULT_RETRY_POLICY, jd_allowedTransitions = [],
      jd_metadata = [(''tier'', ''extended'')], jd_createdAt = ''2026-02-01T00:00:00.000Z'',
      jd_updatedAt = ''2026-02-01T00:00:00.000Z''\<rparr>"

definition EXTENDED_JOB_CATALOG :: "job_definition list" where
  "EXTENDED_JOB_CATALOG =
    [ext_job ''apac_invoice_sync'' ''APAC invoice sync''
       [\<lparr>td_id = ''fetch'', td_name = ''Fetch'', td_handler = ''invoice.fetch'', td_timeoutMs = 40000,
         td_optional = None, td_dependsOn = None\<rparr>,
        \<lparr>td_id = ''norm'', td_name = ''Normalize'', td_handler = ''invoice.normalize'', td_timeoutMs = 20000,
         td_optional = None, td_dependsOn = Some [''fetch'']\<rparr>,
        \<lparr>td_id = ''post'', td_name = ''Post'', td_handler = ''invoice.post_gl'', td_timeoutMs = 30000,
         td_optional = None, td_dependsOn = Some [''norm'']\<rparr>],
     ext_job ''latam_reconcile'' ''LATAM reconcile''
       [\<lparr>td_id = ''extract'', td_name = ''Extract'', td_handler = ''reconcile.extract'', td_timeoutMs = 90000,
         td_optional = None, td_dependsOn = None\<rparr>,
        \<lparr>td_id = ''match'', td_name = ''Match'', td_handler = ''reconcile.match'', td_timeoutMs = 120000,
         td_optional = None, td_dependsOn = Some [''extract'']\<rparr>],
     ext_job ''vendor_onboarding'' ''Vendor onboarding''
       [\<lparr>td_id = ''validate'', td_name = ''Validate'', td_handler = ''onboard.validate'', td_timeoutMs = 20000,
         td_optional = None, td_dependsOn = None\<rparr>,
        \<lparr>td_id = ''provision'', td_name = ''Provision'', td_handler = ''onboard.provision'', td_timeoutMs = 50000,
         td_optional = None, td_dependsOn = Some [''validate'']\<rparr>],
     ext_job ''treasury_daily'' ''Treasury daily''
       [\<lparr>td_id = ''extract'', td_name = ''Extract'', td_handler = ''reconcile.extract'', td_timeoutMs = 60000,
         td_optional = None, td_dependsOn = None\<rparr>,
        \<lparr>td_id = ''report'', td_name = ''Report'', td_handler = ''report.aggregate'', td_timeoutMs = 45000,
         td_optional = None, td_dependsOn = Some [''extract'']\<rparr>],
     ext_job ''compliance_scan'' ''Compliance scan''
       [\<lparr>td_id = ''scan'', td_name = ''Scan'', td_handler = ''onboard.validate'', td_timeoutMs = 30000,
         td_optional = None, td_dependsOn = None\<rparr>,
        \<lparr>td_id = ''notify'', td_name = ''Notify'', td_handler = ''external.risky_notify'', td_timeoutMs = 8000,
         td_optional = Some True, td_dependsOn = Some [''scan'']\<rparr>],
     ext_job ''intercompany_elim'' ''Intercompany elimination''
       [\<lparr>td_id = ''pull'', td_name = ''Pull IC'', td_handler = ''invoice.fetch'', td_timeoutMs = 55000,
         td_optional = None, td_dependsOn = None\<rparr>,
        \<lparr>td_id = ''match'', td_name = ''Match IC'', td_handler = ''reconcile.match'', td_timeoutMs = 90000,
         td_optional = None, td_dependsOn = Some [''pull'']\<rparr>,
        \<lparr>td_id = ''post'', td_name = ''Eliminate'', td_handler = ''invoice.post_gl'', td_timeoutMs = 40000,
         td_optional = None, td_dependsOn = Some [''match'']\<rparr>],
     ext_job ''tax_withholding'' ''Tax withholding''
       [\<lparr>td_id = ''calc'', td_name = ''Calculate'', td_handler = ''report.aggregate'', td_timeoutMs = 35000,
         td_optional = None, td_dependsOn = None\<rparr>,
        \<lparr>td_id = ''file'', td_name = ''File'', td_handler = ''invoice.post_gl'', td_timeoutMs = 25000,
         td_optional = None, td_dependsOn = Some [''calc'']\<rparr>],
     ext_job ''payroll_accrual'' ''Payroll accrual''
       [\<lparr>td_id = ''accrue'', td_name = ''Accrue'', td_handler = ''invoice.normalize'', td_timeoutMs = 40000,
         td_optional = None, td_dependsOn = None\<rparr>,
        \<lparr>td_id = ''post'', td_name = ''Post payroll'', td_handler = ''invoice.post_gl'', td_timeoutMs = 35000,
         td_optional = None, td_dependsOn = Some [''accrue'']\<rparr>],
     ext_job ''inventory_reconcile'' ''Inventory reconcile''
       [\<lparr>td_id = ''count'', td_name = ''Count'', td_handler = ''reconcile.extract'', td_timeoutMs = 70000,
         td_optional = None, td_dependsOn = None\<rparr>,
        \<lparr>td_id = ''adjust'', td_name = ''Adjust'', td_handler = ''reconcile.match'', td_timeoutMs = 50000,
         td_optional = None, td_dependsOn = Some [''count'']\<rparr>],
     ext_job ''fixed_asset_depreciation'' ''Fixed asset depreciation''
       [\<lparr>td_id = ''depreciate'', td_name = ''Run depreciation'', td_handler = ''report.aggregate'', td_timeoutMs = 80000,
         td_optional = None, td_dependsOn = None\<rparr>,
        \<lparr>td_id = ''post'', td_name = ''Post JE'', td_handler = ''invoice.post_gl'', td_timeoutMs = 30000,
         td_optional = None, td_dependsOn = Some [''depreciate'']\<rparr>],
     ext_job ''credit_memo_processing'' ''Credit memo processing''
       [\<lparr>td_id = ''fetch'', td_name = ''Fetch memos'', td_handler = ''invoice.fetch'', td_timeoutMs = 25000,
         td_optional = None, td_dependsOn = None\<rparr>,
        \<lparr>td_id = ''apply'', td_name = ''Apply'', td_handler = ''invoice.normalize'', td_timeoutMs = 20000,
         td_optional = None, td_dependsOn = Some [''fetch'']\<rparr>],
     ext_job ''collections_escalation'' ''Collections escalation''
       [\<lparr>td_id = ''identify'', td_name = ''Identify overdue'', td_handler = ''reconcile.extract'', td_timeoutMs = 30000,
         td_optional = None, td_dependsOn = None\<rparr>,
        \<lparr>td_id = ''notify'', td_name = ''Escalate'', td_handler = ''external.risky_notify'', td_timeoutMs = 10000,
         td_optional = None, td_dependsOn = Some [''identify'']\<rparr>],
     ext_job ''budget_variance'' ''Budget variance analysis''
       [\<lparr>td_id = ''load'', td_name = ''Load budget'', td_handler = ''invoice.fetch'', td_timeoutMs = 20000,
         td_optional = None, td_dependsOn = None\<rparr>,
        \<lparr>td_id = ''compare'', td_name = ''Compare actuals'', td_handler = ''reconcile.match'', td_timeoutMs = 60000,
         td_optional = None, td_dependsOn = Some [''load'']\<rparr>,
        \<lparr>td_id = ''report'', td_name = ''Variance report'', td_handler = ''report.aggregate'', td_timeoutMs = 40000,
         td_optional = None, td_dependsOn = Some [''compare'']\<rparr>],
     ext_job ''subsidiary_roll_up'' ''Subsidiary roll-up''
       [\<lparr>td_id = ''collect'', td_name = ''Collect subs'', td_handler = ''reconcile.extract'', td_timeoutMs = 100000,
         td_optional = None, td_dependsOn = None\<rparr>,
        \<lparr>td_id = ''consolidate'', td_name = ''Consolidate'', td_handler = ''report.aggregate'', td_timeoutMs = 120000,
         td_optional = None, td_dependsOn = Some [''collect'']\<rparr>]]"

definition FULL_CATALOG :: "job_definition list" where
  "FULL_CATALOG = STANDARD_JOB_CATALOG @ EXTENDED_JOB_CATALOG"

subsection \<open>CatalogService and CatalogLoader\<close>

definition builtin_jobs :: "job_definition list" where
  "builtin_jobs = FULL_CATALOG @ ENTERPRISE_JOB_PACK"

fun save_each :: "job_definition list \<Rightarrow> (job_store, err, unit) act" where
  "save_each [] = ret ()"
| "save_each (def # defs) = bind_a (writes (job_store_save def)) (\<lambda>u. save_each defs)"

definition syncBuiltin :: "(job_store, err, nat) act" where
  "syncBuiltin = bind_a (save_each builtin_jobs) (\<lambda>u. ret (length builtin_jobs))"

definition catalog_get :: "job_id \<Rightarrow> (job_store, err, job_definition) act" where
  "catalog_get i =
     bind_a (reads (\<lambda>s. job_store_get s i)) (\<lambda>fromStore.
     case fromStore of
       Some def \<Rightarrow> ret def
     | None \<Rightarrow>
         (case List.find (\<lambda>j. jd_id j = i) builtin_jobs of
            None \<Rightarrow> throw (NotFoundError ''JobDefinition'' i)
          | Some def \<Rightarrow> ret def))"

text \<open>\<^verbatim>\<open>toLowerCase\<close> on the characters up to 255.\<close>

definition lower_char :: "char \<Rightarrow> char" where
  "lower_char c =
     (let n = of_char c :: nat
      in if 65 \<le> n \<and> n \<le> 90 \<or> 192 \<le> n \<and> n \<le> 222 \<and> n \<noteq> 215 then char_of (n + 32) else c)"

definition toLowerCase :: "string \<Rightarrow> string" where
  "toLowerCase s = map lower_char s"

definition catalog_search :: "string \<Rightarrow> job_definition list" where
  "catalog_search query =
     (let q = toLowerCase query
      in filter (\<lambda>j. str_includes (toLowerCase (jd_name j)) q \<or> str_includes (toLowerCase (jd_id j)) q \<or>
           list_ex (\<lambda>(k, v). str_includes (toLowerCase v) q) (jd_metadata j)) builtin_jobs)"

definition seedIfEmpty :: "(job_store, err, nat) act" where
  "seedIfEmpty =
     bind_a (reads job_store_list) (\<lambda>existing.
     if length existing > 0 then ret 0
     else bind_a (save_each builtin_jobs) (\<lambda>u. ret (length builtin_jobs)))"

text \<open>One reading of the clock per definition of the full catalog.\<close>

fun reload_each :: "(nat \<Rightarrow> iso_date) \<Rightarrow> nat \<Rightarrow> job_definition list \<Rightarrow> (job_store, err, unit) act" where
  "reload_each now n [] = ret ()"
| "reload_each now n (def # defs) =
     bind_a (writes (job_store_save (def\<lparr>jd_updatedAt := now n\<rparr>))) (\<lambda>u. reload_each now (Suc n) defs)"

definition reload :: "(nat \<Rightarrow> iso_date) \<Rightarrow> (job_store, err, unit) act" where
  "reload now = reload_each now 0 FULL_CATALOG"

subsection \<open>Templates\<close>

type_synonym params = "(string \<times> string) list"

text \<open>A parameter inside a template literal; one that is missing prints as \<^verbatim>\<open>undefined\<close>.\<close>

definition param_text :: "params \<Rightarrow> string \<Rightarrow> string" where
  "param_text ps k = (case map_of ps k of Some v \<Rightarrow> v | None \<Rightarrow> ''undefined'')"

definition param_field :: "params \<Rightarrow> string \<Rightarrow> (string \<times> string) list" where
  "param_field ps k = (case map_of ps k of Some v \<Rightarrow> [(k, v)] | None \<Rightarrow> [])"

record template_parameter =
  tp_key :: string
  tp_required :: bool
  tp_description :: string

text \<open>\<^verbatim>\<open>build\<close> leaves the two dates to the caller, which passes them here.\<close>

record workflow_template =
  wt_id :: string
  wt_name :: string
  wt_category :: string
  wt_description :: string
  wt_parameters :: "template_parameter list"
  wt_build :: "params \<Rightarrow> iso_date \<Rightarrow> job_definition"

definition build_invoice_sync :: "params \<Rightarrow> iso_date \<Rightarrow> job_definition" where
  "build_invoice_sync ps now =
     \<lparr>jd_id = ''invoice_sync_'' @ param_text ps ''tenantId'', jd_name = ''ERP invoice sync'', jd_version = 1,
      jd_description = None,
      jd_tasks =
        [\<lparr>td_id = ''fetch'', td_name = ''Fetch'', td_handler = ''invoice.fetch'', td_timeoutMs = 30000,
          td_optional = None, td_dependsOn = None\<rparr>,
         \<lparr>td_id = ''normalize'', td_name = ''Normalize'', td_handler = ''invoice.normalize'', td_timeoutMs = 15000,
          td_optional = None, td_dependsOn = Some [''fetch'']\<rparr>,
         \<lparr>td_id = ''post'', td_name = ''Post GL'', td_handler = ''invoice.post_gl'', td_timeoutMs = 20000,
          td_optional = None, td_dependsOn = Some [''normalize'']\<rparr>],
      jd_constraints = [\<lparr>jc_id = ''tenant'', jc_expression = ''ctx.tenantId != \"\"'', jc_severity = Block\<rparr>],
      jd_retryPolicy = DEFAULT_RETRY_POLICY, jd_allowedTransitions = [],
      jd_metadata = [(''glAccount'', case map_of ps ''glAccount'' of Some v \<Rightarrow> v | None \<Rightarrow> ''default'')],
      jd_createdAt = now, jd_updatedAt = now\<rparr>"

definition build_onboarding :: "params \<Rightarrow> iso_date \<Rightarrow> job_definition" where
  "build_onboarding ps now =
     \<lparr>jd_id = ''onboard_'' @ param_text ps ''customerId'', jd_name = ''Customer onboarding'', jd_version = 1,
      jd_description = None,
      jd_tasks =
        [\<lparr>td_id = ''validate'', td_name = ''Validate'', td_handler = ''onboard.validate'', td_timeoutMs = 20000,
          td_optional = None, td_dependsOn = None\<rparr>,
         \<lparr>td_id = ''provision'', td_name = ''Provision'', td_handler = ''onboard.provision'', td_timeoutMs = 45000,
          td_optional = None, td_dependsOn = Some [''validate'']\<rparr>],
      jd_constraints = [], jd_retryPolicy = DEFAULT_RETRY_POLICY, jd_allowedTransitions = [],
      jd_metadata = param_field ps ''customerId'', jd_createdAt = now, jd_updatedAt = now\<rparr>"

definition build_reconcile :: "params \<Rightarrow> iso_date \<Rightarrow> job_definition" where
  "build_reconcile ps now =
     \<lparr>jd_id = ''reconcile_'' @ param_text ps ''ledger'', jd_name = ''Nightly reconcile'', jd_version = 1,
      jd_description = None,
      jd_tasks =
        [\<lparr>td_id = ''extract'', td_name = ''Extract'', td_handler = ''reconcile.extract'', td_timeoutMs = 120000,
          td_optional = None, td_dependsOn = None\<rparr>,
         \<lparr>td_id = ''match'', td_name = ''Match'', td_handler = ''reconcile.match'', td_timeoutMs = 180000,
          td_optional = None, td_dependsOn = Some [''extract'']\<rparr>,
         \<lparr>td_id = ''report'', td_name = ''Report'', td_handler = ''report.aggregate'', td_timeoutMs = 60000,
          td_optional = None, td_dependsOn = Some [''match'']\<rparr>],
      jd_constraints = [], jd_retryPolicy = DEFAULT_RETRY_POLICY\<lparr>maxAttempts := 2\<rparr>,
      jd_allowedTransitions = [], jd_metadata = param_field ps ''ledger'', jd_createdAt = now, jd_updatedAt = now\<rparr>"

definition WORKFLOW_TEMPLATES :: "workflow_template list" where
  "WORKFLOW_TEMPLATES =
    [\<lparr>wt_id = ''erp_invoice_sync'', wt_name = ''ERP invoice synchronization'', wt_category = ''finance'',
      wt_description = ''Fetch, normalize, and post invoices from ERP export'',
      wt_parameters =
        [\<lparr>tp_key = ''tenantId'', tp_required = True, tp_description = ''Tenant identifier''\<rparr>,
         \<lparr>tp_key = ''glAccount'', tp_required = False, tp_description = ''Target GL account''\<rparr>],
      wt_build = build_invoice_sync\<rparr>,
     \<lparr>wt_id = ''customer_onboarding'', wt_name = ''Customer onboarding'', wt_category = ''platform'',
      wt_description = ''Validate and provision a new customer tenant'',
      wt_parameters = [\<lparr>tp_key = ''customerId'', tp_required = True, tp_description = ''Customer id''\<rparr>],
      wt_build = build_onboarding\<rparr>,
     \<lparr>wt_id = ''nightly_reconcile'', wt_name = ''Nightly reconciliation'', wt_category = ''finance'',
      wt_description = ''Extract ledger data and match transactions'',
      wt_parameters = [\<lparr>tp_key = ''ledger'', tp_required = True, tp_description = ''Ledger code''\<rparr>],
      wt_build = build_reconcile\<rparr>]"

definition getTemplate :: "string \<Rightarrow> workflow_template option" where
  "getTemplate i = List.find (\<lambda>t. wt_id t = i) WORKFLOW_TEMPLATES"

text \<open>A parameter that is missing or empty is falsy.\<close>

definition param_given :: "params \<Rightarrow> string \<Rightarrow> bool" where
  "param_given ps k = (case map_of ps k of Some v \<Rightarrow> v \<noteq> [] | None \<Rightarrow> False)"

fun check_parameters :: "params \<Rightarrow> template_parameter list \<Rightarrow> unit res" where
  "check_parameters ps [] = Inr ()"
| "check_parameters ps (p # rest) =
     (if tp_required p \<and> \<not> param_given ps (tp_key p)
      then Inl (ValidationError (''missing template parameter: '' @ tp_key p) [])
      else check_parameters ps rest)"

definition instantiate :: "string \<Rightarrow> params \<Rightarrow> iso_date \<Rightarrow> job_definition res" where
  "instantiate templateId ps now =
     (case getTemplate templateId of
        None \<Rightarrow> Inl (ValidationError (''unknown template: '' @ templateId) [])
      | Some template \<Rightarrow> bind_r (check_parameters ps (wt_parameters template)) (\<lambda>u. Inr (wt_build template ps now)))"

subsection \<open>Task lists written in dependency order\<close>

fun in_sequence :: "string list \<Rightarrow> task_definition list \<Rightarrow> bool" where
  "in_sequence seen [] = True"
| "in_sequence seen (t # ts) \<longleftrightarrow>
     td_id t \<notin> set seen \<and> 0 < td_timeoutMs t \<and> set (td_deps t) \<subseteq> set seen \<and>
     in_sequence (td_id t # seen) ts"

text \<open>Edges into a set that nothing leaves add no cycle.\<close>

lemma acyclic_sinks:
  assumes "acyclic B" and "Range A \<inter> Domain (A \<union> B) = {}"
  shows "acyclic (A \<union> B)"
proof -
  have "y \<in> Range A \<or> (x, y) \<in> B\<^sup>+" if "(x, y) \<in> (A \<union> B)\<^sup>+" for x y
    using that
  proof (induction rule: trancl_induct)
    case (base y)
    then show ?case by blast
  next
    case (step y z)
    then have "(x, y) \<in> B\<^sup>+" using assms(2) by blast
    then show ?case using step(2) by (auto intro: trancl_into_trancl)
  qed
  moreover have "x \<in> Domain (A \<union> B)" if "(x, y) \<in> (A \<union> B)\<^sup>+" for x y
    using that by (metis Domain.DomainI trancl_domain)
  ultimately show ?thesis using assms unfolding acyclic_def by blast
qed

lemma in_sequence_ok:
  "in_sequence seen ts \<Longrightarrow>
     distinct (map td_id ts) \<and> set (map td_id ts) \<inter> set seen = {} \<and> acyclic (depends ts) \<and>
     (\<forall>t \<in> set ts. 0 < td_timeoutMs t \<and> set (td_deps t) \<subseteq> set seen \<union> set (map td_id ts) - {td_id t})"
proof (induction ts arbitrary: seen)
  case Nil
  then show ?case by (simp add: depends_simps acyclic_def)
next
  case (Cons t ts)
  let ?A = "Pair (td_id t) ` set (td_deps t)"
  have t: "td_id t \<notin> set seen" "0 < td_timeoutMs t" "set (td_deps t) \<subseteq> set seen"
    and seq: "in_sequence (td_id t # seen) ts" using Cons.prems by simp_all
  note IH = Cons.IH [OF seq]
  have "Domain (depends ts) \<subseteq> td_id ` set ts" by (auto simp: depends_def)
  then have b: "Domain (?A \<union> depends ts) \<subseteq> insert (td_id t) (td_id ` set ts)" "Range ?A \<subseteq> set seen"
    using t(3) by auto
  have "set seen \<inter> insert (td_id t) (td_id ` set ts) = {}" using IH t(1) by auto
  then have "Range ?A \<inter> Domain (?A \<union> depends ts) = {}" using Int_mono [OF b(2,1)] by simp
  from acyclic_sinks [OF _ this] have "acyclic (depends (t # ts))" using IH by (simp add: depends_simps)
  moreover have "td_id t \<notin> set (td_deps t)" using t by blast
  ultimately show ?case using IH t by auto
qed

lemma in_sequence_well_formed:
  assumes "in_sequence [] (jd_tasks def)" and "jd_tasks def \<noteq> []"
    and "1 \<le> maxAttempts (jd_retryPolicy def)"
  shows "well_formed_job def"
  using in_sequence_ok [OF assms(1)] assms(2,3) by (auto simp: well_formed_job_def tasks_ok_def)

definition plain_job :: "job_definition \<Rightarrow> bool" where
  "plain_job def \<longleftrightarrow>
     in_sequence [] (jd_tasks def) \<and> jd_tasks def \<noteq> [] \<and> maxAttempts (jd_retryPolicy def) = 3 \<and>
     list_all (\<lambda>k. jc_expression k = ''context.approved == true'' \<or> jc_expression k = ''context.amount < 1000000'')
       (jd_constraints def) \<and>
     list_all (\<lambda>t. td_handler t \<in> set (map hm_name BUILTIN_HANDLERS)) (jd_tasks def)"

lemma plain_catalog: "list_all plain_job FULL_CATALOG"
  by (simp add: FULL_CATALOG_def STANDARD_JOB_CATALOG_def EXTENDED_JOB_CATALOG_def catalog_job_def
      ext_job_def plain_job_def td_deps_def DEFAULT_RETRY_POLICY_def BUILTIN_HANDLERS_def)

lemma plain_pack: "list_all plain_job ENTERPRISE_JOB_PACK"
proof -
  have h: "set pack_handlers \<subseteq> set (map hm_name BUILTIN_HANDLERS)"
    by (simp add: pack_handlers_def BUILTIN_HANDLERS_def)
  have "plain_job def" if "in_template def" for def
    using that h
    by (elim in_template_cases)
      (auto simp: plain_job_def enterprise_template_def td_deps_def DEFAULT_RETRY_POLICY_def)
  then show ?thesis using pack_shape by (auto simp: list_all_iff)
qed

lemma plain_builtin: "def \<in> set builtin_jobs \<Longrightarrow> plain_job def"
  using plain_catalog plain_pack by (auto simp: builtin_jobs_def list_all_iff)

lemma plain_job_well_formed: "plain_job def \<Longrightarrow> well_formed_job def"
  by (auto simp: plain_job_def intro: in_sequence_well_formed)

lemma plain_job_rules: "plain_job def \<Longrightarrow> rules_pass def"
proof -
  assume p: "plain_job def"
  have v: "evaluateExpression (jc_expression k) c = Inr False" if "k \<in> set (jd_constraints def)" for k c
    using p that approved_inert amount_inert by (auto simp: plain_job_def list_all_iff)
  then have "\<exists>b. evaluateExpression (jc_expression k) c = Inr b" if "k \<in> set (jd_constraints def)" for k c
    using that by blast
  then have "rule_engine_apply def c = Inr ()" for c
    using rule_engine_apply_iff [of def c] v by (simp add: violated_def Let_def)
  then show "rules_pass def" by (simp add: rules_pass_def)
qed

lemma catalog_ids: "map jd_id FULL_CATALOG =
    [''invoice_fetch_daily'', ''invoice_post_gl'', ''reconcile_us_ledger'', ''reconcile_eu_ledger'',
     ''onboard_enterprise'', ''onboard_smb'', ''notify_ops_digest'', ''month_end_close'',
     ''apac_invoice_sync'', ''latam_reconcile'', ''vendor_onboarding'', ''treasury_daily'', ''compliance_scan'',
     ''intercompany_elim'', ''tax_withholding'', ''payroll_accrual'', ''inventory_reconcile'',
     ''fixed_asset_depreciation'', ''credit_memo_processing'', ''collections_escalation'',
     ''budget_variance'', ''subsidiary_roll_up'']"
  by (simp add: FULL_CATALOG_def STANDARD_JOB_CATALOG_def EXTENDED_JOB_CATALOG_def catalog_job_def ext_job_def)

lemma catalog_ids_apart: "distinct (map jd_id FULL_CATALOG)"
  "list_all (\<lambda>i. take 15 i \<noteq> ''enterprise_job_'') (map jd_id FULL_CATALOG)"
  unfolding catalog_ids by simp_all

lemma builtin_distinct: "distinct (map jd_id builtin_jobs)"
  using catalog_ids_apart pack_ids_distinct pack_ids_prefix
  unfolding builtin_jobs_def map_append distinct_append list_all_iff by blast

lemma builtin_length: "length builtin_jobs = 102"
  using catalog_ids [THEN arg_cong [of _ _ length]] pack_length by (simp add: builtin_jobs_def)

subsection \<open>Seeding\<close>

lemma save_each_fold: "save_each defs s = (Inr (), fold job_store_save defs s)"
  by (induction defs arbitrary: s) simp_all

lemma seed_empty: "seedIfEmpty [] = (Inr 102, fold job_store_save builtin_jobs [])"
  by (simp add: seedIfEmpty_def save_each_fold builtin_length job_store_list_def)

definition seeded :: job_store where
  "seeded = fold job_store_save builtin_jobs []"

lemma seeded_ok: "store_ok jd_id seeded" "length (job_store_list seeded) = 102"
  "def \<in> set builtin_jobs \<Longrightarrow> job_store_get seeded (jd_id def) = Some def"
proof -
  show "store_ok jd_id seeded"
    unfolding seeded_def using jobs.invar_empty by (rule jobs.invar_saves)
  show "length (job_store_list seeded) = 102"
    using jobs.length_list_saves [OF jobs.invar_empty builtin_distinct] jobs.get_empty
    by (simp add: seeded_def builtin_length jobs.list_empty)
  have "distinct (map jd_id (rev builtin_jobs))" using builtin_distinct by (simp add: rev_map [symmetric])
  from find_distinct_key [OF this]
  show "job_store_get seeded (jd_id def) = Some def" if "def \<in> set builtin_jobs"
    unfolding seeded_def using jobs.get_saves [OF jobs.invar_empty] that by simp
qed

text \<open>
  C25. The shipped catalog is sound and seeding installs it: its 102 definitions have different
  ids, are well formed, name built-in handlers only and are never blocked by their constraints.
  Seeding an empty store stores each of them under its id and nothing else; seeding again, or a
  store that holds any definition, changes nothing.
\<close>

theorem seeding_installs_catalog:
  "list_all (\<lambda>def. well_formed_job def \<and> rules_pass def \<and>
      list_all (\<lambda>t. td_handler t \<in> set (map hm_name BUILTIN_HANDLERS)) (jd_tasks def)) builtin_jobs \<and>
   (\<exists>s'. seedIfEmpty [] = (Inr 102, s') \<and> store_ok jd_id s' \<and> length (job_store_list s') = 102 \<and>
      list_all (\<lambda>def. job_store_get s' (jd_id def) = Some def) builtin_jobs \<and>
      seedIfEmpty s' = (Inr 0, s'))"
proof -
  have "list_all (\<lambda>def. well_formed_job def \<and> rules_pass def \<and>
      list_all (\<lambda>t. td_handler t \<in> set (map hm_name BUILTIN_HANDLERS)) (jd_tasks def)) builtin_jobs"
    using plain_builtin plain_job_well_formed plain_job_rules unfolding list_all_iff plain_job_def by blast
  moreover have "seedIfEmpty seeded = (Inr 0, seeded)"
    using seeded_ok(2) by (cases "job_store_list seeded") (simp_all add: seedIfEmpty_def)
  ultimately show ?thesis using seed_empty seeded_ok unfolding seeded_def by (auto simp: list_all_iff)
qed

text \<open>
  Seeding goes around the resolver: among the shipped definitions are tasks that ask for more
  than twice their handler's time, which registration would have cut.
\<close>

lemma month_end_close:
  obtains def t where "def \<in> set builtin_jobs" and "jd_id def = ''month_end_close''" and "t \<in> set (jd_tasks def)"
    and "td_handler t = ''reconcile.match''" and "td_timeoutMs t = 240000"
proof -
  have "list_ex (\<lambda>def. jd_id def = ''month_end_close'' \<and>
      list_ex (\<lambda>t. td_handler t = ''reconcile.match'' \<and> td_timeoutMs t = 240000) (jd_tasks def)) STANDARD_JOB_CATALOG"
    by (simp add: STANDARD_JOB_CATALOG_def catalog_job_def)
  then show thesis using that by (auto simp: list_ex_iff builtin_jobs_def FULL_CATALOG_def)
qed

lemma seeding_exceeds_cap: "\<not> sound_store registry_new seeded"
proof
  assume sound: "sound_store registry_new seeded"
  obtain def t where t: "def \<in> set builtin_jobs" "t \<in> set (jd_tasks def)"
    "td_handler t = ''reconcile.match''" "td_timeoutMs t = 240000"
    by (rule month_end_close)
  have "sound_job registry_new def" using sound seeded_ok(3) [OF t(1)] by (auto simp: sound_store_def)
  then obtain h where "registry_get registry_new ''reconcile.match'' = Some h" "240000 \<le> 2 * hm_timeoutMs h"
    using t by (auto simp: sound_job_def)
  then show False by (auto simp: registry_get_def registry_new_eq BUILTIN_HANDLERS_def)
qed

subsection \<open>Running the catalog\<close>

text \<open>
  Every shipped job runs to completion: on an engine whose job store was seeded, creating a
  run of any of the 102 jobs succeeds whatever the input, and executing it with handlers that
  succeed completes it, with the run and its workflow both stored as completed.
\<close>

theorem catalog_runs_complete:
  assumes "def \<in> set builtin_jobs" and "engine_ok s" and "en_jobs s = snd (seedIfEmpty [])"
    and "fresh_ids e s (length (jd_tasks def))" and "sim_succeeds sim"
  shows "\<exists>run w s1 s2 run' w'.
     createRun e (jd_id def) trigger input s = (Inr (run, w, def), s1) \<and>
     executeRun e sim (exec_fuel def) (jr_id run) s1 = Some (Inr (), s2) \<and>
     workflow_store_getByRunId (en_workflows s2) (jr_id run) = Some w' \<and> wf_state w' = Completed \<and>
     run_store_get (en_runs s2) (jr_id run) = Some run' \<and> jr_status run' = Completed \<and> en_dead s2 = en_dead s"
proof -
  have "job_store_get (en_jobs s) (jd_id def) = Some def" using seeded_ok(3) [OF assms(1)] assms(3) by (simp add: seed_empty seeded_def)
  from createRun_ready [OF assms(2) this assms(4), of trigger input] obtain run w s1
    where c: "createRun e (jd_id def) trigger input s = (Inr (run, w, def), s1)"
      and r: "ready_run def (jr_id run) s1 w" and dead: "en_dead s1 = en_dead s" by blast
  have "well_formed_job def" "rules_pass def"
    using plain_builtin [OF assms(1)] by (simp_all add: plain_job_well_formed plain_job_rules)
  from executeRun_completes [OF r this(1) assms(5) this(2), of e] obtain w' s2
    where "executeRun e sim (exec_fuel def) (jr_id run) s1 = Some (Inr (), s2)"
      and "current (jr_id run) s2 w'" "wf_state w' = Completed" "en_dead s2 = en_dead s1" by blast
  then show ?thesis using c dead by (auto simp: current_def)
qed

definition seeded_engine :: engine where
  "seeded_engine = engine_empty\<lparr>en_jobs := seeded\<rparr>"

lemma fresh_seeded: "n \<le> 2 \<Longrightarrow> fresh_ids plain_env seeded_engine n"
  using base_engine_ok(3)
  by (auto simp: fresh_ids_def seeded_engine_def base_engine_def Let_def inj_on_def distinct_map
      intro: inj_on_subset)

lemma catalog_runs_complete_witness:
  "\<exists>def run w s1 s2. def \<in> set builtin_jobs \<and>
     createRun plain_env (jd_id def) ''api'' [] seeded_engine = (Inr (run, w, def), s1) \<and>
     executeRun plain_env (simulator_execute plain_env calm_config) (exec_fuel def) (jr_id run) s1 = Some (Inr (), s2)"
proof -
  obtain def where d: "def \<in> set builtin_jobs" "length (jd_tasks def) = 2"
  proof -
    have "list_ex (\<lambda>def. length (jd_tasks def) = 2) STANDARD_JOB_CATALOG"
      by (simp add: STANDARD_JOB_CATALOG_def catalog_job_def)
    then show thesis using that by (auto simp: list_ex_iff builtin_jobs_def FULL_CATALOG_def)
  qed
  have "engine_ok seeded_engine"
    using wfs.invar_empty seeded_ok(1) by (simp add: engine_ok_def seeded_engine_def engine_empty_def)
  moreover have "sim_succeeds (simulator_execute plain_env calm_config)"
    by (rule calm_succeeds) (simp add: plain_env_def)
  ultimately show ?thesis
    using catalog_runs_complete [OF d(1), of seeded_engine plain_env "simulator_execute plain_env calm_config" "''api''" "[]"]
      d fresh_seeded [of 2] by (simp add: seeded_engine_def seed_empty seeded_def) blast
qed

subsection \<open>Instantiating a template\<close>

lemma check_parameters_iff:
  "check_parameters ps tps = Inr () \<longleftrightarrow> (\<forall>p \<in> set tps. tp_required p \<longrightarrow> param_given ps (tp_key p))"
  by (induction tps) auto

lemma check_parameters_error:
  "check_parameters ps tps = Inl e \<Longrightarrow>
     \<exists>p \<in> set tps. tp_required p \<and> \<not> param_given ps (tp_key p) \<and>
       e = ValidationError (''missing template parameter: '' @ tp_key p) []"
  by (induction tps) (auto split: if_splits)

definition template_job_ok :: "job_definition \<Rightarrow> bool" where
  "template_job_ok def \<longleftrightarrow>
     in_sequence [] (jd_tasks def) \<and> jd_tasks def \<noteq> [] \<and> 1 \<le> maxAttempts (jd_retryPolicy def) \<and>
     list_all (\<lambda>t. td_handler t \<in> set (map hm_name BUILTIN_HANDLERS)) (jd_tasks def)"

lemma templates_ok: "template \<in> set WORKFLOW_TEMPLATES \<Longrightarrow> template_job_ok (wt_build template ps now)"
  by (auto simp: WORKFLOW_TEMPLATES_def template_job_ok_def build_invoice_sync_def build_onboarding_def
      build_reconcile_def td_deps_def DEFAULT_RETRY_POLICY_def BUILTIN_HANDLERS_def)

text \<open>
  A template is instantiated exactly when it exists and every required parameter is given
  and not empty. The job it gives is well formed and names built-in handlers only; otherwise the
  error names the template or a parameter that is missing.
\<close>

theorem instantiate_iff:
  "case getTemplate templateId of
     None \<Rightarrow> instantiate templateId ps now = Inl (ValidationError (''unknown template: '' @ templateId) [])
   | Some template \<Rightarrow>
       if \<forall>p \<in> set (wt_parameters template). tp_required p \<longrightarrow> param_given ps (tp_key p)
       then instantiate templateId ps now = Inr (wt_build template ps now) \<and>
            well_formed_job (wt_build template ps now) \<and>
            list_all (\<lambda>t. td_handler t \<in> set (map hm_name BUILTIN_HANDLERS)) (jd_tasks (wt_build template ps now))
       else \<exists>p \<in> set (wt_parameters template). tp_required p \<and> \<not> param_given ps (tp_key p) \<and>
            instantiate templateId ps now = Inl (ValidationError (''missing template parameter: '' @ tp_key p) [])"
proof (cases "getTemplate templateId")
  case None
  then show ?thesis by (simp add: instantiate_def)
next
  case (Some template)
  then have "template \<in> set WORKFLOW_TEMPLATES" by (auto simp: getTemplate_def dest: find_Some_in)
  then have ok: "template_job_ok (wt_build template ps now)" by (rule templates_ok)
  then have wf: "well_formed_job (wt_build template ps now)"
    by (auto simp: template_job_ok_def intro: in_sequence_well_formed)
  show ?thesis
  proof (cases "check_parameters ps (wt_parameters template)")
    case (Inl e)
    then have "\<not> (\<forall>p \<in> set (wt_parameters template). tp_required p \<longrightarrow> param_given ps (tp_key p))"
      using check_parameters_iff [of ps "wt_parameters template"] by simp
    then show ?thesis using Some Inl check_parameters_error [OF Inl] by (simp add: instantiate_def)
  next
    case (Inr u)
    then show ?thesis
      using Some ok wf check_parameters_iff [of ps "wt_parameters template"]
      by (simp add: instantiate_def template_job_ok_def)
  qed
qed

lemma instantiate_iff_witness:
  "instantiate ''customer_onboarding'' [] ''t0'' =
     Inl (ValidationError ''missing template parameter: customerId'' [])"
  using instantiate_iff [of "''customer_onboarding''" "[]" "''t0''"]
  by (simp add: getTemplate_def WORKFLOW_TEMPLATES_def param_given_def)

end
