(* ===== verification/Batch.thy ===== *)
theory Batch
  imports Runs
begin

section \<open>Batches\<close>

text \<open>
  batch/manifest.ts, batch/coordinator.ts and services/batch-service.ts. The workers of a batch
  are coroutines that share the queue and the progress record and give way to each other at their
  \<^verbatim>\<open>await\<close>s, so a batch is a step relation: in every step one worker runs from one \<^verbatim>\<open>await\<close> to
  the next. The awaited calls \<^verbatim>\<open>createRun\<close> and \<^verbatim>\<open>executeRun\<close> are single steps of the engine model.
\<close>

subsection \<open>Manifests and progress\<close>

record batch_item =
  bi_jobId :: job_id
  bi_label :: string
  bi_input :: jsobj
  bi_priority :: "run_priority option"
  bi_continueOnError :: "bool option"

record batch_manifest =
  bm_id :: string
  bm_name :: string
  bm_tenantId :: string
  bm_items :: "batch_item list"
  bm_maxParallel :: "nat option"
  bm_createdAt :: iso_date

record batch_progress =
  bp_manifestId :: string
  bp_total :: nat
  bp_completed :: nat
  bp_failed :: nat
  bp_running :: int
  bp_runIds :: "run_id list"

subsection \<open>The coordinator\<close>

datatype batch_worker =
    Idle
  | Creating batch_item
  | Executing batch_item run_id
  | Stopped

record batch_state =
  bs_progress :: "(string, batch_progress) jsmap"
  bs_pool :: worker_pool
  bs_engine :: engine
  bs_state :: batch_progress
  bs_queue :: "batch_item list"
  bs_workers :: "batch_worker list"

text \<open>The progress record is shared: what a worker writes is what \<^verbatim>\<open>getProgress\<close> returns.\<close>

definition put_progress :: "(batch_progress \<Rightarrow> batch_progress) \<Rightarrow> batch_state \<Rightarrow> batch_state" where
  "put_progress f s =
     (let p = f (bs_state s)
      in s\<lparr>bs_state := p, bs_progress := map_set (bp_manifestId p) p (bs_progress s)\<rparr>)"

definition batch_start ::
    "batch_manifest \<Rightarrow> (string, batch_progress) jsmap \<Rightarrow> worker_pool \<Rightarrow> engine \<Rightarrow> batch_state" where
  "batch_start manifest progress pool en =
     (let state = \<lparr>bp_manifestId = bm_id manifest, bp_total = length (bm_items manifest), bp_completed = 0,
                    bp_failed = 0, bp_running = 0, bp_runIds = []\<rparr>;
          parallel = (case bm_maxParallel manifest of Some n \<Rightarrow> n | None \<Rightarrow> 4)
      in \<lparr>bs_progress = map_set (bm_id manifest) state progress, bs_pool = pool, bs_engine = en,
          bs_state = state, bs_queue = bm_items manifest, bs_workers = replicate parallel Idle\<rparr>)"

definition getProgress :: "string \<Rightarrow> batch_state \<Rightarrow> batch_progress option" where
  "getProgress i s = map_get (bs_progress s) i"

text \<open>The loop's head: stop on an empty queue, otherwise take an item and call \<^verbatim>\<open>createRun\<close>.\<close>

definition worker_take :: "nat \<Rightarrow> batch_state \<Rightarrow> batch_state" where
  "worker_take i s =
     (case bs_queue s of
        [] \<Rightarrow> s\<lparr>bs_workers := (bs_workers s)[i := Stopped]\<rparr>
      | item # rest \<Rightarrow>
          put_progress (\<lambda>p. p\<lparr>bp_running := bp_running p + 1\<rparr>)
            (s\<lparr>bs_queue := rest, bs_workers := (bs_workers s)[i := Creating item]\<rparr>))"

text \<open>\<^verbatim>\<open>createRun\<close> has returned: record the run, queue it in the pool, call \<^verbatim>\<open>executeRun\<close>.\<close>

definition worker_created :: "env \<Rightarrow> nat \<Rightarrow> batch_item \<Rightarrow> run_id \<Rightarrow> engine \<Rightarrow> batch_state \<Rightarrow> batch_state" where
  "worker_created e i item r en s =
     (let en' = en\<lparr>en_ticks := Suc (en_ticks en)\<rparr>;
          entry = \<lparr>qr_runId = r, qr_priority = (case bi_priority item of Some p \<Rightarrow> p | None \<Rightarrow> Normal),
                   qr_enqueuedAt = clk e (en_ticks en)\<rparr>
      in put_progress (\<lambda>p. p\<lparr>bp_runIds := bp_runIds p @ [r]\<rparr>)
           (s\<lparr>bs_engine := en', bs_pool := pool_enqueue entry (bs_pool s),
              bs_workers := (bs_workers s)[i := Executing item r]\<rparr>))"

definition worker_done :: "nat \<Rightarrow> engine \<Rightarrow> batch_state \<Rightarrow> batch_state" where
  "worker_done i en s =
     put_progress (\<lambda>p. p\<lparr>bp_completed := bp_completed p + 1, bp_running := bp_running p - 1\<rparr>)
       (s\<lparr>bs_engine := en, bs_workers := (bs_workers s)[i := Idle]\<rparr>)"

text \<open>The \<^verbatim>\<open>catch\<close> and \<^verbatim>\<open>finally\<close> blocks; without \<^verbatim>\<open>continueOnError\<close> the rest of the queue is dropped.\<close>

definition worker_failed :: "nat \<Rightarrow> batch_item \<Rightarrow> engine \<Rightarrow> batch_state \<Rightarrow> batch_state" where
  "worker_failed i item en s =
     put_progress (\<lambda>p. p\<lparr>bp_failed := bp_failed p + 1, bp_running := bp_running p - 1\<rparr>)
       (s\<lparr>bs_engine := en, bs_queue := (if bi_continueOnError item = Some True then bs_queue s else []),
          bs_workers := (bs_workers s)[i := Idle]\<rparr>)"

definition batch_trigger :: "batch_state \<Rightarrow> string" where
  "batch_trigger s = ''batch:'' @ bp_manifestId (bs_state s)"

inductive batch_step :: "env \<Rightarrow> simulator \<Rightarrow> batch_state \<Rightarrow> batch_state \<Rightarrow> bool" for e sim where
  take: "i < length (bs_workers s) \<Longrightarrow> bs_workers s ! i = Idle \<Longrightarrow> batch_step e sim s (worker_take i s)"
| created: "i < length (bs_workers s) \<Longrightarrow> bs_workers s ! i = Creating item \<Longrightarrow>
    createRun e (bi_jobId item) (batch_trigger s) (bi_input item) (bs_engine s) = (Inr (run, w, def), en) \<Longrightarrow>
    batch_step e sim s (worker_created e i item (jr_id run) en s)"
| create_fails: "i < length (bs_workers s) \<Longrightarrow> bs_workers s ! i = Creating item \<Longrightarrow>
    createRun e (bi_jobId item) (batch_trigger s) (bi_input item) (bs_engine s) = (Inl er, en) \<Longrightarrow>
    batch_step e sim s (worker_failed i item en s)"
| executed: "i < length (bs_workers s) \<Longrightarrow> bs_workers s ! i = Executing item r \<Longrightarrow>
    executeRun e sim fuel r (bs_engine s) = Some (Inr (), en) \<Longrightarrow> batch_step e sim s (worker_done i en s)"
| execute_fails: "i < length (bs_workers s) \<Longrightarrow> bs_workers s ! i = Executing item r \<Longrightarrow>
    executeRun e sim fuel r (bs_engine s) = Some (Inl er, en) \<Longrightarrow>
    batch_step e sim s (worker_failed i item en s)"

inductive_cases batch_stepE: "batch_step e sim s s'"

text \<open>\<^verbatim>\<open>execute\<close> returns when all its workers have stopped.\<close>

definition batch_returned :: "batch_state \<Rightarrow> bool" where
  "batch_returned s \<longleftrightarrow> list_all (\<lambda>w. w = Stopped) (bs_workers s)"

subsection \<open>The books of a batch\<close>

fun worker_busy :: "batch_worker \<Rightarrow> bool" where
  "worker_busy (Creating item) = True"
| "worker_busy (Executing item r) = True"
| "worker_busy _ = False"

fun worker_executing :: "batch_worker \<Rightarrow> bool" where
  "worker_executing (Executing item r) = True"
| "worker_executing _ = False"

definition count_workers :: "(batch_worker \<Rightarrow> bool) \<Rightarrow> batch_state \<Rightarrow> nat" where
  "count_workers P s = length (filter P (bs_workers s))"

lemma length_filter_update:
  assumes "i < length ws"
  shows "length (filter P (ws[i := w])) + (if P (ws ! i) then 1 else 0) =
    length (filter P ws) + (if P w then 1 else 0)"
proof -
  have "length (filter P xs) = sum_list (map (\<lambda>x. if P x then 1 else 0) xs)" for xs
    by (induction xs) simp_all
  then show ?thesis using sum_update [OF assms, of "\<lambda>x. if P x then 1 else 0" w] by simp
qed

lemma put_progress_fields [simp]:
  "bs_state (put_progress f s) = f (bs_state s)" "bs_queue (put_progress f s) = bs_queue s"
  "bs_workers (put_progress f s) = bs_workers s" "bs_pool (put_progress f s) = bs_pool s"
  "bs_engine (put_progress f s) = bs_engine s"
  "bs_progress (put_progress f s) = map_set (bp_manifestId (f (bs_state s))) (f (bs_state s)) (bs_progress s)"
  by (simp_all add: put_progress_def Let_def)

text \<open>\<open>n\<close> items and \<open>k\<close> workers, the pool at first \<open>d\<close> deep.\<close>

definition batch_inv :: "batch_manifest \<Rightarrow> nat \<Rightarrow> batch_state \<Rightarrow> bool" where
  "batch_inv manifest d s \<longleftrightarrow>
     (let p = bs_state s; busy = count_workers worker_busy s; executing = count_workers worker_executing s
      in bp_manifestId p = bm_id manifest \<and> bp_total p = length (bm_items manifest) \<and>
         getProgress (bm_id manifest) s = Some p \<and>
         length (bs_workers s) = (case bm_maxParallel manifest of Some n \<Rightarrow> n | None \<Rightarrow> 4) \<and>
         bp_running p = int busy \<and>
         bp_completed p + bp_failed p + busy + length (bs_queue s) \<le> bp_total p \<and>
         (list_all (\<lambda>i. bi_continueOnError i = Some True) (bm_items manifest) \<longrightarrow>
            bp_completed p + bp_failed p + busy + length (bs_queue s) = bp_total p) \<and>
         bp_completed p + executing \<le> length (bp_runIds p) \<and>
         length (bp_runIds p) \<le> bp_completed p + bp_failed p + executing \<and>
         pool_depth (bs_pool s) = d + length (bp_runIds p) \<and>
         set (bs_queue s) \<subseteq> set (bm_items manifest) \<and>
         (\<forall>w \<in> set (bs_workers s). \<forall>i r. w = Creating i \<or> w = Executing i r \<longrightarrow> i \<in> set (bm_items manifest)) \<and>
         (Stopped \<in> set (bs_workers s) \<longrightarrow> bs_queue s = []))"

lemma batch_inv_start: "batch_inv manifest (pool_depth pool) (batch_start manifest progress pool en)"
  by (auto simp: batch_inv_def batch_start_def Let_def count_workers_def getProgress_def)

lemmas batch_inv_defs = batch_inv_def Let_def count_workers_def getProgress_def

lemma pool_depth_enqueue [simp]: "pool_depth (pool_enqueue q p) = Suc (pool_depth p)"
  by (simp add: pool_depth_def pool_enqueue_def)

lemma batch_inv_take:
  assumes "i < length (bs_workers s)" and "bs_workers s ! i = Idle" and "batch_inv manifest d s"
  shows "batch_inv manifest d (worker_take i s)"
proof (cases "bs_queue s")
  case Nil
  then show ?thesis
    using assms length_filter_update [of i "bs_workers s" worker_busy Stopped]
      length_filter_update [of i "bs_workers s" worker_executing Stopped]
    by (auto simp: batch_inv_defs worker_take_def dest!: set_update_subset_insert [THEN subsetD])
next
  case (Cons item rest)
  then show ?thesis
    using assms length_filter_update [of i "bs_workers s" worker_busy "Creating item"]
      length_filter_update [of i "bs_workers s" worker_executing "Creating item"]
    by (auto simp: batch_inv_defs worker_take_def dest!: set_update_subset_insert [THEN subsetD])
qed

lemma batch_inv_created:
  assumes "i < length (bs_workers s)" and "bs_workers s ! i = Creating item" and "batch_inv manifest d s"
  shows "batch_inv manifest d (worker_created e i item r en s)"
  using assms nth_mem [OF assms(1)] length_filter_update [of i "bs_workers s" worker_busy "Executing item r"]
    length_filter_update [of i "bs_workers s" worker_executing "Executing item r"]
  by (auto simp: batch_inv_defs worker_created_def dest!: set_update_subset_insert [THEN subsetD])

lemma batch_inv_done:
  assumes "i < length (bs_workers s)" and "bs_workers s ! i = Executing item r" and "batch_inv manifest d s"
  shows "batch_inv manifest d (worker_done i en s)"
  using assms length_filter_update [of i "bs_workers s" worker_busy Idle]
    length_filter_update [of i "bs_workers s" worker_executing Idle]
  by (auto simp: batch_inv_defs worker_done_def dest!: set_update_subset_insert [THEN subsetD])

lemma batch_inv_failed:
  assumes "i < length (bs_workers s)" and "bs_workers s ! i = Creating item \<or> bs_workers s ! i = Executing item r"
    and "batch_inv manifest d s"
  shows "batch_inv manifest d (worker_failed i item en s)"
proof -
  have "j \<in> set (bm_items manifest)" if "w \<in> set (bs_workers s)" "w = Creating j \<or> w = Executing j q" for w j q
    using assms(3) that by (auto simp: batch_inv_defs)
  from this [OF nth_mem [OF assms(1)] assms(2)] have "item \<in> set (bm_items manifest)" .
  then show ?thesis
    using assms length_filter_update [of i "bs_workers s" worker_busy Idle]
      length_filter_update [of i "bs_workers s" worker_executing Idle]
    by (auto simp: batch_inv_defs worker_failed_def list_all_iff dest!: set_update_subset_insert [THEN subsetD])
qed

lemma batch_inv_step:
  assumes "batch_step e sim s s'" and "batch_inv manifest d s"
  shows "batch_inv manifest d s'"
  using assms
  by (cases rule: batch_step.cases)
    (auto intro: batch_inv_take batch_inv_created batch_inv_done batch_inv_failed)

text \<open>
  Every step uses up weight: a batch of \<open>n\<close> items and \<open>k\<close> workers takes at most \<open>4 * n + k\<close> steps.
\<close>

fun worker_weight :: "batch_worker \<Rightarrow> nat" where
  "worker_weight Stopped = 0"
| "worker_weight Idle = 1"
| "worker_weight (Executing item r) = 2"
| "worker_weight (Creating item) = 3"

definition batch_weight :: "batch_state \<Rightarrow> nat" where
  "batch_weight s = 4 * length (bs_queue s) + sum_list (map worker_weight (bs_workers s))"

lemma batch_step_weight: "batch_step e sim s s' \<Longrightarrow> batch_weight s' < batch_weight s"
proof (induction rule: batch_step.induct)
  case (take i s)
  show ?case
  proof (cases "bs_queue s")
    case Nil
    then show ?thesis using take sum_update [of i "bs_workers s" worker_weight Stopped]
      by (simp add: batch_weight_def worker_take_def)
  next
    case (Cons item rest)
    then show ?thesis using take sum_update [of i "bs_workers s" worker_weight "Creating item"]
      by (simp add: batch_weight_def worker_take_def)
  qed
next
  case (created i s item run w def en)
  then show ?case using sum_update [of i "bs_workers s" worker_weight "Executing item (jr_id run)"]
    by (simp add: batch_weight_def worker_created_def Let_def)
next
  case (create_fails i s item er en)
  then show ?case using sum_update [of i "bs_workers s" worker_weight Idle]
    by (simp add: batch_weight_def worker_failed_def)
next
  case (executed i s item r fuel en)
  then show ?case using sum_update [of i "bs_workers s" worker_weight Idle]
    by (simp add: batch_weight_def worker_done_def)
next
  case (execute_fails i s item r fuel er en)
  then show ?case using sum_update [of i "bs_workers s" worker_weight Idle]
    by (simp add: batch_weight_def worker_failed_def)
qed

interpretation coordinator: measured_steps "batch_step e sim" "batch_inv manifest d" batch_weight for e sim manifest d
  by unfold_locales (rule batch_inv_step batch_step_weight; assumption)+

subsection \<open>What a batch guarantees\<close>

definition batch_parallel :: "batch_manifest \<Rightarrow> nat" where
  "batch_parallel manifest = (case bm_maxParallel manifest of Some n \<Rightarrow> n | None \<Rightarrow> 4)"

lemma filter_all_stopped:
  "list_all (\<lambda>w. w = Stopped) ws \<Longrightarrow> length (filter worker_busy ws) = 0"
  by (induction ws) auto


text \<open>
  A run that fails is no failed item: \<^verbatim>\<open>executeRun\<close> does not throw for it, so it counts as completed.
\<close>

lemma failed_run_counts_as_completed:
  assumes "i < length (bs_workers s)" and "bs_workers s ! i = Executing item r"
    and "ready_run def r (bs_engine s) w" and "well_formed_job def" and "sim_modelled sim" and "rules_modelled def"
    and "executeRun e sim (exec_fuel def) r (bs_engine s) = Some (res, en)"
    and "workflow_store_getByRunId (en_workflows en) r = Some w'" and "wf_state w' = Failed"
  shows "batch_step e sim s (worker_done i en s)"
    and "bp_completed (bs_state (worker_done i en s)) = bp_completed (bs_state s) + 1"
    and "bp_failed (bs_state (worker_done i en s)) = bp_failed (bs_state s)"
proof -
  obtain res' w'' en' where "executeRun e sim (exec_fuel def) r (bs_engine s) = Some (res', en')"
    "current r en' w''" "finished_run def r (bs_engine s) res' w'' en'"
    using executeRun_ends [OF assms(3-6), of e] by blast
  then have "res = Inr ()" using assms(7-9) by (auto simp: current_def finished_run_def)
  then show "batch_step e sim s (worker_done i en s)" using assms(1,2,7) by (auto intro: batch_step.executed)
qed (simp_all add: worker_done_def)

definition sample_batch :: batch_manifest where
  "sample_batch =
     \<lparr>bm_id = ''b1'', bm_name = ''B'', bm_tenantId = ''t'',
      bm_items = [\<lparr>bi_jobId = ''missing'', bi_label = ''l'', bi_input = [], bi_priority = None,
                   bi_continueOnError = Some True\<rparr>],
      bm_maxParallel = Some 1, bm_createdAt = ''t0''\<rparr>"

lemma sample_batch_run:
  "\<exists>s. (batch_step e sim ^^ 3) (batch_start sample_batch [] (pool_new 1) engine_empty) s \<and> batch_returned s"
proof -
  let ?i = "hd (bm_items sample_batch)"
  define s0 where "s0 = batch_start sample_batch [] (pool_new 1) engine_empty"
  define s1 where "s1 = worker_take 0 s0"
  define s2 where "s2 = worker_failed 0 ?i engine_empty s1"
  define s3 where "s3 = worker_take 0 s2"
  note defs = s3_def s2_def s1_def s0_def batch_start_def sample_batch_def worker_take_def worker_failed_def
    put_progress_def Let_def
  have c: "createRun e ''missing'' t [] engine_empty = (Inl (NotFoundError ''JobDefinition'' ''missing''), engine_empty)" for t
    by (simp add: createRun_def engine_empty_def job_store_get_def bind_a_eq)
  have "batch_step e sim s0 s1"
    unfolding s1_def by (rule batch_step.take) (simp_all add: defs)
  moreover have "batch_step e sim s1 s2"
    unfolding s2_def by (rule batch_step.create_fails) (simp_all add: defs c)
  moreover have "batch_step e sim s2 s3"
    unfolding s3_def by (rule batch_step.take) (simp_all add: defs)
  ultimately have "(batch_step e sim ^^ 3) s0 s3" by (auto simp: eval_nat_numeral)
  moreover have "batch_returned s3" by (simp add: batch_returned_def defs)
  ultimately show ?thesis unfolding s0_def by blast
qed


end
