(* ===== verification/Replay.thy ===== *)
theory Replay
  imports Runs
begin

section \<open>Checkpoints, recovery and replay\<close>

text \<open>
  persistence/run-snapshot.ts, persistence/checkpoint-store.ts, persistence/recovery-service.ts,
  replay/diff.ts and replay/replayer.ts. A structured clone is the value itself: nothing in the
  model shares structure.
\<close>

subsection \<open>Checkpoints\<close>

record run_snapshot =
  sn_runId :: run_id
  sn_version :: nat
  sn_workflow :: workflow_instance
  sn_capturedAt :: iso_date
  sn_label :: "string option"

type_synonym checkpoints = "(run_id, run_snapshot list) jsmap"

definition checkpoint_list :: "checkpoints \<Rightarrow> run_id \<Rightarrow> run_snapshot list" where
  "checkpoint_list c runId = (case map_get c runId of Some l \<Rightarrow> l | None \<Rightarrow> [])"

definition checkpoint_save :: "run_snapshot \<Rightarrow> checkpoints \<Rightarrow> checkpoints" where
  "checkpoint_save snapshot c =
     map_set (sn_runId snapshot) (checkpoint_list c (sn_runId snapshot) @ [snapshot]) c"

definition checkpoint_latest :: "checkpoints \<Rightarrow> run_id \<Rightarrow> run_snapshot option" where
  "checkpoint_latest c runId =
     (case map_get c runId of
        None \<Rightarrow> None
      | Some l \<Rightarrow> if l = [] then None else Some (last l))"

subsection \<open>RecoveryService\<close>

record recovery =
  rv_checkpoints :: checkpoints
  rv_engine :: engine

type_synonym 'a rec = "(recovery, err, 'a) act"

definition rec_now :: "env \<Rightarrow> iso_date rec" where
  "rec_now e s =
     (Inr (clk e (en_ticks (rv_engine s))),
      s\<lparr>rv_engine := (rv_engine s)\<lparr>en_ticks := Suc (en_ticks (rv_engine s))\<rparr>\<rparr>)"

definition captureCheckpoint :: "env \<Rightarrow> run_id \<Rightarrow> workflow_instance \<Rightarrow> string option \<Rightarrow> unit rec" where
  "captureCheckpoint e runId workflow label =
     bind_a (reads (\<lambda>s. checkpoint_list (rv_checkpoints s) runId)) (\<lambda>snaps.
     bind_a (rec_now e) (\<lambda>now.
     writes (\<lambda>s. s\<lparr>rv_checkpoints := checkpoint_save
       \<lparr>sn_runId = runId, sn_version = length snaps + 1, sn_workflow = workflow, sn_capturedAt = now,
        sn_label = label\<rparr> (rv_checkpoints s)\<rparr>)))"

definition restoreToCheckpoint :: "env \<Rightarrow> run_id \<Rightarrow> nat option \<Rightarrow> bool rec" where
  "restoreToCheckpoint e runId version =
     bind_a (reads (\<lambda>s. checkpoint_list (rv_checkpoints s) runId)) (\<lambda>snaps.
     if snaps = [] then ret False
     else case (case version of Some v \<Rightarrow> List.find (\<lambda>s. sn_version s = v) snaps | None \<Rightarrow> Some (last snaps)) of
            None \<Rightarrow> ret False
          | Some target \<Rightarrow>
              bind_a (rec_now e) (\<lambda>now.
              let restored = (sn_workflow target)\<lparr>wf_updatedAt := now\<rparr> in
              bind_a (writes (\<lambda>s. s\<lparr>rv_engine := (rv_engine s)\<lparr>en_workflows :=
                  workflow_store_save restored (en_workflows (rv_engine s))\<rparr>\<rparr>)) (\<lambda>w. ret True)))"

subsection \<open>The difference of two workflows\<close>

record task_diff =
  tdf_taskId :: string
  tdf_field :: string
  tdf_before :: string
  tdf_after :: string

record workflow_diff =
  wdf_runId :: run_id
  wdf_stateChanged :: bool
  wdf_fromState :: workflow_state
  wdf_toState :: workflow_state
  wdf_taskDiffs :: "task_diff list"

definition text_or_empty :: "string option \<Rightarrow> string" where
  "text_or_empty m = (case m of Some t \<Rightarrow> t | None \<Rightarrow> [])"

definition diff_entry :: "string \<Rightarrow> string \<Rightarrow> string \<Rightarrow> string \<Rightarrow> task_diff" where
  "diff_entry i f b a = \<lparr>tdf_taskId = i, tdf_field = f, tdf_before = b, tdf_after = a\<rparr>"

definition diff_task :: "(string, task_run) jsmap \<Rightarrow> task_run \<Rightarrow> task_diff list" where
  "diff_task beforeById t =
     (case map_get beforeById (tr_definitionTaskId t) of
        None \<Rightarrow> [diff_entry (tr_definitionTaskId t) ''status'' ''missing'' (task_status_str (tr_status t))]
      | Some prev \<Rightarrow>
          (if tr_status prev \<noteq> tr_status t
           then [diff_entry (tr_definitionTaskId t) ''status'' (task_status_str (tr_status prev))
                   (task_status_str (tr_status t))] else []) @
          (if tr_attempt prev \<noteq> tr_attempt t
           then [diff_entry (tr_definitionTaskId t) ''attempt'' (show_nat (tr_attempt prev))
                   (show_nat (tr_attempt t))] else []) @
          (if tr_errorMessage prev \<noteq> tr_errorMessage t
           then [diff_entry (tr_definitionTaskId t) ''error'' (text_or_empty (tr_errorMessage prev))
                   (text_or_empty (tr_errorMessage t))] else []))"

definition diffWorkflows :: "workflow_instance \<Rightarrow> workflow_instance \<Rightarrow> workflow_diff" where
  "diffWorkflows before after =
     (let beforeById = map_from (map (\<lambda>t. (tr_definitionTaskId t, t)) (wf_tasks before))
      in \<lparr>wdf_runId = wf_runId after, wdf_stateChanged = (wf_state before \<noteq> wf_state after),
          wdf_fromState = wf_state before, wdf_toState = wf_state after,
          wdf_taskDiffs = concat (map (diff_task beforeById) (wf_tasks after))\<rparr>)"

definition countFailedTasks :: "workflow_instance \<Rightarrow> nat" where
  "countFailedTasks w = length (filter (\<lambda>t. tr_status t = TFailed) (wf_tasks w))"

subsection \<open>RunReplayer\<close>

definition replay :: "env \<Rightarrow> simulator \<Rightarrow> nat \<Rightarrow> run_id \<Rightarrow> engine \<Rightarrow> (workflow_diff res \<times> engine) option" where
  "replay e sim fuel runId s =
     (case getWorkflowByRun runId s of
        (Inl err, s1) \<Rightarrow> Some (Inl err, s1)
      | (Inr before, s1) \<Rightarrow>
          map_option (\<lambda>(r, s2). case r of
              Inl err \<Rightarrow> (Inl err, s2)
            | Inr u \<Rightarrow> bind_a (getWorkflowByRun runId) (\<lambda>after. ret (diffWorkflows before after)) s2)
            (executeRun e sim fuel runId s1))"

definition replayer_snapshot :: "run_id \<Rightarrow> workflow_instance eng" where
  "replayer_snapshot runId =
     bind_a (getWorkflowByRun runId) (\<lambda>wf.
     bind_a (writes (\<lambda>s. s\<lparr>en_workflows := workflow_store_save wf (en_workflows s)\<rparr>)) (\<lambda>u. ret wf))"

subsection \<open>Checkpoints are numbered from one\<close>

definition checkpoints_ok :: "checkpoints \<Rightarrow> bool" where
  "checkpoints_ok c \<longleftrightarrow> (\<forall>r. map sn_version (checkpoint_list c r) = map Suc [0..<length (checkpoint_list c r)])"

lemma checkpoint_list_save:
  "checkpoint_list (checkpoint_save sn c) r =
     (if r = sn_runId sn then checkpoint_list c r @ [sn] else checkpoint_list c r)"
  by (simp add: checkpoint_list_def checkpoint_save_def)

lemma capture_fields:
  assumes "captureCheckpoint e r w label s = (res, s')"
  shows "res = Inr ()"
    and "rv_checkpoints s' = checkpoint_save
      \<lparr>sn_runId = r, sn_version = length (checkpoint_list (rv_checkpoints s) r) + 1, sn_workflow = w,
       sn_capturedAt = clk e (en_ticks (rv_engine s)), sn_label = label\<rparr> (rv_checkpoints s)"
    and "en_workflows (rv_engine s') = en_workflows (rv_engine s)"
  using assms by (auto simp: captureCheckpoint_def rec_now_def bind_a_def reads_def writes_def)

lemma capture_ok:
  assumes "captureCheckpoint e r w label s = (res, s')" and "checkpoints_ok (rv_checkpoints s)"
  shows "checkpoints_ok (rv_checkpoints s')"
  using assms(2) unfolding capture_fields(2) [OF assms(1)]
  by (auto simp: checkpoints_ok_def checkpoint_list_save)

lemma find_append_None: "List.find P xs = None \<Longrightarrow> P y \<Longrightarrow> List.find P (xs @ y # ys) = Some y"
  by (induction xs) (auto split: if_splits)

lemma find_in_prefix:
  assumes "map sn_version snaps = map Suc [0..<length snaps]" and "sn_version sn = Suc (length snaps)"
  shows "List.find (\<lambda>s. sn_version s = Suc (length snaps)) (snaps @ sn # later) = Some sn"
proof (rule find_append_None)
  have "sn_version s \<noteq> Suc (length snaps)" if "s \<in> set snaps" for s
  proof -
    have "sn_version s \<in> set (map Suc [0..<length snaps])" using that unfolding assms(1) [symmetric] by simp
    then show ?thesis by auto
  qed
  then show "List.find (\<lambda>s. sn_version s = Suc (length snaps)) snaps = None" by (simp add: find_None_iff)
qed (rule assms(2))

text \<open>
  C28. A captured workflow can always be restored: whatever happened to the run and however many
  checkpoints were taken since, restoring the version the capture got brings back the stored
  workflow exactly, but for its date of update. Only the workflow store changes, so the record of
  the run keeps the status it had in the meantime.
\<close>

theorem checkpoint_round_trip:
  assumes "checkpoints_ok (rv_checkpoints s)" and "wf_runId w = r"
    and "captureCheckpoint e r w label s = (Inr (), s1)"
    and "checkpoint_list (rv_checkpoints s2) r = checkpoint_list (rv_checkpoints s1) r @ later"
    and "workflow_store_ok (en_workflows (rv_engine s2))"
    and "workflow_store_getByRunId (en_workflows (rv_engine s2)) r = Some w2" and "wf_id w2 = wf_id w"
  shows "\<exists>s3 now. restoreToCheckpoint e r (Some (length (checkpoint_list (rv_checkpoints s) r) + 1)) s2 = (Inr True, s3) \<and>
    workflow_store_ok (en_workflows (rv_engine s3)) \<and>
    (\<forall>r'. workflow_store_getByRunId (en_workflows (rv_engine s3)) r' =
       (if r' = r then Some (w\<lparr>wf_updatedAt := now\<rparr>)
        else workflow_store_getByRunId (en_workflows (rv_engine s2)) r')) \<and>
    en_runs (rv_engine s3) = en_runs (rv_engine s2) \<and> rv_checkpoints s3 = rv_checkpoints s2"
proof -
  let ?snaps = "checkpoint_list (rv_checkpoints s) r" and ?now = "clk e (en_ticks (rv_engine s2))"
  define sn where "sn = \<lparr>sn_runId = r, sn_version = length ?snaps + 1, sn_workflow = w,
      sn_capturedAt = clk e (en_ticks (rv_engine s)), sn_label = label\<rparr>"
  let ?w = "w\<lparr>wf_updatedAt := ?now\<rparr>"
  have "checkpoint_list (rv_checkpoints s2) r = ?snaps @ sn # later"
    using assms(4) capture_fields(2) [OF assms(3)] by (simp add: checkpoint_list_save sn_def)
  moreover have "List.find (\<lambda>s. sn_version s = Suc (length ?snaps)) (?snaps @ sn # later) = Some sn"
    using assms(1) by (intro find_in_prefix) (simp_all add: checkpoints_ok_def sn_def)
  ultimately obtain s3 where r3: "restoreToCheckpoint e r (Some (length ?snaps + 1)) s2 = (Inr True, s3)"
    and s3: "en_workflows (rv_engine s3) = workflow_store_save ?w (en_workflows (rv_engine s2))"
      "en_runs (rv_engine s3) = en_runs (rv_engine s2)" "rv_checkpoints s3 = rv_checkpoints s2"
    by (simp add: restoreToCheckpoint_def bind_a_def reads_def writes_def rec_now_def ret_def Let_def sn_def)
  have "workflow_store_getByRunId (workflow_store_save ?w (en_workflows (rv_engine s2))) r' =
      (if r' = r then Some ?w else workflow_store_getByRunId (en_workflows (rv_engine s2)) r')" for r'
    using wfs.getByRunId_update [OF assms(5,6), of ?w r'] assms(2,7) by simp
  moreover have "workflow_store_ok (workflow_store_save ?w (en_workflows (rv_engine s2)))"
    using wfs.invar_update [OF assms(5,6), of ?w] assms(2,7) by simp
  ultimately show ?thesis using r3 s3 by (intro exI [of _ s3] exI [of _ ?now]) simp
qed

text \<open>A restored state that differs from the present one leaves the run's record out of step.\<close>

lemma restore_desyncs_run:
  assumes "current r (rv_engine s2) w2" and "wf_state w \<noteq> wf_state w2"
    and "workflow_store_getByRunId (en_workflows (rv_engine s3)) r = Some (w\<lparr>wf_updatedAt := now\<rparr>)"
    and "en_runs (rv_engine s3) = en_runs (rv_engine s2)"
  shows "\<not> current r (rv_engine s3) w3"
  using assms by (auto simp: current_def)

definition checkpoint_system :: recovery where
  "checkpoint_system = \<lparr>rv_checkpoints = [], rv_engine = created_engine\<rparr>"

lemma checkpoint_round_trip_witness:
  "\<exists>s1 s3. captureCheckpoint plain_env ''run_u0'' (the (workflow_store_getByRunId (en_workflows created_engine) ''run_u0''))
       None checkpoint_system = (Inr (), s1) \<and>
     restoreToCheckpoint plain_env ''run_u0'' (Some 1) s1 = (Inr True, s3)"
proof -
  obtain w where "ready_run chain_job ''run_u0'' created_engine w" by (rule created_ready)
  then have w: "workflow_store_ok (en_workflows created_engine)"
    "workflow_store_getByRunId (en_workflows created_engine) ''run_u0'' = Some w"
    by (simp_all add: ready_run_def current_def)
  obtain s1 where s1: "captureCheckpoint plain_env ''run_u0'' w None checkpoint_system = (Inr (), s1)"
    using capture_fields(1) by (metis surj_pair)
  have "en_workflows (rv_engine s1) = en_workflows created_engine"
    using capture_fields(3) [OF s1] by (simp add: checkpoint_system_def)
  moreover have "checkpoints_ok (rv_checkpoints checkpoint_system)"
    by (simp add: checkpoints_ok_def checkpoint_list_def checkpoint_system_def)
  ultimately have "\<exists>s3. restoreToCheckpoint plain_env ''run_u0'' (Some 1) s1 = (Inr True, s3)"
    using checkpoint_round_trip [OF _ wfs.getByRunId_runId [OF w] s1, of s1 "[]" w] w
    by (auto simp: checkpoint_system_def checkpoint_list_def)
  then show ?thesis using s1 w(2) by auto
qed

subsection \<open>What a difference lists\<close>

lemma before_by_id:
  assumes "distinct (map tr_definitionTaskId ts)"
  shows "map_get (map_from (map (\<lambda>t. (tr_definitionTaskId t, t)) ts)) i =
    List.find (\<lambda>t. tr_definitionTaskId t = i) ts"
proof -
  have "map_from (map (\<lambda>t. (tr_definitionTaskId t, t)) ts) = map (\<lambda>t. (tr_definitionTaskId t, t)) ts"
    using assms by (intro map_from_distinct) (simp add: comp_def)
  moreover have "map_of (map (\<lambda>t. (tr_definitionTaskId t, t)) ts) i = List.find (\<lambda>t. tr_definitionTaskId t = i) ts"
    by (induction ts) auto
  ultimately show ?thesis by simp
qed

lemma diff_task_Nil:
  "diff_task m t = [] \<longleftrightarrow>
     (\<exists>p. map_get m (tr_definitionTaskId t) = Some p \<and> tr_status p = tr_status t \<and>
        tr_attempt p = tr_attempt t \<and> tr_errorMessage p = tr_errorMessage t)"
  by (auto simp: diff_task_def split: option.splits)

lemma diff_same:
  assumes "distinct (map tr_definitionTaskId (wf_tasks w))" and "wf_tasks w' = wf_tasks w" and "wf_state w' = wf_state w"
  shows "\<not> wdf_stateChanged (diffWorkflows w w') \<and> wdf_taskDiffs (diffWorkflows w w') = []"
proof -
  have "diff_task (map_from (map (\<lambda>t. (tr_definitionTaskId t, t)) (wf_tasks w))) t = []" if "t \<in> set (wf_tasks w)" for t
    using that find_distinct_key [OF assms(1) that] by (simp add: diff_task_Nil before_by_id [OF assms(1)])
  then show ?thesis using assms(2,3) by (simp add: diffWorkflows_def Let_def)
qed

text \<open>
  Replaying a settled run replays nothing: for a run that is completed, cancelled, waiting or
  dead-lettered, or that failed under a policy of two or more attempts, \<^verbatim>\<open>replay\<close> returns an empty
  difference, and the stored workflows, runs and dead letters are as before.
\<close>

theorem replay_of_settled_run_is_empty:
  assumes "current r s w" and "distinct (map tr_definitionTaskId (wf_tasks w))"
    and "run_store_get (en_runs s) r = Some run" and "job_store_get (en_jobs s) (jr_jobId run) = Some def"
    and "r \<notin> set (en_localLocks s)" and "map_get (en_runLocks s) r = None"
    and "wf_state w \<notin> {Pending, Running, Failed} \<or>
         wf_state w = Failed \<and> run_inv def w \<and> well_formed_job def \<and> 2 \<le> maxAttempts (jd_retryPolicy def)"
  shows "\<exists>d s'. replay e sim (Suc fuel) r s = Some (Inr d, s') \<and> \<not> wdf_stateChanged d \<and> wdf_taskDiffs d = [] \<and>
    en_workflows s' = en_workflows s \<and> en_runs s' = en_runs s \<and> en_dead s' = en_dead s"
proof -
  have "\<exists>s'. executeRun e sim (Suc fuel) r s = Some (Inr (), s') \<and> en_workflows s' = en_workflows s \<and>
      en_runs s' = en_runs s \<and> en_dead s' = en_dead s \<and> en_bus s' = en_bus s"
    using assms(7)
  proof
    assume "wf_state w \<notin> {Pending, Running, Failed}"
    from executeRun_idle [OF assms(1) this assms(3-6)] show ?thesis .
  next
    assume f: "wf_state w = Failed \<and> run_inv def w \<and> well_formed_job def \<and> 2 \<le> maxAttempts (jd_retryPolicy def)"
    with executeRun_failed [OF assms(1) _ _ _ _ assms(3-6)] show ?thesis by blast
  qed
  then obtain s' where ex: "executeRun e sim (Suc fuel) r s = Some (Inr (), s')"
    and same: "en_workflows s' = en_workflows s" "en_runs s' = en_runs s" "en_dead s' = en_dead s" by blast
  have get: "workflow_store_getByRunId (en_workflows s) r = Some w" using assms(1) by (simp add: current_def)
  have "replay e sim (Suc fuel) r s = Some (Inr (diffWorkflows w w), s')"
    using ex get same by (simp add: replay_def getWorkflowByRun_def)
  then show ?thesis using diff_same [OF assms(2)] same by blast
qed

lemma replay_of_settled_run_is_empty_witness:
  "\<exists>d s'. replay plain_env failing_sim 7 ''r'' failed_engine = Some (Inr d, s') \<and>
     \<not> wdf_stateChanged d \<and> wdf_taskDiffs d = []"
proof -
  have "distinct (map tr_definitionTaskId (wf_tasks failed_instance))"
    and "wf_state failed_instance = Failed" by (simp_all add: failed_instance_def createTaskRun_def)
  then show ?thesis
    using replay_of_settled_run_is_empty [OF failed_engine_ok(1) _ failed_engine_ok(4) _ failed_engine_ok(5,6),
        where def = chain_job and e = plain_env and sim = failing_sim and fuel = 6]
      failed_engine_ok(2,3) chain_job_ok(1,4)
    by (auto simp: eval_nat_numeral)
qed

end
