(* ===== verification/Export.thy ===== *)
theory Export
  imports Stores
begin

section \<open>Exporting runs\<close>

text \<open>
  export/run-exporter.ts and lib/run-serializer.ts. JSON is a parameter of the serializer. To say
  that an exported file can be read, \<open>csv_read\<close> is a reader of quoted comma-separated records;
  it is a specification, not code of the program.
\<close>

subsection \<open>RunExporter\<close>

record export_row =
  ex_runId :: run_id
  ex_jobId :: job_id
  ex_state :: workflow_state
  ex_taskId :: string
  ex_taskStatus :: task_status
  ex_attempt :: nat
  ex_error :: "string option"

definition toRows :: "workflow_instance \<Rightarrow> export_row list" where
  "toRows w =
     map (\<lambda>t. \<lparr>ex_runId = wf_runId w, ex_jobId = wf_jobId w, ex_state = wf_state w,
               ex_taskId = tr_definitionTaskId t, ex_taskStatus = tr_status t, ex_attempt = tr_attempt t,
               ex_error = tr_errorMessage t\<rparr>) (wf_tasks w)"

definition csv_quote :: char where
  "csv_quote = CHR 0x22"

definition csv_cell :: "string \<Rightarrow> string" where
  "csv_cell c =
     [csv_quote] @ concat (map (\<lambda>x. if x = csv_quote then [csv_quote, csv_quote] else [x]) c) @ [csv_quote]"

definition row_cells :: "export_row \<Rightarrow> string list" where
  "row_cells r =
     [ex_runId r, ex_jobId r, workflow_state_str (ex_state r), ex_taskId r, task_status_str (ex_taskStatus r),
      show_nat (ex_attempt r), case ex_error r of Some m \<Rightarrow> m | None \<Rightarrow> []]"

definition csv_header :: string where
  "csv_header = ''runId,jobId,state,taskId,taskStatus,attempt,error''"

definition toCsv :: "workflow_instance \<Rightarrow> string" where
  "toCsv w =
     (let rows = toRows w;
          lines = map (\<lambda>r. join '','' (map csv_cell (row_cells r))) rows
      in join [CHR 0x0A] (csv_header # lines))"

record run_summary =
  sm_runId :: run_id
  sm_state :: workflow_state
  sm_taskCount :: nat
  sm_succeeded :: nat
  sm_failed :: nat
  sm_historyLength :: nat

definition status_counts :: "task_run list \<Rightarrow> (string, nat) jsmap" where
  "status_counts ts =
     fold (\<lambda>t counts. map_set (task_status_str (tr_status t))
         ((case map_get counts (task_status_str (tr_status t)) of Some n \<Rightarrow> n | None \<Rightarrow> 0) + 1) counts) ts []"

definition toSummary :: "workflow_instance \<Rightarrow> run_summary" where
  "toSummary w =
     (let counts = status_counts (wf_tasks w);
          count = (\<lambda>s. case map_get counts (task_status_str s) of Some n \<Rightarrow> n | None \<Rightarrow> 0)
      in \<lparr>sm_runId = wf_runId w, sm_state = wf_state w, sm_taskCount = length (wf_tasks w),
          sm_succeeded = count TSucceeded, sm_failed = count TFailed, sm_historyLength = length (wf_history w)\<rparr>)"

subsection \<open>RunSerializer\<close>

record run_bundle =
  rb_version :: int
  rb_run :: job_run
  rb_workflow :: workflow_instance
  rb_exportedAt :: iso_date

definition serialize :: "(run_bundle \<Rightarrow> string) \<Rightarrow> iso_date \<Rightarrow> job_run \<Rightarrow> workflow_instance \<Rightarrow> string" where
  "serialize stringify now run w =
     stringify \<lparr>rb_version = 1, rb_run = run, rb_workflow = w, rb_exportedAt = now\<rparr>"

definition deserialize :: "(string \<Rightarrow> run_bundle res) \<Rightarrow> string \<Rightarrow> run_bundle res" where
  "deserialize parse raw =
     bind_r (parse raw) (\<lambda>parsed.
       if rb_version parsed \<noteq> 1
       then Inl (JsError (''unsupported bundle version '' @ show_int (rb_version parsed)))
       else Inr parsed)"

definition drop_key :: "string \<Rightarrow> jsobj \<Rightarrow> jsobj" where
  "drop_key key ob = filter (\<lambda>(k, v). k \<noteq> key) ob"

definition redact_key :: "string \<Rightarrow> run_bundle \<Rightarrow> run_bundle" where
  "redact_key key b =
     b\<lparr>rb_workflow := (rb_workflow b)\<lparr>wf_context := drop_key key (wf_context (rb_workflow b))\<rparr>,
       rb_run := (rb_run b)\<lparr>jr_input := drop_key key (jr_input (rb_run b))\<rparr>\<rparr>"

definition redact :: "run_bundle \<Rightarrow> string list \<Rightarrow> run_bundle" where
  "redact b keys = fold redact_key keys b"

subsection \<open>Reading quoted records\<close>

fun read_quoted :: "string \<Rightarrow> string \<times> string" where
  "read_quoted [] = ([], [])"
| "read_quoted (c # cs) =
     (if c \<noteq> csv_quote then (case read_quoted cs of (cell, rest) \<Rightarrow> (c # cell, rest))
      else case cs of
             d # ds \<Rightarrow> if d = csv_quote then (case read_quoted ds of (cell, rest) \<Rightarrow> (csv_quote # cell, rest))
                      else ([], cs)
           | [] \<Rightarrow> ([], []))"

definition plain_char :: "char \<Rightarrow> bool" where
  "plain_char c \<longleftrightarrow> c \<noteq> CHR '','' \<and> c \<noteq> CHR 0x0A"

definition read_cell :: "string \<Rightarrow> string \<times> string" where
  "read_cell s =
     (case s of
        c # cs \<Rightarrow> if c = csv_quote then read_quoted cs else (takeWhile plain_char s, dropWhile plain_char s)
      | [] \<Rightarrow> ([], []))"

lemma read_quoted_length: "length (snd (read_quoted s)) \<le> length s"
proof (induction s rule: read_quoted.induct)
  case (2 c cs)
  show ?case
  proof (cases "c = csv_quote")
    case True
    show ?thesis
    proof (cases cs)
      case (Cons d ds)
      then show ?thesis using 2(2) [OF _ Cons] True by (auto simp: case_prod_unfold)
    qed (simp add: True)
  qed (use 2(1) in \<open>simp add: case_prod_unfold\<close>)
qed simp

lemma read_cell_length: "length (snd (read_cell s)) \<le> length s"
  using read_quoted_length [of "tl s"] length_dropWhile_le [of plain_char s]
  by (auto simp: read_cell_def split: list.splits)

function csv_read :: "string \<Rightarrow> string list list" where
  "csv_read s =
     (case read_cell s of
        (cell, []) \<Rightarrow> [[cell]]
      | (cell, c # rest) \<Rightarrow>
          if c = CHR '','' then (case csv_read rest of [] \<Rightarrow> [[cell]] | r # rs \<Rightarrow> (cell # r) # rs)
          else [cell] # csv_read rest)"
  by pat_completeness auto
termination
proof (relation "measure length", simp)
  show "(rest, s) \<in> measure length"
    if "(cell, y) = read_cell s" and "y = c # rest" for s cell y c rest
    using read_cell_length [of s] that by (metis Suc_le_lessD in_measure length_Cons snd_conv)
  then show "(rest, s) \<in> measure length"
    if "(cell, y) = read_cell s" and "y = c # rest" for s cell y c rest
    using that by blast
qed

declare csv_read.simps [simp del]

lemma read_quoted_cell:
  "rest = [] \<or> hd rest \<noteq> csv_quote \<Longrightarrow>
     read_quoted (concat (map (\<lambda>x. if x = csv_quote then [csv_quote, csv_quote] else [x]) c) @ csv_quote # rest) =
       (c, rest)"
  by (induction c) (auto split: list.splits)

definition cell_end :: "string \<Rightarrow> bool" where
  "cell_end rest \<longleftrightarrow> rest = [] \<or> \<not> plain_char (hd rest)"

definition reads_back :: "(string \<Rightarrow> string) \<Rightarrow> string \<Rightarrow> bool" where
  "reads_back f c \<longleftrightarrow> (\<forall>rest. cell_end rest \<longrightarrow> read_cell (f c @ rest) = (c, rest))"

lemma reads_back_cell: "reads_back csv_cell c"
proof -
  have "read_cell (csv_cell c @ rest) = (c, rest)" if "cell_end rest" for rest
  proof -
    have "rest = [] \<or> hd rest \<noteq> csv_quote" using that by (auto simp: cell_end_def plain_char_def csv_quote_def)
    then show ?thesis using read_quoted_cell [of rest c] by (simp add: read_cell_def csv_cell_def)
  qed
  then show ?thesis by (simp add: reads_back_def)
qed

lemma reads_back_plain:
  assumes "c \<noteq> []" and "hd c \<noteq> csv_quote" and "list_all plain_char c"
  shows "reads_back (\<lambda>x. x) c"
proof -
  have "takeWhile plain_char (c @ rest) = c \<and> dropWhile plain_char (c @ rest) = rest" if "cell_end rest" for rest
    using assms(3) that by (cases rest) (auto simp: list_all_iff cell_end_def)
  then show ?thesis using assms(1,2) by (cases c) (auto simp: reads_back_def read_cell_def)
qed

lemma csv_read_line:
  assumes "cells \<noteq> []" and "\<forall>c \<in> set cells. reads_back f c"
  shows "csv_read (join '','' (map f cells)) = [cells] \<and>
    csv_read (join '','' (map f cells) @ CHR 0x0A # s) = cells # csv_read s"
  using assms
proof (induction cells)
  case (Cons c cells)
  have r: "read_cell (f c @ rest) = (c, rest)" if "cell_end rest" for rest
    using Cons.prems that by (simp add: reads_back_def)
  note ends = r [of "[]"] r [of "CHR 0x0A # s" for s] r [of "CHR '','' # s" for s]
  show ?case
  proof (cases cells)
    case Nil
    then show ?thesis using ends by (subst (1 2) csv_read.simps) (simp add: cell_end_def plain_char_def)
  next
    case (Cons d ds)
    have j: "join '','' (map f (c # cells)) = f c @ CHR '','' # join '','' (map f cells)"
      using Cons by simp
    have IH: "csv_read (join '','' (map f cells)) = [cells]"
      "csv_read (join '','' (map f cells) @ CHR 0x0A # s) = cells # csv_read s"
      using Cons.IH Cons.prems Cons by simp_all
    show ?thesis unfolding j
      by (subst (1 2) csv_read.simps) (simp add: ends IH cell_end_def plain_char_def)
  qed
qed simp

lemma csv_read_lines:
  assumes "rows \<noteq> []" and "\<forall>r \<in> set rows. r \<noteq> []"
  shows "csv_read (join [CHR 0x0A] (map (\<lambda>r. join '','' (map csv_cell r)) rows)) = rows"
  using assms
proof (induction rows)
  case (Cons r rows)
  have line: "csv_read (join '','' (map csv_cell r)) = [r] \<and>
      csv_read (join '','' (map csv_cell r) @ CHR 0x0A # s) = r # csv_read s" for s
    using Cons.prems by (intro csv_read_line) (simp_all add: reads_back_cell)
  then show ?case using Cons.IH Cons.prems by (cases rows) simp_all
qed simp

definition csv_columns :: "string list" where
  "csv_columns = [''runId'', ''jobId'', ''state'', ''taskId'', ''taskStatus'', ''attempt'', ''error'']"

lemma csv_read_header:
  "csv_read csv_header = [csv_columns] \<and> csv_read (csv_header @ CHR 0x0A # s) = csv_columns # csv_read s"
proof -
  have "csv_header = join '','' (map (\<lambda>x. x) csv_columns)" by (simp add: csv_header_def csv_columns_def)
  moreover have "\<forall>c \<in> set csv_columns. reads_back (\<lambda>x. x) c"
    by (auto simp: csv_columns_def plain_char_def csv_quote_def intro!: reads_back_plain)
  ultimately show ?thesis using csv_read_line [of csv_columns "\<lambda>x. x" s] by (simp add: csv_columns_def)
qed

text \<open>
  C29. An exported file reads back: for every workflow, whatever characters its identifiers and error
  messages contain (quotes, commas and line breaks included), a reader of quoted records gets from
  \<^verbatim>\<open>toCsv\<close> the seven column names and then exactly the cells of the rows of \<^verbatim>\<open>toRows\<close>, in order.
\<close>

theorem csv_round_trip: "csv_read (toCsv w) = csv_columns # map row_cells (toRows w)"
proof (cases "toRows w")
  case Nil
  then show ?thesis using csv_read_header by (simp add: toCsv_def)
next
  case (Cons r rs)
  have "row_cells r' \<noteq> []" for r' by (simp add: row_cells_def)
  then have "csv_read (join [CHR 0x0A] (map (\<lambda>r. join '','' (map csv_cell r)) (map row_cells (toRows w)))) =
      map row_cells (toRows w)"
    using Cons by (intro csv_read_lines) auto
  moreover have "toCsv w = csv_header @ CHR 0x0A # join [CHR 0x0A] (map (\<lambda>r. join '','' (map csv_cell r)) (map row_cells (toRows w)))"
    using Cons by (simp add: toCsv_def comp_def)
  ultimately show ?thesis using csv_read_header by simp
qed

subsection \<open>The summary counts the tasks, and a redacted key is gone\<close>

lemma status_counts_get:
  "(case map_get (status_counts ts) k of Some n \<Rightarrow> n | None \<Rightarrow> 0) =
     length (filter (\<lambda>t. task_status_str (tr_status t) = k) ts)"
proof (induction ts rule: rev_induct)
  case (snoc t ts)
  then show ?case by (auto simp: status_counts_def split: option.splits)
qed (simp add: status_counts_def)

lemma task_status_str_eq:
  "task_status_str s = ''succeeded'' \<longleftrightarrow> s = TSucceeded" "task_status_str s = ''failed'' \<longleftrightarrow> s = TFailed"
  by (cases s; simp)+

lemma toSummary_counts:
  "sm_succeeded (toSummary w) = length (filter (\<lambda>t. tr_status t = TSucceeded) (wf_tasks w))"
  "sm_failed (toSummary w) = length (filter (\<lambda>t. tr_status t = TFailed) (wf_tasks w))"
  using status_counts_get [of "wf_tasks w"] by (simp_all add: toSummary_def Let_def task_status_str_eq)

lemma redact_fields:
  "wf_context (rb_workflow (redact b keys)) = filter (\<lambda>(k, v). k \<notin> set keys) (wf_context (rb_workflow b)) \<and>
   jr_input (rb_run (redact b keys)) = filter (\<lambda>(k, v). k \<notin> set keys) (jr_input (rb_run b)) \<and>
   wf_tasks (rb_workflow (redact b keys)) = wf_tasks (rb_workflow b)"
  by (induction keys arbitrary: b) (auto simp: redact_def redact_key_def drop_key_def conj_commute case_prod_unfold)

lemma deserialize_serialize:
  assumes "\<And>b. parse (stringify b) = Inr b"
  shows "deserialize parse (serialize stringify now run w) =
    Inr \<lparr>rb_version = 1, rb_run = run, rb_workflow = w, rb_exportedAt = now\<rparr>"
  using assms by (simp add: deserialize_def serialize_def)

end
