(* ===== verification/Parallel.thy ===== *)
theory Parallel
  imports CriticalPath Runs
begin

section \<open>The parallel executor\<close>

text \<open>
  engine/parallel-executor.ts. The levels of a plan are executed one after the other; inside a
  level a bounded number of coroutines share an index into the batch and give way to each other
  while a task is executed, so the execution is a step relation. One call of the task executor is
  one step of it.
\<close>

subsection \<open>Levels, batches and workers\<close>

record parallel_options =
  po_maxConcurrency :: int
  po_policy :: retry_policy
  po_input :: jsobj

datatype task_worker =
    Taking
  | Trying task_definition task_run
  | Ended

record parallel_state =
  ps_levels :: "string list list"
  ps_batch :: "(task_definition \<times> task_run) list"
  ps_index :: nat
  ps_workers :: "task_worker list"
  ps_updated :: "(string, task_run) jsmap"
  ps_ticks :: nat

definition batch_entry ::
    "task_definition list \<Rightarrow> (string, task_run) jsmap \<Rightarrow> string \<Rightarrow> (task_definition \<times> task_run) option" where
  "batch_entry tasks updated i =
     (case (List.find (\<lambda>t. td_id t = i) tasks, map_get updated i) of
        (Some def, Some run) \<Rightarrow> Some (def, run)
      | _ \<Rightarrow> None)"

definition level_batch ::
    "task_definition list \<Rightarrow> (string, task_run) jsmap \<Rightarrow> string list \<Rightarrow> (task_definition \<times> task_run) list" where
  "level_batch tasks updated level = List.map_filter (batch_entry tasks updated) level"

text \<open>The call up to its first level: a cycle makes the planner throw.\<close>

definition executeLevel ::
    "task_definition list \<Rightarrow> (string, task_run) jsmap \<Rightarrow> nat \<Rightarrow> parallel_state option res" where
  "executeLevel tasks runs ticks =
     bind_r (plan tasks) (\<lambda>p. Inr (map_option (\<lambda>P.
       \<lparr>ps_levels = plan_levels P, ps_batch = [], ps_index = 0, ps_workers = [], ps_updated = runs,
        ps_ticks = ticks\<rparr>) p))"

definition runBatch :: "parallel_options \<Rightarrow> task_definition list \<Rightarrow> string list \<Rightarrow> parallel_state \<Rightarrow> parallel_state" where
  "runBatch opts tasks level s =
     (let batch = level_batch tasks (ps_updated s) level
      in s\<lparr>ps_batch := batch, ps_index := 0,
           ps_workers := replicate (nat (min (po_maxConcurrency opts) (int (length batch)))) Taking\<rparr>)"

text \<open>The head of a worker's loop, and its continuation when the executor has returned.\<close>

definition take_task :: "nat \<Rightarrow> parallel_state \<Rightarrow> parallel_state" where
  "take_task i s =
     (if ps_index s < length (ps_batch s)
      then case ps_batch s ! ps_index s of (def, run) \<Rightarrow>
             s\<lparr>ps_index := ps_index s + 1, ps_workers := (ps_workers s)[i := Trying def run]\<rparr>
      else s\<lparr>ps_workers := (ps_workers s)[i := Ended]\<rparr>)"

definition task_tried :: "nat \<Rightarrow> task_definition \<Rightarrow> execute_result \<Rightarrow> nat \<Rightarrow> parallel_state \<Rightarrow> parallel_state" where
  "task_tried i def r ticks s =
     s\<lparr>ps_updated := map_set (td_id def) (er_task r) (ps_updated s), ps_ticks := ticks,
       ps_workers := (ps_workers s)[i := Taking]\<rparr>"

definition workers_ended :: "parallel_state \<Rightarrow> bool" where
  "workers_ended s \<longleftrightarrow> list_all (\<lambda>w. w = Ended) (ps_workers s)"

inductive parallel_step ::
    "env \<Rightarrow> simulator \<Rightarrow> parallel_options \<Rightarrow> task_definition list \<Rightarrow> parallel_state \<Rightarrow> parallel_state \<Rightarrow> bool"
  for e sim opts tasks where
  next_level: "workers_ended s \<Longrightarrow> ps_levels s = level # rest \<Longrightarrow>
    parallel_step e sim opts tasks s (runBatch opts tasks level (s\<lparr>ps_levels := rest\<rparr>))"
| takes: "i < length (ps_workers s) \<Longrightarrow> ps_workers s ! i = Taking \<Longrightarrow>
    parallel_step e sim opts tasks s (take_task i s)"
| tried: "i < length (ps_workers s) \<Longrightarrow> ps_workers s ! i = Trying def run \<Longrightarrow>
    executor_run e sim run def (po_policy opts) (po_input opts) (ps_ticks s) = (Inr r, ticks) \<Longrightarrow>
    parallel_step e sim opts tasks s (task_tried i def r ticks s)"

inductive_cases parallel_stepE: "parallel_step e sim opts tasks s s'"

text \<open>The call returns the map when the last level's workers have ended.\<close>

definition parallel_returned :: "parallel_state \<Rightarrow> bool" where
  "parallel_returned s \<longleftrightarrow> workers_ended s \<and> ps_levels s = []"

subsection \<open>What holds in every reachable state\<close>

definition tried_once :: "retry_policy \<Rightarrow> task_run \<Rightarrow> task_run option \<Rightarrow> bool" where
  "tried_once p run now \<longleftrightarrow> (\<exists>r. outcome_ok p run r \<and> now = Some (er_task r))"

text \<open>The tasks of the current batch that are not finished.\<close>

definition unfinished :: "parallel_state \<Rightarrow> string set" where
  "unfinished s = (\<lambda>x. td_id (fst x)) ` set (drop (ps_index s) (ps_batch s)) \<union>
     {td_id d | d r. Trying d r \<in> set (ps_workers s)}"

definition batch_ok :: "task_definition list \<Rightarrow> (string, task_run) jsmap \<Rightarrow> string list \<Rightarrow> parallel_state \<Rightarrow> bool" where
  "batch_ok tasks runs level s \<longleftrightarrow>
     distinct (map (\<lambda>x. td_id (fst x)) (ps_batch s)) \<and>
     (\<forall>(d, r) \<in> set (ps_batch s). td_id d \<in> set level \<and> d \<in> set tasks \<and> map_get runs (td_id d) = Some r) \<and>
     (\<forall>i < length (ps_workers s). \<forall>d r. ps_workers s ! i = Trying d r \<longrightarrow>
        (d, r) \<in> set (take (ps_index s) (ps_batch s)) \<and>
        (\<forall>j < length (ps_workers s). \<forall>d' r'. ps_workers s ! j = Trying d' r' \<longrightarrow> td_id d' = td_id d \<longrightarrow> i = j)) \<and>
     (Ended \<in> set (ps_workers s) \<longrightarrow> length (ps_batch s) \<le> ps_index s)"

definition updates_ok :: "retry_policy \<Rightarrow> (string, task_run) jsmap \<Rightarrow> string set \<Rightarrow> parallel_state \<Rightarrow> bool" where
  "updates_ok p runs finished s \<longleftrightarrow>
     (\<forall>i \<in> finished. \<forall>run. map_get runs i = Some run \<longrightarrow> tried_once p run (map_get (ps_updated s) i)) \<and>
     (\<forall>i. i \<notin> finished \<longrightarrow> map_get (ps_updated s) i = map_get runs i)"

definition parallel_inv ::
    "parallel_options \<Rightarrow> task_definition list \<Rightarrow> (string, task_run) jsmap \<Rightarrow> string list list \<Rightarrow> string list list \<Rightarrow> parallel_state \<Rightarrow> bool" where
  "parallel_inv opts tasks runs levels begun s \<longleftrightarrow>
     levels = begun @ ps_levels s \<and>
     batch_ok tasks runs (if begun = [] then [] else last begun) s \<and>
     updates_ok (po_policy opts) runs (set (concat begun) - unfinished s) s \<and>
     (ps_workers s = [] \<longrightarrow> ps_batch s = []) \<and> int (length (ps_workers s)) \<le> po_maxConcurrency opts"

lemma batch_entry_Some:
  "batch_entry tasks m i = Some (d, r) \<Longrightarrow> td_id d = i \<and> d \<in> set tasks \<and> map_get m i = Some r"
  by (auto simp: batch_entry_def find_Some_iff split: option.splits)

lemma level_batch_entries:
  assumes "(d, r) \<in> set (level_batch tasks m level)"
  shows "td_id d \<in> set level \<and> d \<in> set tasks \<and> map_get m (td_id d) = Some r"
proof -
  obtain i where "i \<in> set level" "batch_entry tasks m i = Some (d, r)"
    using assms by (force simp: level_batch_def List.map_filter_def)
  then show ?thesis using batch_entry_Some by blast
qed

lemma level_batch_ids:
  assumes "set level \<subseteq> td_id ` set tasks"
  shows "map (\<lambda>x. td_id (fst x)) (level_batch tasks m level) = filter (\<lambda>i. map_get m i \<noteq> None) level"
proof -
  have entry: "(batch_entry tasks m i \<noteq> None) = (map_get m i \<noteq> None)" if "i \<in> set level" for i
  proof -
    have "List.find (\<lambda>t. td_id t = i) tasks \<noteq> None" using assms that by (auto simp: find_None_iff)
    then show ?thesis by (auto simp: batch_entry_def split: option.splits)
  qed
  have "td_id (fst (the (batch_entry tasks m i))) = i" if "batch_entry tasks m i \<noteq> None" for i
    using that batch_entry_Some by fastforce
  then show ?thesis using entry
    by (auto simp: level_batch_def List.map_filter_def comp_def cong: filter_cong intro!: map_idI)
qed

lemma trying_update_taking:
  assumes "i < length ws" and "ws ! i = Taking"
  shows "Trying d r \<in> set (ws[i := w]) \<longleftrightarrow> Trying d r \<in> set ws \<or> w = Trying d r"
proof -
  have "\<exists>j < length ws. j \<noteq> i \<and> ws ! j = Trying d r" if "Trying d r \<in> set ws"
    using that assms(2) by (metis in_set_conv_nth task_worker.distinct(1))
  then show ?thesis using assms
    by (auto simp: in_set_conv_nth nth_list_update) metis
qed

lemma trying_update_trying:
  "i < length ws \<Longrightarrow> Trying d r \<in> set (ws[i := Taking]) \<longleftrightarrow> (\<exists>j < length ws. j \<noteq> i \<and> ws ! j = Trying d r)"
  by (auto simp: in_set_conv_nth nth_list_update)

lemma unfinished_ended:
  assumes "workers_ended s" and "parallel_inv opts tasks runs levels begun s"
  shows "unfinished s = {}"
proof -
  have "drop (ps_index s) (ps_batch s) = []"
  proof (cases "ps_workers s")
    case Nil
    then show ?thesis using assms(2) by (simp add: parallel_inv_def)
  next
    case (Cons w ws)
    then have "Ended \<in> set (ps_workers s)" using assms(1) by (simp add: workers_ended_def)
    then show ?thesis using assms(2) by (simp add: parallel_inv_def batch_ok_def)
  qed
  then show ?thesis using assms(1) by (auto simp: unfinished_def workers_ended_def list_all_iff)
qed

lemma parallel_inv_level:
  assumes inv: "parallel_inv opts tasks runs levels begun s" and "workers_ended s" and l: "ps_levels s = level # rest"
    and "distinct (concat levels)" and "set (concat levels) \<subseteq> td_id ` set tasks" and "0 < po_maxConcurrency opts"
  shows "parallel_inv opts tasks runs levels (begun @ [level]) (runBatch opts tasks level (s\<lparr>ps_levels := rest\<rparr>))"
    (is "parallel_inv opts tasks runs levels ?begun ?s")
proof -
  let ?b = "level_batch tasks (ps_updated s) level"
  have levels: "levels = begun @ level # rest" using inv l by (simp add: parallel_inv_def)
  have f: "updates_ok (po_policy opts) runs (set (concat begun)) s"
    using inv unfinished_ended [OF assms(2) inv] by (simp add: parallel_inv_def)
  have fresh: "map_get (ps_updated s) i = map_get runs i" if "i \<in> set level" for i
  proof -
    have "i \<notin> set (concat begun)" using that assms(4) unfolding levels by auto
    then show ?thesis using f unfolding updates_ok_def by metis
  qed
  have ids: "map (\<lambda>x. td_id (fst x)) ?b = filter (\<lambda>i. map_get (ps_updated s) i \<noteq> None) level"
    using assms(5) unfolding levels by (intro level_batch_ids) simp
  have un: "unfinished ?s = {i \<in> set level. map_get runs i \<noteq> None}"
    using arg_cong [OF ids, of set] fresh by (auto simp: unfinished_def runBatch_def Let_def)
  have "batch_ok tasks runs level ?s"
    using level_batch_entries [of _ _ tasks "ps_updated s" level] fresh ids assms(4)
    by (fastforce simp: batch_ok_def runBatch_def Let_def levels)
  moreover have "updates_ok (po_policy opts) runs (set (concat ?begun) - unfinished ?s) ?s"
    using f fresh unfolding updates_ok_def un by (auto simp: runBatch_def Let_def)
  ultimately show ?thesis
    using levels assms(6) by (auto simp: parallel_inv_def runBatch_def Let_def min_def split: if_splits)
qed

lemma unfinished_take:
  assumes "i < length (ps_workers s)" and "ps_workers s ! i = Taking"
  shows "unfinished (take_task i s) = unfinished s"
proof (cases "ps_index s < length (ps_batch s)")
  case True
  obtain d r where dr: "ps_batch s ! ps_index s = (d, r)" by (cases "ps_batch s ! ps_index s")
  have "drop (ps_index s) (ps_batch s) = (d, r) # drop (Suc (ps_index s)) (ps_batch s)"
    using Cons_nth_drop_Suc [OF True] dr by simp
  then show ?thesis using True dr
    by (auto simp: unfinished_def take_task_def trying_update_taking [OF assms])
next
  case False
  then show ?thesis by (auto simp: unfinished_def take_task_def trying_update_taking [OF assms])
qed

lemma batch_ok_take:
  assumes "i < length (ps_workers s)" and "ps_workers s ! i = Taking" and ok: "batch_ok tasks runs level s"
  shows "batch_ok tasks runs level (take_task i s)"
proof (cases "ps_index s < length (ps_batch s)")
  case True
  obtain d r where dr: "ps_batch s ! ps_index s = (d, r)" by (cases "ps_batch s ! ps_index s")
  have tk: "take (Suc (ps_index s)) (ps_batch s) = take (ps_index s) (ps_batch s) @ [(d, r)]"
    using True dr by (simp add: take_Suc_conv_app_nth)
  have dist: "distinct (map (\<lambda>x. td_id (fst x)) (take (Suc (ps_index s)) (ps_batch s)))"
    using ok unfolding batch_ok_def take_map [symmetric] by (blast intro: distinct_take)
  then have new: "td_id d' \<noteq> td_id d" if "(d', r') \<in> set (take (ps_index s) (ps_batch s))" for d' r'
    using that unfolding tk by force
  have "Ended \<in> set ((ps_workers s)[i := Trying d r]) \<Longrightarrow> Ended \<in> set (ps_workers s)"
    by (auto dest!: set_update_subset_insert [THEN subsetD])
  moreover have "(d1, r1) \<in> set (take (Suc (ps_index s)) (ps_batch s)) \<and> (td_id d2 = td_id d1 \<longrightarrow> k = j)"
    if "j < length (ps_workers s)" "k < length (ps_workers s)"
      "(ps_workers s)[i := Trying d r] ! j = Trying d1 r1" "(ps_workers s)[i := Trying d r] ! k = Trying d2 r2"
    for j k d1 r1 d2 r2
  proof -
    have old: "(d', r') \<in> set (take (ps_index s) (ps_batch s))"
      if "h < length (ps_workers s)" "h \<noteq> i" "(ps_workers s)[i := Trying d r] ! h = Trying d' r'" for h d' r'
      using ok that unfolding batch_ok_def by simp
    have "j = k" if "j \<noteq> i" "k \<noteq> i" "td_id d2 = td_id d1"
      using ok that \<open>j < _\<close> \<open>k < _\<close> \<open>_ ! j = _\<close> \<open>_ ! k = _\<close> unfolding batch_ok_def by simp
    then show ?thesis
      using old [OF that(1) _ that(3)] old [OF that(2) _ that(4)] new that
      by (cases "j = i"; cases "k = i") (auto simp: tk dest: new)
  qed
  ultimately show ?thesis using ok True dr
    unfolding batch_ok_def take_task_def by (simp, blast)
next
  case False
  then show ?thesis using ok assms
    by (auto simp: batch_ok_def take_task_def nth_list_update)
qed

lemma parallel_inv_take:
  assumes "i < length (ps_workers s)" and "ps_workers s ! i = Taking" and "parallel_inv opts tasks runs levels begun s"
  shows "parallel_inv opts tasks runs levels begun (take_task i s)"
proof -
  have "ps_levels (take_task i s) = ps_levels s \<and> ps_updated (take_task i s) = ps_updated s \<and>
      ps_batch (take_task i s) = ps_batch s \<and> length (ps_workers (take_task i s)) = length (ps_workers s)"
    by (simp add: take_task_def split: prod.splits)
  then show ?thesis
    using assms batch_ok_take [OF assms(1,2)] unfinished_take [OF assms(1,2)]
    by (auto simp: parallel_inv_def updates_ok_def)
qed

lemma trying_is_unfinished:
  "i < length (ps_workers s) \<Longrightarrow> ps_workers s ! i = Trying d r \<Longrightarrow> td_id d \<in> unfinished s"
  using nth_mem by (fastforce simp: unfinished_def)

lemma tried_fields:
  "ps_levels (task_tried i d er n s) = ps_levels s" "ps_batch (task_tried i d er n s) = ps_batch s"
  "length (ps_workers (task_tried i d er n s)) = length (ps_workers s)"
  by (simp_all add: task_tried_def)

lemma unfinished_tried:
  assumes "i < length (ps_workers s)" and "ps_workers s ! i = Trying d r" and ok: "batch_ok tasks runs level s"
  shows "unfinished (task_tried i d er n s) = unfinished s - {td_id d}"
proof -
  have mem: "(d, r) \<in> set (take (ps_index s) (ps_batch s))"
    and alone: "\<And>j d' r'. j < length (ps_workers s) \<Longrightarrow> ps_workers s ! j = Trying d' r' \<Longrightarrow> td_id d' = td_id d \<Longrightarrow> j = i"
    using ok assms(1,2) unfolding batch_ok_def by blast+
  have "distinct (map (\<lambda>x. td_id (fst x)) (take (ps_index s) (ps_batch s)) @
      map (\<lambda>x. td_id (fst x)) (drop (ps_index s) (ps_batch s)))"
    using ok unfolding map_append [symmetric] append_take_drop_id by (simp add: batch_ok_def)
  moreover have "td_id d \<in> set (map (\<lambda>x. td_id (fst x)) (take (ps_index s) (ps_batch s)))"
    using mem by force
  ultimately have "td_id d \<notin> (\<lambda>x. td_id (fst x)) ` set (drop (ps_index s) (ps_batch s))"
    by (metis IntI distinct_append empty_iff set_map)
  moreover have "Trying d' r' \<in> set ((ps_workers s)[i := Taking]) \<longleftrightarrow>
      Trying d' r' \<in> set (ps_workers s) \<and> td_id d' \<noteq> td_id d" for d' r'
  proof -
    have "(\<exists>j < length (ps_workers s). j \<noteq> i \<and> ps_workers s ! j = Trying d' r') \<longleftrightarrow>
        (\<exists>j < length (ps_workers s). ps_workers s ! j = Trying d' r') \<and> td_id d' \<noteq> td_id d"
      using alone assms(2) by fastforce
    then show ?thesis
      by (simp only: trying_update_trying [OF assms(1)] in_set_conv_nth [where xs = "ps_workers s"])
  qed
  ultimately show ?thesis by (auto simp: unfinished_def task_tried_def)
qed

lemma parallel_inv_tried:
  assumes i: "i < length (ps_workers s)" "ps_workers s ! i = Trying d r"
    and "outcome_ok (po_policy opts) r er" and inv: "parallel_inv opts tasks runs levels begun s"
  shows "parallel_inv opts tasks runs levels begun (task_tried i d er n s)"
proof -
  define level where "level = (if begun = [] then [] else last begun)"
  have ok: "batch_ok tasks runs level s" using inv by (simp add: parallel_inv_def level_def)
  then have dr: "td_id d \<in> set level" "map_get runs (td_id d) = Some r"
    using i by (auto simp: batch_ok_def dest!: in_set_takeD)
  then have mem: "td_id d \<in> set (concat begun)" by (cases "begun = []") (auto simp: level_def)
  have "batch_ok tasks runs level (task_tried i d er n s)"
    using ok i(1) unfolding batch_ok_def task_tried_def
    by (auto simp: nth_list_update dest!: set_update_subset_insert [THEN subsetD])
  moreover have "updates_ok (po_policy opts) runs (set (concat begun) - (unfinished s - {td_id d})) (task_tried i d er n s)"
  proof -
    have "map_get (ps_updated (task_tried i d er n s)) j =
        (if j = td_id d then Some (er_task er) else map_get (ps_updated s) j)" for j
      by (simp add: task_tried_def)
    moreover have "updates_ok (po_policy opts) runs (set (concat begun) - unfinished s) s"
      using inv by (simp add: parallel_inv_def)
    ultimately show ?thesis
      using assms(3) dr(2) mem unfolding updates_ok_def tried_once_def by auto
  qed
  moreover have "levels = begun @ ps_levels s" "int (length (ps_workers s)) \<le> po_maxConcurrency opts"
    using inv by (simp_all add: parallel_inv_def)
  moreover have "ps_workers (task_tried i d er n s) \<noteq> []" using i(1) by (auto simp: task_tried_def)
  ultimately show ?thesis
    unfolding parallel_inv_def level_def unfinished_tried [OF i ok] by (simp add: tried_fields)
qed

lemma parallel_inv_step:
  assumes "parallel_step e sim opts tasks s s'" and "sim_modelled sim" and "parallel_inv opts tasks runs levels begun s"
    and "distinct (concat levels)" and "set (concat levels) \<subseteq> td_id ` set tasks" and "0 < po_maxConcurrency opts"
  shows "\<exists>begun'. parallel_inv opts tasks runs levels begun' s'"
  using assms(1)
proof (cases rule: parallel_step.cases)
  case (next_level level rest)
  then show ?thesis using parallel_inv_level [OF assms(3) next_level(2,3) assms(4-6)] by blast
next
  case (takes i)
  then show ?thesis using parallel_inv_take [OF takes(2,3) assms(3)] by blast
next
  case (tried i d run r ticks)
  have "outcome_ok (po_policy opts) run r"
    using executor_run_total [OF assms(2), of e run d "po_policy opts" "po_input opts" "ps_ticks s"] tried(4) by auto
  then show ?thesis using parallel_inv_tried [OF tried(2,3) _ assms(3)] tried(1) by blast
qed

text \<open>A state of a call that goes well, whichever levels have begun.\<close>

definition parallel_fine ::
    "simulator \<Rightarrow> parallel_options \<Rightarrow> task_definition list \<Rightarrow> (string, task_run) jsmap \<Rightarrow> string list list \<Rightarrow> parallel_state \<Rightarrow> bool" where
  "parallel_fine sim opts tasks runs levels s \<longleftrightarrow>
     sim_modelled sim \<and> 0 < po_maxConcurrency opts \<and> distinct (concat levels) \<and>
     set (concat levels) \<subseteq> td_id ` set tasks \<and> (\<exists>begun. parallel_inv opts tasks runs levels begun s)"

subsection \<open>It ends\<close>

fun task_weight :: "task_worker \<Rightarrow> nat" where
  "task_weight Ended = 0"
| "task_weight Taking = 1"
| "task_weight (Trying d r) = 2"

definition parallel_weight :: "parallel_state \<Rightarrow> nat" where
  "parallel_weight s = sum_list (map (\<lambda>l. 1 + 3 * length l) (ps_levels s)) +
     2 * (length (ps_batch s) - ps_index s) + sum_list (map task_weight (ps_workers s))"

lemma level_batch_length: "length (level_batch tasks m level) \<le> length level"
  by (simp add: level_batch_def List.map_filter_def)

lemma parallel_step_weight: "parallel_step e sim opts tasks s s' \<Longrightarrow> parallel_weight s' < parallel_weight s"
proof (induction rule: parallel_step.induct)
  case (next_level s level rest)
  have "sum_list (map task_weight (replicate n Taking)) = n" for n by (induction n) simp_all
  then show ?case using next_level(2) level_batch_length [of tasks "ps_updated s" level]
    by (simp add: parallel_weight_def runBatch_def Let_def)
next
  case (takes i s)
  show ?case
  proof (cases "ps_index s < length (ps_batch s)")
    case True
    obtain d r where "ps_batch s ! ps_index s = (d, r)" by (cases "ps_batch s ! ps_index s")
    then show ?thesis using True takes sum_update [OF takes(1), of task_weight "Trying d r"]
      by (simp add: parallel_weight_def take_task_def)
  next
    case False
    then show ?thesis using takes sum_update [OF takes(1), of task_weight Ended]
      by (simp add: parallel_weight_def take_task_def)
  qed
next
  case (tried i s d run r ticks)
  then show ?case using sum_update [OF tried(1), of task_weight Taking]
    by (simp add: parallel_weight_def task_tried_def)
qed

lemma parallel_progress:
  assumes "sim_modelled sim" and "\<not> parallel_returned s"
  shows "\<exists>s'. parallel_step e sim opts tasks s s'"
proof (cases "workers_ended s")
  case True
  then obtain level rest where "ps_levels s = level # rest"
    using assms(2) by (cases "ps_levels s") (auto simp: parallel_returned_def)
  with True show ?thesis by (auto intro: parallel_step.next_level)
next
  case False
  then obtain i where i: "i < length (ps_workers s)" "ps_workers s ! i \<noteq> Ended"
    by (auto simp: workers_ended_def list_all_length)
  show ?thesis
  proof (cases "ps_workers s ! i")
    case (Trying d r)
    obtain er n where "executor_run e sim r d (po_policy opts) (po_input opts) (ps_ticks s) = (Inr er, n)"
      using executor_run_total [OF assms(1)] by blast
    with i(1) Trying show ?thesis by (blast intro: parallel_step.tried)
  qed (use i in \<open>auto intro: parallel_step.takes\<close>)
qed

interpretation executor: ending_steps "parallel_step e sim opts tasks"
    "parallel_fine sim opts tasks runs levels" parallel_weight parallel_returned for e sim opts tasks runs levels
proof unfold_locales
  fix s s' assume "parallel_step e sim opts tasks s s'" and "parallel_fine sim opts tasks runs levels s"
  then show "parallel_fine sim opts tasks runs levels s'" unfolding parallel_fine_def using parallel_inv_step by blast
qed (use parallel_step_weight parallel_progress in \<open>auto simp: parallel_fine_def\<close>)

subsection \<open>What the parallel executor guarantees\<close>

lemma unfinished_in_level: "batch_ok tasks runs level s \<Longrightarrow> unfinished s \<subseteq> set level"
  by (force simp: batch_ok_def unfinished_def in_set_conv_nth [of "Trying _ _"] dest: in_set_takeD in_set_dropD)

text \<open>A task being tried: its run is untouched and every dependency has been tried once.\<close>

lemma trying_after_dependencies:
  assumes inv: "parallel_inv opts tasks runs levels begun s" and w: "Trying d r \<in> set (ps_workers s)"
    and "distinct (concat levels)"
    and ordered: "\<And>xs l ys t. levels = xs @ l # ys \<Longrightarrow> t \<in> set tasks \<Longrightarrow> td_id t \<in> set l \<Longrightarrow> set (td_deps t) \<subseteq> set (concat xs)"
  shows "map_get runs (td_id d) = Some r \<and>
    (\<forall>i \<in> set (td_deps d). \<forall>run. map_get runs i = Some run \<longrightarrow> tried_once (po_policy opts) run (map_get (ps_updated s) i))"
proof -
  define level where "level = (if begun = [] then [] else last begun)"
  have ok: "batch_ok tasks runs level s" using inv by (simp add: parallel_inv_def level_def)
  have "(d, r) \<in> set (ps_batch s)"
    using ok w unfolding batch_ok_def in_set_conv_nth [of "Trying d r"] by (metis in_set_takeD)
  then have d: "td_id d \<in> set level" "d \<in> set tasks" "map_get runs (td_id d) = Some r"
    using ok by (auto simp: batch_ok_def)
  then obtain xs where begun: "begun = xs @ [level]"
    by (cases begun rule: rev_cases) (auto simp: level_def)
  then have levels: "levels = xs @ level # ps_levels s" using inv by (simp add: parallel_inv_def)
  have "set (td_deps d) \<subseteq> set (concat xs)" using ordered [OF levels d(2,1)] .
  moreover have "set (concat xs) \<inter> unfinished s = {}"
    using unfinished_in_level [OF ok] assms(3) unfolding levels by auto
  ultimately have "set (td_deps d) \<subseteq> set (concat begun) - unfinished s" unfolding begun by auto
  then show ?thesis using inv d(3) unfolding parallel_inv_def updates_ok_def by blast
qed

text \<open>The call begins with the levels of the plan, all of them still to do.\<close>

lemma parallel_begins:
  assumes "well_formed_job def" and "\<And>t. t \<in> set (jd_tasks def) \<Longrightarrow> distinct (td_deps t)"
    and "sim_modelled sim" and "0 < po_maxConcurrency opts" and "executeLevel (jd_tasks def) runs ticks = Inr (Some s0)"
  obtains levels where "parallel_fine sim opts (jd_tasks def) runs levels s0" and "distinct (concat levels)"
    and "set (concat levels) = td_id ` set (jd_tasks def)"
    and "\<forall>xs l ys. levels = xs @ l # ys \<longrightarrow>
           (\<forall>t \<in> set (jd_tasks def). td_id t \<in> set l \<longrightarrow> set (td_deps t) \<subseteq> set (concat xs))"
    and "parallel_weight s0 = length (ps_levels s0) + 3 * length (jd_tasks def)"
proof -
  have ok: "tasks_ok (jd_tasks def)" and dist: "distinct (map td_id (jd_tasks def))"
    using assms(1) by (simp_all add: well_formed_job_def tasks_ok_def)
  obtain P where P: "plan (jd_tasks def) = Inr (Some P)"
    and s0: "s0 = \<lparr>ps_levels = plan_levels P, ps_batch = [], ps_index = 0, ps_workers = [], ps_updated = runs, ps_ticks = ticks\<rparr>"
    using assms(5) by (cases "plan (jd_tasks def)") (auto simp: executeLevel_def bind_r_def)
  note ordered = plan_ordered [OF P dist]
  have ids: "set (concat (plan_levels P)) = td_id ` set (jd_tasks def)" by (rule plan_complete [OF ok assms(2) P])
  have len: "length (concat (plan_levels P)) = length (jd_tasks def)"
    using ids ordered dist by (metis distinct_card length_map set_map)
  have "sum_list (map (\<lambda>l. 1 + 3 * length l) ls) = length ls + 3 * length (concat ls)" for ls :: "string list list"
    by (induction ls) simp_all
  then have weight: "parallel_weight s0 = length (ps_levels s0) + 3 * length (jd_tasks def)"
    using len by (simp add: parallel_weight_def s0)
  have "parallel_inv opts (jd_tasks def) runs (plan_levels P) [] s0"
    using assms(4) by (simp add: parallel_inv_def batch_ok_def updates_ok_def s0)
  then have "parallel_fine sim opts (jd_tasks def) runs (plan_levels P) s0"
    using assms(3,4) ordered ids by (auto simp: parallel_fine_def)
  from that [OF this conjunct1 [OF ordered] ids _ weight] show thesis using ordered by blast
qed

text \<open>When the call returns, every level is done.\<close>

lemma parallel_returned_tried:
  assumes "parallel_inv opts tasks runs levels begun s" and "parallel_returned s"
  shows "updates_ok (po_policy opts) runs (set (concat levels)) s"
proof -
  have "unfinished s = {}" "begun = levels"
    using assms(2) unfinished_ended [OF _ assms(1)] assms(1) by (simp_all add: parallel_returned_def parallel_inv_def)
  then show ?thesis using assms(1) by (simp add: parallel_inv_def)
qed


definition chain_runs :: "(string, task_run) jsmap" where
  "chain_runs = [(''a'', createTaskRun ''t1'' ''r'' ''a'' ''h''), (''b'', createTaskRun ''t2'' ''r'' ''b'' ''h'')]"


text \<open>With a concurrency of zero or less the call returns without having tried any task.\<close>

lemma no_workers_no_tasks:
  assumes "(parallel_step e sim opts tasks)\<^sup>*\<^sup>* s s'" and "po_maxConcurrency opts \<le> 0" and "ps_workers s = []"
  shows "ps_updated s' = ps_updated s \<and> ps_workers s' = []"
  using assms(1)
proof (induction rule: rtranclp_induct)
  case (step s1 s2)
  from step(2) show ?case
    by (cases rule: parallel_step.cases) (use step.IH assms(2) in \<open>auto simp: runBatch_def Let_def\<close>)
qed (simp add: assms(3))

end
