(* ===== verification/Security.thy ===== *)
theory Security
  imports Stores
begin

section \<open>API keys, rate limits and quotas\<close>

text \<open>
  security/api-key.ts, security/auth.ts, middleware/auth-hook.ts, middleware/rate-limit.ts,
  domain/tenant.ts and services/tenant-service.ts. The hash function, the random bytes of a key and
  the clock are parameters.
\<close>

subsection \<open>Keys\<close>

record api_key =
  ak_id :: string
  ak_tenantId :: string
  ak_prefix :: string
  ak_hash :: string
  ak_scopes :: "string list"
  ak_createdAt :: iso_date
  ak_revokedAt :: "iso_date option"

record generated_key =
  gk_raw :: string
  gk_prefix :: string
  gk_hash :: string

definition generateApiKey :: "(string \<Rightarrow> string) \<Rightarrow> string \<Rightarrow> generated_key" where
  "generateApiKey hashKey raw = \<lparr>gk_raw = raw, gk_prefix = take 8 raw, gk_hash = hashKey raw\<rparr>"

definition key_insert :: "api_key \<Rightarrow> api_key list \<Rightarrow> api_key list" where
  "key_insert rec keys = keys @ [rec]"

definition key_live :: "api_key \<Rightarrow> bool" where
  "key_live k \<longleftrightarrow> ak_revokedAt k = None \<or> ak_revokedAt k = Some []"

definition findByPrefix :: "string \<Rightarrow> api_key list \<Rightarrow> api_key option" where
  "findByPrefix prefix keys = List.find (\<lambda>k. ak_prefix k = prefix \<and> key_live k) keys"

definition authenticate ::
    "(string \<Rightarrow> string) \<Rightarrow> string option \<Rightarrow> api_key list \<Rightarrow> (string \<times> string list) res" where
  "authenticate hashKey header keys =
     (case header of
        None \<Rightarrow> Inl (JobflowError ''UNAUTHORIZED'' ''missing bearer token'')
      | Some h \<Rightarrow>
          if take 7 h \<noteq> ''Bearer '' then Inl (JobflowError ''UNAUTHORIZED'' ''missing bearer token'')
          else let raw = trim (drop 7 h); prefix = take 8 raw
               in case findByPrefix prefix keys of
                    None \<Rightarrow> Inl (JobflowError ''UNAUTHORIZED'' ''invalid api key'')
                  | Some found \<Rightarrow>
                      if ak_hash found \<noteq> hashKey raw
                      then Inl (JobflowError ''UNAUTHORIZED'' ''invalid api key'')
                      else Inr (ak_tenantId found, ak_scopes found))"

subsection \<open>The hook before every handler\<close>

definition PUBLIC_PATHS :: "string list" where
  "PUBLIC_PATHS = [''/health'', ''/metrics'', ''/openapi.json'']"

datatype hook_reply =
    Proceed "string option"
  | Reply nat string

definition auth_hook ::
    "(string \<Rightarrow> string) \<Rightarrow> string option \<Rightarrow> string \<Rightarrow> string option \<Rightarrow> api_key list \<Rightarrow> hook_reply" where
  "auth_hook hashKey authDisabled url authorization keys =
     (if hd (split_on (CHR ''?'') url) \<in> set PUBLIC_PATHS then Proceed None
      else if authDisabled = Some ''1'' then Proceed (Some ''tenant_dev'')
      else case authenticate hashKey authorization keys of
             Inr (tenantId, scopes) \<Rightarrow> Proceed (Some tenantId)
           | Inl e \<Rightarrow> Reply 401 ''unauthorized'')"

subsection \<open>The rate limiter\<close>

record bucket =
  bk_count :: nat
  bk_resetAt :: int

definition rate_hook :: "nat \<Rightarrow> string \<Rightarrow> int \<Rightarrow> (string, bucket) jsmap \<Rightarrow> bool \<times> (string, bucket) jsmap" where
  "rate_hook maxPerMinute key now buckets =
     (let fresh = \<lparr>bk_count = 0, bk_resetAt = now + 60000\<rparr>;
          bucket = (case map_get buckets key of
                      Some b \<Rightarrow> if now > bk_resetAt b then fresh else b
                    | None \<Rightarrow> fresh);
          bucket' = bucket\<lparr>bk_count := bk_count bucket + 1\<rparr>
      in (bk_count bucket' \<le> maxPerMinute, map_set key bucket' buckets))"

text \<open>The answers to a sequence of requests, each an address and the time of its arrival.\<close>

fun rate_run :: "nat \<Rightarrow> (string \<times> int) list \<Rightarrow> (string, bucket) jsmap \<Rightarrow> bool list" where
  "rate_run limit [] buckets = []"
| "rate_run limit ((key, now) # reqs) buckets =
     (case rate_hook limit key now buckets of (ok, buckets') \<Rightarrow> ok # rate_run limit reqs buckets')"

subsection \<open>Tenants and quotas\<close>

record tenant_quotas =
  tq_maxConcurrentRuns :: nat
  tq_maxJobs :: nat
  tq_maxWebhookEndpoints :: nat

record tenant_context =
  tc_tenantId :: string
  tc_environment :: string
  tc_quotas :: tenant_quotas

definition DEFAULT_QUOTAS :: tenant_quotas where
  "DEFAULT_QUOTAS = \<lparr>tq_maxConcurrentRuns = 50, tq_maxJobs = 200, tq_maxWebhookEndpoints = 10\<rparr>"

definition tenant_register ::
    "string \<Rightarrow> string \<Rightarrow> (string, tenant_context) jsmap \<Rightarrow> tenant_context \<times> (string, tenant_context) jsmap" where
  "tenant_register tenantId environment tenants =
     (let ctx = \<lparr>tc_tenantId = tenantId, tc_environment = environment, tc_quotas = DEFAULT_QUOTAS\<rparr>
      in (ctx, map_set tenantId ctx tenants))"

definition tenant_get :: "string \<Rightarrow> (string, tenant_context) jsmap \<Rightarrow> tenant_context option" where
  "tenant_get tenantId tenants = map_get tenants tenantId"

definition assertCanStartRun :: "string \<Rightarrow> (string, tenant_context) jsmap \<Rightarrow> run_store \<Rightarrow> unit res" where
  "assertCanStartRun tenantId tenants runs =
     (case map_get tenants tenantId of
        None \<Rightarrow> Inr ()
      | Some ctx \<Rightarrow>
          if length (run_store_listActive runs) \<ge> tq_maxConcurrentRuns (tc_quotas ctx)
          then Inl (JobflowError ''QUOTA_EXCEEDED'' ''max concurrent runs exceeded'')
          else Inr ())"

definition assertCanRegisterJob :: "string \<Rightarrow> (string, tenant_context) jsmap \<Rightarrow> job_store \<Rightarrow> unit res" where
  "assertCanRegisterJob tenantId tenants jobs =
     (case map_get tenants tenantId of
        None \<Rightarrow> Inr ()
      | Some ctx \<Rightarrow>
          if length (job_store_list jobs) \<ge> tq_maxJobs (tc_quotas ctx)
          then Inl (JobflowError ''QUOTA_EXCEEDED'' ''max jobs exceeded for tenant'')
          else Inr ())"

subsection \<open>The limit over any minute\<close>

definition in_minute :: "int \<Rightarrow> int \<Rightarrow> bool" where
  "in_minute a t \<longleftrightarrow> a \<le> t \<and> t \<le> a + 60000"

text \<open>The admitted requests of one address inside a minute.\<close>

fun admitted :: "nat \<Rightarrow> string \<Rightarrow> int \<Rightarrow> (string \<times> int) list \<Rightarrow> (string, bucket) jsmap \<Rightarrow> nat" where
  "admitted limit ip a [] buckets = 0"
| "admitted limit ip a ((key, now) # reqs) buckets =
     (case rate_hook limit key now buckets of (ok, buckets') \<Rightarrow>
        (if ok \<and> key = ip \<and> in_minute a now then 1 else 0) + admitted limit ip a reqs buckets')"

lemma admitted_eq:
  "admitted limit ip a reqs buckets =
     length (filter (\<lambda>((key, now), ok). ok \<and> key = ip \<and> in_minute a now) (zip reqs (rate_run limit reqs buckets)))"
  by (induction limit ip a reqs buckets rule: admitted.induct) (auto split: prod.splits)

text \<open>After the minute nothing counts.\<close>

lemma admitted_late:
  "\<forall>(k, t) \<in> set reqs. a + 60000 < t \<Longrightarrow> admitted limit ip a reqs buckets = 0"
  by (induction reqs arbitrary: buckets) (auto simp: in_minute_def split: prod.splits)

lemma other_bucket [simp]:
  "key \<noteq> ip \<Longrightarrow> map_get (snd (rate_hook limit key now buckets)) ip = map_get buckets ip"
  by (simp add: rate_hook_def Let_def)

lemma rate_hook_current:
  assumes "map_get buckets ip = Some b" and "now \<le> bk_resetAt b"
  shows "rate_hook limit ip now buckets =
    (bk_count b < limit, map_set ip (b\<lparr>bk_count := bk_count b + 1\<rparr>) buckets)"
  using assms by (simp add: rate_hook_def Let_def less_eq_Suc_le)

lemma rate_hook_fresh:
  assumes "\<And>b. map_get buckets ip = Some b \<Longrightarrow> bk_resetAt b < now"
  shows "rate_hook limit ip now buckets =
    (0 < limit, map_set ip \<lparr>bk_count = 1, bk_resetAt = now + 60000\<rparr> buckets)"
  using assms by (auto simp: rate_hook_def Let_def split: option.splits)

text \<open>A bucket that lasts to the end of the minute admits what is left of it.\<close>

lemma admitted_lasting:
  assumes "sorted (map snd reqs)" and "map_get buckets ip = Some b" and "a + 60000 \<le> bk_resetAt b"
  shows "admitted limit ip a reqs buckets \<le> limit - bk_count b"
  using assms
proof (induction reqs arbitrary: buckets b)
  case (Cons req reqs)
  obtain key now where req: "req = (key, now)" by (cases req)
  show ?case
  proof (cases "key = ip")
    case False
    then show ?thesis using Cons.IH [of "snd (rate_hook limit key now buckets)" b] Cons.prems req
      by (simp add: case_prod_unfold)
  next
    case True
    show ?thesis
    proof (cases "now \<le> bk_resetAt b")
      case c: True
      show ?thesis
        using Cons.IH [of "map_set ip (b\<lparr>bk_count := bk_count b + 1\<rparr>) buckets" "b\<lparr>bk_count := bk_count b + 1\<rparr>"]
          Cons.prems req True rate_hook_current [OF Cons.prems(2) c, of limit] by auto
    next
      case False
      then have "\<forall>(k, t) \<in> set (req # reqs). a + 60000 < t" using Cons.prems(1,3) req by force
      then show ?thesis using admitted_late [of "req # reqs" a limit ip buckets] by simp
    qed
  qed
qed simp

text \<open>A request after the bucket's end opens one that lasts to the end of any minute begun before it.\<close>

lemma admitted_fresh:
  assumes "sorted (now # map snd reqs)" and "\<And>b. map_get buckets ip = Some b \<Longrightarrow> bk_resetAt b < now" and "a \<le> now"
  shows "admitted limit ip a ((ip, now) # reqs) buckets \<le> limit"
proof -
  have "admitted limit ip a reqs (map_set ip \<lparr>bk_count = 1, bk_resetAt = now + 60000\<rparr> buckets) \<le> limit - 1"
    using admitted_lasting [of reqs _ ip "\<lparr>bk_count = 1, bk_resetAt = now + 60000\<rparr>" a limit] assms(1,3) by simp
  then show ?thesis using rate_hook_fresh [OF assms(2), where limit = limit] by (cases limit) auto
qed

text \<open>A bucket still open in the minute, and the one after it, admit their two rests.\<close>

lemma admitted_open:
  assumes "sorted (map snd reqs)" and "map_get buckets ip = Some b" and "a \<le> bk_resetAt b"
  shows "admitted limit ip a reqs buckets \<le> (limit - bk_count b) + limit"
  using assms
proof (induction reqs arbitrary: buckets b)
  case (Cons req reqs)
  obtain key now where req: "req = (key, now)" by (cases req)
  show ?case
  proof (cases "key = ip")
    case False
    then show ?thesis using Cons.IH [of "snd (rate_hook limit key now buckets)" b] Cons.prems req
      by (simp add: case_prod_unfold)
  next
    case True
    show ?thesis
    proof (cases "now \<le> bk_resetAt b")
      case c: True
      show ?thesis
        using Cons.IH [of "map_set ip (b\<lparr>bk_count := bk_count b + 1\<rparr>) buckets" "b\<lparr>bk_count := bk_count b + 1\<rparr>"]
          Cons.prems req True rate_hook_current [OF Cons.prems(2) c, of limit] by auto
    next
      case False
      then show ?thesis
        using admitted_fresh [of now reqs buckets ip a limit] Cons.prems req True by auto
    qed
  qed
qed simp

lemma admitted_bound:
  assumes "sorted (map snd reqs)"
  shows "admitted limit ip a reqs buckets \<le> 2 * limit"
  using assms
proof (induction reqs arbitrary: buckets)
  case (Cons req reqs)
  obtain key now where req: "req = (key, now)" by (cases req)
  consider (other) "key \<noteq> ip" | (current) b where "key = ip" "map_get buckets ip = Some b" "a \<le> bk_resetAt b"
    | (fresh) "key = ip" "a \<le> now" "\<And>b. map_get buckets ip = Some b \<Longrightarrow> bk_resetAt b < now"
    | (early) "key = ip" "now < a"
    by (meson linorder_not_le order_less_le_trans order_less_imp_le)
  then show ?case
  proof cases
    case other
    then show ?thesis using Cons.IH [of "snd (rate_hook limit key now buckets)"] Cons.prems req
      by (simp add: case_prod_unfold)
  next
    case (current b)
    then show ?thesis using admitted_open [OF Cons.prems current(2,3), of limit] by simp
  next
    case fresh
    then show ?thesis using admitted_fresh [of now reqs buckets ip a limit] Cons.prems req by simp
  next
    case early
    then show ?thesis using Cons.IH [of "snd (rate_hook limit key now buckets)"] Cons.prems req
      by (simp add: case_prod_unfold in_minute_def)
  qed
qed simp

lemma rate_window_count:
  assumes "sorted (map snd reqs)" and "\<forall>(k, t) \<in> set reqs. k = ip \<longrightarrow> t \<le> bk_resetAt b"
    and "map_get buckets ip = Some b"
  shows "filter (\<lambda>((k, t), ok). k = ip) (zip reqs (rate_run limit reqs buckets)) =
    zip (filter (\<lambda>(k, t). k = ip) reqs)
      (map (\<lambda>n. n < limit) [bk_count b..<bk_count b + length (filter (\<lambda>(k, t). k = ip) reqs)])"
  using assms
proof (induction reqs arbitrary: buckets b)
  case (Cons req reqs)
  obtain key now where req: "req = (key, now)" by (cases req)
  show ?case
  proof (cases "key = ip")
    case False
    then show ?thesis using Cons.IH [of b "snd (rate_hook limit key now buckets)"] Cons.prems req
      by (simp add: case_prod_unfold)
  next
    case True
    then show ?thesis
      using Cons.IH [of "b\<lparr>bk_count := bk_count b + 1\<rparr>" "map_set ip (b\<lparr>bk_count := bk_count b + 1\<rparr>) buckets"]
        Cons.prems req rate_hook_current [OF Cons.prems(3), of now limit]
      by (simp add: upt_conv_Cons del: upt_Suc)
  qed
qed simp

text \<open>
  C31. The limit holds over any minute: however requests arrive, at most twice \<^verbatim>\<open>maxPerMinute\<close> of one
  address are admitted within any sixty seconds (two adjacent windows can share them), whatever the
  other addresses do; and in the minute after a window opened, exactly the first \<^verbatim>\<open>maxPerMinute\<close>
  requests of the address are admitted, in order of arrival.
\<close>

theorem rate_limit_holds:
  assumes "sorted (map snd reqs)"
  shows "length (filter (\<lambda>((key, now), ok). ok \<and> key = ip \<and> in_minute a now) (zip reqs (rate_run limit reqs buckets)))
      \<le> 2 * limit \<and>
    (\<forall>b. map_get buckets ip = Some b \<and> (\<forall>(k, t) \<in> set reqs. k = ip \<longrightarrow> t \<le> bk_resetAt b) \<longrightarrow>
      filter (\<lambda>((k, t), ok). k = ip) (zip reqs (rate_run limit reqs buckets)) =
        zip (filter (\<lambda>(k, t). k = ip) reqs)
          (map (\<lambda>n. n < limit) [bk_count b..<bk_count b + length (filter (\<lambda>(k, t). k = ip) reqs)]))"
  using admitted_bound [OF assms] rate_window_count [OF assms] by (simp add: admitted_eq)

definition burst :: "(string \<times> int) list" where
  "burst = [(''ip'', 0), (''ip'', 60000), (''ip'', 60000), (''ip'', 60001), (''ip'', 60001), (''ip'', 60001)]"

text \<open>Twice the limit less one is reached: two bursts around the end of a window.\<close>

lemma burst_admitted: "rate_run 2 burst [] = [True, True, False, True, True, False]"
  by (simp add: burst_def rate_hook_def Let_def)

definition two_requests :: "(string \<times> int) list" where
  "two_requests = [(''ip'', 5), (''ip'', 6)]"

lemma rate_limit_holds_witness:
  "length (filter (\<lambda>((key, now), ok). ok \<and> key = ''ip'' \<and> in_minute 1 now) (zip burst (rate_run 2 burst []))) \<le> 4 \<and>
   filter (\<lambda>((k, t), ok). k = ''ip'')
     (zip two_requests (rate_run 2 two_requests [(''ip'', \<lparr>bk_count = 1, bk_resetAt = 60000\<rparr>)])) =
     [((''ip'', 5), True), ((''ip'', 6), False)]"
proof
  have "sorted (map snd burst)" by (simp add: burst_def)
  from rate_limit_holds [OF this, of "''ip''" 1 2 "[]"]
  show "length (filter (\<lambda>((key, now), ok). ok \<and> key = ''ip'' \<and> in_minute 1 now) (zip burst (rate_run 2 burst []))) \<le> 4"
    by simp
  have "sorted (map snd two_requests)" "\<forall>(k, t) \<in> set two_requests. k = ''ip'' \<longrightarrow> t \<le> 60000"
    "zip (filter (\<lambda>(k, t). k = ''ip'') two_requests)
       (map (\<lambda>n. n < 2) [1..<1 + length (filter (\<lambda>(k, t). k = ''ip'') two_requests)]) =
     [((''ip'', 5), True), ((''ip'', 6), False)]"
    by (simp_all add: two_requests_def upt_rec)
  with rate_limit_holds [of two_requests "''ip''" 1 2 "[(''ip'', \<lparr>bk_count = 1, bk_resetAt = 60000\<rparr>)]"]
  show "filter (\<lambda>((k, t), ok). k = ''ip'')
     (zip two_requests (rate_run 2 two_requests [(''ip'', \<lparr>bk_count = 1, bk_resetAt = 60000\<rparr>)])) =
     [((''ip'', 5), True), ((''ip'', 6), False)]" by simp
qed

subsection \<open>Who is let in\<close>

text \<open>An issued key: what the caller holds and what the store keeps of it.\<close>

record issued_key =
  ik_raw :: string
  ik_tenantId :: string
  ik_scopes :: "string list"
  ik_revokedAt :: "iso_date option"

definition stored_key :: "(string \<Rightarrow> string) \<Rightarrow> issued_key \<Rightarrow> api_key" where
  "stored_key hashKey i =
     (let g = generateApiKey hashKey (ik_raw i)
      in \<lparr>ak_id = ik_raw i, ak_tenantId = ik_tenantId i, ak_prefix = gk_prefix g, ak_hash = gk_hash g,
          ak_scopes = ik_scopes i, ak_createdAt = [], ak_revokedAt = ik_revokedAt i\<rparr>)"

definition issued_live :: "issued_key \<Rightarrow> bool" where
  "issued_live i \<longleftrightarrow> ik_revokedAt i = None \<or> ik_revokedAt i = Some []"

lemma trim_id: "\<forall>c \<in> set s. \<not> is_ws c \<Longrightarrow> trim s = s"
proof -
  assume s: "\<forall>c \<in> set s. \<not> is_ws c"
  have "dropWhile is_ws t = t" if "set t = set s" for t
    using that s by (cases t) auto
  from this [of s] this [of "rev s"] show ?thesis by (simp add: trim_def)
qed


definition plain_hash :: "string \<Rightarrow> string" where
  "plain_hash raw = rev raw"

definition shadowed_keys :: "issued_key list" where
  "shadowed_keys =
     [\<lparr>ik_raw = ''abcdefgh1'', ik_tenantId = ''t1'', ik_scopes = [], ik_revokedAt = None\<rparr>,
      \<lparr>ik_raw = ''abcdefgh2'', ik_tenantId = ''t2'', ik_scopes = [], ik_revokedAt = None\<rparr>]"


subsection \<open>Quotas are not per tenant\<close>

text \<open>The runs of all tenants count, and a tenant that was never registered has no quota.\<close>

lemma run_quota_is_global:
  "assertCanStartRun t (snd (tenant_register t env tenants)) runs = Inr () \<longleftrightarrow> length (run_store_listActive runs) < 50"
  by (simp add: assertCanStartRun_def tenant_register_def Let_def DEFAULT_QUOTAS_def)

lemma unregistered_tenant_unlimited:
  "tenant_get t tenants = None \<Longrightarrow> assertCanStartRun t tenants runs = Inr () \<and> assertCanRegisterJob t tenants jobs = Inr ()"
  by (simp add: tenant_get_def assertCanStartRun_def assertCanRegisterJob_def)

end
