(* ===== verification/Exposition.thy ===== *)
theory Exposition
  imports Metrics
begin

section \<open>Snapshots of the registry and the Prometheus text\<close>

text \<open>
  metrics/types.ts, metrics/prometheus.ts and the reading half of metrics/registry.ts. The registry
  packs a metric's name and labels into one key string and takes it apart again for a snapshot.
\<close>

subsection \<open>Reading keys back\<close>

type_synonym labels = "(string, string) jsmap"

record counter_metric =
  cm_name :: string
  cm_labels :: labels
  cm_value :: int

record histogram_metric =
  hm_name :: string
  hm_labels :: labels
  hm_sum :: int
  hm_count :: nat
  hm_buckets :: "(int \<times> nat) list"

definition add_label :: "string \<Rightarrow> labels \<Rightarrow> labels" where
  "add_label part labels =
     (case split_on (CHR ''='') part of
        k # v # others \<Rightarrow> if k \<noteq> [] \<and> v \<noteq> [] then map_set k v labels else labels
      | _ \<Rightarrow> labels)"

definition parseKey :: "string \<Rightarrow> string \<times> labels" where
  "parseKey key =
     (case split_on (CHR ''|'') key of
        [] \<Rightarrow> (key, [])
      | [name] \<Rightarrow> (name, [])
      | name # labelStr # others \<Rightarrow>
          (name, if labelStr = [] then [] else fold add_label (split_on (CHR '','') labelStr) []))"

definition snapshot_counters :: "metrics \<Rightarrow> counter_metric list" where
  "snapshot_counters m =
     map (\<lambda>(key, v). case parseKey key of (name, labels) \<Rightarrow>
            \<lparr>cm_name = name, cm_labels = labels, cm_value = v\<rparr>) (mt_counters m)"

definition snapshot_histograms :: "metrics \<Rightarrow> histogram_metric list" where
  "snapshot_histograms m =
     map (\<lambda>(key, h). case parseKey key of (name, labels) \<Rightarrow>
            \<lparr>hm_name = name, hm_labels = labels, hm_sum = hg_sum h, hm_count = hg_count h,
             hm_buckets = zip bucket_bounds (hg_buckets h)\<rparr>) (mt_histograms m)"

subsection \<open>The text\<close>

definition replace_char :: "char \<Rightarrow> string \<Rightarrow> string \<Rightarrow> string" where
  "replace_char c r s = concat (map (\<lambda>x. if x = c then r else [x]) s)"

abbreviation backslash :: char where
  "backslash \<equiv> CHR 0x5C"

abbreviation dquote :: char where
  "dquote \<equiv> CHR 0x22"

definition escapeLabel :: "string \<Rightarrow> string" where
  "escapeLabel v =
     replace_char (CHR 0x0A) [backslash, CHR ''n'']
       (replace_char dquote [backslash, dquote] (replace_char backslash [backslash, backslash] v))"

definition formatLabels :: "labels \<Rightarrow> string" where
  "formatLabels labels =
     (if labels = [] then []
      else ''{'' @ join '','' (map (\<lambda>(k, v). k @ ''='' @ [dquote] @ escapeLabel v @ [dquote]) labels) @ ''}'')"

definition counter_lines :: "counter_metric \<Rightarrow> string list" where
  "counter_lines c =
     [''# TYPE '' @ cm_name c @ '' counter'',
      cm_name c @ formatLabels (cm_labels c) @ '' '' @ show_int (cm_value c)]"

fun bucket_lines :: "string \<Rightarrow> labels \<Rightarrow> nat \<Rightarrow> (int \<times> nat) list \<Rightarrow> string list" where
  "bucket_lines base labels cumulative [] = []"
| "bucket_lines base labels cumulative ((le, n) # bs) =
     (base @ ''_bucket'' @ formatLabels (map_set ''le'' (show_int le) labels) @ '' '' @ show_nat (cumulative + n)) #
     bucket_lines base labels (cumulative + n) bs"

definition histogram_lines :: "histogram_metric \<Rightarrow> string list" where
  "histogram_lines h =
     bucket_lines (hm_name h) (hm_labels h) 0 (hm_buckets h) @
     [hm_name h @ ''_sum'' @ formatLabels (hm_labels h) @ '' '' @ show_int (hm_sum h),
      hm_name h @ ''_count'' @ formatLabels (hm_labels h) @ '' '' @ show_nat (hm_count h)]"

definition formatPrometheus :: "metrics \<Rightarrow> string" where
  "formatPrometheus m =
     join [CHR 0x0A] (concat (map counter_lines (snapshot_counters m)) @
        concat (map histogram_lines (snapshot_histograms m))) @ [CHR 0x0A]"

subsection \<open>A key is read back when its parts are free of the separators\<close>

lemma split_on_fresh: "c \<notin> set s \<Longrightarrow> split_on c s = [s]"
  by (induction s) auto

lemma split_on_append: "c \<notin> set s \<Longrightarrow> split_on c (s @ c # t) = s # split_on c t"
  by (induction s) auto

lemma parseKey_metric_key:
  assumes "CHR ''|'' \<notin> set name" and "k \<noteq> []" and "v \<noteq> []"
    and "set (k @ v) \<inter> {CHR ''|'', CHR '','', CHR ''=''} = {}"
  shows "parseKey (metric_key name (Some (k, v))) = (name, [(k, v)])" and "parseKey (metric_key name None) = (name, [])"
proof -
  have c: "CHR ''|'' \<notin> set (k @ ''='' @ v)" "CHR '','' \<notin> set (k @ ''='' @ v)" "CHR ''='' \<notin> set k" "CHR ''='' \<notin> set v"
    using assms(4) by auto
  have "split_on (CHR ''|'') (name @ CHR ''|'' # k @ ''='' @ v) = [name, k @ ''='' @ v]"
    by (simp only: split_on_append [OF assms(1)] split_on_fresh [OF c(1)])
  moreover have "split_on (CHR '','') (k @ ''='' @ v) = [k @ ''='' @ v]" by (rule split_on_fresh [OF c(2)])
  moreover have "split_on (CHR ''='') (k @ CHR ''='' # v) = [k, v]"
    by (simp only: split_on_append [OF c(3)] split_on_fresh [OF c(4)])
  ultimately show "parseKey (metric_key name (Some (k, v))) = (name, [(k, v)])"
    using assms(2,3) by (simp add: parseKey_def metric_key_def add_label_def)
  show "parseKey (metric_key name None) = (name, [])"
    using split_on_append [OF assms(1), of "[]"] by (simp add: parseKey_def metric_key_def)
qed

text \<open>Otherwise the label is cut short or lost: a job id is free text.\<close>

lemma parseKey_cuts_labels:
  "parseKey (metric_key ''jobflow_runs_started_total'' (Some (''job_id'', ''a,b''))) = (''jobflow_runs_started_total'', [(''job_id'', ''a'')])"
  "parseKey (metric_key ''jobflow_runs_started_total'' (Some (''job_id'', ''a=b''))) = (''jobflow_runs_started_total'', [(''job_id'', ''a'')])"
  "parseKey (metric_key ''jobflow_runs_started_total'' (Some (''job_id'', ''|''))) = (''jobflow_runs_started_total'', [])"
  by code_simp+

subsection \<open>Escaped values read back\<close>

fun read_label_value :: "string \<Rightarrow> string \<times> string" where
  "read_label_value [] = ([], [])"
| "read_label_value (c # cs) =
     (if c = dquote then ([], cs)
      else if c = backslash
      then case cs of
             d # ds \<Rightarrow> (case read_label_value ds of (v, rest) \<Rightarrow> ((if d = CHR ''n'' then CHR 0x0A else d) # v, rest))
           | [] \<Rightarrow> ([], [])
      else (case read_label_value cs of (v, rest) \<Rightarrow> (c # v, rest)))"

definition escape_char :: "char \<Rightarrow> string" where
  "escape_char c =
     (if c = backslash then [backslash, backslash] else if c = dquote then [backslash, dquote]
      else if c = CHR 0x0A then [backslash, CHR ''n''] else [c])"

lemma escapeLabel_chars: "escapeLabel v = concat (map escape_char v)"
  by (induction v) (simp_all add: escapeLabel_def replace_char_def escape_char_def)

lemma read_escaped: "read_label_value (escapeLabel v @ dquote # rest) = (v, rest)"
  unfolding escapeLabel_chars by (induction v) (simp_all add: escape_char_def)

fun read_labels :: "nat \<Rightarrow> string \<Rightarrow> labels \<times> string" where
  "read_labels 0 s = ([], s)"
| "read_labels (Suc n) s =
     (let k = takeWhile (\<lambda>c. c \<noteq> CHR ''='') s
      in case read_label_value (drop (length k + 2) s) of
           (v, c # rest) \<Rightarrow>
             if c = CHR '','' then (case read_labels n rest of (ls, t) \<Rightarrow> ((k, v) # ls, t)) else ([(k, v)], rest)
         | (v, []) \<Rightarrow> ([(k, v)], []))"

text \<open>
  Labels read back: whatever the values of a label set are (quotes, backslashes, line breaks and
  commas included), a reader of the exposition format gets from \<^verbatim>\<open>formatLabels\<close> the same
  names and values in the same order, and the text that follows.
\<close>

lemma labels_round_trip:
  assumes "labels \<noteq> []" and "\<forall>(k, v) \<in> set labels. CHR ''='' \<notin> set k" and "length labels \<le> n"
  shows "read_labels n (tl (formatLabels labels) @ rest) = (labels, rest)"
proof -
  let ?item = "\<lambda>(k, v). k @ ''='' @ [dquote] @ escapeLabel v @ [dquote]"
  have "read_labels n (join '','' (map ?item labels) @ ''}'' @ rest) = (labels, rest)"
    using assms
  proof (induction labels arbitrary: n)
    case (Cons kv labels)
    obtain k v where kv: "kv = (k, v)" by (cases kv)
    obtain m where n: "n = Suc m" using Cons.prems(3) by (cases n) auto
    have tw: "takeWhile (\<lambda>c. c \<noteq> CHR ''='') (k @ CHR ''='' # t) = k" for t
      using Cons.prems(2) kv by (subst takeWhile_append2) auto
    show ?case
    proof (cases labels)
      case Nil
      then show ?thesis by (simp add: n kv tw read_escaped Let_def)
    next
      case (Cons l ls)
      then have "read_labels m (join '','' (map ?item labels) @ ''}'' @ rest) = (labels, rest)"
        using Cons.IH Cons.prems n by simp
      with Cons show ?thesis by (simp add: n kv tw read_escaped Let_def)
    qed
  qed simp
  then show ?thesis using assms(1) by (simp add: formatLabels_def)
qed

subsection \<open>The buckets are summed up twice\<close>

lemma bucket_lines_values:
  "bucket_lines base labels c bs =
     map (\<lambda>i. base @ ''_bucket'' @ formatLabels (map_set ''le'' (show_int (fst (bs ! i))) labels) @ '' '' @
            show_nat (c + sum_list (map snd (take (Suc i) bs)))) [0..<length bs]"
proof (induction bs arbitrary: c)
  case (Cons b bs)
  then show ?case by (cases b) (simp add: upt_conv_Cons map_Suc_upt [symmetric] add.assoc del: upt_Suc)
qed simp

text \<open>
  The registry's buckets already count every value up to their bound and the text sums them once
  more: after \<open>n\<close> observations of at most ten milliseconds the line of the last bucket says \<open>5 * n\<close>,
  the line of the count \<open>n\<close>.
\<close>

lemma buckets_overcount:
  assumes "\<forall>v \<in> set vs. v \<le> 10"
  shows "histogram_lines \<lparr>hm_name = name, hm_labels = labels, hm_sum = sum_list vs, hm_count = length vs,
      hm_buckets = zip bucket_bounds (hg_buckets (histogram_of vs))\<rparr> ! 4 =
    name @ ''_bucket'' @ formatLabels (map_set ''le'' ''1000'' labels) @ '' '' @ show_nat (5 * length vs)"
proof -
  have "length (filter (\<lambda>v. v \<le> b) vs) = length vs" if "10 \<le> b" for b :: int
    using assms that by (force simp: filter_id_conv intro: arg_cong [of _ _ length])
  moreover have "show_int 1000 = ''1000''" by code_simp
  ultimately show ?thesis
    by (simp add: histogram_lines_def histogram_of_def bucket_bounds_def) (rule arg_cong [of _ _ show_nat], simp)
qed

end
