(* ===== verification/Implementations.thy ===== *)
theory Implementations
  imports Runs Dates
begin

section \<open>The built-in handlers\<close>

text \<open>
  handlers/implementations/*.ts: the nine handlers and their registry, and the \<open>impls\<close> of an
  environment that has them. Allocated arrays and objects get fresh addresses; random numbers and the
  clock come from the environment.
\<close>

subsection \<open>Reading loosely typed values\<close>

definition ok_result :: "jsobj \<Rightarrow> (string \<times> jsnum) list option \<Rightarrow> handler_result" where
  "ok_result output metrics = \<lparr>hr_success = True, hr_output = output, hr_metrics = metrics\<rparr>"

definition fail_result :: "string \<Rightarrow> handler_result" where
  "fail_result message = \<lparr>hr_success = False, hr_output = [(''error'', VStr message)], hr_metrics = None\<rparr>"

text \<open>\<^verbatim>\<open>String(o.key ?? fallback)\<close> and \<^verbatim>\<open>Number(o.key ?? fallback)\<close>\<close>

definition string_field :: "jsobj \<Rightarrow> string \<Rightarrow> string \<Rightarrow> string res" where
  "string_field ob key fallback =
     bind_r (obj_get ob key) (\<lambda>v. to_string (obj_or v (VStr fallback)))"

definition number_field :: "jsobj \<Rightarrow> string \<Rightarrow> jsnum \<Rightarrow> jsnum res" where
  "number_field ob key fallback =
     bind_r (obj_get ob key) (\<lambda>v. to_number (obj_or v (VNum fallback)))"

text \<open>
  \<^verbatim>\<open>r.p\<close> for the row fields the handlers read, none of which a built-in prototype has.
\<close>

definition row_get :: "jsval \<Rightarrow> string \<Rightarrow> jsval res" where
  "row_get r p =
     (case r of
        VObj a fs \<Rightarrow> obj_get fs p
      | VArr a xs \<Rightarrow> arr_get xs p
      | VUndef \<Rightarrow> Inl (JsTypeError (''Cannot read properties of undefined (reading '' @ [CHR 0x27] @ p @ [CHR 0x27] @ '')''))
      | VNull \<Rightarrow> Inl (JsTypeError (''Cannot read properties of null (reading '' @ [CHR 0x27] @ p @ [CHR 0x27] @ '')''))
      | _ \<Rightarrow> Inr VUndef)"

text \<open>\<^verbatim>\<open>...r\<close> in an object literal\<close>

definition spread :: "jsval \<Rightarrow> jsobj" where
  "spread r =
     (case r of
        VObj a fs \<Rightarrow> fs
      | VArr a xs \<Rightarrow> map (\<lambda>i. (show_nat i, xs ! i)) [0..<length xs]
      | VStr s \<Rightarrow> map (\<lambda>i. (show_nat i, VStr [s ! i])) [0..<length s]
      | _ \<Rightarrow> [])"

text \<open>\<^verbatim>\<open>(v as T[]) ?? []\<close> followed by \<^verbatim>\<open>.map\<close>: what is no array has no such method.\<close>

definition mappable :: "jsval \<Rightarrow> jsval list res" where
  "mappable v =
     (case v of
        VArr a xs \<Rightarrow> Inr xs
      | VUndef \<Rightarrow> Inr []
      | VNull \<Rightarrow> Inr []
      | _ \<Rightarrow> Inl (JsTypeError ''map is not a function''))"

fun each :: "('a \<Rightarrow> 'b eff) \<Rightarrow> 'a list \<Rightarrow> 'b list eff" where
  "each f [] = ret []"
| "each f (x # xs) = bind_a (f x) (\<lambda>y. bind_a (each f xs) (\<lambda>ys. ret (y # ys)))"

definition fresh :: "addr eff" where
  "fresh = read_env Fresh"

definition new_arr :: "jsval list \<Rightarrow> jsval eff" where
  "new_arr xs = bind_a fresh (\<lambda>a. ret (VArr a xs))"

definition new_obj :: "jsobj \<Rightarrow> jsval eff" where
  "new_obj fs = bind_a fresh (\<lambda>a. ret (VObj a fs))"

definition num_nat :: "nat \<Rightarrow> jsval" where
  "num_nat n = VNum (to_double (of_nat n))"

text \<open>\<^verbatim>\<open>Math.round\<close> and \<^verbatim>\<open>Math.abs\<close>\<close>

definition math_round :: "jsnum \<Rightarrow> jsnum" where
  "math_round n =
     (case n of
        Fin r \<Rightarrow> if r < 0 \<and> - (1 / 2) \<le> r then NZero else Fin (of_int \<lfloor>r + 1 / 2\<rfloor>)
      | _ \<Rightarrow> n)"

definition math_abs :: "jsnum \<Rightarrow> jsnum" where
  "math_abs n = (if num_is_neg n then num_neg n else n)"

text \<open>
  The rounds of \<^verbatim>\<open>for (let i = 0; i < count; i++)\<close>; a loop of \<open>2\<^sup>32\<close> pushes or more is not followed.
\<close>

definition rounds :: "jsnum \<Rightarrow> nat res" where
  "rounds bound =
     (case bound of
        Fin r \<Rightarrow> if r < 2 ^ 32 then Inr (nat \<lceil>r\<rceil>) else Inl (Unmodelled ''unbounded loop'')
      | PInf \<Rightarrow> Inl (Unmodelled ''unbounded loop'')
      | _ \<Rightarrow> Inr 0)"

type_synonym handler = "handler_context \<Rightarrow> task_definition \<Rightarrow> handler_result eff"

definition prior :: "handler_context \<Rightarrow> string \<Rightarrow> jsobj option" where
  "prior ctx name = map_of (hc_priorOutputs ctx) name"

subsection \<open>Invoices\<close>

definition invoice_row :: "env \<Rightarrow> string \<Rightarrow> nat \<Rightarrow> jsval eff" where
  "invoice_row e tenantId i =
     bind_a (read_env (rand e)) (\<lambda>r.
     new_obj
       [(''invoiceNumber'', VStr (''INV-'' @ tenantId @ ''-'' @ show_nat (1000 + i))),
        (''amount'', VNum (num_div (math_round (num_mul (num_add (num_mul r (Fin 5000)) (Fin 100)) (Fin 100))) (Fin 100))),
        (''currency'', VStr (if i mod 5 = 0 then ''EUR'' else ''USD''))])"

definition invoice_fetch :: "env \<Rightarrow> handler" where
  "invoice_fetch e ctx task =
     bind_a (lift_r (string_field (hc_input ctx) ''tenantId'' ''unknown'')) (\<lambda>tenantId.
     bind_a (read_env (date_now e)) (\<lambda>ms.
     bind_a (lift_r (number_field (hc_input ctx) ''expectedRows'' (Fin 50))) (\<lambda>bound.
     bind_a (lift_r (rounds bound)) (\<lambda>n.
     bind_a (each (invoice_row e tenantId) [0..<n]) (\<lambda>rows.
     bind_a (new_arr rows) (\<lambda>records.
     bind_a (read_env (clk e)) (\<lambda>now.
     ret (ok_result
       [(''batchId'', VStr (''batch_'' @ show_int ms)), (''recordCount'', num_nat (length rows)),
        (''records'', records), (''fetchedAt'', VStr now)]
       (Some [(''rows'', to_double (of_nat (length rows))), (''latency_simulated_ms'', Fin 120)])))))))))"

definition normalize_row :: "jsval \<Rightarrow> jsobj eff" where
  "normalize_row r =
     bind_a (lift_r (row_get r ''amount'')) (\<lambda>amount.
     bind_a (lift_r (to_number (obj_or amount (VNum (Fin 0))))) (\<lambda>n.
     ret (map_set ''taxCode'' (VStr (if num_lt (Fin 1000) n then ''STANDARD'' else ''EXEMPT''))
           (map_set ''normalized'' (VBool True)
             (map_set ''amount'' (VNum (math_abs n)) (spread r))))))"

definition invoice_normalize :: "env \<Rightarrow> handler" where
  "invoice_normalize e ctx task =
     (let source = (case prior ctx ''pull'' of
                      Some ob \<Rightarrow> ob
                    | None \<Rightarrow> case prior ctx ''fetch'' of Some ob \<Rightarrow> ob | None \<Rightarrow> hc_input ctx)
      in bind_a (lift_r (obj_get source ''records'')) (\<lambda>v.
         bind_a (lift_r (mappable v)) (\<lambda>records.
         bind_a (each normalize_row records) (\<lambda>normalized.
         bind_a (each (\<lambda>r. lift_r (obj_get r ''invoiceNumber'')) normalized) (\<lambda>numbers.
         let invalid = filter (\<lambda>v. \<not> to_boolean v) numbers
         in if invalid \<noteq> []
            then ret (fail_result (show_nat (length invalid) @ '' rows missing invoice number''))
            else bind_a (each new_obj normalized) (\<lambda>rows.
                 bind_a (new_arr rows) (\<lambda>arr.
                 ret (ok_result [(''normalized'', arr), (''lineCount'', num_nat (length rows))] None))))))))"

definition journal_entry :: "string \<Rightarrow> string \<Rightarrow> nat \<times> jsval \<Rightarrow> (jsnum \<times> jsobj) eff" where
  "journal_entry runId glAccount p =
     (case p of (idx, row) \<Rightarrow>
        bind_a (lift_r (row_get row ''amount'')) (\<lambda>amount.
        bind_a (lift_r (to_number (obj_or amount (VNum (Fin 0))))) (\<lambda>debit.
        bind_a (lift_r (row_get row ''invoiceNumber'')) (\<lambda>number.
        bind_a (lift_r (to_string (obj_or number (VStr [])))) (\<lambda>memo.
        ret (debit,
          [(''entryId'', VStr (''JE-'' @ drop (length runId - 6) runId @ ''-'' @ show_nat idx)),
           (''account'', VStr glAccount), (''debit'', VNum debit), (''credit'', VNum (Fin 0)),
           (''memo'', VStr memo)]))))))"

text \<open>\<^verbatim>\<open>a?.normalized ?? b?.normalized ?? []\<close>\<close>

definition prior_normalized :: "handler_context \<Rightarrow> string \<Rightarrow> jsval res" where
  "prior_normalized ctx name =
     (case prior ctx name of None \<Rightarrow> Inr VUndef | Some ob \<Rightarrow> obj_get ob ''normalized'')"

definition invoice_post_gl :: "env \<Rightarrow> handler" where
  "invoice_post_gl e ctx task =
     bind_a (lift_r (string_field (hc_input ctx) ''glAccount'' ''4000-AP'')) (\<lambda>glAccount.
     bind_a (lift_r (prior_normalized ctx ''prepare'')) (\<lambda>prepared.
     bind_a (if nullish prepared then lift_r (prior_normalized ctx ''normalize'') else ret prepared) (\<lambda>v.
     bind_a (lift_r (mappable v)) (\<lambda>normalized.
     bind_a (each (journal_entry (hc_runId ctx) glAccount) (List.enumerate 0 normalized)) (\<lambda>entries.
     let total = foldl num_add (Fin 0) (map fst entries)
     in bind_a (read_env (date_now e)) (\<lambda>ms.
        bind_a (each (\<lambda>en. new_obj (snd en)) entries) (\<lambda>rows.
        bind_a (new_arr rows) (\<lambda>arr.
        bind_a (read_env (clk e)) (\<lambda>now.
        ret (ok_result
          [(''journalId'', VStr (''JRNL-'' @ show_int ms)), (''entries'', arr), (''totalPosted'', VNum total),
           (''postedAt'', VStr now)] None))))))))))"

subsection \<open>Reconciliation\<close>

definition extract_row :: "env \<Rightarrow> string \<Rightarrow> nat \<times> nat \<Rightarrow> jsval eff" where
  "extract_row e ledger slot =
     (case slot of (p, i) \<Rightarrow>
        bind_a (read_env (rand e)) (\<lambda>r.
        bind_a (read_env (date_now e)) (\<lambda>ms.
        new_obj
          [(''txnId'', VStr (ledger @ ''-p'' @ show_nat p @ ''-'' @ show_nat i)),
           (''amount'', VNum (num_div (math_round (num_mul r (Fin 10000))) (Fin 100))),
           (''postedDate'', VStr (take 10 (to_iso (ms - int i * 86400000))))])))"

definition reconcile_extract :: "env \<Rightarrow> handler" where
  "reconcile_extract e ctx task =
     bind_a (lift_r (string_field (hc_input ctx) ''ledger'' ''PRIMARY'')) (\<lambda>ledger.
     bind_a (lift_r (number_field (hc_input ctx) ''pages'' (Fin 3))) (\<lambda>pages.
     bind_a (lift_r (rounds pages)) (\<lambda>n.
     bind_a (each (extract_row e ledger) (List.product [0..<n] [0..<100])) (\<lambda>txns.
     bind_a (new_arr txns) (\<lambda>transactions.
     ret (ok_result
       [(''ledger'', VStr ledger), (''transactionCount'', num_nat (length txns)), (''transactions'', transactions)]
       None))))))"

text \<open>\<^verbatim>\<open>for (const t of txns)\<close>: arrays and strings can be walked.\<close>

definition iterable :: "jsval \<Rightarrow> jsval list res" where
  "iterable v =
     (case v of
        VArr a xs \<Rightarrow> Inr xs
      | VStr s \<Rightarrow> Inr (map (\<lambda>c. VStr [c]) s)
      | VUndef \<Rightarrow> Inr []
      | VNull \<Rightarrow> Inr []
      | _ \<Rightarrow> Inl (JsTypeError ''txns is not iterable''))"

definition match_row :: "env \<Rightarrow> jsval \<Rightarrow> jsobj option eff" where
  "match_row e t =
     bind_a (read_env (rand e)) (\<lambda>r.
       if num_lt (num_div (Fin 8) (Fin 100)) r then ret None
       else bind_a (lift_r (row_get t ''txnId'')) (\<lambda>i.
            ret (Some [(''txnId'', i), (''reason'', VStr ''no_po_match'')])))"

definition reconcile_match :: "env \<Rightarrow> handler" where
  "reconcile_match e ctx task =
     (let extract = (case prior ctx ''extract'' of Some ob \<Rightarrow> ob | None \<Rightarrow> [])
      in bind_a (lift_r (obj_get extract ''transactions'')) (\<lambda>v.
         bind_a (lift_r (iterable v)) (\<lambda>txns.
         bind_a (each (match_row e) txns) (\<lambda>results.
         let exceptions = List.map_filter (\<lambda>x. x) results;
             unmatched = length exceptions;
             matched = length txns - unmatched
         in bind_a (each new_obj (take 50 exceptions)) (\<lambda>rows.
            bind_a (new_arr rows) (\<lambda>arr.
            ret (ok_result
              [(''matched'', num_nat matched), (''unmatched'', num_nat unmatched),
               (''matchRate'', if txns = [] then VNum (Fin 1)
                  else VNum (num_div (to_double (of_nat matched)) (to_double (of_nat (length txns))))),
               (''exceptions'', arr)] None)))))))"

subsection \<open>Onboarding, notification, reports\<close>

definition computeRiskScore :: "string \<Rightarrow> jsobj \<Rightarrow> nat" where
  "computeRiskScore customerId input =
     (let score = length customerId mod 40;
          score = (if map_of input ''country'' = Some (VStr ''XX'') then score + 30 else score);
          score = (if map_of input ''highRiskIndustry'' = Some (VBool True) then score + 25 else score)
      in min 100 score)"

definition onboard_validate :: "env \<Rightarrow> handler" where
  "onboard_validate e ctx task =
     bind_a (lift_r (string_field (hc_input ctx) ''customerId'' [])) (\<lambda>customerId.
     if customerId = [] then ret (fail_result ''customerId required'')
     else let riskScore = computeRiskScore customerId (hc_input ctx)
          in if riskScore > 85
             then ret (fail_result (''risk score '' @ show_nat riskScore @ '' exceeds threshold''))
             else bind_a (read_env (clk e)) (\<lambda>now.
                  ret (ok_result
                    [(''customerId'', VStr customerId), (''riskScore'', num_nat riskScore), (''validatedAt'', VStr now)]
                    None)))"

definition onboard_provision :: "env \<Rightarrow> handler" where
  "onboard_provision e ctx task =
     (let kyc = (case prior ctx ''kyc'' of
                   Some ob \<Rightarrow> ob
                 | None \<Rightarrow> case prior ctx ''validate'' of Some ob \<Rightarrow> ob | None \<Rightarrow> [])
      in bind_a (lift_r (obj_get kyc ''customerId'')) (\<lambda>v.
         bind_a (if nullish v then lift_r (obj_get (hc_input ctx) ''customerId'') else ret v) (\<lambda>w.
         bind_a (lift_r (to_string (obj_or w (VStr [])))) (\<lambda>customerId.
         bind_a (each (\<lambda>(t, prefix). new_obj [(''type'', VStr t), (''id'', VStr (prefix @ customerId))])
             [(''database_schema'', ''db_''), (''api_key'', ''key_''), (''storage_bucket'', ''s3_'')]) (\<lambda>rs.
         bind_a (new_arr rs) (\<lambda>resources.
         bind_a (read_env (clk e)) (\<lambda>now.
         ret (ok_result
           [(''customerId'', VStr customerId), (''resources'', resources), (''provisionedAt'', VStr now)] None))))))))"

definition external_notify :: "env \<Rightarrow> handler" where
  "external_notify e ctx task =
     bind_a (lift_r (string_field (hc_input ctx) ''channel'' ''email'')) (\<lambda>channel.
     bind_a (lift_r (string_field (hc_input ctx) ''recipient'' ''ops@internal'')) (\<lambda>recipient.
     bind_a (read_env (rand e)) (\<lambda>r.
     if num_lt r (num_div (Fin 5) (Fin 100))
     then ret (fail_result ''upstream notification gateway timeout'')
     else bind_a (read_env (date_now e)) (\<lambda>ms.
          ret (ok_result
            [(''channel'', VStr channel), (''recipient'', VStr recipient),
             (''messageId'', VStr (''msg_'' @ show_int ms)), (''delivered'', VBool True)] None)))))"

definition is_number :: "jsval \<Rightarrow> bool" where
  "is_number v = (case v of VNum n \<Rightarrow> True | _ \<Rightarrow> False)"

definition report_slice :: "string \<times> jsobj \<Rightarrow> (string \<times> jsval) eff" where
  "report_slice slice =
     (case slice of (key, val) \<Rightarrow>
        bind_a (new_arr (map VStr (map fst val))) (\<lambda>keys.
        bind_a (each (\<lambda>(k, v). new_obj [(''k'', VStr k), (''v'', v)]) (filter (\<lambda>(k, v). is_number v) val)) (\<lambda>rows.
        bind_a (new_arr rows) (\<lambda>fields.
        bind_a (new_obj [(''keys'', keys), (''numericFields'', fields)]) (\<lambda>ob.
        ret (key, ob))))))"

definition report_aggregate :: "env \<Rightarrow> handler" where
  "report_aggregate e ctx task =
     bind_a (each report_slice (hc_priorOutputs ctx)) (\<lambda>slices.
     bind_a (new_obj (fold (\<lambda>(k, v) ob. map_set k v ob) slices [(''runId'', VStr (hc_runId ctx))])) (\<lambda>summary.
     bind_a (read_env (clk e)) (\<lambda>now.
     ret (ok_result [(''summary'', summary), (''generatedAt'', VStr now)] None))))"

subsection \<open>The registry of implementations\<close>

definition IMPLEMENTATIONS :: "env \<Rightarrow> (string \<times> handler) list" where
  "IMPLEMENTATIONS e =
     [(''invoice.fetch'', invoice_fetch e), (''invoice.normalize'', invoice_normalize e),
      (''invoice.post_gl'', invoice_post_gl e), (''reconcile.extract'', reconcile_extract e),
      (''reconcile.match'', reconcile_match e), (''onboard.validate'', onboard_validate e),
      (''onboard.provision'', onboard_provision e), (''report.aggregate'', report_aggregate e),
      (''external.risky_notify'', external_notify e)]"

definition implementation_get :: "env \<Rightarrow> string \<Rightarrow> handler option" where
  "implementation_get e name = map_of (IMPLEMENTATIONS e) name"

definition implementation_list :: "env \<Rightarrow> string list" where
  "implementation_list e = map fst (IMPLEMENTATIONS e)"

text \<open>The environment of a container: its simulator has the implementations.\<close>

definition wired :: "env \<Rightarrow> env" where
  "wired e = e\<lparr>impls := implementation_get e\<rparr>"

subsection \<open>Walking lists\<close>

lemma each_all2:
  assumes "\<And>x n. x \<in> set xs \<Longrightarrow> \<exists>y n'. f x n = (Inr y, n') \<and> P x y"
  shows "\<exists>ys n'. each f xs n = (Inr ys, n') \<and> list_all2 P xs ys"
  using assms
proof (induction xs arbitrary: n)
  case (Cons x xs)
  obtain y n1 where y: "f x n = (Inr y, n1)" "P x y" using Cons.prems [of x n] by auto
  obtain ys n2 where "each f xs n1 = (Inr ys, n2)" "list_all2 P xs ys"
    using Cons.IH [of n1] Cons.prems by (meson list.set_intros(2))
  with y show ?case by auto
qed simp

lemma each_map:
  assumes "\<And>x n. x \<in> set xs \<Longrightarrow> \<exists>n'. f x n = (Inr (g x), n')"
  shows "\<exists>n'. each f xs n = (Inr (map g xs), n')"
proof -
  obtain ys n' where "each f xs n = (Inr ys, n')" "list_all2 (\<lambda>x y. y = g x) xs ys"
    using each_all2 [of xs f "\<lambda>x y. y = g x" n] assms by blast
  moreover from this(2) have "ys = map g xs" by (induction rule: list_all2_induct) simp_all
  ultimately show ?thesis by blast
qed

lemma alloc_apply [simp]:
  "new_arr xs n = (Inr (VArr (Fresh n) xs), Suc n)" "new_obj fs n = (Inr (VObj (Fresh n) fs), Suc n)"
  by (simp_all add: new_arr_def new_obj_def fresh_def)

lemma each_new_obj: "\<exists>rs n'. each new_obj obs n = (Inr rs, n') \<and> list_all2 (\<lambda>ob r. \<exists>a. r = VObj a ob) obs rs"
  by (rule each_all2) auto

subsection \<open>Nothing reaches a handler from the tasks before it\<close>

lemma implementations_found:
  "implementation_get e ''invoice.post_gl'' = Some (invoice_post_gl e)"
  "implementation_get e ''reconcile.match'' = Some (reconcile_match e)"
  "implementation_get e ''report.aggregate'' = Some (report_aggregate e)"
  by (simp_all add: implementation_get_def IMPLEMENTATIONS_def)

lemma obj_get_simps: "obj_get [] k = (if k \<in> set object_prototype_names then Inl (Unmodelled k) else Inr VUndef)"
  by (simp add: obj_get_def)

lemma wired_fields [simp]:
  "impls (wired e) = implementation_get e" "clk (wired e) = clk e" "date_now (wired e) = date_now e" "rand (wired e) = rand e"
  by (simp_all add: wired_def)

text \<open>The executor's call of an implementation that succeeds.\<close>

lemma executor_runs_implementation:
  assumes "implementation_get e (td_handler d) = Some impl"
    and "\<And>n. \<exists>r n'. impl \<lparr>hc_runId = tr_runId t, hc_taskId = tr_definitionTaskId t, hc_input = input, hc_priorOutputs = []\<rparr>
        \<lparr>td_id = tr_definitionTaskId t, td_name = td_handler d, td_handler = td_handler d, td_timeoutMs = 30000,
         td_optional = None, td_dependsOn = None\<rparr> n = (Inr r, n') \<and> hr_success r \<and> P (hr_output r)"
  shows "\<exists>r n'. executor_run (wired e) (simulator_execute (wired e) cfg) t d p input n = (Inr r, n') \<and>
    tr_status (er_task r) = TSucceeded \<and> (\<exists>out. tr_output (er_task r) = Some out \<and> P out)"
proof -
  obtain hr n' where hr: "impl \<lparr>hc_runId = tr_runId t, hc_taskId = tr_definitionTaskId t, hc_input = input, hc_priorOutputs = []\<rparr>
        \<lparr>td_id = tr_definitionTaskId t, td_name = td_handler d, td_handler = td_handler d, td_timeoutMs = 30000,
         td_optional = None, td_dependsOn = None\<rparr> (Suc (Suc n)) = (Inr hr, n')" "hr_success hr" "P (hr_output hr)"
    using assms(2) by blast
  have "simulator_execute (wired e) cfg (td_handler d) input
      \<lparr>hc_runId = tr_runId t, hc_taskId = tr_definitionTaskId t, hc_input = input, hc_priorOutputs = []\<rparr> (Suc n) =
      (Inr \<lparr>sr_success = True, sr_output = hr_output hr,
            sr_latencyMs = to_double (of_int (date_now e n' - date_now e (Suc n))), sr_errorMessage = None\<rparr>, Suc n')"
    using assms(1) hr by (simp add: simulator_execute_def bind_a_eq)
  then show ?thesis using hr(3) by (simp add: executor_run_def catch_a_def Let_def)
qed

lemma post_gl_without_prior:
  assumes "string_field input ''glAccount'' ''4000-AP'' = Inr account"
  shows "\<exists>r n' a. invoice_post_gl e \<lparr>hc_runId = run, hc_taskId = t, hc_input = input, hc_priorOutputs = []\<rparr> d n = (Inr r, n') \<and>
    hr_success r \<and> map_of (hr_output r) ''entries'' = Some (VArr a []) \<and>
    map_of (hr_output r) ''totalPosted'' = Some (VNum (Fin 0))"
  using assms by (simp add: invoice_post_gl_def prior_normalized_def prior_def mappable_def nullish_def bind_a_eq ok_result_def)

lemma match_without_prior:
  "\<exists>r n'. reconcile_match e \<lparr>hc_runId = run, hc_taskId = t, hc_input = input, hc_priorOutputs = []\<rparr> d n = (Inr r, n') \<and>
    hr_success r \<and> map_of (hr_output r) ''matched'' = Some (VNum (Fin 0)) \<and>
    map_of (hr_output r) ''matchRate'' = Some (VNum (Fin 1))"
  by (simp add: reconcile_match_def prior_def obj_get_def object_prototype_names_def iterable_def bind_a_eq ok_result_def
      List.map_filter_def num_nat_def to_double_def)

lemma aggregate_without_prior:
  "\<exists>r n' a. report_aggregate e \<lparr>hc_runId = run, hc_taskId = t, hc_input = input, hc_priorOutputs = []\<rparr> d n = (Inr r, n') \<and>
    hr_success r \<and> map_of (hr_output r) ''summary'' = Some (VObj a [(''runId'', VStr run)])"
  by (simp add: report_aggregate_def bind_a_eq ok_result_def)

text \<open>
  C33. In the engine no handler sees the outputs of the tasks it depends on: with the container's
  implementations, whatever ran before, \<^verbatim>\<open>invoice.post_gl\<close> succeeds and posts no entry and a total of
  zero, \<^verbatim>\<open>reconcile.match\<close> succeeds with nothing matched and a rate of one, and
  \<^verbatim>\<open>report.aggregate\<close> reports nothing but the id of the run.
\<close>

theorem engine_passes_no_outputs:
  assumes "td_handler d \<in> {''invoice.post_gl'', ''reconcile.match'', ''report.aggregate''}"
    and "string_field input ''glAccount'' ''4000-AP'' = Inr account"
  shows "\<exists>r n'. executor_run (wired e) (simulator_execute (wired e) cfg) t d p input n = (Inr r, n') \<and>
    tr_status (er_task r) = TSucceeded \<and>
    (\<exists>out. tr_output (er_task r) = Some out \<and>
       (td_handler d = ''invoice.post_gl'' \<longrightarrow>
          (\<exists>a. map_of out ''entries'' = Some (VArr a [])) \<and> map_of out ''totalPosted'' = Some (VNum (Fin 0))) \<and>
       (td_handler d = ''reconcile.match'' \<longrightarrow>
          map_of out ''matched'' = Some (VNum (Fin 0)) \<and> map_of out ''matchRate'' = Some (VNum (Fin 1))) \<and>
       (td_handler d = ''report.aggregate'' \<longrightarrow>
          (\<exists>a. map_of out ''summary'' = Some (VObj a [(''runId'', VStr (tr_runId t))]))))"
proof -
  from assms(1) consider (post) "td_handler d = ''invoice.post_gl''" | (match_) "td_handler d = ''reconcile.match''"
    | (report) "td_handler d = ''report.aggregate''" by blast
  then show ?thesis
  proof cases
    case post
    show ?thesis
      by (rule executor_runs_implementation [where impl = "invoice_post_gl e"])
        (use post_gl_without_prior [OF assms(2)] in \<open>force simp: post implementations_found\<close>)+
  next
    case match_
    show ?thesis
      by (rule executor_runs_implementation [where impl = "reconcile_match e"])
        (use match_without_prior in \<open>force simp: match_ implementations_found\<close>)+
  next
    case report
    show ?thesis
      by (rule executor_runs_implementation [where impl = "report_aggregate e"])
        (use aggregate_without_prior in \<open>force simp: report implementations_found\<close>)+
  qed
qed

lemma engine_passes_no_outputs_witness:
  "\<exists>r n' out. executor_run (wired plain_env) (simulator_execute (wired plain_env) failing_config)
      (createTaskRun ''t3'' ''r'' ''post'' ''invoice.post_gl'')
      (risky_task\<lparr>td_id := ''post'', td_handler := ''invoice.post_gl'', td_dependsOn := Some [''prepare'']\<rparr>)
      DEFAULT_RETRY_POLICY [] 0 = (Inr r, n') \<and>
    tr_output (er_task r) = Some out \<and> map_of out ''totalPosted'' = Some (VNum (Fin 0))"
proof -
  let ?d = "risky_task\<lparr>td_id := ''post'', td_handler := ''invoice.post_gl'', td_dependsOn := Some [''prepare'']\<rparr>"
  have "string_field [] ''glAccount'' ''4000-AP'' = Inr ''4000-AP''"
    by (simp add: string_field_def obj_get_def object_prototype_names_def obj_or_def nullish_def)
  from engine_passes_no_outputs [OF _ this, of ?d plain_env failing_config
      "createTaskRun ''t3'' ''r'' ''post'' ''invoice.post_gl''" DEFAULT_RETRY_POLICY 0]
  show ?thesis by auto
qed

subsection \<open>What the handlers do when outputs are passed on\<close>

definition invoice_like :: "jsval \<Rightarrow> jsnum \<times> string \<Rightarrow> bool" where
  "invoice_like r x \<longleftrightarrow> (\<exists>a fs. r = VObj a fs \<and> map_of fs ''amount'' = Some (VNum (fst x)) \<and>
     map_of fs ''invoiceNumber'' = Some (VStr (snd x)) \<and> snd x \<noteq> [])"

lemma list_all2_choice: "\<forall>y \<in> set ys. \<exists>x. P y x \<Longrightarrow> \<exists>xs. list_all2 P ys xs"
proof (induction ys)
  case (Cons y ys)
  then show ?case by (auto simp: list_all2_Cons1)
qed (rule exI [of _ "[]"], simp)

lemma fetch_rows:
  assumes "string_field input ''tenantId'' ''unknown'' = Inr tenant" and "number_field input ''expectedRows'' (Fin 50) = Inr c"
    and "rounds c = Inr k"
  shows "\<exists>r n' a rows xs. invoice_fetch e \<lparr>hc_runId = run, hc_taskId = t, hc_input = input, hc_priorOutputs = prs\<rparr> d n = (Inr r, n') \<and>
    hr_success r \<and> map_of (hr_output r) ''records'' = Some (VArr a rows) \<and> list_all2 invoice_like rows xs \<and> length xs = k"
proof -
  have "\<exists>y n'. invoice_row e tenant i n = (Inr y, n') \<and> (\<exists>x. invoice_like y x)" for i n
    by (force simp: invoice_row_def invoice_like_def)
  then obtain rows n1 where rows: "each (invoice_row e tenant) [0..<k] (Suc n) = (Inr rows, n1)"
    "list_all2 (\<lambda>i y. \<exists>x. invoice_like y x) [0..<k] rows"
    using each_all2 [of "[0..<k]" "invoice_row e tenant" "\<lambda>i y. \<exists>x. invoice_like y x" "Suc n"] by blast
  have len: "length rows = k" using list_all2_lengthD [OF rows(2)] by simp
  have "\<forall>y \<in> set rows. \<exists>x. invoice_like y x"
    using rows(2) len by (auto simp: list_all2_conv_all_nth in_set_conv_nth)
  then obtain xs where "list_all2 invoice_like rows xs" using list_all2_choice by blast
  then show ?thesis
    using assms rows(1) len list_all2_lengthD by (force simp: invoice_fetch_def bind_a_eq ok_result_def)
qed

text \<open>The object a row is normalised to.\<close>

definition normal_of :: "jsobj \<Rightarrow> jsnum \<times> string \<Rightarrow> bool" where
  "normal_of y x \<longleftrightarrow> map_of y ''amount'' = Some (VNum (math_abs (fst x))) \<and>
     map_of y ''invoiceNumber'' = Some (VStr (snd x)) \<and> snd x \<noteq> []"

lemma normalize_row_like:
  assumes "invoice_like r x"
  shows "\<exists>y. normalize_row r n = (Inr y, n) \<and> normal_of y x"
  using assms
  by (auto simp: normalize_row_def invoice_like_def normal_of_def row_get_def obj_get_def obj_or_def nullish_def
      spread_def)

lemma each_like:
  assumes "list_all2 P xs zs" and "\<And>x z n. P x z \<Longrightarrow> \<exists>y n'. f x n = (Inr y, n') \<and> Q y z"
  shows "\<exists>ys n'. each f xs n = (Inr ys, n') \<and> list_all2 Q ys zs"
  using assms(1)
proof (induction arbitrary: n rule: list_all2_induct)
  case (Cons x xs z zs)
  obtain y n1 where y: "f x n = (Inr y, n1)" "Q y z" using assms(2) [OF Cons(1)] by blast
  obtain ys n2 where "each f xs n1 = (Inr ys, n2)" "list_all2 Q ys zs" using Cons.IH by blast
  with y show ?case by auto
qed simp

lemma normalize_rows:
  assumes "list_all2 invoice_like rows xs" and "map_of ob ''records'' = Some (VArr a rows)"
  shows "\<exists>r n' a rows'. invoice_normalize e \<lparr>hc_runId = run, hc_taskId = t, hc_input = input, hc_priorOutputs = [(''fetch'', ob)]\<rparr> d n = (Inr r, n') \<and>
    hr_success r \<and> map_of (hr_output r) ''normalized'' = Some (VArr a rows') \<and>
    list_all2 invoice_like rows' (map (\<lambda>x. (math_abs (fst x), snd x)) xs)"
proof -
  obtain ys n1 where ys: "each normalize_row rows n = (Inr ys, n1)" "list_all2 normal_of ys xs"
    using each_like [OF assms(1), of normalize_row normal_of n] normalize_row_like by metis
  have "\<exists>vs n'. each (\<lambda>r. lift_r (obj_get r ''invoiceNumber'')) ys n1 = (Inr vs, n') \<and>
      list_all2 (\<lambda>v x. v = VStr (snd x) \<and> snd x \<noteq> []) vs xs"
    by (rule each_like [OF ys(2)]) (simp add: normal_of_def obj_get_def)
  then obtain vs n2 where vs: "each (\<lambda>r. lift_r (obj_get r ''invoiceNumber'')) ys n1 = (Inr vs, n2)"
    "list_all2 (\<lambda>v x. v = VStr (snd x) \<and> snd x \<noteq> []) vs xs" by blast
  have "\<forall>v \<in> set vs. to_boolean v"
    using vs(2) by (auto simp: list_all2_conv_all_nth in_set_conv_nth)
  then have valid: "filter (\<lambda>v. \<not> to_boolean v) vs = []" by simp
  have "\<exists>rs n'. each new_obj ys n2 = (Inr rs, n') \<and> list_all2 (\<lambda>v x. invoice_like v (math_abs (fst x), snd x)) rs xs"
    by (rule each_like [OF ys(2)]) (simp add: normal_of_def invoice_like_def)
  then obtain rows' n3 where rows': "each new_obj ys n2 = (Inr rows', n3)"
    "list_all2 (\<lambda>v x. invoice_like v (math_abs (fst x), snd x)) rows' xs" by blast
  show ?thesis
    using ys(1) vs(1) valid rows' assms(2)
    by (simp add: list_all2_map2 invoice_normalize_def prior_def obj_get_def mappable_def bind_a_eq ok_result_def Let_def)
qed

lemma journal_rows:
  assumes "list_all2 invoice_like rows xs"
  shows "\<exists>es n'. each (journal_entry run account) (List.enumerate k rows) n = (Inr es, n') \<and> map fst es = map fst xs \<and>
    map (\<lambda>en. map_of (snd en) ''memo'') es = map (\<lambda>x. Some (VStr (snd x))) xs \<and>
    map (\<lambda>en. map_of (snd en) ''debit'') es = map (\<lambda>x. Some (VNum (fst x))) xs"
  using assms
proof (induction arbitrary: k n rule: list_all2_induct)
  case (Cons r rs x xs)
  obtain en where en: "journal_entry run account (k, r) n = (Inr en, n)" "fst en = fst x"
    "map_of (snd en) ''memo'' = Some (VStr (snd x))" "map_of (snd en) ''debit'' = Some (VNum (fst x))"
    using Cons(1) by (auto simp: journal_entry_def invoice_like_def row_get_def obj_get_def obj_or_def nullish_def)
  obtain es n' where "each (journal_entry run account) (List.enumerate (Suc k) rs) n = (Inr es, n')" "map fst es = map fst xs"
    "map (\<lambda>en. map_of (snd en) ''memo'') es = map (\<lambda>x. Some (VStr (snd x))) xs"
    "map (\<lambda>en. map_of (snd en) ''debit'') es = map (\<lambda>x. Some (VNum (fst x))) xs"
    using Cons.IH by blast
  with en show ?case by auto
qed simp

definition entry_of :: "jsval \<Rightarrow> jsnum \<times> string \<Rightarrow> bool" where
  "entry_of v x \<longleftrightarrow> (\<exists>a fs. v = VObj a fs \<and> map_of fs ''debit'' = Some (VNum (fst x)) \<and>
     map_of fs ''memo'' = Some (VStr (snd x)))"

lemma post_rows:
  assumes "list_all2 invoice_like rows xs" and "map_of ob ''normalized'' = Some (VArr a rows)"
    and "string_field input ''glAccount'' ''4000-AP'' = Inr account"
  shows "\<exists>r n' a es. invoice_post_gl e \<lparr>hc_runId = run, hc_taskId = t, hc_input = input, hc_priorOutputs = [(''normalize'', ob)]\<rparr> d n = (Inr r, n') \<and>
    hr_success r \<and> map_of (hr_output r) ''entries'' = Some (VArr a es) \<and> list_all2 entry_of es xs \<and>
    map_of (hr_output r) ''totalPosted'' = Some (VNum (foldl num_add (Fin 0) (map fst xs)))"
proof -
  obtain es n1 where es: "each (journal_entry run account) (List.enumerate 0 rows) n = (Inr es, n1)" "map fst es = map fst xs"
    "map (\<lambda>en. map_of (snd en) ''memo'') es = map (\<lambda>x. Some (VStr (snd x))) xs"
    "map (\<lambda>en. map_of (snd en) ''debit'') es = map (\<lambda>x. Some (VNum (fst x))) xs"
    using journal_rows [OF assms(1)] by blast
  have "list_all2 (\<lambda>en x. map_of (snd en) ''debit'' = Some (VNum (fst x)) \<and> map_of (snd en) ''memo'' = Some (VStr (snd x))) es xs"
    using es(3,4) map_eq_imp_length_eq [OF es(2)] unfolding list_all2_conv_all_nth
    by (metis (no_types, lifting) nth_map)
  from each_like [OF this, of "\<lambda>en. new_obj (snd en)" entry_of "Suc n1"]
  obtain rows' n2 where "each (\<lambda>en. new_obj (snd en)) es (Suc n1) = (Inr rows', n2)" "list_all2 entry_of rows' xs"
    by (force simp: entry_of_def)
  then show ?thesis
    using es(1,2) assms(2,3)
    by (simp add: invoice_post_gl_def prior_normalized_def prior_def obj_get_def mappable_def nullish_def bind_a_eq
        ok_result_def Let_def)
qed

text \<open>
  C34. Passed on by hand, the outputs make a journal of the invoices: for inputs the handlers can
  read, \<^verbatim>\<open>invoice.fetch\<close> makes as many invoices as were asked for, \<^verbatim>\<open>invoice.normalize\<close> on its output
  accepts them all, and \<^verbatim>\<open>invoice.post_gl\<close> on that output posts, in order, one entry for each invoice,
  with the absolute amount as its debit and the number as its memo; the total is the sum of the
  absolute amounts, added up from left to right.
\<close>

theorem invoice_pipeline_posts_every_invoice:
  assumes "string_field input ''tenantId'' ''unknown'' = Inr tenant" and "number_field input ''expectedRows'' (Fin 50) = Inr c"
    and "rounds c = Inr k" and "string_field input ''glAccount'' ''4000-AP'' = Inr account"
  shows "\<exists>r1 n1 r2 n2 r3 n3 xs a es.
    invoice_fetch e \<lparr>hc_runId = run, hc_taskId = ''fetch'', hc_input = input, hc_priorOutputs = []\<rparr> d1 n = (Inr r1, n1) \<and>
    invoice_normalize e \<lparr>hc_runId = run, hc_taskId = ''normalize'', hc_input = input,
      hc_priorOutputs = [(''fetch'', hr_output r1)]\<rparr> d2 n1 = (Inr r2, n2) \<and>
    invoice_post_gl e \<lparr>hc_runId = run, hc_taskId = ''post'', hc_input = input,
      hc_priorOutputs = [(''normalize'', hr_output r2)]\<rparr> d3 n2 = (Inr r3, n3) \<and>
    hr_success r1 \<and> hr_success r2 \<and> hr_success r3 \<and> length xs = k \<and>
    (\<exists>b rows. map_of (hr_output r1) ''records'' = Some (VArr b rows) \<and> list_all2 invoice_like rows xs) \<and>
    map_of (hr_output r3) ''entries'' = Some (VArr a es) \<and>
    list_all2 entry_of es (map (\<lambda>x. (math_abs (fst x), snd x)) xs) \<and>
    map_of (hr_output r3) ''totalPosted'' = Some (VNum (foldl num_add (Fin 0) (map (\<lambda>x. math_abs (fst x)) xs)))"
proof -
  obtain r1 n1 b rows xs where r1: "invoice_fetch e \<lparr>hc_runId = run, hc_taskId = ''fetch'', hc_input = input, hc_priorOutputs = []\<rparr> d1 n = (Inr r1, n1)"
    "hr_success r1" "map_of (hr_output r1) ''records'' = Some (VArr b rows)" "list_all2 invoice_like rows xs" "length xs = k"
    using fetch_rows [OF assms(1-3), of e run "''fetch''" "[]" d1 n] by blast
  obtain r2 n2 b' rows' where r2: "invoice_normalize e \<lparr>hc_runId = run, hc_taskId = ''normalize'', hc_input = input,
      hc_priorOutputs = [(''fetch'', hr_output r1)]\<rparr> d2 n1 = (Inr r2, n2)"
    "hr_success r2" "map_of (hr_output r2) ''normalized'' = Some (VArr b' rows')"
    "list_all2 invoice_like rows' (map (\<lambda>x. (math_abs (fst x), snd x)) xs)"
    using normalize_rows [OF r1(4,3), of e run "''normalize''" input d2 n1] by blast
  obtain r3 n3 a es where r3: "invoice_post_gl e \<lparr>hc_runId = run, hc_taskId = ''post'', hc_input = input,
      hc_priorOutputs = [(''normalize'', hr_output r2)]\<rparr> d3 n2 = (Inr r3, n3)"
    "hr_success r3" "map_of (hr_output r3) ''entries'' = Some (VArr a es)"
    "list_all2 entry_of es (map (\<lambda>x. (math_abs (fst x), snd x)) xs)"
    "map_of (hr_output r3) ''totalPosted'' = Some (VNum (foldl num_add (Fin 0) (map fst (map (\<lambda>x. (math_abs (fst x), snd x)) xs))))"
    using post_rows [OF r2(4,3) assms(4), of e run "''post''" d3 n2] by blast
  have "map fst (map (\<lambda>x. (math_abs (fst x), snd x)) xs) = map (\<lambda>x. math_abs (fst x)) xs" by simp
  note total = r3(5) [unfolded this]
  show ?thesis
    by (rule exI [of _ r1], rule exI [of _ n1], rule exI [of _ r2], rule exI [of _ n2], rule exI [of _ r3],
        rule exI [of _ n3], rule exI [of _ xs], rule exI [of _ a], rule exI [of _ es])
      (intro conjI; (rule exI [of _ b], rule exI [of _ rows], intro conjI)?; rule r1 r2 r3 total)
qed

lemma invoice_pipeline_posts_every_invoice_witness:
  "\<exists>r1 n1 rows b. invoice_fetch plain_env \<lparr>hc_runId = ''run_1'', hc_taskId = ''fetch'', hc_input = [(''expectedRows'', VNum (Fin 2))],
      hc_priorOutputs = []\<rparr> risky_task 0 = (Inr r1, n1) \<and> map_of (hr_output r1) ''records'' = Some (VArr b rows) \<and> length rows = 2"
proof -
  let ?in = "[(''expectedRows'', VNum (Fin 2))]"
  have f: "string_field ?in ''tenantId'' ''unknown'' = Inr ''unknown''" "number_field ?in ''expectedRows'' (Fin 50) = Inr (Fin 2)"
    "rounds (Fin 2) = Inr 2" "string_field ?in ''glAccount'' ''4000-AP'' = Inr ''4000-AP''"
    by (simp_all add: string_field_def number_field_def obj_get_def object_prototype_names_def obj_or_def nullish_def rounds_def)
  from invoice_pipeline_posts_every_invoice [OF f, of plain_env "''run_1''" risky_task 0 risky_task risky_task]
  show ?thesis using list_all2_lengthD by metis
qed

end
