(* ===== verification/IsoOrder.thy ===== *)
theory IsoOrder
  imports Dates Query
begin

section \<open>Comparing ISO dates as text\<close>

text \<open>
  The program compares dates by comparing their ISO strings (retention, the audit trail, time
  series, run filters). For the years 0 to 9999 that is comparing the instants.
\<close>

subsection \<open>Fields of fixed width\<close>

lemma of_char_digit: "n < 10 \<Longrightarrow> (of_char (digit_char n) :: nat) = 48 + n"
  by (simp add: digit_char_def)

lemma str_less_same [simp]: "str_less (c # s) (c # t) \<longleftrightarrow> str_less s t"
  by simp

lemma dig_code: "(of_char (dig n p) :: nat) = 48 + nat (n div p mod 10)"
  unfolding dig_def by (rule of_char_digit) simp

lemma dig_less: "(of_char (dig n p) :: nat) < of_char (dig m q) \<longleftrightarrow> n div p mod 10 < m div q mod 10"
  using pos_mod_sign [of 10 "n div p"] by (auto simp: dig_code)

lemma dig_eq: "dig n p = dig m q \<longleftrightarrow> n div p mod 10 = m div q mod 10"
proof
  assume "dig n p = dig m q"
  then have "(of_char (dig n p) :: nat) = of_char (dig m q)" by simp
  then show "n div p mod 10 = m div q mod 10" by (simp add: dig_code)
qed (simp add: dig_def)

text \<open>The last \<open>k\<close> digits of a number, peeled off from the end.\<close>

fun digs :: "nat \<Rightarrow> int \<Rightarrow> string" where
  "digs 0 n = []"
| "digs (Suc k) n = digs k (n div 10) @ [dig n 1]"

lemma by_digit:
  fixes n m :: int
  shows "n < m \<longleftrightarrow> n div 10 < m div 10 \<or> n div 10 = m div 10 \<and> n mod 10 < m mod 10"
    and "n = m \<longleftrightarrow> n div 10 = m div 10 \<and> n mod 10 = m mod 10"
proof -
  have e: "n = 10 * (n div 10) + n mod 10" "m = 10 * (m div 10) + m mod 10" by simp_all
  have b: "0 \<le> n mod 10" "n mod 10 < 10" "0 \<le> m mod 10" "m mod 10 < 10" by simp_all
  show "n = m \<longleftrightarrow> n div 10 = m div 10 \<and> n mod 10 = m mod 10" using e by metis
  consider "n div 10 < m div 10" | "n div 10 = m div 10" | "m div 10 < n div 10" by linarith
  then show "n < m \<longleftrightarrow> n div 10 < m div 10 \<or> n div 10 = m div 10 \<and> n mod 10 < m mod 10"
  proof cases
    case 1
    then have "n < m" using e b by linarith
    with 1 show ?thesis by blast
  next
    case 2
    then have "n < m \<longleftrightarrow> n mod 10 < m mod 10" using e by linarith
    with 2 show ?thesis by simp
  next
    case 3
    then have "\<not> n < m" using e b by linarith
    with 3 show ?thesis by simp
  qed
qed

lemma str_less_digs:
  assumes "0 \<le> n" "n < 10 ^ k" "0 \<le> m" "m < 10 ^ k"
  shows "str_less (digs k n @ s) (digs k m @ t) \<longleftrightarrow> n < m \<or> n = m \<and> str_less s t"
  using assms
proof (induction k arbitrary: n m s t)
  case (Suc k)
  have "n div 10 < 10 ^ k" "m div 10 < 10 ^ k" using Suc.prems by (simp_all add: div_less_iff_less_mult)
  then have "str_less (digs (Suc k) n @ s) (digs (Suc k) m @ t) \<longleftrightarrow>
      n div 10 < m div 10 \<or> n div 10 = m div 10 \<and> str_less (dig n 1 # s) (dig m 1 # t)"
    using Suc.IH [of "n div 10" "m div 10" "dig n 1 # s" "dig m 1 # t"] Suc.prems by simp
  also have "\<dots> \<longleftrightarrow> n < m \<or> n = m \<and> str_less s t"
    unfolding str_less.simps dig_less dig_eq div_by_1 by_digit(1) [of n m] by_digit(2) [of n m] by blast
  finally show ?case .
qed simp

lemma dig_shift: "dig (n div 10) 1 = dig n 10" "dig (n div 10) 10 = dig n 100" "dig (n div 10) 100 = dig n 1000"
  by (simp_all add: dig_def zdiv_zmult2_eq [symmetric])

lemma fields_digs:
  "two n = digs 2 n" "[dig n 100, dig n 10, dig n 1] = digs 3 n"
  "0 \<le> n \<Longrightarrow> n \<le> 9999 \<Longrightarrow> iso_year n = digs 4 n"
  by (simp_all add: two_def iso_year_def eval_nat_numeral dig_shift)

lemma to_iso_digs:
  "utc_month_date t = (m, d) \<Longrightarrow>
     to_iso t = iso_year (utc_year t) @ ''-'' @ digs 2 m @ ''-'' @ digs 2 d @ ''T'' @ digs 2 (utc_hours t) @ '':'' @
       digs 2 (utc_minutes t) @ '':'' @ digs 2 (utc_seconds t) @ ''.'' @ digs 3 (utc_millis t) @ ''Z''"
  unfolding fields_digs(1,2) [symmetric] by (simp add: to_iso_def)

lemma str_less_year:
  assumes "0 \<le> n" "n \<le> 9999" "0 \<le> m" "m \<le> 9999"
  shows "str_less (iso_year n @ s) (iso_year m @ t) \<longleftrightarrow> n < m \<or> n = m \<and> str_less s t"
  using str_less_digs [of n 4 m s t] assms by (simp add: fields_digs(3))

subsection \<open>The calendar is monotone\<close>

lemma days_from_year_mono:
  assumes "y \<le> z"
  shows "days_from_year y \<le> days_from_year z"
  using assms
proof (induction z rule: int_ge_induct)
  case (step z)
  then show ?case by (simp add: days_from_year_Suc)
qed simp

lemma year_of_day_mono: "d \<le> d' \<Longrightarrow> year_of_day d \<le> year_of_day d'"
proof (rule ccontr)
  assume "d \<le> d'" and "\<not> year_of_day d \<le> year_of_day d'"
  then have "days_from_year (year_of_day d' + 1) \<le> days_from_year (year_of_day d)"
    by (intro days_from_year_mono) simp
  with \<open>d \<le> d'\<close> show False using year_of_day_bounds [of d] year_of_day_bounds [of d'] by linarith
qed

lemma split_month_ge1: "1 \<le> fst (split_month ls k)"
  by (induction ls k rule: split_month.induct) (auto split: prod.splits)

lemma split_month_mono:
  "k < k' \<Longrightarrow> split_month ls k = (m, d) \<Longrightarrow> split_month ls k' = (m', d') \<Longrightarrow> m < m' \<or> m = m' \<and> d < d'"
proof (induction ls arbitrary: k k' m m' d d')
  case (Cons l ls)
  obtain m1 d1 where 1: "split_month ls (k - l) = (m1, d1)" by (cases "split_month ls (k - l)")
  obtain m2 d2 where 2: "split_month ls (k' - l) = (m2, d2)" by (cases "split_month ls (k' - l)")
  show ?case
    using Cons.IH [of "k - l" "k' - l", OF _ 1 2] Cons.prems 1 2 split_month_ge1 [of ls "k' - l"]
    by (auto split: if_splits)
qed auto

lemma date_mono:
  assumes "day_number a < day_number b" and "utc_month_date a = (m, d)" and "utc_month_date b = (m', d')"
  shows "utc_year a < utc_year b \<or> utc_year a = utc_year b \<and> (m < m' \<or> m = m' \<and> d < d')"
proof -
  have "utc_year a \<le> utc_year b" using assms(1) by (simp add: utc_year_def year_of_day_mono)
  moreover have "m < m' \<or> m = m' \<and> d < d'" if "utc_year a = utc_year b"
    using split_month_mono [of "day_number a - days_from_year (utc_year a)" "day_number b - days_from_year (utc_year b)"]
      assms that by (simp add: utc_month_date_def Let_def)
  ultimately show ?thesis by linarith
qed

lemma date_same_day: "day_number a = day_number b \<Longrightarrow> utc_year a = utc_year b \<and> utc_month_date a = utc_month_date b"
  by (simp add: utc_year_def utc_month_date_def)

lemma time_fields:
  "0 \<le> utc_hours t \<and> utc_hours t < 100" "0 \<le> utc_minutes t \<and> utc_minutes t < 100"
  "0 \<le> utc_seconds t \<and> utc_seconds t < 100" "0 \<le> utc_millis t \<and> utc_millis t < 1000"
  using pos_mod_bound [of 24 "t div 3600000"] pos_mod_bound [of 60 "t div 60000"] pos_mod_bound [of 60 "t div 1000"]
  by (simp_all add: utc_hours_def utc_minutes_def utc_seconds_def utc_millis_def)

lemma time_mono:
  assumes "day_number a = day_number b" and "a < b"
  shows "utc_hours a < utc_hours b \<or> utc_hours a = utc_hours b \<and> (utc_minutes a < utc_minutes b \<or>
    utc_minutes a = utc_minutes b \<and> (utc_seconds a < utc_seconds b \<or>
    utc_seconds a = utc_seconds b \<and> utc_millis a < utc_millis b))"
proof -
  have b: "utc_minutes t < 60" "utc_seconds t < 60" "utc_millis t < 1000" "0 \<le> utc_minutes t" "0 \<le> utc_seconds t" "0 \<le> utc_millis t" for t
    by (simp_all add: utc_minutes_def utc_seconds_def utc_millis_def)
  show ?thesis
    using assms time_of_day [of a] time_of_day [of b] b [of a] b [of b] by linarith
qed

lemma to_iso_less:
  assumes "a < b" and "0 \<le> utc_year a" "utc_year a \<le> 9999" "0 \<le> utc_year b" "utc_year b \<le> 9999"
  shows "str_less (to_iso a) (to_iso b)"
proof -
  obtain m d where md: "utc_month_date a = (m, d)" by (cases "utc_month_date a")
  obtain m' d' where md': "utc_month_date b = (m', d')" by (cases "utc_month_date b")
  have small: "0 \<le> x \<and> x < 100 \<and> 0 \<le> z \<and> z < 100" if "utc_month_date t = (x, z)" for t x z
  proof -
    have z: "1 \<le> x \<and> x \<le> 12 \<and> 1 \<le> z \<and> z \<le> month_lengths (utc_year t) ! nat (x - 1)"
      using month_date_day [of t] that by simp
    have "\<forall>l \<in> set (month_lengths y). l \<le> 31" for y by (simp add: month_lengths_def)
    moreover have "month_lengths (utc_year t) ! nat (x - 1) \<in> set (month_lengths (utc_year t))"
      using z by (intro nth_mem) (auto simp: month_lengths_def)
    ultimately show ?thesis using z by fastforce
  qed
  have "day_number a \<le> day_number b" using assms(1) by (simp add: day_number_def zdiv_mono1)
  then consider "day_number a < day_number b" | "day_number a = day_number b" by linarith
  then have "utc_year a < utc_year b \<or> utc_year a = utc_year b \<and> (m < m' \<or> m = m' \<and> (d < d' \<or> d = d' \<and>
      (utc_hours a < utc_hours b \<or> utc_hours a = utc_hours b \<and> (utc_minutes a < utc_minutes b \<or>
       utc_minutes a = utc_minutes b \<and> (utc_seconds a < utc_seconds b \<or>
       utc_seconds a = utc_seconds b \<and> utc_millis a < utc_millis b)))))"
  proof cases
    case 1
    then show ?thesis using date_mono [OF _ md md'] by blast
  next
    case 2
    then show ?thesis using date_same_day [OF 2] time_mono [OF 2 assms(1)] md md' by simp
  qed
  then show ?thesis
    unfolding to_iso_digs [OF md] to_iso_digs [OF md']
    using small [OF md] small [OF md'] time_fields [of a] time_fields [of b]
    by (simp add: str_less_year [OF assms(2-5)] str_less_digs)
qed

lemma str_less_irrefl: "\<not> str_less s s"
  by (induction s) simp_all

text \<open>
  Text order is time order: for two instants of the years 0 to 9999, comparing their ISO strings
  character by character is comparing the instants.
\<close>

lemma iso_text_order_is_time_order:
  assumes "0 \<le> utc_year a" "utc_year a \<le> 9999" "0 \<le> utc_year b" "utc_year b \<le> 9999"
  shows "str_less (to_iso a) (to_iso b) \<longleftrightarrow> a < b"
  using to_iso_less [of a b] to_iso_less [of b a] str_less_irrefl [of "to_iso a"]
    str_less_trans [of "to_iso a" "to_iso b" "to_iso a"] assms
  by (cases a b rule: linorder_cases) auto

subsection \<open>Clocks\<close>

text \<open>
  utils/clock.ts: the system clock reads the time of the environment, the fake clock an instant that is
  advanced and set. A date that does not parse leaves the fake clock invalid, which is not followed.
\<close>

definition system_nowIso :: "(nat \<Rightarrow> int) \<Rightarrow> nat \<Rightarrow> iso_date" where
  "system_nowIso now n = to_iso (now n)"

definition fake_initial :: "int res" where
  "fake_initial = parse_iso ''2026-01-01T00:00:00.000Z''"

definition fake_nowIso :: "int \<Rightarrow> iso_date" where
  "fake_nowIso current = to_iso current"

definition fake_advance :: "int \<Rightarrow> int \<Rightarrow> int" where
  "fake_advance ms current = current + ms"

definition fake_set :: "iso_date \<Rightarrow> int \<Rightarrow> int res" where
  "fake_set at_iso current = parse_iso at_iso"

text \<open>The fake clock starts with the year 2026; advancing it moves its dates on.\<close>

lemma fake_clock_starts_2026: "fake_initial = Inr 1767225600000"
  by code_simp

lemma fake_clock_advances:
  assumes "0 \<le> utc_year t" "utc_year t \<le> 9999" "0 \<le> utc_year (fake_advance ms t)" "utc_year (fake_advance ms t) \<le> 9999"
  shows "str_less (fake_nowIso t) (fake_nowIso (fake_advance ms t)) \<longleftrightarrow> 0 < ms"
  using iso_text_order_is_time_order [of t "fake_advance ms t"] assms
  by (simp add: fake_nowIso_def fake_advance_def)

end
