(* ===== verification/Reporting.thy ===== *)
theory Reporting
  imports IsoOrder Implementations Export
begin

section \<open>Reports, analytics, audit trail and retention\<close>

text \<open>
  audit/*.ts, domain/audit.ts, compliance/retention.ts, analytics/*.ts, reporting/*.ts and the two
  services over them. Averages are doubles; dates are read with \<open>parse_iso\<close>, which follows ISO strings
  only.
\<close>

subsection \<open>The audit trail\<close>

record audit_record =
  au_id :: string
  au_tenantId :: string
  au_actor :: string
  au_action :: string
  au_resourceType :: string
  au_resourceId :: string
  au_metadata :: jsobj
  au_at :: iso_date

record audit_filter =
  af_tenantId :: "string option"
  af_resourceType :: "string option"
  af_resourceId :: "string option"
  af_since :: "string option"
  af_limit :: "jsnum option"

definition audit_write :: "audit_record \<Rightarrow> audit_record list \<Rightarrow> audit_record list" where
  "audit_write r records = records @ [r]"

definition narrow :: "('a \<Rightarrow> string \<Rightarrow> bool) \<Rightarrow> string option \<Rightarrow> 'a list \<Rightarrow> 'a list" where
  "narrow keeps wanted xs = (case given wanted of Some w \<Rightarrow> filter (\<lambda>x. keeps x w) xs | None \<Rightarrow> xs)"

definition audit_query :: "audit_filter \<Rightarrow> audit_record list \<Rightarrow> audit_record list" where
  "audit_query flt records =
     (let result = narrow (\<lambda>r w. au_tenantId r = w) (af_tenantId flt) records;
          result = narrow (\<lambda>r w. au_resourceType r = w) (af_resourceType flt) result;
          result = narrow (\<lambda>r w. au_resourceId r = w) (af_resourceId flt) result;
          result = narrow (\<lambda>r w. \<not> str_less (au_at r) w) (af_since flt) result;
          limit = (case af_limit flt of Some n \<Rightarrow> n | None \<Rightarrow> Fin 100)
      in drop (slice_bound (length result) (num_neg limit)) result)"

definition trail_record ::
    "env \<Rightarrow> string \<Rightarrow> string \<Rightarrow> string \<Rightarrow> string \<Rightarrow> string \<Rightarrow> jsobj option \<Rightarrow> audit_record list \<Rightarrow>
     (audit_record \<times> audit_record list) eff" where
  "trail_record e tenantId actor action resourceType resourceId metadata records =
     bind_a (read_env (uuid e)) (\<lambda>i.
     bind_a (read_env (clk e)) (\<lambda>now.
     let entry = \<lparr>au_id = i, au_tenantId = tenantId, au_actor = actor, au_action = action,
                  au_resourceType = resourceType, au_resourceId = resourceId,
                  au_metadata = (case metadata of Some m \<Rightarrow> m | None \<Rightarrow> []), au_at = now\<rparr>
     in ret (entry, audit_write entry records)))"

definition trail_query :: "audit_filter \<Rightarrow> audit_record list \<Rightarrow> audit_record list" where
  "trail_query flt records = audit_query flt records"

text \<open>The audit service\<close>

definition audit_service_log ::
    "env \<Rightarrow> string \<Rightarrow> string \<Rightarrow> string \<Rightarrow> string \<Rightarrow> string \<Rightarrow> jsobj option \<Rightarrow> audit_record list \<Rightarrow>
     (audit_record \<times> audit_record list) eff" where
  "audit_service_log e tenantId actor action resourceType resourceId metadata records =
     trail_record e tenantId actor action resourceType resourceId metadata records"

definition audit_service_query :: "audit_filter \<Rightarrow> audit_record list \<Rightarrow> audit_record list" where
  "audit_service_query flt records = trail_query flt records"

subsection \<open>Retention\<close>

record retention_policy =
  rp_auditDays :: int
  rp_workflowDays :: int
  rp_deadLetterDays :: int

definition DEFAULT_RETENTION :: retention_policy where
  "DEFAULT_RETENTION = \<lparr>rp_auditDays = 90, rp_workflowDays = 30, rp_deadLetterDays = 180\<rparr>"

definition cutoffDate :: "int \<Rightarrow> int \<Rightarrow> iso_date" where
  "cutoffDate now days = to_iso (now - days * 86400000)"

definition retention_isTerminal :: "string \<Rightarrow> bool" where
  "retention_isTerminal state \<longleftrightarrow> state \<in> {''completed'', ''failed'', ''cancelled'', ''dead_lettered''}"

definition filterAudit :: "retention_policy \<Rightarrow> audit_record list \<Rightarrow> int \<Rightarrow> audit_record list" where
  "filterAudit policy records now =
     filter (\<lambda>r. \<not> str_less (au_at r) (cutoffDate now (rp_auditDays policy))) records"

definition shouldPurgeWorkflow :: "retention_policy \<Rightarrow> workflow_instance \<Rightarrow> int \<Rightarrow> bool" where
  "shouldPurgeWorkflow policy w now \<longleftrightarrow>
     str_less (wf_updatedAt w) (cutoffDate now (rp_workflowDays policy)) \<and>
     retention_isTerminal (workflow_state_str (wf_state w))"

subsection \<open>Time series\<close>

record ts_point =
  tp_ts :: iso_date
  tp_value :: jsnum

type_synonym ts_buffer = "(string, ts_point list) jsmap"

definition series_of :: "string \<Rightarrow> ts_buffer \<Rightarrow> ts_point list" where
  "series_of name data = (case map_get data name of Some ps \<Rightarrow> ps | None \<Rightarrow> [])"

definition ts_record :: "nat \<Rightarrow> string \<Rightarrow> jsnum \<Rightarrow> iso_date \<Rightarrow> ts_buffer \<Rightarrow> ts_buffer" where
  "ts_record maxPoints name value ts data =
     (let points = series_of name data @ [\<lparr>tp_ts = ts, tp_value = value\<rparr>]
      in map_set name (if length points > maxPoints then tl points else points) data)"

definition ts_get :: "string \<Rightarrow> string option \<Rightarrow> ts_buffer \<Rightarrow> string \<times> ts_point list" where
  "ts_get name since data = (name, narrow (\<lambda>p w. \<not> str_less (tp_ts p) w) since (series_of name data))"

subsection \<open>Tallies\<close>

text \<open>
  \<^verbatim>\<open>const e = m[key(x)] ?? z; update(e); m[key(x)] = e\<close> for every \<open>x\<close> of a list
\<close>

definition tally :: "('a \<Rightarrow> 'k) \<Rightarrow> ('a \<Rightarrow> 'v \<Rightarrow> 'v) \<Rightarrow> 'v \<Rightarrow> 'a list \<Rightarrow> ('k, 'v) jsmap" where
  "tally key update z xs =
     fold (\<lambda>x m. map_set (key x) (update x (case map_get m (key x) of Some v \<Rightarrow> v | None \<Rightarrow> z)) m) xs []"

lemma tally_get:
  "map_get (tally key update z xs) k =
     (let ys = filter (\<lambda>x. key x = k) xs in if ys = [] then None else Some (fold update ys z))"
proof (induction xs rule: rev_induct)
  case (snoc x xs)
  then show ?case by (auto simp: tally_def Let_def)
qed (simp add: tally_def)

record handler_stats =
  hs_count :: nat
  hs_failed :: nat

record run_analytics =
  ra_runId :: run_id
  ra_totalTasks :: nat
  ra_succeeded :: nat
  ra_failed :: nat
  ra_retrying :: nat
  ra_averageAttempts :: jsnum
  ra_criticalPathMs :: jsnum
  ra_handlerBreakdown :: "(string, handler_stats) jsmap"

definition count_handler :: "task_run \<Rightarrow> handler_stats \<Rightarrow> handler_stats" where
  "count_handler t h =
     h\<lparr>hs_count := hs_count h + 1, hs_failed := (if tr_status t = TFailed then hs_failed h + 1 else hs_failed h)\<rparr>"

text \<open>The counters of the loop: succeeded, failed, retrying and the sum of the attempts.\<close>

definition count_task :: "task_run \<Rightarrow> nat \<times> nat \<times> nat \<times> nat \<Rightarrow> nat \<times> nat \<times> nat \<times> nat" where
  "count_task t c =
     (case c of (succeeded, failed, retrying, attempts) \<Rightarrow>
        (if tr_status t = TSucceeded then succeeded + 1 else succeeded,
         if tr_status t = TFailed then failed + 1 else failed,
         if tr_status t = TRetrying then retrying + 1 else retrying,
         attempts + tr_attempt t))"

definition task_ms :: "task_run \<Rightarrow> jsnum res" where
  "task_ms t =
     bind_r (case given (tr_startedAt t) of Some s \<Rightarrow> parse_iso s | None \<Rightarrow> Inr 0) (\<lambda>start.
     bind_r (case given (tr_finishedAt t) of Some s \<Rightarrow> parse_iso s | None \<Rightarrow> Inr start) (\<lambda>fin.
     Inr (Fin (of_int (max 0 (fin - start))))))"

fun estimateCriticalPath :: "task_run list \<Rightarrow> jsnum \<Rightarrow> jsnum res" where
  "estimateCriticalPath [] acc = Inr acc"
| "estimateCriticalPath (t # ts) acc =
     bind_r (task_ms t) (\<lambda>ms. estimateCriticalPath ts (num_add acc ms))"

definition summarize :: "workflow_instance \<Rightarrow> run_analytics res" where
  "summarize w =
     (case fold count_task (wf_tasks w) (0, 0, 0, 0) of (succeeded, failed, retrying, attempts) \<Rightarrow>
        bind_r (estimateCriticalPath (wf_tasks w) (Fin 0)) (\<lambda>ms. Inr
          \<lparr>ra_runId = wf_runId w, ra_totalTasks = length (wf_tasks w), ra_succeeded = succeeded,
           ra_failed = failed, ra_retrying = retrying,
           ra_averageAttempts =
             (if wf_tasks w = [] then Fin 0
              else num_div (to_double (of_nat attempts)) (to_double (of_nat (length (wf_tasks w))))),
           ra_criticalPathMs = ms,
           ra_handlerBreakdown = tally tr_handler count_handler \<lparr>hs_count = 0, hs_failed = 0\<rparr> (wf_tasks w)\<rparr>))"

subsection \<open>Roll-ups\<close>

definition bucket_key :: "int \<Rightarrow> int \<Rightarrow> jsnum" where
  "bucket_key bucketMs t =
     num_mul (math_floor (num_div (to_double (of_int t)) (to_double (of_int bucketMs)))) (to_double (of_int bucketMs))"

definition roll_point :: "int \<Rightarrow> ts_point \<Rightarrow> (jsnum \<times> jsnum) res" where
  "roll_point bucketMs p = bind_r (parse_iso (tp_ts p)) (\<lambda>t. Inr (bucket_key bucketMs t, tp_value p))"

fun roll_points :: "int \<Rightarrow> ts_point list \<Rightarrow> (jsnum \<times> jsnum) list res" where
  "roll_points bucketMs [] = Inr []"
| "roll_points bucketMs (p # ps) =
     bind_r (roll_point bucketMs p) (\<lambda>q. bind_r (roll_points bucketMs ps) (\<lambda>qs. Inr (q # qs)))"

definition roll_date :: "jsnum \<Rightarrow> iso_date res" where
  "roll_date k =
     (case k of
        Fin r \<Rightarrow> Inr (to_iso (if 0 \<le> r then \<lfloor>r\<rfloor> else \<lceil>r\<rceil>))
      | NZero \<Rightarrow> Inr (to_iso 0)
      | _ \<Rightarrow> Inl (JsError ''Invalid time value''))"

fun rolled_points :: "(jsnum \<times> jsnum \<times> nat) list \<Rightarrow> ts_point list res" where
  "rolled_points [] = Inr []"
| "rolled_points ((k, tot, n) # bs) =
     bind_r (roll_date k) (\<lambda>ts. bind_r (rolled_points bs) (\<lambda>ps.
       Inr (\<lparr>tp_ts = ts, tp_value = num_div tot (to_double (of_nat n))\<rparr> # ps)))"

definition ts_rollup :: "string \<Rightarrow> int \<Rightarrow> ts_buffer \<Rightarrow> (string \<times> ts_point list) res" where
  "ts_rollup name bucketMs data =
     bind_r (roll_points bucketMs (series_of name data)) (\<lambda>qs.
       let buckets = tally fst (\<lambda>q b. (num_add (fst b) (snd q), snd b + 1)) (Fin 0, 0) qs
       in bind_r (rolled_points (sort_key (\<lambda>b. num_val (fst b)) buckets)) (\<lambda>ps.
            Inr (name @ ''_rollup'', ps)))"

subsection \<open>The analytics service\<close>

record analytics =
  an_engine :: engine
  an_series :: ts_buffer

definition MAX_POINTS :: nat where
  "MAX_POINTS = 10000"

definition summarizeRun :: "env \<Rightarrow> run_id \<Rightarrow> analytics \<Rightarrow> run_analytics res \<times> analytics" where
  "summarizeRun e runId s =
     (case getWorkflowByRun runId (an_engine s) of
        (Inl er, en) \<Rightarrow> (Inl er, s\<lparr>an_engine := en\<rparr>)
      | (Inr w, en) \<Rightarrow>
          (case summarize w of
             Inl er \<Rightarrow> (Inl er, s\<lparr>an_engine := en\<rparr>)
           | Inr summary \<Rightarrow>
               let n = en_ticks en;
                   data = ts_record MAX_POINTS ''run.duration_ms'' (ra_criticalPathMs summary) (clk e n) (an_series s);
                   data = ts_record MAX_POINTS ''run.failed_tasks'' (to_double (of_nat (ra_failed summary)))
                            (clk e (Suc n)) data
               in (Inr summary, \<lparr>an_engine = en\<lparr>en_ticks := Suc (Suc n)\<rparr>, an_series = data\<rparr>)))"

definition timeSeries :: "string \<Rightarrow> string option \<Rightarrow> analytics \<Rightarrow> string \<times> ts_point list" where
  "timeSeries name since s = ts_get name since (an_series s)"

subsection \<open>The tenant dashboard\<close>

record job_stats =
  js_runs :: nat
  js_failed :: nat

record dashboard_stats =
  ds_activeRuns :: nat
  ds_completedToday :: nat
  ds_failedToday :: nat
  ds_averageDurationMs :: jsnum
  ds_byJob :: "(string, job_stats) jsmap"

fun started_since :: "int \<Rightarrow> job_run list \<Rightarrow> job_run list res" where
  "started_since since [] = Inr []"
| "started_since since (r # rs) =
     bind_r (parse_iso (jr_startedAt r)) (\<lambda>t. bind_r (started_since since rs) (\<lambda>recent.
       Inr (if since \<le> t then r # recent else recent)))"

definition count_job :: "job_run \<Rightarrow> job_stats \<Rightarrow> job_stats" where
  "count_job r j =
     j\<lparr>js_runs := js_runs j + 1, js_failed := (if jr_status r = Failed then js_failed j + 1 else js_failed j)\<rparr>"

fun add_durations :: "job_run list \<Rightarrow> jsnum \<times> nat \<Rightarrow> (jsnum \<times> nat) res" where
  "add_durations [] acc = Inr acc"
| "add_durations (r # rs) acc =
     (case given (jr_finishedAt r) of
        None \<Rightarrow> add_durations rs acc
      | Some fin \<Rightarrow>
          bind_r (parse_iso fin) (\<lambda>b. bind_r (parse_iso (jr_startedAt r)) (\<lambda>a.
            add_durations rs (num_add (fst acc) (to_double (of_int (b - a))), snd acc + 1))))"

definition dashboard :: "job_run list \<Rightarrow> iso_date \<Rightarrow> dashboard_stats res" where
  "dashboard runs sinceIso =
     bind_r (parse_iso sinceIso) (\<lambda>since.
     bind_r (started_since since runs) (\<lambda>recent.
     bind_r (add_durations recent (Fin 0, 0)) (\<lambda>durations.
     Inr \<lparr>ds_activeRuns = length (filter (\<lambda>r. jr_status r \<in> {Pending, Running, Waiting}) runs),
          ds_completedToday = length (filter (\<lambda>r. jr_status r = Completed) recent),
          ds_failedToday = length (filter (\<lambda>r. jr_status r = Failed) recent),
          ds_averageDurationMs =
            (if snd durations = 0 then Fin 0
             else math_round (num_div (fst durations) (to_double (of_nat (snd durations))))),
          ds_byJob = tally jr_jobId count_job \<lparr>js_runs = 0, js_failed = 0\<rparr> recent\<rparr>)))"

subsection \<open>Run reports\<close>

record report_failure =
  rf_taskId :: string
  rf_message :: string
  rf_attempts :: nat

record run_report =
  rr_runId :: run_id
  rr_jobId :: job_id
  rr_jobName :: string
  rr_state :: workflow_state
  rr_durationMs :: jsnum
  rr_taskSummary :: "(string, nat) jsmap"
  rr_failures :: "report_failure list"
  rr_timeline :: "history_entry list"

definition build_report ::
    "workflow_instance \<Rightarrow> job_definition \<Rightarrow> iso_date option \<Rightarrow> int \<Rightarrow> run_report res" where
  "build_report w def finishedAt now =
     bind_r (parse_iso (wf_createdAt w)) (\<lambda>started.
     bind_r (case given finishedAt of Some t \<Rightarrow> parse_iso t | None \<Rightarrow> Inr now) (\<lambda>ended.
     Inr \<lparr>rr_runId = wf_runId w, rr_jobId = wf_jobId w, rr_jobName = jd_name def, rr_state = wf_state w,
          rr_durationMs = to_double (of_int (ended - started)),
          rr_taskSummary = tally (\<lambda>t. task_status_str (tr_status t)) (\<lambda>t n. n + 1) 0 (wf_tasks w),
          rr_failures =
            map (\<lambda>t. \<lparr>rf_taskId = tr_definitionTaskId t,
                      rf_message = (case tr_errorMessage t of Some m \<Rightarrow> m | None \<Rightarrow> ''unknown''),
                      rf_attempts = tr_attempt t\<rparr>)
              (filter (\<lambda>t. tr_status t = TFailed \<or> tr_status t = TRetrying) (wf_tasks w)),
          rr_timeline = wf_history w\<rparr>))"

subsection \<open>Age of records\<close>

lemma cutoff_less:
  assumes "0 \<le> utc_year t" "utc_year t \<le> 9999"
    and "0 \<le> utc_year (now - days * 86400000)" "utc_year (now - days * 86400000) \<le> 9999"
  shows "str_less (to_iso t) (cutoffDate now days) \<longleftrightarrow> t < now - days * 86400000"
  unfolding cutoffDate_def by (rule iso_text_order_is_time_order [OF assms])

lemma terminal_names:
  "retention_isTerminal (workflow_state_str s) \<longleftrightarrow> s \<in> {Completed, Failed, Cancelled, DeadLettered}"
  by (cases s) (simp_all add: retention_isTerminal_def)

text \<open>
  C35. Retention goes by age: for dates of the years 0 to 9999 the enforcer, which compares ISO strings,
  keeps exactly the audit records that are at most \<open>auditDays\<close> days old, in their order, and tells to
  purge a workflow exactly when it was last updated more than \<open>workflowDays\<close> days ago and has completed,
  failed, been cancelled or been dead-lettered.
\<close>

theorem retention_by_age:
  assumes inst: "\<And>r. r \<in> set records \<Longrightarrow> au_at r = to_iso (inst r) \<and> 0 \<le> utc_year (inst r) \<and> utc_year (inst r) \<le> 9999"
    and audit: "0 \<le> utc_year (now - rp_auditDays p * 86400000)" "utc_year (now - rp_auditDays p * 86400000) \<le> 9999"
    and workflow: "0 \<le> utc_year (now - rp_workflowDays p * 86400000)"
      "utc_year (now - rp_workflowDays p * 86400000) \<le> 9999"
    and updated: "wf_updatedAt w = to_iso t" "0 \<le> utc_year t" "utc_year t \<le> 9999"
  shows "filterAudit p records now = filter (\<lambda>r. now - inst r \<le> rp_auditDays p * 86400000) records \<and>
    (shouldPurgeWorkflow p w now \<longleftrightarrow>
       rp_workflowDays p * 86400000 < now - t \<and>
       wf_state w \<in> {Completed, Failed, Cancelled, DeadLettered})"
proof (rule conjI)
  show "filterAudit p records now = filter (\<lambda>r. now - inst r \<le> rp_auditDays p * 86400000) records"
    unfolding filterAudit_def
  proof (rule filter_cong [OF refl])
    fix r assume "r \<in> set records"
    from inst [OF this] have "str_less (au_at r) (cutoffDate now (rp_auditDays p)) \<longleftrightarrow>
        inst r < now - rp_auditDays p * 86400000" by (simp add: cutoff_less audit)
    then show "\<not> str_less (au_at r) (cutoffDate now (rp_auditDays p)) \<longleftrightarrow>
        now - inst r \<le> rp_auditDays p * 86400000" by linarith
  qed
  show "shouldPurgeWorkflow p w now \<longleftrightarrow>
      rp_workflowDays p * 86400000 < now - t \<and> wf_state w \<in> {Completed, Failed, Cancelled, DeadLettered}"
    unfolding shouldPurgeWorkflow_def terminal_names updated(1) cutoff_less [OF updated(2,3) workflow]
    by (simp add: less_diff_eq algebra_simps)
qed

theorem retention_by_age_witness:
  "\<exists>r w. filterAudit DEFAULT_RETENTION [r] 1700000000000 = [] \<and>
     shouldPurgeWorkflow DEFAULT_RETENTION w 1700000000000"
proof -
  have y: "utc_year 0 = 1970" "utc_year (1700000000000 - rp_auditDays DEFAULT_RETENTION * 86400000) = 2023"
    "utc_year (1700000000000 - rp_workflowDays DEFAULT_RETENTION * 86400000) = 2023" by code_simp+
  define r :: audit_record where "r = undefined\<lparr>au_at := to_iso 0\<rparr>"
  define w :: workflow_instance where "w = undefined\<lparr>wf_updatedAt := to_iso 0, wf_state := Failed\<rparr>"
  have "filterAudit DEFAULT_RETENTION [r] 1700000000000 =
      filter (\<lambda>r. 1700000000000 - 0 \<le> rp_auditDays DEFAULT_RETENTION * 86400000) [r] \<and>
      (shouldPurgeWorkflow DEFAULT_RETENTION w 1700000000000 \<longleftrightarrow>
        rp_workflowDays DEFAULT_RETENTION * 86400000 < 1700000000000 - 0 \<and>
        wf_state w \<in> {Completed, Failed, Cancelled, DeadLettered})"
    by (rule retention_by_age) (simp_all add: y r_def w_def)
  then have "filterAudit DEFAULT_RETENTION [r] 1700000000000 = [] \<and>
      shouldPurgeWorkflow DEFAULT_RETENTION w 1700000000000"
    by (simp add: DEFAULT_RETENTION_def w_def)
  then show ?thesis by blast
qed

subsection \<open>The window of a time series\<close>

lemma series_of_record:
  "series_of k (ts_record m n v t data) =
     (if k = n then let points = series_of n data @ [\<lparr>tp_ts = t, tp_value = v\<rparr>]
                    in if length points > m then tl points else points
      else series_of k data)"
  by (simp add: ts_record_def series_of_def Let_def)

lemma tl_is_drop: "length (xs @ [x]) > m \<Longrightarrow> length xs \<le> m \<Longrightarrow> tl (xs @ [x]) = drop (length (xs @ [x]) - m) (xs @ [x])"
proof -
  assume a: "length (xs @ [x]) > m" "length xs \<le> m"
  then have "length (xs @ [x]) - m = 1" by simp
  then show ?thesis by (simp only: drop_Suc One_nat_def drop_0)
qed

lemma drop_window: "drop (length (drop (length ys - m) ys @ [x]) - m) (drop (length ys - m) ys @ [x]) =
    drop (length (ys @ [x]) - m) (ys @ [x])"
proof (cases "length ys \<le> m")
  case False
  then show ?thesis by (cases m) (simp_all add: Suc_diff_Suc)
qed simp

text \<open>
  A time series is a window on its last points: whatever was recorded under whatever names, the
  series of a name holds the last \<open>maxPoints\<close> points recorded under that name, in order, and nothing else.
\<close>

theorem time_series_window:
  "series_of name (fold (\<lambda>(n, p). ts_record m n (tp_value p) (tp_ts p)) recorded []) =
     (let own = map snd (filter (\<lambda>(n, p). n = name) recorded) in drop (length own - m) own)"
proof (induction recorded rule: rev_induct)
  case Nil
  show ?case by (simp add: series_of_def)
next
  case (snoc r recorded)
  obtain n p where r: "r = (n, p)" by (cases r)
  let ?own = "map snd (filter (\<lambda>(n, p). n = name) recorded)"
  let ?data = "fold (\<lambda>(n, p). ts_record m n (tp_value p) (tp_ts p)) recorded []"
  have old: "series_of name ?data = drop (length ?own - m) ?own" using snoc.IH by (simp add: Let_def)
  show ?case
  proof (cases "n = name")
    case True
    have p: "\<lparr>tp_ts = tp_ts p, tp_value = tp_value p\<rparr> = p" by simp
    have "series_of name (ts_record m n (tp_value p) (tp_ts p) ?data) =
        (let points = series_of name ?data @ [p] in if length points > m then tl points else points)"
      by (simp add: series_of_record True p)
    also have "\<dots> = drop (length (series_of name ?data @ [p]) - m) (series_of name ?data @ [p])"
    proof (cases "length (series_of name ?data @ [p]) > m")
      case big: True
      have "length (series_of name ?data) \<le> m" by (simp add: old)
      with big show ?thesis using tl_is_drop [OF big] by (simp add: Let_def)
    qed (simp add: Let_def)
    also have "\<dots> = drop (length (?own @ [p]) - m) (?own @ [p])" unfolding old by (rule drop_window)
    finally show ?thesis using True by (simp add: r Let_def)
  next
    case False
    then show ?thesis using old by (simp add: r series_of_record Let_def)
  qed
qed

subsection \<open>Queries of the audit trail\<close>

definition audit_matches :: "audit_filter \<Rightarrow> audit_record \<Rightarrow> bool" where
  "audit_matches flt r \<longleftrightarrow>
     (\<forall>w. given (af_tenantId flt) = Some w \<longrightarrow> au_tenantId r = w) \<and>
     (\<forall>w. given (af_resourceType flt) = Some w \<longrightarrow> au_resourceType r = w) \<and>
     (\<forall>w. given (af_resourceId flt) = Some w \<longrightarrow> au_resourceId r = w) \<and>
     (\<forall>w. given (af_since flt) = Some w \<longrightarrow> \<not> str_less (au_at r) w)"

lemma narrow_filter: "narrow k w xs = filter (\<lambda>x. \<forall>v. given w = Some v \<longrightarrow> k x v) xs"
  by (cases "given w") (simp_all add: narrow_def)

lemma audit_query_alt:
  "audit_query flt records =
     (let found = filter (audit_matches flt) records
      in drop (slice_bound (length found) (num_neg (case af_limit flt of Some n \<Rightarrow> n | None \<Rightarrow> Fin 100))) found)"
proof -
  have "audit_matches flt = (\<lambda>r.
      (\<forall>w. given (af_tenantId flt) = Some w \<longrightarrow> au_tenantId r = w) \<and>
      (\<forall>w. given (af_resourceType flt) = Some w \<longrightarrow> au_resourceType r = w) \<and>
      (\<forall>w. given (af_resourceId flt) = Some w \<longrightarrow> au_resourceId r = w) \<and>
      (\<forall>w. given (af_since flt) = Some w \<longrightarrow> \<not> str_less (au_at r) w))"
    by (rule ext) (simp add: audit_matches_def)
  then show ?thesis
    by (simp add: audit_query_def narrow_filter filter_filter Let_def conj_ac)
qed

lemma audit_query_latest:
  assumes "af_limit flt = Some (Fin (of_nat k))" "0 < k"
  shows "audit_query flt records =
    (let found = filter (audit_matches flt) records in drop (length found - k) found)"
proof -
  have "slice_bound len (num_neg (Fin (of_nat k))) = len - k" for len
    using assms(2) by (simp add: slice_bound_def Let_def ceiling_minus)
  then show ?thesis by (simp add: audit_query_alt assms(1) Let_def)
qed

text \<open>A limit of zero, or one that is not a number, is no limit.\<close>

lemma audit_query_limit_zero:
  assumes "af_limit flt \<in> {Some (Fin 0), Some NaN}"
  shows "audit_query flt records = filter (audit_matches flt) records"
  using assms by (auto simp: audit_query_alt slice_bound_def Let_def)

end
