(* ===== verification/Files.thy ===== *)
theory Files
  imports Batch Handlers Http Query
begin

section \<open>Files, configuration, migrations and imports\<close>

text \<open>
  storage/file/*.ts, plugins/*.ts, config/*.ts, migrations/*.ts, batch/loader.ts and
  import/job-bundle-importer.ts. The disk is a state of its own: the contents of the files by path, and
  an environment that says which operation fails. JSON and the schema library are parameters.
\<close>

subsection \<open>The disk\<close>

text \<open>
  \<open>de_fails n\<close> is the error of the n-th operation, if it fails; \<open>de_resolve\<close> makes a path absolute,
  as \<^verbatim>\<open>resolve\<close> does and the system does for a relative path.
\<close>

record disk_env =
  de_fails :: "nat \<Rightarrow> err option"
  de_resolve :: "string \<Rightarrow> string"
  de_list :: "string \<Rightarrow> string list res"
  de_join :: "string \<Rightarrow> string \<Rightarrow> string"
  de_clock :: "nat \<Rightarrow> iso_date"

record disk =
  dk_files :: "(string, string) jsmap"
  dk_ops :: nat
  dk_reads :: nat

type_synonym ('s, 'a) io = "('s, err, 'a) act"

definition disk_op :: "disk_env \<Rightarrow> (string, string) jsmap \<Rightarrow> (disk, unit) io" where
  "disk_op e files d =
     (case de_fails e (dk_ops d) of
        Some er \<Rightarrow> (Inl er, d\<lparr>dk_ops := Suc (dk_ops d)\<rparr>)
      | None \<Rightarrow> (Inr (), d\<lparr>dk_ops := Suc (dk_ops d), dk_files := files\<rparr>))"

definition mkdir_parent :: "disk_env \<Rightarrow> (disk, unit) io" where
  "mkdir_parent e d = disk_op e (dk_files d) d"

definition write_file :: "disk_env \<Rightarrow> string \<Rightarrow> string \<Rightarrow> (disk, unit) io" where
  "write_file e path content d = disk_op e (map_set (de_resolve e path) content (dk_files d)) d"

definition append_file :: "disk_env \<Rightarrow> string \<Rightarrow> string \<Rightarrow> (disk, unit) io" where
  "append_file e path content d =
     (let old = (case map_get (dk_files d) (de_resolve e path) of Some s \<Rightarrow> s | None \<Rightarrow> [])
      in disk_op e (map_set (de_resolve e path) (old @ content) (dk_files d)) d)"

definition read_file :: "disk_env \<Rightarrow> string \<Rightarrow> (disk, string) io" where
  "read_file e path =
     bind_a (\<lambda>d. disk_op e (dk_files d) d) (\<lambda>u.
     bind_a (reads (\<lambda>d. map_get (dk_files d) (de_resolve e path))) (\<lambda>found.
       case found of Some s \<Rightarrow> ret s | None \<Rightarrow> throw (JsError ''ENOENT: no such file or directory'')))"

definition disk_now :: "disk_env \<Rightarrow> (disk, iso_date) io" where
  "disk_now e d = (Inr (de_clock e (dk_reads d)), d\<lparr>dk_reads := Suc (dk_reads d)\<rparr>)"

subsection \<open>FileJournal\<close>

record file_entry =
  je_seq :: nat
  je_type :: string
  je_payload :: jsobj
  je_at :: iso_date

record journal =
  jn_path :: string
  jn_seq :: nat
  jn_disk :: disk

definition in_disk :: "(disk, 'a) io \<Rightarrow> (journal, 'a) io" where
  "in_disk m j = (case m (jn_disk j) of (r, d) \<Rightarrow> (r, j\<lparr>jn_disk := d\<rparr>))"

definition newline :: char where
  "newline = CHR 0x0A"

definition journal_append ::
    "disk_env \<Rightarrow> (file_entry \<Rightarrow> string) \<Rightarrow> string \<Rightarrow> jsobj \<Rightarrow> (journal, file_entry) io" where
  "journal_append e stringify type payload =
     bind_a (in_disk (mkdir_parent e)) (\<lambda>u.
     bind_a (writes (\<lambda>j. j\<lparr>jn_seq := Suc (jn_seq j)\<rparr>)) (\<lambda>u.
     bind_a (reads jn_seq) (\<lambda>s.
     bind_a (in_disk (disk_now e)) (\<lambda>now.
     bind_a (reads jn_path) (\<lambda>path.
     let entry = \<lparr>je_seq = s, je_type = type, je_payload = payload, je_at = now\<rparr> in
     bind_a (in_disk (append_file e path (stringify entry @ [newline]))) (\<lambda>u. ret entry))))))"

fun parse_lines :: "(string \<Rightarrow> 'a res) \<Rightarrow> string list \<Rightarrow> 'a list res" where
  "parse_lines decode [] = Inr []"
| "parse_lines decode (l # ls) =
     bind_r (decode l) (\<lambda>x. bind_r (parse_lines decode ls) (\<lambda>xs. Inr (x # xs)))"

text \<open>\<^verbatim>\<open>try { ... } catch { return z }\<close>\<close>

definition or_else :: "('s, 'a) io \<Rightarrow> 'a \<Rightarrow> ('s, 'a) io" where
  "or_else m z s = (case m s of (Inl er, s') \<Rightarrow> (Inr z, s') | (Inr a, s') \<Rightarrow> (Inr a, s'))"

definition readAll :: "disk_env \<Rightarrow> (string \<Rightarrow> file_entry res) \<Rightarrow> (journal, file_entry list) io" where
  "readAll e decode =
     or_else
       (bind_a (reads jn_path) (\<lambda>path.
        bind_a (in_disk (read_file e path)) (\<lambda>raw.
          lift_r (parse_lines decode (filter (\<lambda>l. l \<noteq> []) (split_on newline raw)))))) []"

subsection \<open>FileSnapshotStore\<close>

definition snapshot_save :: "disk_env \<Rightarrow> ('a \<Rightarrow> string) \<Rightarrow> string \<Rightarrow> 'a \<Rightarrow> (disk, unit) io" where
  "snapshot_save e stringify path state =
     bind_a (mkdir_parent e) (\<lambda>u. write_file e path (stringify state))"

definition snapshot_load :: "disk_env \<Rightarrow> (string \<Rightarrow> 'a res) \<Rightarrow> string \<Rightarrow> (disk, 'a option) io" where
  "snapshot_load e decode path =
     or_else (bind_a (read_file e path) (\<lambda>raw. bind_a (lift_r (decode raw)) (\<lambda>x. ret (Some x)))) None"

subsection \<open>PluginLoader\<close>

datatype plugin_hook = BeforeRun | AfterTask | OnFailure

record plugin_manifest =
  pm_id :: string
  pm_name :: string
  pm_version :: string
  pm_entry :: string
  pm_hooks :: "plugin_hook list"

record plugins =
  pl_loaded :: "(string, plugin_manifest) jsmap"
  pl_disk :: disk

definition loadFromFile ::
    "disk_env \<Rightarrow> (string \<Rightarrow> plugin_manifest res) \<Rightarrow> string \<Rightarrow> (plugins, plugin_manifest) io" where
  "loadFromFile e decode path s =
     (case read_file e path (pl_disk s) of
        (Inl er, d) \<Rightarrow> (Inl er, s\<lparr>pl_disk := d\<rparr>)
      | (Inr raw, d) \<Rightarrow>
          (case decode raw of
             Inl er \<Rightarrow> (Inl er, s\<lparr>pl_disk := d\<rparr>)
           | Inr parsed \<Rightarrow>
               if map_get (pl_loaded s) (pm_id parsed) \<noteq> None
               then (Inl (ValidationError (''plugin already loaded: '' @ pm_id parsed) []), s\<lparr>pl_disk := d\<rparr>)
               else (Inr parsed, \<lparr>pl_loaded = map_set (pm_id parsed) parsed (pl_loaded s), pl_disk = d\<rparr>)))"

definition plugin_list :: "plugins \<Rightarrow> plugin_manifest list" where
  "plugin_list s = map_values (pl_loaded s)"

subsection \<open>Configuration\<close>

datatype log_level = LDebug | LInfo | LWarn | LError

record settings =
  st_port :: int
  st_workerConcurrency :: int
  st_defaultTaskTimeoutMs :: int
  st_defaultRetryPolicy :: retry_policy
  st_transitionRulesPath :: "string option"
  st_logLevel :: log_level
  st_latencyMin :: int
  st_latencyMax :: int
  st_failRatePercent :: rat

definition DEFAULT_CONFIG :: settings where
  "DEFAULT_CONFIG =
     \<lparr>st_port = 4100, st_workerConcurrency = 4, st_defaultTaskTimeoutMs = 30000,
      st_defaultRetryPolicy = \<lparr>maxAttempts = 3, initialDelayMs = 500, backoffMultiplier = 2, maxDelayMs = 30000\<rparr>,
      st_transitionRulesPath = None, st_logLevel = LInfo, st_latencyMin = 10, st_latencyMax = 120,
      st_failRatePercent = 0\<rparr>"

definition settings_ok :: "settings \<Rightarrow> bool" where
  "settings_ok c \<longleftrightarrow>
     1 \<le> st_port c \<and> st_port c \<le> 65535 \<and> 1 \<le> st_workerConcurrency c \<and> st_workerConcurrency c \<le> 64 \<and>
     100 \<le> st_defaultTaskTimeoutMs c \<and> policy_ok (st_defaultRetryPolicy c) \<and>
     0 \<le> st_latencyMin c \<and> 0 \<le> st_latencyMax c \<and> 0 \<le> st_failRatePercent c \<and> st_failRatePercent c \<le> 100"

text \<open>
  \<open>decode\<close> is \<^verbatim>\<open>JSON.decode\<close>, \<open>check\<close> the schema's \<^verbatim>\<open>safeParse\<close>, which fills
  in its defaults; a field it does not give, the rules path, keeps its default, which is none.
\<close>

definition loadConfig ::
    "disk_env \<Rightarrow> (string \<Rightarrow> jsval res) \<Rightarrow> (jsval \<Rightarrow> string + settings) \<Rightarrow> string option \<Rightarrow> (disk, settings) io" where
  "loadConfig e decode check path =
     (case given path of
        None \<Rightarrow> ret DEFAULT_CONFIG
      | Some p \<Rightarrow>
          bind_a (read_file e p) (\<lambda>raw.
          bind_a (lift_r (decode raw)) (\<lambda>parsed.
            case check parsed of
              Inl message \<Rightarrow> throw (JsError (''invalid config: '' @ message))
            | Inr found \<Rightarrow> ret found)))"

text \<open>An object of overrides is an update of the fields it gives.\<close>

definition loadConfigSync :: "(settings \<Rightarrow> settings) \<Rightarrow> settings" where
  "loadConfigSync overrides = overrides DEFAULT_CONFIG"

subsection \<open>MigrationRunner\<close>

record migration =
  mg_version :: int
  mg_name :: string

definition migration001 :: migration where
  "migration001 = \<lparr>mg_version = 1, mg_name = ''initial_schema''\<rparr>"

definition migration002 :: migration where
  "migration002 = \<lparr>mg_version = 2, mg_name = ''audit_log_table''\<rparr>"

definition migration003 :: migration where
  "migration003 = \<lparr>mg_version = 3, mg_name = ''webhook_endpoints''\<rparr>"

definition ALL_MIGRATIONS :: "migration list" where
  "ALL_MIGRATIONS = [migration001, migration002, migration003]"

fun migrate_loop :: "int option \<Rightarrow> migration list \<Rightarrow> int jsset \<Rightarrow> nat \<Rightarrow> nat \<times> int jsset" where
  "migrate_loop target [] applied n = (n, applied)"
| "migrate_loop target (m # ms) applied n =
     (if (case target of Some t \<Rightarrow> mg_version m > t | None \<Rightarrow> False) then (n, applied)
      else if mg_version m \<in> set applied then migrate_loop target ms applied n
      else migrate_loop target ms (set_add (mg_version m) applied) (n + 1))"

definition migrate :: "int option \<Rightarrow> int jsset \<Rightarrow> nat \<times> int jsset" where
  "migrate target applied = migrate_loop target (sort_key mg_version ALL_MIGRATIONS) applied 0"

definition currentVersion :: "int jsset \<Rightarrow> int" where
  "currentVersion applied = fold max applied 0"

subsection \<open>Batch manifests\<close>

record loaded_item =
  li_jobId :: string
  li_label :: string
  li_input :: jsobj
  li_priority :: "jsnum option"
  li_continueOnError :: "bool option"

record loaded_manifest =
  lm_id :: string
  lm_name :: string
  lm_tenantId :: string
  lm_maxParallel :: "nat option"
  lm_items :: "loaded_item list"

definition manifest_ok :: "loaded_manifest \<Rightarrow> bool" where
  "manifest_ok m \<longleftrightarrow> (case lm_maxParallel m of Some n \<Rightarrow> 0 < n | None \<Rightarrow> True) \<and> lm_items m \<noteq> []"

text \<open>The schema takes any number as a priority; the model of the pool knows those of the enum.\<close>

definition known_priority :: "jsnum \<Rightarrow> run_priority res" where
  "known_priority n =
     (if n = Fin 1 then Inr Low else if n = Fin 5 then Inr Normal else if n = Fin 10 then Inr High
      else if n = Fin 20 then Inr Critical else Inl (Unmodelled ''priority''))"

definition to_batch_item :: "loaded_item \<Rightarrow> batch_item res" where
  "to_batch_item i =
     bind_r (case li_priority i of None \<Rightarrow> Inr None | Some n \<Rightarrow> bind_r (known_priority n) (\<lambda>p. Inr (Some p)))
       (\<lambda>p. Inr \<lparr>bi_jobId = li_jobId i, bi_label = li_label i, bi_input = li_input i, bi_priority = p,
                 bi_continueOnError = li_continueOnError i\<rparr>)"

fun to_batch_items :: "loaded_item list \<Rightarrow> batch_item list res" where
  "to_batch_items [] = Inr []"
| "to_batch_items (i # is) =
     bind_r (to_batch_item i) (\<lambda>x. bind_r (to_batch_items is) (\<lambda>xs. Inr (x # xs)))"

definition loadBatchManifest ::
    "disk_env \<Rightarrow> (string \<Rightarrow> jsval res) \<Rightarrow> (jsval \<Rightarrow> loaded_manifest res) \<Rightarrow> string \<Rightarrow> (disk, batch_manifest) io" where
  "loadBatchManifest e decode check path =
     bind_a (read_file e path) (\<lambda>content.
     bind_a (lift_r (decode content)) (\<lambda>raw.
     bind_a (lift_r (check raw)) (\<lambda>parsed.
     bind_a (disk_now e) (\<lambda>now.
     bind_a (lift_r (to_batch_items (lm_items parsed))) (\<lambda>items.
       ret \<lparr>bm_id = lm_id parsed, bm_name = lm_name parsed, bm_tenantId = lm_tenantId parsed,
            bm_items = items, bm_maxParallel = lm_maxParallel parsed, bm_createdAt = now\<rparr>)))))"

subsection \<open>JobBundleImporter\<close>

record import_failure =
  if_file :: string
  if_error :: string

record import_result =
  ir_imported :: "string list"
  ir_failed :: "import_failure list"

record importer =
  im_jobs :: job_store
  im_disk :: disk

definition ends_with :: "string \<Rightarrow> string \<Rightarrow> bool" where
  "ends_with p s \<longleftrightarrow> length p \<le> length s \<and> drop (length s - length p) s = p"

text \<open>
  The body of the \<^verbatim>\<open>try\<close>: read, decode, register. The date is read whether the job is accepted or not; the clock is the
  environment's, its fresh ids are \<open>uuids\<close>, one per file tried.
\<close>

definition import_file ::
    "disk_env \<Rightarrow> (string \<Rightarrow> jsval res) \<Rightarrow> schema \<Rightarrow> job_service \<Rightarrow> (nat \<Rightarrow> string) \<Rightarrow> string \<Rightarrow>
     (importer, job_definition) io" where
  "import_file e decode schema js uuids path s =
     (case bind_a (read_file e path) (\<lambda>content. bind_a (lift_r (decode content)) (\<lambda>raw.
             bind_a (disk_now e) (\<lambda>now. ret (raw, now)))) (im_disk s) of
        (Inl er, d) \<Rightarrow> (Inl er, s\<lparr>im_disk := d\<rparr>)
      | (Inr (raw, now), d) \<Rightarrow>
          (case job_register schema js now (uuids (dk_reads d)) raw (im_jobs s) of
             (r, jobs) \<Rightarrow> (r, \<lparr>im_jobs = jobs, im_disk = d\<rparr>)))"

fun import_each ::
    "disk_env \<Rightarrow> (string \<Rightarrow> jsval res) \<Rightarrow> schema \<Rightarrow> job_service \<Rightarrow> (nat \<Rightarrow> string) \<Rightarrow> string \<Rightarrow> string list \<Rightarrow>
     import_result \<Rightarrow> importer \<Rightarrow> import_result \<times> importer" where
  "import_each e decode schema js uuids folder [] result s = (result, s)"
| "import_each e decode schema js uuids folder (file # files) result s =
     (if \<not> ends_with ''.json'' file then import_each e decode schema js uuids folder files result s
      else case import_file e decode schema js uuids (de_join e folder file) s of
             (Inr def, s') \<Rightarrow>
               import_each e decode schema js uuids folder files
                 (result\<lparr>ir_imported := ir_imported result @ [jd_id def]\<rparr>) s'
           | (Inl er, s') \<Rightarrow>
               import_each e decode schema js uuids folder files
                 (result\<lparr>ir_failed := ir_failed result @ [\<lparr>if_file = file, if_error = error_text er\<rparr>]\<rparr>) s')"

definition importDirectory ::
    "disk_env \<Rightarrow> (string \<Rightarrow> jsval res) \<Rightarrow> schema \<Rightarrow> job_service \<Rightarrow> (nat \<Rightarrow> string) \<Rightarrow> string \<Rightarrow>
     (importer, import_result) io" where
  "importDirectory e decode schema js uuids dir s =
     (let folder = de_resolve e dir in
      case de_list e folder of
        Inl er \<Rightarrow> (Inl er, s)
      | Inr files \<Rightarrow>
          (case import_each e decode schema js uuids folder files \<lparr>ir_imported = [], ir_failed = []\<rparr> s of
             (result, s') \<Rightarrow> (Inr result, s')))"

subsection \<open>What a journal reads back\<close>

definition disk_works :: "disk_env \<Rightarrow> bool" where
  "disk_works e \<longleftrightarrow> (\<forall>n. de_fails e n = None)"

text \<open>
  JSON text as \<^verbatim>\<open>JSON.stringify\<close> makes it of plain data: read back by
  \<^verbatim>\<open>JSON.parse\<close>, not empty, on one line.
\<close>

definition json_lines :: "('a \<Rightarrow> bool) \<Rightarrow> ('a \<Rightarrow> string) \<Rightarrow> (string \<Rightarrow> 'a res) \<Rightarrow> bool" where
  "json_lines plain stringify decode \<longleftrightarrow>
     (\<forall>x. plain x \<longrightarrow> decode (stringify x) = Inr x \<and> stringify x \<noteq> [] \<and> newline \<notin> set (stringify x))"

definition journal_text :: "(file_entry \<Rightarrow> string) \<Rightarrow> file_entry list \<Rightarrow> string" where
  "journal_text stringify es = concat (map (\<lambda>x. stringify x @ [newline]) es)"

text \<open>The file of a journal holds these entries; a missing file holds none.\<close>

definition journal_holds :: "disk_env \<Rightarrow> (file_entry \<Rightarrow> string) \<Rightarrow> file_entry list \<Rightarrow> journal \<Rightarrow> bool" where
  "journal_holds e stringify es j \<longleftrightarrow>
     (case map_get (dk_files (jn_disk j)) (de_resolve e (jn_path j)) of
        Some content \<Rightarrow> content = journal_text stringify es
      | None \<Rightarrow> es = [])"

fun journal_appends ::
    "disk_env \<Rightarrow> (file_entry \<Rightarrow> string) \<Rightarrow> (string \<times> jsobj) list \<Rightarrow> (journal, file_entry list) io" where
  "journal_appends e stringify [] = ret []"
| "journal_appends e stringify ((type, payload) # items) =
     bind_a (journal_append e stringify type payload) (\<lambda>x.
     bind_a (journal_appends e stringify items) (\<lambda>xs. ret (x # xs)))"

lemma journal_append_ok:
  assumes "disk_works e" and "journal_holds e stringify old j"
  shows "\<exists>j' now. journal_append e stringify type payload j =
      (Inr \<lparr>je_seq = Suc (jn_seq j), je_type = type, je_payload = payload, je_at = now\<rparr>, j') \<and>
    journal_holds e stringify
      (old @ [\<lparr>je_seq = Suc (jn_seq j), je_type = type, je_payload = payload, je_at = now\<rparr>]) j' \<and>
    jn_seq j' = Suc (jn_seq j) \<and> jn_path j' = jn_path j \<and> (\<exists>n. now = de_clock e n)"
  using assms
  by (auto simp: journal_append_def in_disk_def mkdir_parent_def disk_op_def disk_works_def disk_now_def
      append_file_def journal_holds_def journal_text_def bind_a_eq Let_def split: option.splits)

lemma journal_appends_ok:
  assumes "disk_works e" and "journal_holds e stringify old j"
  shows "\<exists>es j'. journal_appends e stringify items j = (Inr es, j') \<and>
    journal_holds e stringify (old @ es) j' \<and> jn_path j' = jn_path j \<and>
    map je_seq es = [Suc (jn_seq j)..<Suc (jn_seq j + length items)] \<and>
    map (\<lambda>x. (je_type x, je_payload x)) es = items \<and> (\<forall>x \<in> set es. \<exists>n. je_at x = de_clock e n)"
  using assms(2)
proof (induction items arbitrary: old j)
  case Nil
  then show ?case by simp
next
  case (Cons item items)
  obtain type payload where item: "item = (type, payload)" by (cases item)
  from journal_append_ok [OF assms(1) Cons.prems, of type payload] obtain j1 now
    where a: "journal_append e stringify type payload j =
        (Inr \<lparr>je_seq = Suc (jn_seq j), je_type = type, je_payload = payload, je_at = now\<rparr>, j1)"
      and h: "journal_holds e stringify
        (old @ [\<lparr>je_seq = Suc (jn_seq j), je_type = type, je_payload = payload, je_at = now\<rparr>]) j1"
      and q: "jn_seq j1 = Suc (jn_seq j)" "jn_path j1 = jn_path j" and c: "\<exists>n. now = de_clock e n" by blast
  from Cons.IH [OF h] obtain es j' where r: "journal_appends e stringify items j1 = (Inr es, j')"
      "journal_holds e stringify
         ((old @ [\<lparr>je_seq = Suc (jn_seq j), je_type = type, je_payload = payload, je_at = now\<rparr>]) @ es) j'"
      "jn_path j' = jn_path j1" "map je_seq es = [Suc (jn_seq j1)..<Suc (jn_seq j1 + length items)]"
      "map (\<lambda>x. (je_type x, je_payload x)) es = items" "\<forall>x \<in> set es. \<exists>n. je_at x = de_clock e n" by blast
  let ?x = "\<lparr>je_seq = Suc (jn_seq j), je_type = type, je_payload = payload, je_at = now\<rparr>"
  have "journal_appends e stringify (item # items) j = (Inr (?x # es), j')"
    by (simp add: item a r(1) bind_a_eq)
  moreover have "map je_seq (?x # es) = [Suc (jn_seq j)..<Suc (jn_seq j + length (item # items))]"
    using r(4) q(1) by (simp add: upt_conv_Cons del: upt_Suc)
  ultimately show ?case using r(2,3,5,6) q(2) item c by auto
qed

lemma split_on_line: "d \<notin> set l \<Longrightarrow> split_on d (l @ d # rest) = l # split_on d rest"
  by (induction l) auto

lemma parse_journal_text:
  assumes "json_lines plain stringify decode" and "\<forall>x \<in> set es. plain x"
  shows "parse_lines decode (filter (\<lambda>l. l \<noteq> []) (split_on newline (journal_text stringify es))) = Inr es"
  using assms(2)
proof (induction es)
  case (Cons x es)
  have x: "decode (stringify x) = Inr x" "stringify x \<noteq> []" "newline \<notin> set (stringify x)"
    using assms(1) Cons.prems by (simp_all add: json_lines_def)
  have "split_on newline (journal_text stringify (x # es)) = stringify x # split_on newline (journal_text stringify es)"
    using split_on_line [OF x(3)] by (simp add: journal_text_def)
  then show ?case using Cons x by simp
qed (simp add: journal_text_def)

lemma readAll_holds:
  assumes "disk_works e" and "json_lines plain stringify decode" and "\<forall>x \<in> set es. plain x"
    and "journal_holds e stringify es j"
  shows "fst (readAll e decode j) = Inr es"
proof (cases "map_get (dk_files (jn_disk j)) (de_resolve e (jn_path j))")
  case None
  then show ?thesis using assms(1,4)
    by (simp add: readAll_def or_else_def in_disk_def read_file_def disk_op_def disk_works_def
        journal_holds_def bind_a_eq)
next
  case (Some content)
  then show ?thesis using assms parse_journal_text [OF assms(2,3)]
    by (simp add: readAll_def or_else_def in_disk_def read_file_def disk_op_def disk_works_def
        journal_holds_def bind_a_eq)
qed

text \<open>
  C36. On a disk that works, a journal reads back everything appended to its file, by this process and
  by earlier ones, in order and unchanged. The sequence numbers count the appends of this process only:
  a journal opened on a file that has entries numbers its own from one again.
\<close>

theorem journal_reads_back:
  assumes "disk_works e" and "json_lines plain stringify decode" and "journal_holds e stringify old j"
    and "\<forall>x \<in> set old. plain x"
    and "\<And>i type payload n. (type, payload) \<in> set items \<Longrightarrow>
          plain \<lparr>je_seq = i, je_type = type, je_payload = payload, je_at = de_clock e n\<rparr>"
  shows "\<exists>es j'. journal_appends e stringify items j = (Inr es, j') \<and>
    fst (readAll e decode j') = Inr (old @ es) \<and>
    map (\<lambda>x. (je_type x, je_payload x)) es = items \<and>
    map je_seq es = [Suc (jn_seq j)..<Suc (jn_seq j + length items)]"
proof -
  from journal_appends_ok [OF assms(1,3), of items] obtain es j'
    where r: "journal_appends e stringify items j = (Inr es, j')" "journal_holds e stringify (old @ es) j'"
      "map je_seq es = [Suc (jn_seq j)..<Suc (jn_seq j + length items)]"
      "map (\<lambda>x. (je_type x, je_payload x)) es = items" "\<forall>x \<in> set es. \<exists>n. je_at x = de_clock e n" by blast
  have "plain x" if x: "x \<in> set es" for x
  proof -
    have "(je_type x, je_payload x) \<in> set items" using x r(4) by force
    moreover obtain n where "je_at x = de_clock e n" using x r(5) by blast
    ultimately show ?thesis using assms(5) [of "je_type x" "je_payload x" "je_seq x" n] by (cases x) simp
  qed
  then have "\<forall>x \<in> set (old @ es). plain x" using assms(4) by auto
  from readAll_holds [OF assms(1,2) this r(2)] r(1,3,4) show ?thesis by blast
qed

text \<open>One line that is no JSON text, such as the last one after a crash, and all entries are gone.\<close>

lemma journal_corrupt_line:
  assumes "map_get (dk_files (jn_disk j)) (de_resolve e (jn_path j)) = Some content"
    and "l \<in> set (split_on newline content)" and "l \<noteq> []" and "decode l = Inl er"
  shows "fst (readAll e decode j) = Inr []"
proof -
  have "\<exists>er. parse_lines decode ls = Inl er" if "l \<in> set ls" for ls
    using that assms(4) by (induction ls) (auto simp: bind_r_def split: sum.splits)
  then obtain er' where "parse_lines decode (filter (\<lambda>l. l \<noteq> []) (split_on newline content)) = Inl er'"
    using assms(2,3) by fastforce
  then show ?thesis using assms(1)
    by (auto simp: readAll_def or_else_def in_disk_def read_file_def disk_op_def bind_a_eq
        split: option.splits)
qed

lemma snapshot_reads_back:
  assumes "disk_works e" and "decode (stringify x) = Inr x"
  shows "\<exists>d'. snapshot_save e stringify path x d = (Inr (), d') \<and>
    fst (snapshot_load e decode path d') = Inr (Some x)"
  using assms
  by (auto simp: snapshot_save_def snapshot_load_def mkdir_parent_def write_file_def read_file_def
      disk_op_def disk_works_def or_else_def bind_a_eq)

subsection \<open>Configuration and migrations\<close>

lemma default_settings_ok: "settings_ok DEFAULT_CONFIG"
  by (simp add: settings_ok_def DEFAULT_CONFIG_def policy_ok_def)

lemma loaded_settings_ok:
  assumes "\<And>v c. check v = Inr c \<Longrightarrow> settings_ok c" and "loadConfig e decode check path d = (Inr c, d')"
  shows "settings_ok c"
  using assms default_settings_ok
  by (auto simp: loadConfig_def bind_a_eq split: option.splits sum.splits prod.splits)

lemma migrate_versions:
  "migrate None [] = (3, [1, 2, 3])"
  "migrate (Some t) [] = (nat (min 3 (max 0 t)), filter (\<lambda>v. v \<le> t) [1, 2, 3])"
  by (auto simp: migrate_def ALL_MIGRATIONS_def migration001_def migration002_def migration003_def set_add_def)

lemma migrate_loop_again:
  "sorted (map mg_version ms) \<Longrightarrow> migrate_loop target ms applied n = (k, applied') \<Longrightarrow>
     set applied' = set applied \<union> {v \<in> mg_version ` set ms. \<forall>t. target = Some t \<longrightarrow> v \<le> t}"
  by (induction target ms applied n rule: migrate_loop.induct)
    (auto simp: set_add_def split: if_splits option.splits)

lemma migrate_loop_idle:
  assumes "\<forall>m \<in> set ms. (\<forall>t. target = Some t \<longrightarrow> mg_version m \<le> t) \<longrightarrow> mg_version m \<in> set applied"
    and "sorted (map mg_version ms)"
  shows "migrate_loop target ms applied n = (n, applied)"
  using assms by (induction ms) (auto split: option.splits)

text \<open>Migrating again applies nothing.\<close>

lemma migrate_twice: "migrate target (snd (migrate target applied)) = (0, snd (migrate target applied))"
proof -
  have s: "sorted (map mg_version (sort_key mg_version ALL_MIGRATIONS))" by simp
  obtain k applied' where m: "migrate_loop target (sort_key mg_version ALL_MIGRATIONS) applied 0 = (k, applied')"
    by fastforce
  show ?thesis
    using migrate_loop_idle [OF _ s, of target applied' 0] migrate_loop_again [OF s m] m
    by (auto simp: migrate_def)
qed

subsection \<open>What an import accounts for\<close>

lemma job_register_outcome:
  assumes "parses_schema schema" and "times_positive m"
  shows "(\<exists>def. job_register schema (service_with m) now u input s = (Inr def, job_store_save def s) \<and>
            sound_job m def) \<or>
         (\<exists>er. job_register schema (service_with m) now u input s = (Inl er, s))"
proof (cases "schema input")
  case (Inl er)
  then show ?thesis by (simp add: job_register_def bind_a_def lift_r_def)
next
  case (Inr i)
  note r = registration_result [OF assms(1) Inr assms(2), of now u s]
  show ?thesis
  proof (cases "(\<forall>t \<in> set (ji_tasks i). registry_get m (td_handler t) \<noteq> None) \<and>
          tasks_ok (ji_tasks i) \<and> acyclic (depends (ji_tasks i))")
    case True
    then show ?thesis using r [unfolded if_P [OF True]] sound_capped by blast
  next
    case False
    then show ?thesis using r [unfolded if_not_P [OF False]] by blast
  qed
qed

text \<open>A file either leaves the store alone or adds one sound definition.\<close>

lemma import_file_outcome:
  assumes "parses_schema schema" and "times_positive m"
  shows "(\<exists>def d. import_file e decode schema (service_with m) uuids path s =
            (Inr def, \<lparr>im_jobs = job_store_save def (im_jobs s), im_disk = d\<rparr>) \<and> sound_job m def) \<or>
         (\<exists>er d. import_file e decode schema (service_with m) uuids path s = (Inl er, s\<lparr>im_disk := d\<rparr>))"
proof -
  let ?read = "bind_a (read_file e path) (\<lambda>content. bind_a (lift_r (decode content)) (\<lambda>raw.
      bind_a (disk_now e) (\<lambda>now. ret (raw, now))))"
  obtain x d where m: "?read (im_disk s) = (x, d)" by fastforce
  show ?thesis
  proof (cases x)
    case (Inl er)
    then show ?thesis using m by (auto simp: import_file_def)
  next
    case (Inr y)
    obtain raw now where y: "y = (raw, now)" by (cases y)
    show ?thesis
      using job_register_outcome [OF assms, of now "uuids (dk_reads d)" raw "im_jobs s"] m Inr y
      by (cases s) (auto simp: import_file_def)
  qed
qed

lemma import_each_outcome:
  assumes "parses_schema schema" and "times_positive m" and "sound_store m (im_jobs s)"
    and "import_each e decode schema (service_with m) uuids folder files result s = (result', s')"
    and "\<forall>i \<in> set (ir_imported result). job_store_get (im_jobs s) i \<noteq> None"
  shows "sound_store m (im_jobs s') \<and>
    (\<forall>i \<in> set (ir_imported result'). job_store_get (im_jobs s') i \<noteq> None) \<and>
    length (ir_imported result') + length (ir_failed result') =
      length (ir_imported result) + length (ir_failed result) + length (filter (ends_with ''.json'') files)"
  using assms(3-)
proof (induction files arbitrary: result s)
  case Nil
  then show ?case by simp
next
  case (Cons f files)
  show ?case
  proof (cases "ends_with ''.json'' f")
    case False
    then show ?thesis using Cons.IH [OF Cons.prems(1) _ Cons.prems(3)] Cons.prems(2) by simp
  next
    case True
    from import_file_outcome [OF assms(1,2), of e decode uuids "de_join e folder f" s]
    consider (ok) def d where "import_file e decode schema (service_with m) uuids (de_join e folder f) s =
          (Inr def, \<lparr>im_jobs = job_store_save def (im_jobs s), im_disk = d\<rparr>)" "sound_job m def"
      | (bad) er d where "import_file e decode schema (service_with m) uuids (de_join e folder f) s =
          (Inl er, s\<lparr>im_disk := d\<rparr>)" by blast
    then show ?thesis
    proof cases
      case ok
      let ?s = "\<lparr>im_jobs = job_store_save def (im_jobs s), im_disk = d\<rparr>"
      let ?r = "result\<lparr>ir_imported := ir_imported result @ [jd_id def]\<rparr>"
      have s: "sound_store m (im_jobs ?s)" using sound_store_save [OF Cons.prems(1) ok(2)] by simp
      have "store_ok jd_id (im_jobs s)" using Cons.prems(1) by (simp add: sound_store_def)
      then have i: "\<forall>i \<in> set (ir_imported ?r). job_store_get (im_jobs ?s) i \<noteq> None"
        using Cons.prems(3) jobs.get_save [of "im_jobs s" def] by auto
      have "import_each e decode schema (service_with m) uuids folder files ?r ?s = (result', s')"
        using Cons.prems(2) True ok(1) by simp
      from Cons.IH [OF s this i] True show ?thesis by simp
    next
      case bad
      let ?r = "result\<lparr>ir_failed := ir_failed result @ [\<lparr>if_file = f, if_error = error_text er\<rparr>]\<rparr>"
      have "import_each e decode schema (service_with m) uuids folder files ?r (s\<lparr>im_disk := d\<rparr>) = (result', s')"
        using Cons.prems(2) True bad by simp
      from Cons.IH [OF _ this] Cons.prems(1,3) True show ?thesis by simp
    qed
  qed
qed


subsection \<open>Instances\<close>

definition plain_disk :: disk_env where
  "plain_disk = \<lparr>de_fails = (\<lambda>n. None), de_resolve = (\<lambda>p. p), de_list = (\<lambda>d. Inr [''a.json'', ''b.txt'']),
     de_join = (\<lambda>d f. d @ ''/'' @ f), de_clock = (\<lambda>n. ''t0'')\<rparr>"

text \<open>A line format for entries without payload, enough for the instance below.\<close>

definition unary_line :: "file_entry \<Rightarrow> string" where
  "unary_line x = replicate (je_seq x) (CHR ''1'') @ (if je_type x = ''run'' then ''r'' else ''t'')"

definition unary_entry :: "string \<Rightarrow> file_entry res" where
  "unary_entry l =
     Inr \<lparr>je_seq = length l - 1, je_type = (if last l = CHR ''r'' then ''run'' else ''task''), je_payload = [],
          je_at = ''t0''\<rparr>"

definition unary_plain :: "file_entry \<Rightarrow> bool" where
  "unary_plain x \<longleftrightarrow> je_type x \<in> {''run'', ''task''} \<and> je_payload x = [] \<and> je_at x = ''t0''"

lemma unary_json: "json_lines unary_plain unary_line unary_entry"
  by (auto simp: json_lines_def unary_plain_def unary_line_def unary_entry_def newline_def)

definition empty_journal :: journal where
  "empty_journal = \<lparr>jn_path = ''log'', jn_seq = 0, jn_disk = \<lparr>dk_files = [], dk_ops = 0, dk_reads = 0\<rparr>\<rparr>"

theorem journal_reads_back_witness:
  "\<exists>es j'. journal_appends plain_disk unary_line [(''run'', []), (''task'', [])] empty_journal = (Inr es, j') \<and>
     fst (readAll plain_disk unary_entry j') = Inr es \<and> map je_seq es = [1, 2]"
proof -
  have "\<exists>es j'. journal_appends plain_disk unary_line [(''run'', []), (''task'', [])] empty_journal = (Inr es, j') \<and>
    fst (readAll plain_disk unary_entry j') = Inr ([] @ es) \<and>
    map (\<lambda>x. (je_type x, je_payload x)) es = [(''run'', []), (''task'', [])] \<and>
    map je_seq es = [Suc (jn_seq empty_journal)..<Suc (jn_seq empty_journal + length [(''run'', []), (''task'', [] :: jsobj)])]"
    by (rule journal_reads_back [OF _ unary_json])
      (auto simp: disk_works_def plain_disk_def journal_holds_def empty_journal_def unary_plain_def)
  then obtain es j' where j: "journal_appends plain_disk unary_line [(''run'', []), (''task'', [])] empty_journal = (Inr es, j')"
    "fst (readAll plain_disk unary_entry j') = Inr ([] @ es)"
    "map je_seq es = [Suc (jn_seq empty_journal)..<Suc (jn_seq empty_journal + length [(''run'', []), (''task'', [] :: jsobj)])]"
    by blast
  from j(3) have "map je_seq es = [1, 2]" by (simp add: empty_journal_def upt_rec)
  with j(1,2) show ?thesis by simp
qed


end
