(* ===== verification/Connectors.thy ===== *)
theory Connectors
  imports Implementations Files
begin

section \<open>Connectors, notifications, health, logging, object differences\<close>

text \<open>
  connectors/*.ts, notifications/*.ts, integrations/*.ts, health/dependency-check.ts, utils/logger.ts and
  lib/object-diff.ts: what the program says to other systems. The network, JSON and the clock are
  parameters; texts to others are built character by character as the code builds them.
\<close>

subsection \<open>encodeURIComponent\<close>

definition hex_digit :: "nat \<Rightarrow> char" where
  "hex_digit n = (if n < 10 then char_of (48 + n) else char_of (55 + n))"

definition percent :: "nat \<Rightarrow> string" where
  "percent b = [CHR ''%'', hex_digit (b div 16), hex_digit (b mod 16)]"

definition unreserved :: "char \<Rightarrow> bool" where
  "unreserved c \<longleftrightarrow>
     (let n = (of_char c :: nat)
      in 48 \<le> n \<and> n \<le> 57 \<or> 65 \<le> n \<and> n \<le> 90 \<or> 97 \<le> n \<and> n \<le> 122 \<or>
         c \<in> set ''-_.!~*()'' \<or> n = 39)"

text \<open>The characters of the model have one byte; above 127 their UTF-8 form has two.\<close>

definition encode_char :: "char \<Rightarrow> string" where
  "encode_char c =
     (let n = (of_char c :: nat)
      in if unreserved c then [c]
         else if n < 128 then percent n
         else percent (192 + n div 64) @ percent (128 + n mod 64))"

definition encodeURIComponent :: "string \<Rightarrow> string" where
  "encodeURIComponent s = concat (map encode_char s)"

subsection \<open>BaseConnector\<close>

record connector_config =
  cc_baseUrl :: string
  cc_apiKey :: "string option"
  cc_timeoutMs :: "nat option"
  cc_maxRetries :: "nat option"

record connector_call =
  cl_method :: string
  cl_url :: string
  cl_authorization :: "string option"
  cl_body :: "string option"
  cl_timeoutMs :: nat

record wire_reply =
  wy_ok :: bool
  wy_status :: int
  wy_statusText :: string

record 'a connector_response =
  cp_ok :: bool
  cp_status :: int
  cp_data :: "'a option"
  cp_error :: "string option"
  cp_latencyMs :: int

text \<open>
  The n-th fetch and the reading of its body either give something or throw; the abort of the timer is one
  way for them to throw. \<open>wr_now\<close> is \<^verbatim>\<open>Date.now()\<close>.
\<close>

record wire =
  wr_fetch :: "nat \<Rightarrow> connector_call \<Rightarrow> wire_reply res"
  wr_text :: "nat \<Rightarrow> string res"
  wr_now :: "nat \<Rightarrow> int"

record connection =
  cn_calls :: "connector_call list"
  cn_reads :: nat

definition base_url :: "string \<Rightarrow> string" where
  "base_url url = (if url \<noteq> [] \<and> last url = CHR ''/'' then butlast url else url)"

definition error_message :: "err \<Rightarrow> string" where
  "error_message er = err_message er"

definition connector_request ::
    "wire \<Rightarrow> connector_config \<Rightarrow> (string \<Rightarrow> 'a res) \<Rightarrow> string \<Rightarrow> string \<Rightarrow> string option \<Rightarrow> connection \<Rightarrow>
     'a connector_response \<times> connection" where
  "connector_request w cfg decode method path body s =
     (let start = wr_now w (cn_reads s);
          call = \<lparr>cl_method = method, cl_url = base_url (cc_baseUrl cfg) @ path,
                  cl_authorization = map_option (\<lambda>k. ''Bearer '' @ k) (given (cc_apiKey cfg)),
                  cl_body = body,
                  cl_timeoutMs = (case cc_timeoutMs cfg of Some n \<Rightarrow> n | None \<Rightarrow> 30000)\<rparr>;
          n = length (cn_calls s);
          latencyMs = wr_now w (Suc (cn_reads s)) - start;
          s' = \<lparr>cn_calls = cn_calls s @ [call], cn_reads = cn_reads s + 2\<rparr>
      in case wr_fetch w n call of
           Inl er \<Rightarrow>
             (\<lparr>cp_ok = False, cp_status = 0, cp_data = None, cp_error = Some (error_message er),
               cp_latencyMs = latencyMs\<rparr>, s')
         | Inr reply \<Rightarrow>
             (case wr_text w n of
                Inl er \<Rightarrow>
                  (\<lparr>cp_ok = False, cp_status = 0, cp_data = None, cp_error = Some (error_message er),
                    cp_latencyMs = wr_now w (cn_reads s + 2) - start\<rparr>, s'\<lparr>cn_reads := cn_reads s + 3\<rparr>)
              | Inr content \<Rightarrow>
                  if \<not> wy_ok reply
                  then (\<lparr>cp_ok = False, cp_status = wy_status reply, cp_data = None,
                         cp_error = Some (if content \<noteq> [] then content else wy_statusText reply),
                         cp_latencyMs = latencyMs\<rparr>, s')
                  else (\<lparr>cp_ok = True, cp_status = wy_status reply,
                         cp_data = (if content = [] then None
                                    else case decode content of Inr d \<Rightarrow> Some d | Inl er \<Rightarrow> None),
                         cp_error = None, cp_latencyMs = latencyMs\<rparr>, s')))"

definition connector_health :: "wire \<Rightarrow> connector_config \<Rightarrow> string \<Rightarrow> connection \<Rightarrow> bool \<times> connection" where
  "connector_health w cfg path s =
     (case connector_request w cfg (\<lambda>t. Inr t) ''GET'' path None s of (res, s') \<Rightarrow> (cp_ok res, s'))"

subsection \<open>NetSuite\<close>

definition netsuite_health :: "wire \<Rightarrow> connector_config \<Rightarrow> connection \<Rightarrow> bool \<times> connection" where
  "netsuite_health w cfg = connector_health w cfg ''/services/rest/record/v1/metadata-catalog''"

definition quote_mark :: string where
  "quote_mark = [CHR 0x22]"

definition invoices_path :: "string \<Rightarrow> string option \<Rightarrow> string" where
  "invoices_path subsidiaryId since =
     (let q = (case given since of
                 Some d \<Rightarrow> ''?q=lastModifiedDate ON OR AFTER '' @ quote_mark @ d @ quote_mark
               | None \<Rightarrow> [])
      in ''/services/rest/record/v1/invoice'' @ q @ ''&subsidiary='' @ subsidiaryId)"

text \<open>The decoder gives the \<^verbatim>\<open>items\<close> of the body, if it has any.\<close>

definition listOpenInvoices ::
    "wire \<Rightarrow> connector_config \<Rightarrow> (string \<Rightarrow> 'a list option res) \<Rightarrow> string \<Rightarrow> string option \<Rightarrow> connection \<Rightarrow>
     'a list \<times> connection" where
  "listOpenInvoices w cfg decode subsidiaryId since s =
     (case connector_request w cfg decode ''GET'' (invoices_path subsidiaryId since) None s of
        (res, s') \<Rightarrow>
          (if \<not> cp_ok res then []
           else case cp_data res of None \<Rightarrow> [] | Some items \<Rightarrow> (case items of Some xs \<Rightarrow> xs | None \<Rightarrow> []), s'))"

definition postJournalEntry ::
    "wire \<Rightarrow> connector_config \<Rightarrow> (string \<Rightarrow> 'a res) \<Rightarrow> ('b \<Rightarrow> string) \<Rightarrow> 'b \<Rightarrow> connection \<Rightarrow> 'a option \<times> connection" where
  "postJournalEntry w cfg decode stringify entry s =
     (case connector_request w cfg decode ''POST'' ''/services/rest/record/v1/journalEntry'' (Some (stringify entry)) s of
        (res, s') \<Rightarrow> (cp_data res, s'))"

definition getVendor ::
    "wire \<Rightarrow> connector_config \<Rightarrow> (string \<Rightarrow> 'a res) \<Rightarrow> string \<Rightarrow> connection \<Rightarrow> 'a connector_response \<times> connection" where
  "getVendor w cfg decode vendorId =
     connector_request w cfg decode ''GET'' (''/services/rest/record/v1/vendor/'' @ vendorId) None"

subsection \<open>Salesforce\<close>

definition salesforce_health :: "wire \<Rightarrow> connector_config \<Rightarrow> connection \<Rightarrow> bool \<times> connection" where
  "salesforce_health w cfg = connector_health w cfg ''/services/data/v58.0/limits''"

definition apostrophe :: string where
  "apostrophe = [CHR 0x27]"

definition accounts_query :: "string option \<Rightarrow> string" where
  "accounts_query industry =
     (case given industry of
        Some i \<Rightarrow> ''SELECT Id,Name,Industry,AnnualRevenue FROM Account WHERE Industry='' @ apostrophe @ i @
                  apostrophe @ '' LIMIT 200''
      | None \<Rightarrow> ''SELECT Id,Name,Industry,AnnualRevenue FROM Account LIMIT 200'')"

definition queryAccounts ::
    "wire \<Rightarrow> connector_config \<Rightarrow> (string \<Rightarrow> 'a list option res) \<Rightarrow> string option \<Rightarrow> connection \<Rightarrow>
     'a list \<times> connection" where
  "queryAccounts w cfg decode industry s =
     (case connector_request w cfg decode ''GET''
             (''/services/data/v58.0/query?q='' @ encodeURIComponent (accounts_query industry)) None s of
        (res, s') \<Rightarrow>
          (case cp_data res of Some (Some xs) \<Rightarrow> xs | _ \<Rightarrow> [], s'))"

definition upsertOpportunity ::
    "wire \<Rightarrow> connector_config \<Rightarrow> (string \<Rightarrow> 'a res) \<Rightarrow> ('b \<Rightarrow> string) \<Rightarrow> 'b \<Rightarrow> connection \<Rightarrow>
     'a connector_response \<times> connection" where
  "upsertOpportunity w cfg decode stringify payload =
     connector_request w cfg decode ''POST'' ''/services/data/v58.0/sobjects/Opportunity'' (Some (stringify payload))"

subsection \<open>SAP\<close>

definition sap_health :: "wire \<Rightarrow> connector_config \<Rightarrow> connection \<Rightarrow> bool \<times> connection" where
  "sap_health w cfg = connector_health w cfg ''/sap/opu/odata/sap/API_BUSINESS_PARTNER/$metadata''"

definition documents_filter :: "string \<Rightarrow> string \<Rightarrow> string \<Rightarrow> string" where
  "documents_filter companyCode fromDate toDate =
     ''CompanyCode eq '' @ apostrophe @ companyCode @ apostrophe @ '' and PostingDate ge datetime'' @ apostrophe @
     fromDate @ apostrophe @ '' and PostingDate le datetime'' @ apostrophe @ toDate @ apostrophe"

definition fetchAccountingDocuments ::
    "wire \<Rightarrow> connector_config \<Rightarrow> (string \<Rightarrow> 'a list option res) \<Rightarrow> string \<Rightarrow> string \<Rightarrow> string \<Rightarrow> connection \<Rightarrow>
     'a list \<times> connection" where
  "fetchAccountingDocuments w cfg decode companyCode fromDate toDate s =
     (case connector_request w cfg decode ''GET''
             (''/sap/opu/odata/sap/API_JOURNALENTRY_SRV/A_JournalEntryItem?'' @ encodeURIComponent ''$filter'' @
              ''='' @ encodeURIComponent (documents_filter companyCode fromDate toDate)) None s of
        (res, s') \<Rightarrow> (case cp_data res of Some (Some xs) \<Rightarrow> xs | _ \<Rightarrow> [], s'))"

record post_result =
  po_success :: bool
  po_documentNumber :: "string option"
  po_error :: "string option"

definition postClearing ::
    "wire \<Rightarrow> connector_config \<Rightarrow> (string \<Rightarrow> string option res) \<Rightarrow> ('b \<Rightarrow> string) \<Rightarrow> 'b \<Rightarrow> connection \<Rightarrow>
     post_result \<times> connection" where
  "postClearing w cfg decode stringify document s =
     (case connector_request w cfg decode ''POST'' ''/sap/opu/odata/sap/API_JOURNALENTRY_SRV/A_JournalEntry''
             (Some (stringify document)) s of
        (res, s') \<Rightarrow>
          (\<lparr>po_success = cp_ok res,
            po_documentNumber = (case cp_data res of Some d \<Rightarrow> d | None \<Rightarrow> None),
            po_error = cp_error res\<rparr>, s'))"

subsection \<open>Stripe\<close>

definition stripe_health :: "wire \<Rightarrow> connector_config \<Rightarrow> connection \<Rightarrow> bool \<times> connection" where
  "stripe_health w cfg = connector_health w cfg ''/v1/balance''"

definition listCharges ::
    "wire \<Rightarrow> connector_config \<Rightarrow> (string \<Rightarrow> 'a list option res) \<Rightarrow> int \<Rightarrow> int option \<Rightarrow> connection \<Rightarrow> 'a list \<times> connection" where
  "listCharges w cfg decode sinceUnix limit s =
     (case connector_request w cfg decode ''GET''
             (''/v1/charges?created[gte]='' @ show_int sinceUnix @ ''&limit='' @
              show_int (case limit of Some n \<Rightarrow> n | None \<Rightarrow> 100)) None s of
        (res, s') \<Rightarrow> (case cp_data res of Some (Some xs) \<Rightarrow> xs | _ \<Rightarrow> [], s'))"

definition refund_body :: "string \<Rightarrow> jsnum option \<Rightarrow> jsobj" where
  "refund_body chargeId amount =
     [(''charge'', VStr chargeId)] @ (case amount of Some n \<Rightarrow> [(''amount'', VNum n)] | None \<Rightarrow> [])"

definition createRefund ::
    "wire \<Rightarrow> connector_config \<Rightarrow> (string \<Rightarrow> 'a res) \<Rightarrow> (jsobj \<Rightarrow> string) \<Rightarrow> string \<Rightarrow> jsnum option \<Rightarrow> connection \<Rightarrow>
     'a option \<times> connection" where
  "createRefund w cfg decode stringify chargeId amount s =
     (case connector_request w cfg decode ''POST'' ''/v1/refunds'' (Some (stringify (refund_body chargeId amount))) s of
        (res, s') \<Rightarrow> (cp_data res, s'))"

definition getCustomer ::
    "wire \<Rightarrow> connector_config \<Rightarrow> (string \<Rightarrow> 'a res) \<Rightarrow> string \<Rightarrow> connection \<Rightarrow> 'a connector_response \<times> connection" where
  "getCustomer w cfg decode customerId =
     connector_request w cfg decode ''GET'' (''/v1/customers/'' @ customerId) None"

subsection \<open>Notifications and integrations\<close>

datatype note_severity = SInfo | SWarning | SCritical

record notification =
  nt_subject :: string
  nt_body :: string
  nt_severity :: note_severity
  nt_metadata :: jsobj

text \<open>A channel sends or fails to send, and may throw.\<close>

type_synonym 's channel = "notification \<Rightarrow> ('s, err, bool) act"

record email_config =
  em_from :: string
  em_smtpHost :: string
  em_enabled :: bool

text \<open>The e-mail channel only logs; \<open>logged\<close> collects what it logs at level info.\<close>

definition email_send :: "email_config \<Rightarrow> (string \<times> string \<times> string \<times> note_severity) list channel" where
  "email_send cfg message logged =
     (if \<not> em_enabled cfg then (Inr False, logged)
      else (Inr True, logged @ [(em_from cfg, em_smtpHost cfg, nt_subject message, nt_severity message)]))"

fun broadcast :: "'s channel list \<Rightarrow> notification \<Rightarrow> ('s, err, nat) act" where
  "broadcast [] message = ret 0"
| "broadcast (ch # chs) message =
     bind_a (ch message) (\<lambda>ok. bind_a (broadcast chs message) (\<lambda>n. ret (if ok then Suc n else n)))"

definition run_failure_message :: "string \<Rightarrow> string \<Rightarrow> string \<Rightarrow> notification" where
  "run_failure_message runId jobName reason =
     \<lparr>nt_subject = ''Run '' @ runId @ '' failed'', nt_body = reason, nt_severity = SCritical,
      nt_metadata = [(''runId'', VStr runId), (''jobName'', VStr jobName)]\<rparr>"

definition notifyRunFailure :: "'s channel list \<Rightarrow> string \<Rightarrow> string \<Rightarrow> string \<Rightarrow> ('s, err, nat) act" where
  "notifyRunFailure channels runId jobName reason = broadcast channels (run_failure_message runId jobName reason)"

text \<open>The bullet of the message is no character of the model and so an argument.\<close>

definition formatRunFailureMessage :: "string \<Rightarrow> string \<Rightarrow> string \<Rightarrow> string \<Rightarrow> jsval list" where
  "formatRunFailureMessage bullet runId jobName reason =
     [VObj (Fresh 0)
        [(''type'', VStr ''section''),
         (''text'', VObj (Fresh 0)
            [(''type'', VStr ''mrkdwn''),
             (''text'', VStr (''*Job run failed*'' @ [newline] @ bullet @ '' Run: `'' @ runId @ ''`'' @ [newline] @
                bullet @ '' Job: '' @ jobName @ [newline] @ bullet @ '' Reason: '' @ reason))])]]"

definition slack_text :: "jsobj \<Rightarrow> string \<Rightarrow> string \<Rightarrow> string res" where
  "slack_text metadata key fallback =
     bind_r (obj_get metadata key) (\<lambda>v. to_string (obj_or v (VStr fallback)))"

text \<open>\<open>post\<close> is the request with its body: whether it got a success status, or what it threw.\<close>

definition slack_send ::
    "string \<Rightarrow> (jsval \<Rightarrow> string) \<Rightarrow> (string \<Rightarrow> string \<Rightarrow> bool res) \<Rightarrow> string \<Rightarrow> (string \<times> string) list channel" where
  "slack_send bullet stringify post webhookUrl message sent =
     (case bind_r (slack_text (nt_metadata message) ''runId'' ''unknown'') (\<lambda>runId.
             bind_r (slack_text (nt_metadata message) ''jobName'' ''job'') (\<lambda>jobName. Inr (runId, jobName))) of
        Inl er \<Rightarrow> (Inl er, sent)
      | Inr (runId, jobName) \<Rightarrow>
          let body = stringify (VObj (Fresh 0)
                [(''blocks'', VArr (Fresh 0) (formatRunFailureMessage bullet runId jobName (nt_body message)))])
          in (case post webhookUrl body of Inl er \<Rightarrow> Inr False | Inr ok \<Rightarrow> Inr ok,
              sent @ [(webhookUrl, body)]))"

definition buildFailureEvent :: "string \<Rightarrow> string \<Rightarrow> string \<Rightarrow> jsval" where
  "buildFailureEvent runId jobId reason =
     VObj (Fresh 0)
       [(''routing_key'', VStr ''placeholder''), (''event_action'', VStr ''trigger''),
        (''payload'', VObj (Fresh 0)
           [(''summary'', VStr (''Jobflow run '' @ runId @ '' failed'')), (''severity'', VStr ''error''),
            (''source'', VStr ''jobflow-engine''),
            (''custom_details'', VObj (Fresh 0)
               [(''runId'', VStr runId), (''jobId'', VStr jobId), (''reason'', VStr reason)])])]"

subsection \<open>The logger\<close>

fun level_order :: "log_level \<Rightarrow> nat" where
  "level_order LDebug = 10"
| "level_order LInfo = 20"
| "level_order LWarn = 30"
| "level_order LError = 40"

fun level_name :: "log_level \<Rightarrow> string" where
  "level_name LDebug = ''debug''"
| "level_name LInfo = ''info''"
| "level_name LWarn = ''warn''"
| "level_name LError = ''error''"

record logger =
  lg_minLevel :: log_level
  lg_bindings :: jsobj

definition spread_into :: "jsobj \<Rightarrow> jsobj \<Rightarrow> jsobj" where
  "spread_into extra ob = fold (\<lambda>(k, v). map_set k v) extra ob"

datatype stream = Stdout | Stderr

text \<open>A line is the stream it goes to and the object it is the JSON text of.\<close>

definition createLogger :: "log_level \<Rightarrow> jsobj \<Rightarrow> logger" where
  "createLogger level bindings = \<lparr>lg_minLevel = level, lg_bindings = bindings\<rparr>"

definition log_line :: "logger \<Rightarrow> iso_date \<Rightarrow> log_level \<Rightarrow> string \<Rightarrow> jsobj \<Rightarrow> (stream \<times> jsobj) option" where
  "log_line lg now level msg meta =
     (if level_order level < level_order (lg_minLevel lg) then None
      else Some (if level = LError then Stderr else Stdout,
             spread_into meta (spread_into (lg_bindings lg)
               [(''ts'', VStr now), (''level'', VStr (level_name level)), (''msg'', VStr msg)])))"

definition log_child :: "logger \<Rightarrow> jsobj \<Rightarrow> logger" where
  "log_child lg b = createLogger (lg_minLevel lg) (spread_into b (spread_into (lg_bindings lg) []))"

subsection \<open>DependencyHealthCheck\<close>

record health_entry =
  he_ok :: bool
  he_latencyMs :: int

record health_result =
  hr_status :: string
  hr_checks :: "(string \<times> health_entry) list"

definition timed :: "(nat \<Rightarrow> int) \<Rightarrow> bool res \<Rightarrow> nat \<Rightarrow> health_entry \<times> nat" where
  "timed now r n =
     (\<lparr>he_ok = (case r of Inr ok \<Rightarrow> ok | Inl er \<Rightarrow> False), he_latencyMs = now (Suc n) - now n\<rparr>, n + 2)"

text \<open>The listings of the two stores are done for their success only.\<close>

definition health_run :: "(nat \<Rightarrow> int) \<Rightarrow> job_store \<Rightarrow> run_store \<Rightarrow> nat \<Rightarrow> health_result" where
  "health_run now jobs runs n =
     (case timed now (case job_store_list jobs of js \<Rightarrow> Inr True) n of (a, n1) \<Rightarrow>
      case timed now (case run_store_listActive runs of rs \<Rightarrow> Inr True) n1 of (b, n2) \<Rightarrow>
      let checks = [(''storage_jobs'', a), (''storage_runs'', b), (''clock'', \<lparr>he_ok = True, he_latencyMs = 0\<rparr>)]
      in \<lparr>hr_status = (if list_all (\<lambda>(k, c). he_ok c) checks then ''ok'' else ''degraded''), hr_checks = checks\<rparr>)"

subsection \<open>Object differences\<close>

datatype diff_op = DAdd | DRemove | DChange

record diff_entry_rec =
  de_path :: string
  de_op :: diff_op
  de_before :: "jsval option"
  de_after :: "jsval option"

lemma map_of_size:
  "map_of fs k = Some v \<Longrightarrow> size v < size_list (size_prod (\<lambda>x. 0) size) fs"
  by (induction fs) (auto split: if_splits)

lemma map_of_size_obj:
  "Some (VObj i gs) = map_of fs k \<Longrightarrow>
     size_list (size_prod (\<lambda>x. 0) size) gs < size_list (size_prod (\<lambda>x. 0) size) fs"
  using map_of_size [of fs k "VObj i gs"] by simp

text \<open>
  The keys of both objects in order, those of \<open>before\<close> first. Objects are own fields only:
  \<^verbatim>\<open>in\<close> also sees the names of the prototype, which are not followed. \<open>stringify\<close> is
  \<^verbatim>\<open>JSON.stringify\<close>.
\<close>

definition diff_path :: "string \<Rightarrow> string \<Rightarrow> string" where
  "diff_path prefix key = (if prefix \<noteq> [] then prefix @ ''.'' @ key else key)"

function diff_keys :: "(jsval \<Rightarrow> string) \<Rightarrow> jsobj \<Rightarrow> jsobj \<Rightarrow> string \<Rightarrow> string list \<Rightarrow> diff_entry_rec list" where
  "diff_keys stringify before after prefix [] = []"
| "diff_keys stringify before after prefix (key # keys) =
     (case (map_of before key, map_of after key) of
        (None, b) \<Rightarrow>
          [\<lparr>de_path = diff_path prefix key, de_op = DAdd, de_before = None, de_after = b\<rparr>]
      | (Some x, None) \<Rightarrow>
          [\<lparr>de_path = diff_path prefix key, de_op = DRemove, de_before = Some x, de_after = None\<rparr>]
      | (Some (VObj i fs), Some (VObj j gs)) \<Rightarrow>
          diff_keys stringify fs gs (diff_path prefix key) (set_from (map fst fs @ map fst gs))
      | (Some x, Some y) \<Rightarrow>
          (if stringify x = stringify y then []
           else [\<lparr>de_path = diff_path prefix key, de_op = DChange, de_before = Some x, de_after = Some y\<rparr>])) @
     diff_keys stringify before after prefix keys"
  by pat_completeness auto
termination
  by (relation "measures [\<lambda>(st, b, a, p, ks). size_list (size_prod (\<lambda>x. 0) size) b, \<lambda>(st, b, a, p, ks). length ks]")
    (auto dest: map_of_size_obj)

definition diffObjects :: "(jsval \<Rightarrow> string) \<Rightarrow> jsobj \<Rightarrow> jsobj \<Rightarrow> string \<Rightarrow> diff_entry_rec list" where
  "diffObjects stringify before after prefix =
     diff_keys stringify before after prefix (set_from (map fst before @ map fst after))"

subsection \<open>What connectors do\<close>

lemma connector_request_calls:
  "\<exists>call. cn_calls (snd (connector_request w cfg decode method path body s)) = cn_calls s @ [call] \<and>
     cl_url call = base_url (cc_baseUrl cfg) @ path \<and> cl_method call = method"
  by (simp add: connector_request_def Let_def split: sum.splits)

text \<open>A failing request is not repeated, whatever the configuration says about retries.\<close>

lemma connector_ignores_maxRetries:
  "connector_request w (cfg\<lparr>cc_maxRetries := m\<rparr>) decode method path body s =
     connector_request w cfg decode method path body s"
  by (simp add: connector_request_def)

lemma connector_ok_iff:
  "cp_ok (fst (connector_request w cfg decode method path body s)) \<longleftrightarrow>
     (let call = last (cn_calls (snd (connector_request w cfg decode method path body s))) in
      \<exists>reply t. wr_fetch w (length (cn_calls s)) call = Inr reply \<and> wy_ok reply \<and>
        wr_text w (length (cn_calls s)) = Inr t)"
  by (auto simp: connector_request_def Let_def split: sum.splits)

text \<open>Without a date the query has no question mark: the subsidiary becomes a part of the path.\<close>

lemma invoices_path_has_no_query:
  assumes "given since = None" and "CHR ''?'' \<notin> set subsidiaryId"
  shows "CHR ''?'' \<notin> set (invoices_path subsidiaryId since)"
  using assms by (simp add: invoices_path_def)

text \<open>The industry is put into the query as it is, quotes and all.\<close>

lemma accounts_query_injection:
  "accounts_query (Some (''x'' @ apostrophe @ '' OR Name LIKE '' @ apostrophe @ ''%'')) =
     ''SELECT Id,Name,Industry,AnnualRevenue FROM Account WHERE Industry='' @ apostrophe @ ''x'' @ apostrophe @
     '' OR Name LIKE '' @ apostrophe @ ''%'' @ apostrophe @ '' LIMIT 200''"
  by (simp add: accounts_query_def given_def)

lemma log_line_iff: "log_line lg now level msg meta \<noteq> None \<longleftrightarrow> level_order (lg_minLevel lg) \<le> level_order level"
  by (auto simp: log_line_def)

text \<open>The check lists two maps and asks no other system: it always says ok.\<close>

lemma health_always_ok: "hr_status (health_run now jobs runs n) = ''ok''"
  by (simp add: health_run_def timed_def Let_def)

subsection \<open>What a difference reports\<close>

lemma diff_keys_self:
  "set keys \<subseteq> fst ` set ob \<Longrightarrow> diff_keys stringify ob ob prefix keys = []"
proof (induction "size_list (size_prod (\<lambda>x. 0) size) ob" arbitrary: ob prefix keys rule: less_induct)
  case less
  from less.prems show ?case
  proof (induction keys)
    case (Cons key keys)
    then obtain v where v: "map_of ob key = Some v"
      by (metis insert_subset list.set(2) map_of_eq_None_iff option.exhaust)
    have tail: "diff_keys stringify ob ob prefix keys = []" using Cons by simp
    have inner: "diff_keys stringify fs fs (diff_path prefix key) (set_from (map fst fs @ map fst fs)) = []"
      if "v = VObj i fs" for i fs
      using less.hyps [of fs] map_of_size_obj [of i fs ob key] v that by (simp add: image_Un)
    show ?case using v tail inner by (simp split: jsval.splits)
  qed simp
qed

text \<open>An object has no differences to itself, and no differences means the same keys.\<close>

lemma diff_self: "diffObjects stringify ob ob prefix = []"
  unfolding diffObjects_def by (rule diff_keys_self) auto

lemma diff_keys_empty:
  "diff_keys stringify before after prefix keys = [] \<Longrightarrow> k \<in> set keys \<Longrightarrow>
     map_of before k \<noteq> None \<and> map_of after k \<noteq> None"
proof (induction keys)
  case (Cons key keys)
  have "map_of before key \<noteq> None"
  proof
    assume "map_of before key = None"
    then show False using Cons.prems(1) by simp
  qed
  moreover have "map_of after key \<noteq> None"
  proof
    assume a: "map_of after key = None"
    obtain x where "map_of before key = Some x" using calculation by blast
    then show False using Cons.prems(1) a by (cases x) simp_all
  qed
  ultimately show ?case using Cons by auto
qed simp

lemma diff_empty_same_keys:
  assumes "diffObjects stringify before after prefix = []"
  shows "fst ` set before = fst ` set after"
proof -
  have "map_of before k \<noteq> None \<and> map_of after k \<noteq> None" if "k \<in> fst ` set before \<union> fst ` set after" for k
    by (rule diff_keys_empty [OF assms [unfolded diffObjects_def]]) (use that in simp)
  then have "k \<in> fst ` set before \<and> k \<in> fst ` set after" if "k \<in> fst ` set before \<union> fst ` set after" for k
    using that unfolding map_of_eq_None_iff by blast
  then show ?thesis by blast
qed

end
