(* ===== verification/OpenApi.thy ===== *)
theory OpenApi
  imports Exposition JsValue
begin

section \<open>The OpenAPI document\<close>

text \<open>
  openapi/schemas.ts and openapi/spec.ts as JavaScript values, the routes the route files register,
  and how the two compare.
\<close>

definition ob :: "(string \<times> jsval) list \<Rightarrow> jsval" where
  "ob fs = VObj (Fresh 0) fs"

definition ar :: "jsval list \<Rightarrow> jsval" where
  "ar vs = VArr (Fresh 0) vs"

definition JOB_DEFINITION_SCHEMA :: jsval where
  "JOB_DEFINITION_SCHEMA =
    ob
      [(''type'', VStr ''object''),
       (''required'', ar [VStr ''id'', VStr ''name'', VStr ''version'', VStr ''tasks'']),
       (''properties'', ob
          [(''id'', ob [(''type'', VStr ''string'')]),
           (''name'', ob [(''type'', VStr ''string'')]),
           (''version'', ob [(''type'', VStr ''integer''), (''minimum'', VNum (Fin 1))]),
           (''description'', ob [(''type'', VStr ''string'')]),
           (''tasks'', ob
              [(''type'', VStr ''array''),
               (''items'', ob
                  [(''type'', VStr ''object''),
                   (''required'', ar [VStr ''id'', VStr ''name'', VStr ''handler'', VStr ''timeoutMs'']),
                   (''properties'', ob
                      [(''id'', ob [(''type'', VStr ''string'')]),
                       (''name'', ob [(''type'', VStr ''string'')]),
                       (''handler'', ob [(''type'', VStr ''string'')]),
                       (''timeoutMs'', ob [(''type'', VStr ''integer'')]),
                       (''optional'', ob [(''type'', VStr ''boolean'')]),
                       (''dependsOn'', ob [(''type'', VStr ''array''), (''items'', ob [(''type'', VStr ''string'')])])])])]),
           (''constraints'', ob
              [(''type'', VStr ''array''),
               (''items'', ob
                  [(''type'', VStr ''object''),
                   (''properties'', ob
                      [(''id'', ob [(''type'', VStr ''string'')]),
                       (''expression'', ob [(''type'', VStr ''string'')]),
                       (''severity'', ob [(''type'', VStr ''string''), (''enum'', ar [VStr ''warn'', VStr ''block''])])])])]),
           (''retryPolicy'', ob
              [(''type'', VStr ''object''),
               (''properties'', ob
                  [(''maxAttempts'', ob [(''type'', VStr ''integer'')]),
                   (''initialDelayMs'', ob [(''type'', VStr ''integer'')]),
                   (''backoffMultiplier'', ob [(''type'', VStr ''number'')]),
                   (''maxDelayMs'', ob [(''type'', VStr ''integer'')])])]),
           (''metadata'', ob
              [(''type'', VStr ''object''),
               (''additionalProperties'', ob [(''type'', VStr ''string'')])])])]"

definition WORKFLOW_INSTANCE_SCHEMA :: jsval where
  "WORKFLOW_INSTANCE_SCHEMA =
    ob
      [(''type'', VStr ''object''),
       (''properties'', ob
          [(''id'', ob [(''type'', VStr ''string'')]),
           (''jobId'', ob [(''type'', VStr ''string'')]),
           (''runId'', ob [(''type'', VStr ''string'')]),
           (''state'', ob
              [(''type'', VStr ''string''),
               (''enum'', ar [VStr ''draft'', VStr ''pending'', VStr ''running'', VStr ''waiting'', VStr ''completed'', VStr ''failed'', VStr ''cancelled'', VStr ''dead_lettered''])]),
           (''tasks'', ob [(''type'', VStr ''array'')]),
           (''history'', ob [(''type'', VStr ''array'')]),
           (''version'', ob [(''type'', VStr ''integer'')])])]"

definition ERROR_RESPONSE_SCHEMA :: jsval where
  "ERROR_RESPONSE_SCHEMA =
    ob
      [(''type'', VStr ''object''),
       (''properties'', ob [(''error'', ob [(''type'', VStr ''string'')]), (''code'', ob [(''type'', VStr ''string'')])])]"

definition OPENAPI_SPEC :: jsval where
  "OPENAPI_SPEC =
    ob
      [(''openapi'', VStr ''3.0.3''),
       (''info'', ob
          [(''title'', VStr ''Jobflow Engine API''),
           (''version'', VStr ''2.0.0''),
           (''description'', VStr ''Enterprise job processing and workflow orchestration HTTP API'')]),
       (''servers'', ar [ob [(''url'', VStr ''http://localhost:4100'')]]),
       (''paths'', ob
          [(''/health'', ob
              [(''get'', ob
                  [(''summary'', VStr ''Liveness probe''),
                   (''responses'', ob [(''200'', ob [(''description'', VStr ''OK'')])])])]),
           (''/metrics'', ob
              [(''get'', ob
                  [(''summary'', VStr ''Prometheus metrics''),
                   (''responses'', ob [(''200'', ob [(''description'', VStr ''text/plain'')])])])]),
           (''/jobs'', ob
              [(''get'', ob [(''summary'', VStr ''List job definitions'')]),
               (''post'', ob [(''summary'', VStr ''Register job definition'')])]),
           (''/jobs/{jobId}'', ob [(''get'', ob [(''summary'', VStr ''Get job definition'')])]),
           (''/jobs/{jobId}/runs'', ob [(''post'', ob [(''summary'', VStr ''Start asynchronous run'')])]),
           (''/runs/{runId}'', ob [(''get'', ob [(''summary'', VStr ''Get workflow instance state'')])]),
           (''/runs/{runId}/execute'', ob [(''post'', ob [(''summary'', VStr ''Drive execution to completion'')])]),
           (''/runs/{runId}/export.csv'', ob [(''get'', ob [(''summary'', VStr ''Export run task grid as CSV'')])]),
           (''/schedules'', ob
              [(''get'', ob [(''summary'', VStr ''List cron schedules'')]),
               (''post'', ob [(''summary'', VStr ''Create schedule'')])]),
           (''/webhooks'', ob [(''post'', ob [(''summary'', VStr ''Register webhook endpoint'')])]),
           (''/v2/templates'', ob [(''get'', ob [(''summary'', VStr ''List workflow templates'')])]),
           (''/v2/templates/{id}/instantiate'', ob [(''post'', ob [(''summary'', VStr ''Instantiate template as job'')])]),
           (''/v2/batch'', ob [(''post'', ob [(''summary'', VStr ''Execute batch manifest'')])]),
           (''/admin/dead-letter'', ob [(''get'', ob [(''summary'', VStr ''List dead letter queue'')])]),
           (''/admin/audit'', ob [(''get'', ob [(''summary'', VStr ''Query audit trail'')])])]),
       (''components'', ob
          [(''securitySchemes'', ob
              [(''bearerAuth'', ob
                  [(''type'', VStr ''http''),
                   (''scheme'', VStr ''bearer''),
                   (''bearerFormat'', VStr ''API key'')])])])]"

definition ALL_SCHEMAS :: jsval where
  "ALL_SCHEMAS =
    ob [(''JobDefinition'', JOB_DEFINITION_SCHEMA), (''WorkflowInstance'', WORKFLOW_INSTANCE_SCHEMA),
        (''ErrorResponse'', ERROR_RESPONSE_SCHEMA)]"

text \<open>\<open>stringify\<close> is \<^verbatim>\<open>JSON.stringify(value, null, 2)\<close>.\<close>

definition openApiJson :: "(jsval \<Rightarrow> string) \<Rightarrow> string" where
  "openApiJson stringify = stringify OPENAPI_SPEC"

subsection \<open>What is routed and what is documented\<close>

text \<open>The methods and patterns of the seven route files, in the order of registration.\<close>

definition ROUTES :: "(string \<times> string) list" where
  "ROUTES =
     [(''get'', ''/health''), (''get'', ''/jobs''), (''post'', ''/jobs''), (''get'', ''/jobs/:jobId''),
      (''post'', ''/jobs/:jobId/runs''), (''get'', ''/runs/:runId''), (''post'', ''/runs/:runId/execute''),
      (''get'', ''/runs/:runId/export.csv''),
      (''get'', ''/schedules''), (''post'', ''/schedules''),
      (''post'', ''/webhooks''),
      (''get'', ''/openapi.json''), (''get'', ''/metrics''), (''get'', ''/admin/dead-letter''),
      (''get'', ''/admin/webhook-deliveries''), (''get'', ''/admin/audit''), (''get'', ''/admin/handlers''),
      (''post'', ''/api/v1/dsl/compile''),
      (''get'', ''/api/v1/runs/:runId/analytics''), (''get'', ''/api/v1/metrics/series''),
      (''get'', ''/v2/templates''), (''post'', ''/v2/templates/:id/instantiate''), (''post'', ''/v2/batch''),
      (''get'', ''/v2/jobs/:jobId/runs''), (''post'', ''/v2/runs/:runId/replay''), (''post'', ''/v2/import/jobs'')]"

fun obj_fields :: "jsval \<Rightarrow> (string \<times> jsval) list" where
  "obj_fields (VObj a fs) = fs"
| "obj_fields v = []"

text \<open>The methods and paths of the document.\<close>

definition documented :: "(string \<times> string) list" where
  "documented =
     (case map_of (obj_fields OPENAPI_SPEC) ''paths'' of
        Some v \<Rightarrow> concat (map (\<lambda>(path, ops). map (\<lambda>(m, d). (m, path)) (obj_fields ops)) (obj_fields v))
      | None \<Rightarrow> [])"

text \<open>\<^verbatim>\<open>/jobs/:jobId\<close> is written \<^verbatim>\<open>/jobs/{jobId}\<close> in the document.\<close>

definition template_path :: "string \<Rightarrow> string" where
  "template_path p =
     join ''/'' (map (\<lambda>seg. if take 1 seg = '':'' then ''{'' @ tl seg @ ''}'' else seg) (split_on (CHR ''/'') p))"

text \<open>Everything documented is routed; nine routes are not documented.\<close>

lemma documented_is_routed:
  "list_all (\<lambda>(m, p). (m, p) \<in> set (map (\<lambda>(m, p). (m, template_path p)) ROUTES)) documented"
  by code_simp

lemma undocumented_routes:
  "filter (\<lambda>(m, p). (m, template_path p) \<notin> set documented) ROUTES =
     [(''get'', ''/openapi.json''), (''get'', ''/admin/webhook-deliveries''), (''get'', ''/admin/handlers''),
      (''post'', ''/api/v1/dsl/compile''), (''get'', ''/api/v1/runs/:runId/analytics''),
      (''get'', ''/api/v1/metrics/series''), (''get'', ''/v2/jobs/:jobId/runs''),
      (''post'', ''/v2/runs/:runId/replay''), (''post'', ''/v2/import/jobs'')]"
  by code_simp

text \<open>The states of the document are the states of the code.\<close>

lemma documented_states:
  "map_of (obj_fields (the (map_of (obj_fields (the (map_of (obj_fields WORKFLOW_INSTANCE_SCHEMA) ''properties''))) ''state''))) ''enum'' =
     Some (ar (map (\<lambda>s. VStr (workflow_state_str s))
       [Draft, Pending, Running, Waiting, Completed, Failed, Cancelled, DeadLettered]))"
  by (simp add: WORKFLOW_INSTANCE_SCHEMA_def ob_def ar_def)

end
