(* ===== verification/Api.thy ===== *)
theory Api
  imports OpenApi Reporting Files Security Cron Catalog Replay Dsl
begin

section \<open>The HTTP interface and the composed system\<close>

text \<open>
  container.ts, app.ts, api/*.ts, api/v2/routes.ts, middleware/request-context.ts,
  validators/webhook-validator.ts, services/dsl-service.ts and services/batch-service.ts: the
  state of the whole server, one action per route, the hooks around them, and a step relation whose
  steps are a request, a started execution, a tick of the schedule and a delivery of an event. A step runs to its end before the
  next one starts.
\<close>

subsection \<open>Routes and requests\<close>

datatype core_route =
    Health | ListJobs | RegisterJob | GetJob job_id | StartRun job_id | GetRun run_id | ExecuteRun run_id
  | ExportRun run_id

datatype admin_route = OpenApiDoc | Metrics | DeadLetters | WebhookDeliveries | Audit | HandlerList

datatype v2_route =
    Templates | InstantiateTemplate string | RunBatch | JobRuns job_id | ReplayRun run_id | ImportJobs

datatype route =
    Core core_route
  | Admin admin_route
  | ListSchedules
  | CreateSchedule
  | CreateWebhook
  | CompileDsl
  | RunAnalytics run_id
  | MetricSeries
  | V2 v2_route

text \<open>The patterns the routes are registered under.\<close>

fun core_pattern :: "core_route \<Rightarrow> string" where
  "core_pattern Health = ''/health''"
| "core_pattern ListJobs = ''/jobs''"
| "core_pattern RegisterJob = ''/jobs''"
| "core_pattern (GetJob i) = ''/jobs/:jobId''"
| "core_pattern (StartRun i) = ''/jobs/:jobId/runs''"
| "core_pattern (GetRun r) = ''/runs/:runId''"
| "core_pattern (ExecuteRun r) = ''/runs/:runId/execute''"
| "core_pattern (ExportRun r) = ''/runs/:runId/export.csv''"

fun admin_pattern :: "admin_route \<Rightarrow> string" where
  "admin_pattern OpenApiDoc = ''/openapi.json''"
| "admin_pattern Metrics = ''/metrics''"
| "admin_pattern DeadLetters = ''/admin/dead-letter''"
| "admin_pattern WebhookDeliveries = ''/admin/webhook-deliveries''"
| "admin_pattern Audit = ''/admin/audit''"
| "admin_pattern HandlerList = ''/admin/handlers''"

fun v2_pattern :: "v2_route \<Rightarrow> string" where
  "v2_pattern Templates = ''/v2/templates''"
| "v2_pattern (InstantiateTemplate i) = ''/v2/templates/:id/instantiate''"
| "v2_pattern RunBatch = ''/v2/batch''"
| "v2_pattern (JobRuns i) = ''/v2/jobs/:jobId/runs''"
| "v2_pattern (ReplayRun r) = ''/v2/runs/:runId/replay''"
| "v2_pattern ImportJobs = ''/v2/import/jobs''"

fun route_pattern :: "route \<Rightarrow> string" where
  "route_pattern (Core r) = core_pattern r"
| "route_pattern (Admin r) = admin_pattern r"
| "route_pattern ListSchedules = ''/schedules''"
| "route_pattern CreateSchedule = ''/schedules''"
| "route_pattern CreateWebhook = ''/webhooks''"
| "route_pattern CompileDsl = ''/api/v1/dsl/compile''"
| "route_pattern (RunAnalytics r) = ''/api/v1/runs/:runId/analytics''"
| "route_pattern MetricSeries = ''/api/v1/metrics/series''"
| "route_pattern (V2 r) = v2_pattern r"

lemma patterns_are_registered: "route_pattern r \<in> set (map snd ROUTES)"
proof (cases r)
  case (Core c)
  then show ?thesis by (cases c) (simp_all add: ROUTES_def)
next
  case (Admin c)
  then show ?thesis by (cases c) (simp_all add: ROUTES_def)
next
  case (V2 c)
  then show ?thesis by (cases c) (simp_all add: ROUTES_def)
qed (simp_all add: ROUTES_def)

record request =
  rq_url :: string
  rq_route :: route
  rq_ip :: string
  rq_authorization :: "string option"
  rq_requestId :: "string option"
  rq_query :: "(string \<times> string) list"
  rq_body :: jsval

definition url_path :: "string \<Rightarrow> string" where
  "url_path url = hd (split_on (CHR ''?'') url)"

text \<open>The router sends a path only to a pattern it matches, segment by segment.\<close>

definition matches_pattern :: "string \<Rightarrow> string \<Rightarrow> bool" where
  "matches_pattern pattern path \<longleftrightarrow>
     list_all2 (\<lambda>seg s. if take 1 seg = '':'' then s \<noteq> [] else s = seg)
       (split_on (CHR ''/'') pattern) (split_on (CHR ''/'') path)"

definition routed :: "request \<Rightarrow> bool" where
  "routed rq \<longleftrightarrow> matches_pattern (route_pattern (rq_route rq)) (url_path (rq_url rq))"

definition requestId :: "string \<Rightarrow> request \<Rightarrow> string" where
  "requestId u rq = (case rq_requestId rq of Some i \<Rightarrow> i | None \<Rightarrow> u)"

subsection \<open>Replies\<close>

datatype payload =
    PHealth
  | PJobs "(job_id \<times> string \<times> int) list"
  | PJob job_definition
  | PRun job_run string
  | PWorkflow workflow_instance
  | PText string string
  | PDeadLetters "dead_letter_entry page_result"
  | PDeliveries "webhook_delivery list"
  | PAudit "audit_record list"
  | PHandlers "handler_manifest list"
  | PSchedules "cron_schedule list"
  | PSchedule cron_schedule
  | PEndpoint webhook_endpoint string
  | PAnalytics run_analytics
  | PSeries string "ts_point list"
  | PNoSeries
  | PTemplates "(string \<times> string \<times> string \<times> template_parameter list) list"
  | PRuns "job_run page_result"
  | PDiff workflow_diff
  | PImport import_result
  | PProgress batch_progress
  | PError string "string option"

record reply =
  rp_status :: nat
  rp_body :: payload

definition answer :: "nat \<Rightarrow> payload \<Rightarrow> reply" where
  "answer status body = \<lparr>rp_status = status, rp_body = body\<rparr>"

subsection \<open>The server\<close>

record app =
  ap_cron :: cron_system
  ap_pending :: "run_id list"
  ap_registry :: handler_registry
  ap_webhooks :: webhook_store_map
  ap_deliveries :: delivery_map
  ap_sent :: delivery_state
  ap_audit :: "audit_record list"
  ap_series :: ts_buffer
  ap_keys :: "api_key list"
  ap_buckets :: "(string, bucket) jsmap"
  ap_tenants :: "(string, tenant_context) jsmap"
  ap_pool :: worker_pool
  ap_progress :: "(string, batch_progress) jsmap"
  ap_checkpoints :: checkpoints
  ap_breakers :: "(string, breaker) jsmap"
  ap_plugins :: "(string, plugin_manifest) jsmap"
  ap_applied :: "int jsset"
  ap_disk :: disk

abbreviation ap_engine :: "app \<Rightarrow> engine" where
  "ap_engine s \<equiv> cy_engine (ap_cron s)"

text \<open>
  What is outside: the environments of the engine, the schedules, the disk and the webhooks, the simulator, the fuel of
  parser and execution, the schema library on request bodies and on definitions, JSON, the URL parser
  (protocol and host name), the key hash, the locale's comparison, random keys, JSON text and the
  variable \<^verbatim>\<open>JOBFLOW_AUTH_DISABLED\<close>.
\<close>

record api_env =
  ae_env :: env
  ae_sched :: sched_env
  ae_disk :: disk_env
  ae_delivery :: delivery_env
  ae_sim :: simulator
  ae_fuel :: nat
  ae_schema :: schema
  ae_typed :: "job_definition \<Rightarrow> job_input res"
  ae_json :: "string \<Rightarrow> jsval res"
  ae_manifest :: "jsval \<Rightarrow> loaded_manifest res"
  ae_url :: "string \<Rightarrow> (string \<times> string) option"
  ae_hash :: "string \<Rightarrow> string"
  ae_compare :: "string \<Rightarrow> string \<Rightarrow> int"
  ae_key :: "nat \<Rightarrow> string"
  ae_stringify :: "jsval \<Rightarrow> string"
  ae_authDisabled :: "string option"

type_synonym 'a serving = "(app, err, 'a) act"

definition in_cron :: "'a cron \<Rightarrow> 'a serving" where
  "in_cron m s = (case m (ap_cron s) of (r, c) \<Rightarrow> (r, s\<lparr>ap_cron := c\<rparr>))"

definition in_eng :: "'a eng \<Rightarrow> 'a serving" where
  "in_eng m = in_cron (in_engine m)"

definition in_jobs :: "(job_store, err, 'a) act \<Rightarrow> 'a serving" where
  "in_jobs m = in_eng (\<lambda>en. case m (en_jobs en) of (r, js) \<Rightarrow> (r, en\<lparr>en_jobs := js\<rparr>))"

definition env_now :: "api_env \<Rightarrow> iso_date serving" where
  "env_now a = in_eng (with_env (read_env (clk (ae_env a))))"

definition env_uuid :: "api_env \<Rightarrow> string serving" where
  "env_uuid a = in_eng (with_env (read_env (uuid (ae_env a))))"

text \<open>An action that may not end, on the engine.\<close>

definition eng_option :: "(engine \<Rightarrow> ('a res \<times> engine) option) \<Rightarrow> app \<Rightarrow> ('a res \<times> app) option" where
  "eng_option m s =
     map_option (\<lambda>(r, en). (r, s\<lparr>ap_cron := (ap_cron s)\<lparr>cy_engine := en\<rparr>\<rparr>)) (m (ap_engine s))"

subsection \<open>Bodies and queries\<close>

text \<open>
  Fields of a body as the routes declare them; a value of another type, which the code would carry on with,
  is not followed.
\<close>

definition text_field :: "jsval \<Rightarrow> string \<Rightarrow> string res" where
  "text_field body p =
     bind_r (row_get body p) (\<lambda>v. case v of VStr s \<Rightarrow> Inr s | _ \<Rightarrow> Inl (Unmodelled p))"

definition opt_text_field :: "jsval \<Rightarrow> string \<Rightarrow> string option res" where
  "opt_text_field body p =
     bind_r (row_get body p) (\<lambda>v. case v of VStr s \<Rightarrow> Inr (Some s) | VUndef \<Rightarrow> Inr None | _ \<Rightarrow> Inl (Unmodelled p))"

definition opt_object_field :: "jsval \<Rightarrow> string \<Rightarrow> jsobj option res" where
  "opt_object_field body p =
     bind_r (row_get body p) (\<lambda>v. case v of VObj i fs \<Rightarrow> Inr (Some fs) | VUndef \<Rightarrow> Inr None | _ \<Rightarrow> Inl (Unmodelled p))"

definition or_empty :: "jsval \<Rightarrow> jsval" where
  "or_empty body = obj_or body (VObj (Fresh 0) [])"

definition query_num :: "request \<Rightarrow> string \<Rightarrow> rat \<Rightarrow> jsnum" where
  "query_num rq p d = (case map_of (rq_query rq) p of Some s \<Rightarrow> str_to_num s | None \<Rightarrow> Fin d)"

fun as_params :: "(string \<times> jsval) list \<Rightarrow> params res" where
  "as_params [] = Inr []"
| "as_params ((k, v) # fs) =
     bind_r (case v of VStr s \<Rightarrow> Inr s | _ \<Rightarrow> Inl (Unmodelled k)) (\<lambda>s.
     bind_r (as_params fs) (\<lambda>ps. Inr ((k, s) # ps)))"

definition webhook_event_of :: "jsval \<Rightarrow> webhook_event res" where
  "webhook_event_of v =
     (case v of
        VStr s \<Rightarrow>
          if s = ''run.started'' then Inr WRunStarted
          else if s = ''run.completed'' then Inr WRunCompleted
          else if s = ''run.failed'' then Inr WRunFailed
          else if s = ''run.dead_lettered'' then Inr WRunDeadLettered
          else if s = ''task.failed'' then Inr WTaskFailed
          else Inl (Unmodelled s)
      | _ \<Rightarrow> Inl (Unmodelled ''event''))"

fun webhook_events_of :: "jsval list \<Rightarrow> webhook_event list res" where
  "webhook_events_of [] = Inr []"
| "webhook_events_of (v # vs) =
     bind_r (webhook_event_of v) (\<lambda>x. bind_r (webhook_events_of vs) (\<lambda>xs. Inr (x # xs)))"

definition events_field :: "jsval \<Rightarrow> webhook_event list res" where
  "events_field body =
     bind_r (row_get body ''events'') (\<lambda>v. case v of VArr i vs \<Rightarrow> webhook_events_of vs | _ \<Rightarrow> Inl (Unmodelled ''events''))"

subsection \<open>The webhook validator\<close>

definition validateUrl :: "(string \<Rightarrow> (string \<times> string) option) \<Rightarrow> string \<Rightarrow> unit res" where
  "validateUrl parse_url url =
     (case parse_url url of
        None \<Rightarrow> Inl (ValidationError ''invalid webhook url'' [])
      | Some (protocol, hostname) \<Rightarrow>
          if protocol \<notin> {''https:'', ''http:''} then Inl (ValidationError ''webhook url must be http(s)'' [])
          else if hostname = ''localhost'' \<or> hostname = ''127.0.0.1''
          then Inl (ValidationError ''webhook url cannot target loopback in production configs'' [])
          else Inr ())"

subsection \<open>api/routes.ts\<close>

definition serve_run :: "run_id \<Rightarrow> (workflow_instance \<Rightarrow> payload) \<Rightarrow> reply serving" where
  "serve_run r body = bind_a (in_eng (getWorkflowByRun r)) (\<lambda>w. ret (answer 200 (body w)))"

definition start_run :: "api_env \<Rightarrow> request \<Rightarrow> job_id \<Rightarrow> reply serving" where
  "start_run a rq i =
     (let body = or_empty (rq_body rq) in
      bind_a (lift_r (opt_text_field body ''trigger'')) (\<lambda>trigger.
      bind_a (lift_r (opt_object_field body ''input'')) (\<lambda>input.
      bind_a (in_eng (createRun (ae_env a) i
          (case trigger of Some t \<Rightarrow> t | None \<Rightarrow> ''api'') (case input of Some fs \<Rightarrow> fs | None \<Rightarrow> [])))
        (\<lambda>(run, workflow, definition).
      bind_a (writes (\<lambda>s. s\<lparr>ap_pending := ap_pending s @ [jr_id run]\<rparr>)) (\<lambda>u.
        ret (answer 202 (PRun run (wf_id workflow))))))))"

text \<open>The clock and a fresh id are read before each registration; the id is used when a job has none.\<close>

definition register_with :: "api_env \<Rightarrow> schema \<Rightarrow> jsval \<Rightarrow> job_definition serving" where
  "register_with a schema input =
     bind_a (env_now a) (\<lambda>now.
     bind_a (env_uuid a) (\<lambda>u.
     bind_a (reads ap_registry) (\<lambda>m.
       in_jobs (job_register schema (service_with m) now u input))))"

definition core_reply :: "api_env \<Rightarrow> request \<Rightarrow> core_route \<Rightarrow> app \<Rightarrow> (reply res \<times> app) option" where
  "core_reply a rq r s =
     (case r of
        Health \<Rightarrow> Some (ret (answer 200 PHealth) s)
      | ListJobs \<Rightarrow>
          Some (bind_a (in_jobs job_service_list) (\<lambda>js.
            ret (answer 200 (PJobs (map (\<lambda>j. (jd_id j, jd_name j, jd_version j)) js)))) s)
      | RegisterJob \<Rightarrow>
          Some (bind_a (register_with a (ae_schema a) (rq_body rq)) (\<lambda>def. ret (answer 201 (PJob def))) s)
      | GetJob i \<Rightarrow> Some (bind_a (in_jobs (job_service_get i)) (\<lambda>def. ret (answer 200 (PJob def))) s)
      | StartRun i \<Rightarrow> Some (start_run a rq i s)
      | GetRun i \<Rightarrow> Some (serve_run i PWorkflow s)
      | ExecuteRun i \<Rightarrow>
          map_option (\<lambda>(x, s'). case x of
              Inl er \<Rightarrow> (Inl er, s')
            | Inr u \<Rightarrow> serve_run i PWorkflow s')
            (eng_option (executeRun (ae_env a) (ae_sim a) (ae_fuel a) i) s)
      | ExportRun i \<Rightarrow> Some (serve_run i (\<lambda>w. PText ''text/csv'' (toCsv w)) s))"

subsection \<open>api/admin-routes.ts\<close>

text \<open>\<^verbatim>\<open>entries.slice(-limit)\<close> for any number\<close>

definition slice_last :: "jsnum \<Rightarrow> 'a list \<Rightarrow> 'a list" where
  "slice_last limit xs = drop (slice_bound (length xs) (num_neg limit)) xs"

definition admin_reply :: "api_env \<Rightarrow> string option \<Rightarrow> request \<Rightarrow> admin_route \<Rightarrow> reply serving" where
  "admin_reply a tenant rq r =
     (case r of
        OpenApiDoc \<Rightarrow> ret (answer 200 (PText ''application/json'' (openApiJson (ae_stringify a))))
      | Metrics \<Rightarrow>
          bind_a (reads (\<lambda>s. bus_metrics (en_bus (ap_engine s)))) (\<lambda>m.
            ret (answer 200 (PText ''text/plain; version=0.0.4'' (formatPrometheus m))))
      | DeadLetters \<Rightarrow>
          bind_a (reads (\<lambda>s. slice_last (query_num rq ''limit'' 50) (en_dead (ap_engine s)))) (\<lambda>items.
            ret (answer 200 (PDeadLetters (paginate items
              \<lparr>pr_page = Fin 1, pr_pageSize = to_double (of_nat (length items))\<rparr>))))
      | WebhookDeliveries \<Rightarrow>
          bind_a (reads (\<lambda>s. delivery_list 100 (ap_deliveries s))) (\<lambda>items. ret (answer 200 (PDeliveries items)))
      | Audit \<Rightarrow>
          bind_a (reads (\<lambda>s. audit_service_query
              \<lparr>af_tenantId = tenant, af_resourceType = map_of (rq_query rq) ''resourceType'',
               af_resourceId = map_of (rq_query rq) ''resourceId'', af_since = None,
               af_limit = Some (query_num rq ''limit'' 50)\<rparr> (ap_audit s))) (\<lambda>items.
            ret (answer 200 (PAudit items)))
      | HandlerList \<Rightarrow>
          bind_a (reads (\<lambda>s. registry_list (ap_registry s) (map_of (rq_query rq) ''tag''))) (\<lambda>hs.
            ret (answer 200 (PHandlers hs))))"

subsection \<open>api/schedule-routes.ts and api/webhook-routes.ts\<close>

definition list_schedules :: "string \<Rightarrow> reply serving" where
  "list_schedules tenant =
     bind_a (in_cron (service_listByTenant tenant)) (\<lambda>items. ret (answer 200 (PSchedules items)))"

definition create_schedule :: "api_env \<Rightarrow> string \<Rightarrow> request \<Rightarrow> reply serving" where
  "create_schedule a tenant rq =
     bind_a (lift_r (text_field (rq_body rq) ''jobId'')) (\<lambda>i.
     bind_a (lift_r (text_field (rq_body rq) ''cronExpression'')) (\<lambda>expression.
     bind_a (lift_r (opt_text_field (rq_body rq) ''timezone'')) (\<lambda>timezone.
     bind_a (lift_r (opt_object_field (rq_body rq) ''defaultInput'')) (\<lambda>input.
     bind_a (in_cron (schedule_create (ae_sched a) tenant i expression timezone input)) (\<lambda>schedule.
       ret (answer 201 (PSchedule schedule)))))))"

definition create_webhook :: "api_env \<Rightarrow> string \<Rightarrow> request \<Rightarrow> reply serving" where
  "create_webhook a tenant rq =
     bind_a (lift_r (text_field (rq_body rq) ''url'')) (\<lambda>url.
     bind_a (lift_r (validateUrl (ae_url a) url)) (\<lambda>valid.
     bind_a (lift_r (events_field (rq_body rq))) (\<lambda>events.
     bind_a (in_cron (cron_read (ae_key a))) (\<lambda>raw.
     bind_a (env_uuid a) (\<lambda>u.
     bind_a (env_now a) (\<lambda>created.
     bind_a (reads ap_webhooks) (\<lambda>m.
     case webhook_register raw u created tenant url events m of
       ((endpoint, plain), m') \<Rightarrow>
         bind_a (writes (\<lambda>s. s\<lparr>ap_webhooks := m'\<rparr>)) (\<lambda>w.
           ret (answer 201 (PEndpoint endpoint plain)))))))))) "

subsection \<open>services/dsl-service.ts, api/dsl-routes.ts and api/analytics-routes.ts\<close>

definition compileAndRegister ::
    "api_env \<Rightarrow> string \<Rightarrow> string option \<Rightarrow> app \<Rightarrow> (job_definition res \<times> app) option" where
  "compileAndRegister a source jobId s =
     (case env_now a s of
        (Inl er, s1) \<Rightarrow> Some (Inl er, s1)
      | (Inr now, s1) \<Rightarrow>
          map_option (\<lambda>r. case r of
              Inl er \<Rightarrow> (Inl er, s1)
            | Inr def \<Rightarrow> register_with a (\<lambda>v. ae_typed a def) VUndef s1)
            (dsl_compile (ae_fuel a) source jobId now))"

definition compile_dsl :: "api_env \<Rightarrow> request \<Rightarrow> app \<Rightarrow> (reply res \<times> app) option" where
  "compile_dsl a rq s =
     (let body = or_empty (rq_body rq) in
      case bind_r (row_get body ''source'') (\<lambda>v. bind_r (opt_text_field body ''jobId'') (\<lambda>i. Inr (v, i))) of
        Inl er \<Rightarrow> Some (Inl er, s)
      | Inr (v, jobId) \<Rightarrow>
          (case v of
             VStr source \<Rightarrow>
               if source = [] then Some (Inr (answer 400 (PError ''source required'' None)), s)
               else map_option (\<lambda>(r, s'). (bind_r r (\<lambda>def. Inr (answer 200 (PJob def))), s'))
                      (compileAndRegister a source jobId s)
           | _ \<Rightarrow> Some (Inr (answer 400 (PError ''source required'' None)), s)))"

definition run_analytics_reply :: "api_env \<Rightarrow> run_id \<Rightarrow> reply serving" where
  "run_analytics_reply a r s =
     (case summarizeRun (ae_env a) r \<lparr>an_engine = ap_engine s, an_series = ap_series s\<rparr> of
        (x, an) \<Rightarrow>
          (bind_r x (\<lambda>summary. Inr (answer 200 (PAnalytics summary))),
           s\<lparr>ap_cron := (ap_cron s)\<lparr>cy_engine := an_engine an\<rparr>, ap_series := an_series an\<rparr>))"

definition metric_series :: "request \<Rightarrow> reply serving" where
  "metric_series rq =
     (case given (map_of (rq_query rq) ''name'') of
        None \<Rightarrow> ret (answer 200 PNoSeries)
      | Some name \<Rightarrow>
          bind_a (reads (\<lambda>s. ts_get name (map_of (rq_query rq) ''since'') (ap_series s))) (\<lambda>(n, ps).
            ret (answer 200 (PSeries n ps))))"

subsection \<open>api/v2/routes.ts\<close>

text \<open>A status that is no state of a workflow matches no run.\<close>

definition job_runs :: "api_env \<Rightarrow> request \<Rightarrow> job_id \<Rightarrow> run_store \<Rightarrow> job_run page_result" where
  "job_runs a rq i m =
     (let flt = (\<lambda>ss. \<lparr>rf_status = ss, rf_jobId = None, rf_triggerPrefix = None, rf_since = None, rf_until = None\<rparr>);
          page = \<lparr>pr_page = query_num rq ''page'' 1, pr_pageSize = query_num rq ''pageSize'' 20\<rparr>
      in case given (map_of (rq_query rq) ''status'') of
           None \<Rightarrow> search_runs (ae_compare a) m i (flt None) page
         | Some st \<Rightarrow>
             (case filter (\<lambda>x. workflow_state_str x = st)
                     [Draft, Pending, Running, Waiting, Completed, Failed, Cancelled, DeadLettered] of
                [] \<Rightarrow> search_runs (ae_compare a) [] i (flt None) page
              | ss \<Rightarrow> search_runs (ae_compare a) m i (flt (Some ss)) page))"

definition import_jobs :: "api_env \<Rightarrow> request \<Rightarrow> reply serving" where
  "import_jobs a rq =
     bind_a (lift_r (text_field (rq_body rq) ''directory'')) (\<lambda>dir s.
       case importDirectory (ae_disk a) (ae_json a) (ae_schema a) (service_with (ap_registry s)) (uuid (ae_env a)) dir
              \<lparr>im_jobs = en_jobs (ap_engine s), im_disk = ap_disk s\<rparr> of
         (r, im) \<Rightarrow>
           (bind_r r (\<lambda>result. Inr (answer 200 (PImport result))),
            s\<lparr>ap_cron := (ap_cron s)\<lparr>cy_engine := (ap_engine s)\<lparr>en_jobs := im_jobs im\<rparr>\<rparr>, ap_disk := im_disk im\<rparr>))"

definition instantiate_template :: "api_env \<Rightarrow> request \<Rightarrow> string \<Rightarrow> reply serving" where
  "instantiate_template a rq i =
     bind_a (lift_r (case or_empty (rq_body rq) of VObj x fs \<Rightarrow> as_params fs | _ \<Rightarrow> Inl (Unmodelled ''body''))) (\<lambda>ps.
     bind_a (env_now a) (\<lambda>now.
     bind_a (lift_r (instantiate i ps now)) (\<lambda>def.
     bind_a (register_with a (\<lambda>v. ae_typed a def) VUndef) (\<lambda>registered. ret (answer 201 (PJob registered))))))"

text \<open>The batch route is a step of its own below.\<close>

definition v2_reply :: "api_env \<Rightarrow> request \<Rightarrow> v2_route \<Rightarrow> app \<Rightarrow> (reply res \<times> app) option" where
  "v2_reply a rq r s =
     (case r of
        Templates \<Rightarrow>
          Some (ret (answer 200 (PTemplates
            (map (\<lambda>t. (wt_id t, wt_name t, wt_category t, wt_parameters t)) WORKFLOW_TEMPLATES))) s)
      | InstantiateTemplate i \<Rightarrow> Some (instantiate_template a rq i s)
      | RunBatch \<Rightarrow> None
      | JobRuns i \<Rightarrow>
          Some (bind_a (reads (\<lambda>s. job_runs a rq i (en_runs (ap_engine s)))) (\<lambda>page.
            ret (answer 200 (PRuns page))) s)
      | ReplayRun i \<Rightarrow>
          map_option (\<lambda>(x, s'). (bind_r x (\<lambda>d. Inr (answer 200 (PDiff d))), s'))
            (eng_option (replay (ae_env a) (ae_sim a) (ae_fuel a) i) s)
      | ImportJobs \<Rightarrow> Some (import_jobs a rq s))"

subsection \<open>Hooks, routes, errors\<close>

text \<open>Both hooks run before the handler, the rate limit first.\<close>

definition hooks :: "api_env \<Rightarrow> request \<Rightarrow> app \<Rightarrow> (reply + string option) \<times> app" where
  "hooks a rq s =
     (case rate_hook 120 (rq_ip rq) (se_now (ae_sched a) (cy_reads (ap_cron s))) (ap_buckets s) of
        (ok, buckets) \<Rightarrow>
          (let s1 = s\<lparr>ap_cron := (ap_cron s)\<lparr>cy_reads := Suc (cy_reads (ap_cron s))\<rparr>, ap_buckets := buckets\<rparr> in
           if \<not> ok then (Inl (answer 429 (PError ''rate limit exceeded'' None)), s1)
           else case auth_hook (ae_hash a) (ae_authDisabled a) (rq_url rq) (rq_authorization rq) (ap_keys s1) of
                  Reply status msg \<Rightarrow> (Inl (answer status (PError msg None)), s1)
                | Proceed tenant \<Rightarrow> (Inr tenant, s1)))"

definition tenant_or_none :: "string option \<Rightarrow> string" where
  "tenant_or_none t = (case t of Some i \<Rightarrow> i | None \<Rightarrow> [])"

definition route_reply :: "api_env \<Rightarrow> string option \<Rightarrow> request \<Rightarrow> app \<Rightarrow> (reply res \<times> app) option" where
  "route_reply a tenant rq s =
     (case rq_route rq of
        Core r \<Rightarrow> core_reply a rq r s
      | Admin r \<Rightarrow> Some (admin_reply a tenant rq r s)
      | ListSchedules \<Rightarrow> Some (list_schedules (tenant_or_none tenant) s)
      | CreateSchedule \<Rightarrow> Some (create_schedule a (tenant_or_none tenant) rq s)
      | CreateWebhook \<Rightarrow> Some (create_webhook a (tenant_or_none tenant) rq s)
      | CompileDsl \<Rightarrow> compile_dsl a rq s
      | RunAnalytics r \<Rightarrow> Some (run_analytics_reply a r s)
      | MetricSeries \<Rightarrow> Some (metric_series rq s)
      | V2 r \<Rightarrow> v2_reply a rq r s)"

definition error_answer :: "err \<Rightarrow> reply" where
  "error_answer er =
     (let r = error_handler er in answer (reply_status r) (PError (reply_error r) (Some (reply_code r))))"

definition settle :: "reply res \<Rightarrow> reply" where
  "settle r = (case r of Inl er \<Rightarrow> error_answer er | Inr rep \<Rightarrow> rep)"

definition handle :: "api_env \<Rightarrow> request \<Rightarrow> app \<Rightarrow> (reply \<times> app) option" where
  "handle a rq s =
     (case hooks a rq s of
        (Inl rep, s1) \<Rightarrow> Some (rep, s1)
      | (Inr tenant, s1) \<Rightarrow> map_option (\<lambda>(r, s2). (settle r, s2)) (route_reply a tenant rq s1))"

subsection \<open>Batches, the background and the clock\<close>

definition batch_request :: "api_env \<Rightarrow> request \<Rightarrow> app \<Rightarrow> (reply + batch_manifest) \<times> app" where
  "batch_request a rq s =
     (case hooks a rq s of
        (Inl rep, s1) \<Rightarrow> (Inl rep, s1)
      | (Inr tenant, s1) \<Rightarrow>
          (case text_field (rq_body rq) ''manifestPath'' of
             Inl er \<Rightarrow> (Inl (error_answer er), s1)
           | Inr path \<Rightarrow>
               (case loadBatchManifest (ae_disk a) (ae_json a) (ae_manifest a) path (ap_disk s1) of
                  (Inl er, d) \<Rightarrow> (Inl (error_answer er), s1\<lparr>ap_disk := d\<rparr>)
                | (Inr manifest, d) \<Rightarrow> (Inr manifest, s1\<lparr>ap_disk := d\<rparr>))))"

definition batch_done :: "batch_state \<Rightarrow> app \<Rightarrow> app" where
  "batch_done b s =
     s\<lparr>ap_cron := (ap_cron s)\<lparr>cy_engine := bs_engine b\<rparr>, ap_pool := bs_pool b, ap_progress := bs_progress b\<rparr>"

definition serve_progress :: "string \<Rightarrow> app \<Rightarrow> batch_progress option" where
  "serve_progress i s = map_get (ap_progress s) i"

text \<open>What a tick starts is executed in the background, as what a request starts.\<close>

definition tick_step :: "api_env \<Rightarrow> app \<Rightarrow> app" where
  "tick_step a s =
     (case tick (ae_env a) (ae_sched a) (ap_cron s) of
        (r, c) \<Rightarrow> s\<lparr>ap_cron := c,
                    ap_pending := ap_pending s @ drop (length (cy_started (ap_cron s))) (cy_started c)\<rparr>)"

text \<open>
  The container's second subscriber: an event in the outbox of the bus is sent to the webhooks of the
  development tenant, with three attempts each; the e-mail channel it notifies of a failure only logs.
\<close>

definition deliver_step :: "api_env \<Rightarrow> string \<Rightarrow> run_id \<Rightarrow> (string \<times> run_id) list \<Rightarrow> app \<Rightarrow> app" where
  "deliver_step a type r rest s =
     (case webhook_emit (ae_delivery a) 3 (ap_webhooks s) ''tenant_dev''
             (if type = ''run.failed'' then WRunFailed else WRunCompleted) [(''runId'', VStr r)]
             (ap_deliveries s, ap_sent s) of
        (m, sent) \<Rightarrow>
          s\<lparr>ap_deliveries := m, ap_sent := sent,
            ap_cron := (ap_cron s)\<lparr>cy_engine := (ap_engine s)\<lparr>en_bus := (en_bus (ap_engine s))\<lparr>bus_outbox := rest\<rparr>\<rparr>\<rparr>\<rparr>)"

datatype happening = Served request reply | Worked run_id | Ticked | Delivered string run_id

inductive api_step :: "api_env \<Rightarrow> app \<Rightarrow> happening \<Rightarrow> app \<Rightarrow> bool" for a where
  serve: "rq_route rq \<noteq> V2 RunBatch \<Longrightarrow> handle a rq s = Some (rep, s') \<Longrightarrow> api_step a s (Served rq rep) s'"
| refuse: "rq_route rq = V2 RunBatch \<Longrightarrow> batch_request a rq s = (Inl rep, s') \<Longrightarrow> api_step a s (Served rq rep) s'"
| batch: "rq_route rq = V2 RunBatch \<Longrightarrow> batch_request a rq s = (Inr manifest, s1) \<Longrightarrow>
    (batch_step (ae_env a) (ae_sim a))\<^sup>*\<^sup>* (batch_start manifest (ap_progress s1) (ap_pool s1) (ap_engine s1)) b \<Longrightarrow>
    batch_returned b \<Longrightarrow>
    api_step a s (Served rq (answer 202 (PProgress (bs_state b)))) (batch_done b s1)"
| work: "ap_pending s = p @ r # q \<Longrightarrow>
    eng_option (executeRun (ae_env a) (ae_sim a) (ae_fuel a) r) s = Some (x, s1) \<Longrightarrow>
    api_step a s (Worked r) (s1\<lparr>ap_pending := p @ q\<rparr>)"
| tick: "api_step a s Ticked (tick_step a s)"
| deliver: "bus_outbox (en_bus (ap_engine s)) = (type, r) # rest \<Longrightarrow>
    api_step a s (Delivered type r) (deliver_step a type r rest s)"

inductive_cases api_stepE: "api_step a s h s'"

inductive api_trace :: "api_env \<Rightarrow> app \<Rightarrow> happening list \<Rightarrow> app \<Rightarrow> bool" for a where
  idle: "api_trace a s [] s"
| step: "api_step a s h s1 \<Longrightarrow> api_trace a s1 hs s2 \<Longrightarrow> api_trace a s (h # hs) s2"

subsection \<open>The container and the start of the server\<close>

text \<open>
  The initial state of every component the container builds; the handlers, the state machine, the planner
  and the like have no state. The disk is what is there.
\<close>

definition createContainer :: "settings \<Rightarrow> disk \<Rightarrow> app" where
  "createContainer config d =
     \<lparr>ap_cron = \<lparr>cy_engine = engine_empty, cy_schedules = [], cy_reads = 0, cy_started = []\<rparr>,
      ap_pending = [], ap_registry = registry_new, ap_webhooks = [], ap_deliveries = [], ap_sent = \<lparr>ds_reads = 0, ds_posts = []\<rparr>, ap_audit = [],
      ap_series = [], ap_keys = [], ap_buckets = [],
      ap_tenants = snd (tenant_register ''tenant_dev'' ''development'' []),
      ap_pool = pool_new (st_workerConcurrency config), ap_progress = [], ap_checkpoints = [],
      ap_breakers = [], ap_plugins = [], ap_applied = [], ap_disk = d\<rparr>"

definition bootstrap ::
    "disk_env \<Rightarrow> (string \<Rightarrow> jsval res) \<Rightarrow> (jsval \<Rightarrow> string + settings) \<Rightarrow> string option \<Rightarrow> disk \<Rightarrow> app res" where
  "bootstrap e decode check path d =
     (case loadConfig e decode check path d of
        (Inl er, d1) \<Rightarrow> Inl er
      | (Inr config, d1) \<Rightarrow>
          let s = createContainer config d1;
              s = s\<lparr>ap_applied := snd (migrate None (ap_applied s))\<rparr>
          in bind_r (fst (in_jobs seedIfEmpty s)) (\<lambda>n. Inr (snd (in_jobs seedIfEmpty s))))"

text \<open>The process: the server it starts, or what it reports before it exits with status 1.\<close>

definition start_process ::
    "disk_env \<Rightarrow> (string \<Rightarrow> jsval res) \<Rightarrow> (jsval \<Rightarrow> string + settings) \<Rightarrow> (string \<times> string) list \<Rightarrow> disk \<Rightarrow> jsobj + app" where
  "start_process e decode check environment d =
     (case bootstrap e decode check (map_of environment ''JOBFLOW_CONFIG'') d of
        Inl er \<Rightarrow> Inl [(''level'', VStr ''error''), (''msg'', VStr ''fatal''), (''err'', VStr (error_text er))]
      | Inr s \<Rightarrow> Inr s)"

subsection \<open>A server without keys\<close>

text \<open>What a step may change on a server nobody can use: the rate limiter and the reads of the clock.\<close>

definition meter :: "nat \<Rightarrow> (string, bucket) jsmap \<Rightarrow> app \<Rightarrow> app" where
  "meter n b s = s\<lparr>ap_cron := (ap_cron s)\<lparr>cy_reads := n\<rparr>, ap_buckets := b\<rparr>"

definition metered :: "app \<Rightarrow> app \<Rightarrow> bool" where
  "metered s s' \<longleftrightarrow> (\<exists>n b. s' = meter n b s)"

definition keyless :: "app \<Rightarrow> bool" where
  "keyless s \<longleftrightarrow>
     ap_keys s = [] \<and> cy_schedules (ap_cron s) = [] \<and> ap_pending s = [] \<and> bus_outbox (en_bus (ap_engine s)) = []"

lemma meter_same: "meter (cy_reads (ap_cron s)) (ap_buckets s) s = s"
  by (simp add: meter_def)

lemma metered_refl [simp]: "metered s s"
  unfolding metered_def using meter_same [of s] by metis

lemma meter_meter: "meter n b (meter n' b' s) = meter n b s"
  by (simp add: meter_def)

lemma metered_trans: "metered s s1 \<Longrightarrow> metered s1 s2 \<Longrightarrow> metered s s2"
  unfolding metered_def using meter_meter by metis

lemma metered_keyless: "metered s s' \<Longrightarrow> keyless s \<Longrightarrow> keyless s'"
  unfolding metered_def keyless_def by (auto simp: meter_def)

lemma hooks_meter:
  assumes "hooks a rq s = (x, s1)"
  shows "\<exists>b. s1 = meter (Suc (cy_reads (ap_cron s))) b s"
  using assms unfolding hooks_def Let_def
  by (auto simp: meter_def split: prod.splits if_splits hook_reply.splits)

lemma hooks_metered: "hooks a rq s = (x, s1) \<Longrightarrow> metered s s1"
  using hooks_meter unfolding metered_def by blast

lemma authenticate_no_keys: "authenticate h header [] \<noteq> Inr x"
  by (simp add: authenticate_def findByPrefix_def Let_def split: option.splits)

lemma auth_hook_no_keys:
  assumes "disabled \<noteq> Some ''1''" and "url_path url \<notin> set PUBLIC_PATHS"
  shows "auth_hook h disabled url header [] = Reply 401 ''unauthorized''"
proof -
  obtain er where "authenticate h header [] = Inl er"
    using authenticate_no_keys [of h header] by (cases "authenticate h header []") auto
  then show ?thesis using assms by (simp add: auth_hook_def url_path_def)
qed

lemma hooks_no_keys:
  assumes "ap_keys s = []" and "ae_authDisabled a \<noteq> Some ''1''" and "hooks a rq s = (x, s1)"
    and "url_path (rq_url rq) \<notin> set PUBLIC_PATHS"
  shows "\<exists>rep. x = Inl rep \<and> rp_status rep \<in> {401, 429}"
proof -
  obtain ok buckets where r: "rate_hook 120 (rq_ip rq) (se_now (ae_sched a) (cy_reads (ap_cron s))) (ap_buckets s) =
      (ok, buckets)" by fastforce
  then show ?thesis
    using assms(1,3) auth_hook_no_keys [OF assms(2,4)] by (auto simp: hooks_def Let_def answer_def split: if_splits)
qed

lemma public_route:
  assumes "routed rq" and "url_path (rq_url rq) \<in> set PUBLIC_PATHS"
  shows "rq_route rq \<in> {Core Health, Admin OpenApiDoc, Admin Metrics}"
proof -
  have "split_on (CHR ''/'') (url_path (rq_url rq)) \<in> {[[], ''health''], [[], ''metrics''], [[], ''openapi.json'']}"
    using assms(2) by (auto simp: PUBLIC_PATHS_def)
  moreover have "list_all2 (\<lambda>seg s. if take 1 seg = '':'' then s \<noteq> [] else s = seg)
      (split_on (CHR ''/'') (route_pattern (rq_route rq))) (split_on (CHR ''/'') (url_path (rq_url rq)))"
    using assms(1) by (simp add: routed_def matches_pattern_def)
  ultimately obtain p where "list_all2 (\<lambda>seg s. if take 1 seg = '':'' then s \<noteq> [] else s = seg)
      (split_on (CHR ''/'') (route_pattern (rq_route rq))) [[], p]"
    and p: "p \<in> {''health'', ''metrics'', ''openapi.json''}" by auto
  then have m: "\<exists>z. split_on (CHR ''/'') (route_pattern (rq_route rq)) = [z, p] \<or>
      take 1 (last (split_on (CHR ''/'') (route_pattern (rq_route rq)))) = '':'' \<and>
      length (split_on (CHR ''/'') (route_pattern (rq_route rq))) = 2"
    by (auto simp: list_all2_Cons2 split: if_splits)
  show ?thesis
  proof (cases "rq_route rq")
    case (Core r)
    then show ?thesis using m p by (cases r) auto
  next
    case (Admin r)
    then show ?thesis using m p by (cases r) auto
  next
    case (V2 r)
    then show ?thesis using m p by (cases r) auto
  qed (use m p in auto)
qed

lemma handle_private:
  assumes "ap_keys s = []" and "ae_authDisabled a \<noteq> Some ''1''" and "handle a rq s = Some (rep, s')"
    and "url_path (rq_url rq) \<notin> set PUBLIC_PATHS"
  shows "metered s s' \<and> rp_status rep \<in> {401, 429}"
proof -
  obtain x s1 where h: "hooks a rq s = (x, s1)" by fastforce
  from hooks_no_keys [OF assms(1,2) h assms(4)] obtain r where r: "x = Inl r" "rp_status r \<in> {401, 429}" by blast
  have "rep = r" "s' = s1" using assms(3) h r(1) by (simp_all add: handle_def)
  then show ?thesis using r(2) hooks_metered [OF h] by simp
qed

lemma handle_public:
  assumes "rq_route rq \<in> {Core Health, Admin OpenApiDoc, Admin Metrics}" and "handle a rq s = Some (rep, s')"
  shows "metered s s'"
proof -
  obtain x s1 where h: "hooks a rq s = (x, s1)" by fastforce
  have "s' = s1"
    using assms h
    by (auto simp: handle_def route_reply_def core_reply_def admin_reply_def split: sum.splits)
  then show ?thesis using hooks_metered [OF h] by simp
qed

lemma batch_request_private:
  assumes "ap_keys s = []" and "ae_authDisabled a \<noteq> Some ''1''" and "batch_request a rq s = (x, s')"
    and "url_path (rq_url rq) \<notin> set PUBLIC_PATHS"
  shows "metered s s' \<and> (\<exists>rep. x = Inl rep \<and> rp_status rep \<in> {401, 429})"
proof -
  obtain y s1 where h: "hooks a rq s = (y, s1)" by fastforce
  from hooks_no_keys [OF assms(1,2) h assms(4)] obtain r where "y = Inl r" "rp_status r \<in> {401, 429}" by blast
  then show ?thesis using assms(3) h hooks_metered [OF h] by (auto simp: batch_request_def)
qed

lemma tick_idle:
  assumes "cy_schedules (ap_cron s) = []" shows "metered s (tick_step a s)"
proof -
  have "tick_step a s = meter (Suc (cy_reads (ap_cron s))) (ap_buckets s) s"
    using assms
    by (simp add: tick_step_def tick_def dueSchedules_def schedule_listEnabled_def cron_read_def bind_a_eq meter_def)
  then show ?thesis unfolding metered_def by blast
qed

lemma keyless_step:
  assumes "keyless s" and "ae_authDisabled a \<noteq> Some ''1''" and "api_step a s h s'"
    and r: "\<forall>rq rep. h = Served rq rep \<longrightarrow> routed rq"
  shows "metered s s' \<and>
    (\<forall>rq rep. h = Served rq rep \<longrightarrow> url_path (rq_url rq) \<notin> set PUBLIC_PATHS \<longrightarrow> rp_status rep \<in> {401, 429})"
  using assms(3)
proof (cases rule: api_step.cases)
  case (serve rq rep)
  show ?thesis
  proof (cases "url_path (rq_url rq) \<in> set PUBLIC_PATHS")
    case True
    then show ?thesis using serve handle_public public_route [OF _ True] r by auto
  next
    case False
    then show ?thesis using serve handle_private [OF _ assms(2)] assms(1) by (auto simp: keyless_def)
  qed
next
  case (refuse rq rep)
  then have "url_path (rq_url rq) \<notin> set PUBLIC_PATHS" using public_route [of rq] r by force
  then show ?thesis using refuse batch_request_private [OF _ assms(2)] assms(1) by (fastforce simp: keyless_def)
next
  case (batch rq manifest s1 b)
  then have "url_path (rq_url rq) \<notin> set PUBLIC_PATHS" using public_route [of rq] r by force
  then show ?thesis using batch batch_request_private [OF _ assms(2)] assms(1) by (fastforce simp: keyless_def)
next
  case (work p r q x s1)
  then show ?thesis using assms(1) by (simp add: keyless_def)
next
  case tick
  then show ?thesis using tick_idle assms(1) by (simp add: keyless_def)
next
  case (deliver type r rest)
  then show ?thesis using assms(1) by (simp add: keyless_def)
qed

lemma keyless_trace:
  assumes "api_trace a s hs s'" and "keyless s" and "ae_authDisabled a \<noteq> Some ''1''"
    and "\<forall>rq rep. Served rq rep \<in> set hs \<longrightarrow> routed rq"
  shows "metered s s' \<and>
    (\<forall>rq rep. Served rq rep \<in> set hs \<longrightarrow> url_path (rq_url rq) \<notin> set PUBLIC_PATHS \<longrightarrow> rp_status rep \<in> {401, 429})"
  using assms(1,2,4)
proof (induction rule: api_trace.induct)
  case (idle s)
  then show ?case by simp
next
  case (step s h s1 hs s2)
  have a: "metered s s1 \<and>
    (\<forall>rq rep. h = Served rq rep \<longrightarrow> url_path (rq_url rq) \<notin> set PUBLIC_PATHS \<longrightarrow> rp_status rep \<in> {401, 429})"
    by (rule keyless_step [OF step.prems(1) assms(3) step.hyps(1)]) (use step.prems(2) in simp)
  then have k: "keyless s1" using metered_keyless step.prems(1) by blast
  have "\<forall>rq rep. Served rq rep \<in> set hs \<longrightarrow> routed rq" using step.prems(2) by simp
  note step.IH [OF k this]
  then show ?case using a metered_trans by auto
qed

lemma seed_shape: "\<exists>js. seedIfEmpty [] = (Inr (length builtin_jobs), js)"
proof -
  have "\<exists>js. save_each ds s = (Inr (), js)" for ds s
    by (induction ds arbitrary: s) (simp_all add: bind_a_eq)
  then obtain js where "save_each builtin_jobs [] = (Inr (), js)" by blast
  then show ?thesis by (simp add: seedIfEmpty_def bind_a_eq job_store_list_def)
qed

lemma bootstrap_state:
  assumes "bootstrap e decode check path d = Inr s"
  shows "keyless s" and "ap_engine s = engine_empty\<lparr>en_jobs := snd (seedIfEmpty [])\<rparr>" and "ap_buckets s = []"
  using assms seed_shape
  by (auto simp: bootstrap_def keyless_def createContainer_def in_jobs_def in_eng_def in_cron_def in_engine_def
      Let_def engine_empty_def split: prod.splits sum.splits)

text \<open>
  C38. A server started with authentication on serves nobody: the container gives the authenticator a store
  of keys that is empty and out of reach. Whatever happens, in whatever order, every routed request for a
  path that is not public is answered 401 or 429, and but for the rate limiter and the readings of the
  clock the server stays as it was started: no job, run, schedule or webhook is ever made.
\<close>

theorem server_without_keys_is_closed:
  assumes "bootstrap e decode check path d = Inr s" and "ae_authDisabled a \<noteq> Some ''1''"
    and "api_trace a s hs s'" and "\<forall>rq rep. Served rq rep \<in> set hs \<longrightarrow> routed rq"
  shows "(\<forall>rq rep. Served rq rep \<in> set hs \<longrightarrow>
            url_path (rq_url rq) \<in> {''/health'', ''/metrics'', ''/openapi.json''} \<or> rp_status rep \<in> {401, 429}) \<and>
         (\<exists>reads buckets. s' = s\<lparr>ap_cron := (ap_cron s)\<lparr>cy_reads := reads\<rparr>, ap_buckets := buckets\<rparr>)"
proof -
  have "metered s s' \<and> (\<forall>rq rep. Served rq rep \<in> set hs \<longrightarrow> url_path (rq_url rq) \<notin> set PUBLIC_PATHS \<longrightarrow>
      rp_status rep \<in> {401, 429})"
    by (rule keyless_trace [OF assms(3) bootstrap_state(1) [OF assms(1)] assms(2,4)])
  then show ?thesis unfolding metered_def meter_def PUBLIC_PATHS_def by fastforce
qed

subsection \<open>A shipped job, over HTTP\<close>

lemma rate_hook_first: "rate_hook 120 ip now [] = (True, [(ip, \<lparr>bk_count = 1, bk_resetAt = now + 60000\<rparr>)])"
  by (simp add: rate_hook_def Let_def)

lemma rate_hook_second:
  "fst (rate_hook 120 ip' now' [(ip, \<lparr>bk_count = 1, bk_resetAt = t\<rparr>)])"
  by (simp add: rate_hook_def Let_def)

lemma auth_hook_disabled: "\<exists>t. auth_hook h (Some ''1'') url header keys = Proceed t"
  by (simp add: auth_hook_def)

lemma hooks_admit:
  assumes "ae_authDisabled a = Some ''1''"
    and "fst (rate_hook 120 (rq_ip rq) (se_now (ae_sched a) (cy_reads (ap_cron s))) (ap_buckets s))"
  shows "\<exists>t. hooks a rq s = (Inr t, meter (Suc (cy_reads (ap_cron s)))
    (snd (rate_hook 120 (rq_ip rq) (se_now (ae_sched a) (cy_reads (ap_cron s))) (ap_buckets s))) s)"
proof -
  obtain t where "auth_hook (ae_hash a) (Some ''1'') (rq_url rq) (rq_authorization rq) (ap_keys s) = Proceed t"
    using auth_hook_disabled by blast
  then show ?thesis using assms by (auto simp: hooks_def meter_def Let_def split: prod.splits)
qed

lemma seeded_engine_ok: "engine_ok (engine_empty\<lparr>en_jobs := snd (seedIfEmpty [])\<rparr>)"
  using wfs.invar_empty seeded_ok(1) by (simp add: engine_ok_def engine_empty_def seed_empty seeded_def)

text \<open>One request that starts a run, one execution, one request that asks for it.\<close>

lemma start_run_served:
  assumes "ae_authDisabled a = Some ''1''" and "ap_buckets s = []" and "ap_pending s = []"
    and "rq_route rq = Core (StartRun j)" and "rq_body rq = VUndef"
    and c: "createRun (ae_env a) j ''api'' [] (ap_engine s) = (Inr (run, w, def), en)"
  obtains s' ip t where "api_step a s (Served rq (answer 202 (PRun run (wf_id w)))) s'" and "ap_engine s' = en"
    and "ap_pending s' = [jr_id run]" and "ap_buckets s' = [(ip, \<lparr>bk_count = 1, bk_resetAt = t\<rparr>)]"
proof -
  let ?b = "[(rq_ip rq, \<lparr>bk_count = 1, bk_resetAt = se_now (ae_sched a) (cy_reads (ap_cron s)) + 60000\<rparr>)]"
  let ?s0 = "meter (Suc (cy_reads (ap_cron s))) ?b s"
  obtain t where h: "hooks a rq s = (Inr t, ?s0)"
    using hooks_admit [OF assms(1), of rq s] by (auto simp: assms(2) rate_hook_first)
  define s' where "s' = ?s0\<lparr>ap_cron := (ap_cron ?s0)\<lparr>cy_engine := en\<rparr>, ap_pending := [jr_id run]\<rparr>"
  have body: "or_empty (rq_body rq) = VObj (Fresh 0) []" using assms(5) by (simp add: or_empty_def obj_or_def nullish_def)
  have "start_run a rq j ?s0 = (Inr (answer 202 (PRun run (wf_id w))), s')"
    using c assms(3)
    by (simp add: start_run_def body opt_text_field_def opt_object_field_def row_get_def obj_get_def
        object_prototype_names_def in_eng_def in_cron_def in_engine_def meter_def s'_def bind_a_eq Let_def)
  then have "handle a rq s = Some (answer 202 (PRun run (wf_id w)), s')"
    using h assms(4) by (simp add: handle_def route_reply_def core_reply_def settle_def)
  then have "api_step a s (Served rq (answer 202 (PRun run (wf_id w)))) s'"
    using assms(4) by (intro api_step.serve) simp_all
  from that [OF this] show thesis by (simp add: s'_def meter_def)
qed

lemma worked_only:
  assumes "ap_pending s = [r]" and "executeRun (ae_env a) (ae_sim a) (ae_fuel a) r (ap_engine s) = Some (x, en)"
  obtains s' where "api_step a s (Worked r) s'" and "ap_engine s' = en" and "ap_buckets s' = ap_buckets s"
proof -
  have "eng_option (executeRun (ae_env a) (ae_sim a) (ae_fuel a) r) s = Some (x, s\<lparr>ap_cron := (ap_cron s)\<lparr>cy_engine := en\<rparr>\<rparr>)"
    using assms(2) by (simp add: eng_option_def)
  from that [OF api_step.work [OF _ this, of "[]" "[]"]] show thesis using assms(1) by simp
qed

lemma get_run_served:
  assumes "ae_authDisabled a = Some ''1''" and "ap_buckets s = [(ip, \<lparr>bk_count = 1, bk_resetAt = t\<rparr>)]"
    and "rq_route rq = Core (GetRun r)" and "workflow_store_getByRunId (en_workflows (ap_engine s)) r = Some w"
  shows "\<exists>s'. api_step a s (Served rq (answer 200 (PWorkflow w))) s'"
proof -
  obtain t' n b where h: "hooks a rq s = (Inr t', meter n b s)"
    using hooks_admit [OF assms(1), of rq s] assms(2) rate_hook_second by fastforce
  have "getWorkflowByRun r (ap_engine s) = (Inr w, ap_engine s)" using assms(4) by (simp add: getWorkflowByRun_def)
  then have "serve_run r PWorkflow (meter n b s) = (Inr (answer 200 (PWorkflow w)), meter n b s)"
    by (simp add: serve_run_def in_eng_def in_cron_def in_engine_def meter_def bind_a_eq)
  then have "handle a rq s = Some (answer 200 (PWorkflow w), meter n b s)"
    using h assms(3) by (simp add: handle_def route_reply_def core_reply_def settle_def)
  then show ?thesis using assms(3) by (intro exI api_step.serve) simp_all
qed

lemma createRun_job: "createRun e j trigger input s = (Inr (run, w, def), s') \<Longrightarrow> jr_jobId run = j"
  by (auto simp: createRun_def bind_a_eq Let_def with_env_def split: option.splits prod.splits sum.splits)


text \<open>One request stops the server: the compiler never returns from a stray field.\<close>

lemma stray_source_stops_server:
  assumes "rq_route rq = CompileDsl" and "rq_body rq = VObj i [(''source'', VStr stray_source)]"
    and "hooks a rq s = (Inr t, s1)"
  shows "handle a rq s = None"
proof -
  have "dsl_compile f stray_source jobId now = None" for f jobId now
    using stray_token_hangs_parser by (simp add: dsl_compile_def)
  then have "compileAndRegister a stray_source None s1 = None"
    by (simp add: compileAndRegister_def env_now_def in_eng_def in_cron_def in_engine_def with_env_def)
  moreover have "stray_source \<noteq> []" by (simp add: stray_source_def)
  ultimately have "compile_dsl a rq s1 = None"
    using assms(2)
    by (simp add: compile_dsl_def or_empty_def obj_or_def nullish_def row_get_def obj_get_def opt_text_field_def
        object_prototype_names_def Let_def)
  then show ?thesis using assms(1,3) by (simp add: handle_def route_reply_def)
qed

text \<open>The schema library's error is an \<^verbatim>\<open>Error\<close> of its own: a malformed job is answered 500, not 400.\<close>

lemma malformed_job_is_500:
  assumes "rq_route rq = Core RegisterJob" and "ae_schema a (rq_body rq) = Inl (JsError m)"
    and "hooks a rq s = (Inr t, s1)"
  shows "\<exists>rep s'. handle a rq s = Some (rep, s') \<and> rp_status rep = 500"
  using assms
  by (simp add: handle_def route_reply_def core_reply_def register_with_def job_register_def env_now_def env_uuid_def
      in_jobs_def in_eng_def in_cron_def in_engine_def with_env_def bind_a_eq settle_def error_answer_def
      error_handler_def answer_def Let_def)

text \<open>Only two names of the loopback are refused.\<close>

lemma other_loopback_names_pass: "validateUrl (\<lambda>u. Some (''http:'', ''[::1]'')) url = Inr ()"
  by (simp add: validateUrl_def)

subsection \<open>Instances\<close>

lemma bootstrap_default: "\<exists>s. bootstrap e decode check None d = Inr s"
  using seed_shape
  by (auto simp: bootstrap_def loadConfig_def given_def createContainer_def in_jobs_def in_eng_def in_cron_def
      in_engine_def engine_empty_def Let_def split: prod.splits)

definition sample_api :: "string option \<Rightarrow> nat \<Rightarrow> api_env" where
  "sample_api disabled fuel =
     \<lparr>ae_env = plain_env, ae_sched = \<lparr>se_now = (\<lambda>n. 0), se_uuid = (\<lambda>n. ''u'')\<rparr>, ae_disk = plain_disk, ae_delivery = flaky_delivery,
      ae_sim = simulator_execute plain_env calm_config, ae_fuel = fuel, ae_schema = (\<lambda>v. Inr sample_input),
      ae_typed = (\<lambda>d. Inr sample_input), ae_json = (\<lambda>t. Inr VUndef), ae_manifest = (\<lambda>v. Inl (JsError ''invalid'')),
      ae_url = (\<lambda>u. None), ae_hash = plain_hash, ae_compare = code_point_compare, ae_key = (\<lambda>n. ''key''),
      ae_stringify = (\<lambda>v. []), ae_authDisabled = disabled\<rparr>"

definition sample_request :: "string \<Rightarrow> route \<Rightarrow> request" where
  "sample_request url r =
     \<lparr>rq_url = url, rq_route = r, rq_ip = ''ip'', rq_authorization = None, rq_requestId = None, rq_query = [],
      rq_body = VUndef\<rparr>"

theorem server_without_keys_is_closed_witness:
  "\<exists>s rep s'. bootstrap plain_disk (\<lambda>t. Inr VUndef) (\<lambda>v. Inl []) None \<lparr>dk_files = [], dk_ops = 0, dk_reads = 0\<rparr> = Inr s \<and>
     api_trace (sample_api None 9) s [Served (sample_request ''/jobs'' (Core RegisterJob)) rep] s' \<and>
     rp_status rep \<in> {401, 429}"
proof -
  let ?rq = "sample_request ''/jobs'' (Core RegisterJob)" and ?a = "sample_api None 9"
  obtain s where s: "bootstrap plain_disk (\<lambda>t. Inr VUndef) (\<lambda>v. Inl []) None \<lparr>dk_files = [], dk_ops = 0, dk_reads = 0\<rparr> = Inr s"
    using bootstrap_default by blast
  have path: "url_path (rq_url ?rq) = ''/jobs''" by (simp add: url_path_def sample_request_def)
  obtain x s' where h: "hooks ?a ?rq s = (x, s')" by fastforce
  have "ap_keys s = []" using bootstrap_state(1) [OF s] by (simp add: keyless_def)
  from hooks_no_keys [OF this _ h] path obtain rep where "x = Inl rep"
    by (auto simp: sample_api_def PUBLIC_PATHS_def)
  then have "handle ?a ?rq s = Some (rep, s')" using h by (simp add: handle_def)
  then have t: "api_trace ?a s [Served ?rq rep] s'"
    by (intro api_trace.step [OF api_step.serve api_trace.idle]) (simp_all add: sample_request_def)
  have "routed ?rq" using path by (simp add: routed_def matches_pattern_def) (simp add: sample_request_def)
  then have "(\<forall>rq rep'. Served rq rep' \<in> set [Served ?rq rep] \<longrightarrow>
      url_path (rq_url rq) \<in> {''/health'', ''/metrics'', ''/openapi.json''} \<or> rp_status rep' \<in> {401, 429}) \<and>
      (\<exists>reads buckets. s' = s\<lparr>ap_cron := (ap_cron s)\<lparr>cy_reads := reads\<rparr>, ap_buckets := buckets\<rparr>)"
    by (intro server_without_keys_is_closed [OF s _ t]) (auto simp: sample_api_def)
  then show ?thesis using s t path by auto
qed


end
