(* ===== verification/Scripts.thy ===== *)
theory Scripts
  imports Api
begin

section \<open>The scripts\<close>

text \<open>
  scripts/run-worker.ts, scripts/seed-jobs.ts and scripts/import-jobs.ts. Each builds stores of its own
  in memory and ends; what it wrote ends with it.
\<close>

subsection \<open>run-worker\<close>

fun execute_each ::
    "env \<Rightarrow> simulator \<Rightarrow> nat \<Rightarrow> job_run list \<Rightarrow> engine \<Rightarrow> (unit res \<times> engine) option" where
  "execute_each e sim fuel [] s = Some (Inr (), s)"
| "execute_each e sim fuel (run # runs) s =
     (case executeRun e sim fuel (jr_id run) s of
        None \<Rightarrow> None
      | Some (Inl er, s') \<Rightarrow> Some (Inl er, s')
      | Some (Inr u, s') \<Rightarrow> execute_each e sim fuel runs s')"

definition run_worker :: "env \<Rightarrow> simulator \<Rightarrow> nat \<Rightarrow> (unit res \<times> engine) option" where
  "run_worker e sim fuel =
     (let active = run_store_listActive (en_runs engine_empty)
      in execute_each e sim fuel active engine_empty)"

text \<open>The script lists the runs of a store it has just made: there are none.\<close>

lemma run_worker_idle: "run_worker e sim fuel = Some (Inr (), engine_empty)"
  by (simp add: run_worker_def run_store_listActive_def engine_empty_def)

subsection \<open>seed-jobs\<close>

definition sample_task :: "string \<Rightarrow> string \<Rightarrow> string \<Rightarrow> rat \<Rightarrow> (string \<times> jsval) list \<Rightarrow> jsval" where
  "sample_task i name handler ms more_fields =
     ob ([(''id'', VStr i), (''name'', VStr name), (''handler'', VStr handler), (''timeoutMs'', VNum (Fin ms))] @
         more_fields)"

definition samples :: "jsval list" where
  "samples =
     [ob [(''id'', VStr ''invoice_sync''), (''name'', VStr ''Invoice sync pipeline''), (''version'', VNum (Fin 2)),
          (''tasks'', ar
             [sample_task ''fetch'' ''Fetch'' ''invoice.fetch'' 15000 [],
              sample_task ''normalize'' ''Normalize'' ''invoice.normalize'' 10000
                [(''dependsOn'', ar [VStr ''fetch''])],
              sample_task ''post'' ''Post GL'' ''invoice.post_gl'' 20000
                [(''dependsOn'', ar [VStr ''normalize''])]]),
          (''constraints'', ar
             [ob [(''id'', VStr ''require_tenant''), (''expression'', VStr ''ctx.tenantId''),
                  (''severity'', VStr ''block'')]])],
      ob [(''id'', VStr ''nightly_reconcile''), (''name'', VStr ''Nightly reconcile''), (''version'', VNum (Fin 1)),
          (''tasks'', ar
             [sample_task ''extract'' ''Extract'' ''reconcile.extract'' 30000 [],
              sample_task ''match'' ''Match'' ''reconcile.match'' 60000 [(''dependsOn'', ar [VStr ''extract''])],
              sample_task ''notify'' ''Notify'' ''external.risky_notify'' 5000
                [(''dependsOn'', ar [VStr ''match'']), (''optional'', VBool True)]]),
          (''constraints'', ar [])]]"

fun seed_each :: "api_env \<Rightarrow> jsval list \<Rightarrow> (job_id \<times> int) list serving" where
  "seed_each a [] = ret []"
| "seed_each a (v # vs) =
     bind_a (register_with a (ae_schema a) v) (\<lambda>def.
     bind_a (seed_each a vs) (\<lambda>printed. ret ((jd_id def, jd_version def) # printed)))"

definition seed_jobs :: "api_env \<Rightarrow> disk \<Rightarrow> (job_id \<times> int) list res" where
  "seed_jobs a d = fst (seed_each a samples (createContainer DEFAULT_CONFIG d))"

subsection \<open>import-jobs\<close>

definition import_script :: "api_env \<Rightarrow> string \<Rightarrow> disk \<Rightarrow> import_result res" where
  "import_script a dir d =
     (let s = createContainer DEFAULT_CONFIG d
      in fst (importDirectory (ae_disk a) (ae_json a) (ae_schema a) (service_with (ap_registry s)) (uuid (ae_env a)) dir
                \<lparr>im_jobs = en_jobs (ap_engine s), im_disk = ap_disk s\<rparr>))"

end
