(* ===== verification/Silence.thy ===== *)
theory Silence
  imports Api
begin

section \<open>What the server never records\<close>

text \<open>
  The audit service is called nowhere, the key store is filled nowhere, and the events that would reach the
  webhooks are published nowhere: over any sequence of steps of the server these stay as they were. The
  proof follows the actions of the model by introduction rules.
\<close>

subsection \<open>Actions that keep a part of the state\<close>

named_theorems keeps_intro

definition keeps :: "('s \<Rightarrow> 'x) \<Rightarrow> ('s, err, 'a) act \<Rightarrow> bool" where
  "keeps f m \<longleftrightarrow> (\<forall>s. f (snd (m s)) = f s)"

lemma keepsD: "keeps f m \<Longrightarrow> m s = (r, s') \<Longrightarrow> f s' = f s"
  by (metis keeps_def snd_conv)

lemma keeps_ret [keeps_intro]: "keeps f (ret a)"
  by (simp add: keeps_def)

lemma keeps_throw [keeps_intro]: "keeps f (throw er)"
  by (simp add: keeps_def)

lemma keeps_lift_r [keeps_intro]: "keeps f (lift_r r)"
  by (simp add: keeps_def)

lemma keeps_reads [keeps_intro]: "keeps f (reads g)"
  by (simp add: keeps_def)

lemma keeps_bind [keeps_intro]: "keeps f m \<Longrightarrow> (\<And>x. keeps f (g x)) \<Longrightarrow> keeps f (bind_a m g)"
  by (auto simp: keeps_def bind_a_eq split: prod.splits sum.splits) (metis snd_conv)+

lemma keeps_writes [keeps_intro]: "(\<And>s. f (h s) = f s) \<Longrightarrow> keeps f (writes h)"
  by (simp add: keeps_def)

lemma keeps_if [keeps_intro]: "(b \<Longrightarrow> keeps f m) \<Longrightarrow> (\<not> b \<Longrightarrow> keeps f n) \<Longrightarrow> keeps f (if b then m else n)"
  by simp

lemma keeps_option [keeps_intro]:
  "(x = None \<Longrightarrow> keeps f m) \<Longrightarrow> (\<And>y. x = Some y \<Longrightarrow> keeps f (g y)) \<Longrightarrow> keeps f (case x of None \<Rightarrow> m | Some y \<Rightarrow> g y)"
  by (cases x) simp_all

lemma keeps_sum [keeps_intro]:
  "(\<And>y. x = Inl y \<Longrightarrow> keeps f (g y)) \<Longrightarrow> (\<And>y. x = Inr y \<Longrightarrow> keeps f (h y)) \<Longrightarrow>
     keeps f (case x of Inl y \<Rightarrow> g y | Inr y \<Rightarrow> h y)"
  by (cases x) simp_all

lemma keeps_prod [keeps_intro]: "(\<And>a b. x = (a, b) \<Longrightarrow> keeps f (g a b)) \<Longrightarrow> keeps f (case x of (a, b) \<Rightarrow> g a b)"
  by (cases x) simp

subsection \<open>The engine publishes no run events\<close>

definition outbox :: "engine \<Rightarrow> (string \<times> run_id) list" where
  "outbox s = bus_outbox (en_bus s)"

lemma keeps_with_env [keeps_intro]: "keeps outbox (with_env m)"
  by (auto simp: keeps_def with_env_def outbox_def split: prod.splits)

lemma keeps_transition_event [keeps_intro]: "keeps outbox (emit (WorkflowTransitioned r x y ev now))"
  by (simp add: keeps_def emit_def outbox_def publish_def)

lemma keeps_machine [keeps_intro]: "keeps outbox (machine_transition e inst ev target actor)"
  by (simp add: keeps_def machine_transition_def outbox_def split: sum.splits)

lemma keeps_sync_run [keeps_intro]: "keeps outbox (sync_run e w target)"
  unfolding sync_run_def by (intro keeps_intro) (simp_all add: outbox_def)

lemma keeps_applyTransition [keeps_intro]: "keeps outbox (applyTransition e inst ev target actor)"
  unfolding applyTransition_def by (intro keeps_intro) (simp_all add: outbox_def)

lemma keeps_startRun [keeps_intro]: "keeps outbox (startRun e workflow)"
  unfolding startRun_def by (intro keeps_intro)

lemma keeps_updateTask [keeps_intro]: "keeps outbox (updateTask e workflow task)"
  unfolding updateTask_def Let_def by (intro keeps_intro) (simp_all add: outbox_def)

lemma keeps_recordDuration [keeps_intro]: "keeps outbox (recordDuration handler ms)"
  unfolding recordDuration_def by (intro keeps_intro) (simp add: outbox_def)

lemma keeps_run_task [keeps_intro]: "keeps outbox (run_task e sim definition workflow nextDef)"
  unfolding run_task_def by (intro keeps_intro)

lemma keeps_exec_body [keeps_intro]: "keeps outbox (exec_body e sim run definition workflow)"
  unfolding exec_body_def finish_or_wait_def by (intro keeps_intro)

lemma keeps_dead_letter [keeps_intro]: "keeps outbox (dead_letter_if_exhausted e r definition workflow)"
  unfolding dead_letter_if_exhausted_def by (intro keeps_intro) (simp add: outbox_def)

lemma exec_loop_outbox:
  "exec_loop e sim run definition fuel workflow s = Some (r, s') \<Longrightarrow> outbox s' = outbox s"
proof (induction fuel arbitrary: workflow s)
  case (Suc fuel)
  obtain x s1 where b: "exec_body e sim run definition workflow s = (x, s1)" by fastforce
  have k: "outbox s1 = outbox s" by (rule keepsD [OF keeps_exec_body b])
  show ?case
  proof (cases x)
    case (Inl er)
    then show ?thesis using Suc.prems b k by (auto split: if_splits)
  next
    case (Inr y)
    obtain w stop where y: "y = (w, stop)" by (cases y)
    show ?thesis using Suc.prems Suc.IH [of w s1] b k Inr y by (auto split: if_splits)
  qed
qed simp

lemma execute_locked_outbox:
  assumes "execute_locked e sim fuel r s = Some (x, s')" shows "outbox s' = outbox s"
proof -
  have *: "outbox s' = outbox s"
    if st: "startRun e w s = (y, s1)"
      and lp: "(case y of Inl er \<Rightarrow> Some (Inl er, s1)
            | Inr w1 \<Rightarrow> map_option (\<lambda>(r', s2). case r' of Inl er \<Rightarrow> (Inl er, s2)
                 | Inr w2 \<Rightarrow> dead_letter_if_exhausted e r def w2 s2)
               (exec_loop e sim run def fuel w1 s1)) = Some (x, s')"
    for w y s1 run def
  proof -
    have k: "outbox s1 = outbox s" by (rule keepsD [OF keeps_startRun st])
    show ?thesis
    proof (cases y)
      case (Inl er)
      then show ?thesis using lp k by simp
    next
      case (Inr w1)
      then obtain r' s2 where l: "exec_loop e sim run def fuel w1 s1 = Some (r', s2)"
        and d: "(case r' of Inl er \<Rightarrow> (Inl er, s2) | Inr w2 \<Rightarrow> dead_letter_if_exhausted e r def w2 s2) = (x, s')"
        using lp by auto
      have "outbox s2 = outbox s1" by (rule exec_loop_outbox [OF l])
      moreover have "outbox s' = outbox s2"
        using d keepsD [OF keeps_dead_letter] by (cases r') auto
      ultimately show ?thesis using k by simp
    qed
  qed
  show ?thesis
    using assms *
    by (auto simp: execute_locked_def split: option.splits prod.splits)
qed

lemma executeRun_outbox: "executeRun e sim fuel r s = Some (x, s') \<Longrightarrow> outbox s' = outbox s"
  using execute_locked_outbox
  by (fastforce simp: executeRun_def Let_def outbox_def release_locks_def split: if_splits sum.splits)

lemma keeps_createRun [keeps_intro]: "keeps outbox (createRun e j trigger input)"
  unfolding createRun_def Let_def by (intro keeps_intro) (simp_all add: outbox_def)

lemma keeps_getWorkflowByRun [keeps_intro]: "keeps f (getWorkflowByRun r)"
  unfolding getWorkflowByRun_def by (intro keeps_intro)

lemma replay_outbox:
  assumes "replay e sim fuel r s = Some (x, s')" shows "outbox s' = outbox s"
proof -
  obtain y s1 where g: "getWorkflowByRun r s = (y, s1)" by fastforce
  have k: "outbox s1 = outbox s" by (rule keepsD [OF keeps_getWorkflowByRun g])
  show ?thesis
  proof (cases y)
    case (Inl er)
    then show ?thesis using assms g k by (simp add: replay_def)
  next
    case (Inr before)
    then obtain z s2 where x: "executeRun e sim fuel r s1 = Some (z, s2)"
      and d: "(case z of Inl er \<Rightarrow> (Inl er, s2)
               | Inr u \<Rightarrow> bind_a (getWorkflowByRun r) (\<lambda>after. ret (diffWorkflows before after)) s2) = (x, s')"
      using assms g by (auto simp: replay_def)
    have "keeps outbox (bind_a (getWorkflowByRun r) (\<lambda>after. ret (diffWorkflows before after)))"
      by (intro keeps_intro)
    then have "outbox s' = outbox s2" using d keepsD by (cases z) fastforce+
    then show ?thesis using executeRun_outbox [OF x] k by simp
  qed
qed

lemma batch_step_outbox: "batch_step e sim b b' \<Longrightarrow> outbox (bs_engine b') = outbox (bs_engine b)"
  by (induction rule: batch_step.induct)
    (auto simp: worker_take_def worker_created_def worker_done_def worker_failed_def put_progress_def Let_def
      outbox_def split: list.splits dest: keepsD [OF keeps_createRun] executeRun_outbox)

interpretation quiet: invariant_steps "batch_step e sim" "\<lambda>b. outbox (bs_engine b) = q" for e sim q
  by unfold_locales (simp add: batch_step_outbox)

lemma batch_steps_outbox: "(batch_step e sim)\<^sup>*\<^sup>* b b' \<Longrightarrow> outbox (bs_engine b') = outbox (bs_engine b)"
  using quiet.inv_steps by blast

subsection \<open>The server\<close>

text \<open>The outbox, the audit trail, the deliveries and the keys.\<close>

definition records :: "app \<Rightarrow> (string \<times> run_id) list \<times> audit_record list \<times> delivery_map \<times> api_key list" where
  "records s = (outbox (ap_engine s), ap_audit s, ap_deliveries s, ap_keys s)"

lemma keeps_in_cron: "keeps (\<lambda>c. outbox (cy_engine c)) m \<Longrightarrow> keeps records (in_cron m)"
  by (auto simp: keeps_def in_cron_def records_def split: prod.splits) (metis snd_conv)+

lemma keeps_in_engine [keeps_intro]: "keeps outbox m \<Longrightarrow> keeps (\<lambda>c. outbox (cy_engine c)) (in_engine m)"
  by (auto simp: keeps_def in_engine_def split: prod.splits) (metis snd_conv)+

lemma keeps_in_eng [keeps_intro]: "keeps outbox m \<Longrightarrow> keeps records (in_eng m)"
  unfolding in_eng_def by (intro keeps_in_cron keeps_in_engine)

lemma keeps_in_jobs [keeps_intro]: "keeps records (in_jobs m)"
  unfolding in_jobs_def by (rule keeps_in_eng) (auto simp: keeps_def outbox_def split: prod.splits)

lemma keeps_env_now [keeps_intro]: "keeps records (env_now a)"
  unfolding env_now_def by (intro keeps_intro)

lemma keeps_env_uuid [keeps_intro]: "keeps records (env_uuid a)"
  unfolding env_uuid_def by (intro keeps_intro)

lemma keeps_cron_read [keeps_intro]: "keeps (\<lambda>c. outbox (cy_engine c)) (cron_read f)"
  by (simp add: keeps_def cron_read_def)

lemma keeps_schedule_put [keeps_intro]: "keeps (\<lambda>c. outbox (cy_engine c)) (schedule_put x)"
  unfolding schedule_put_def by (intro keeps_intro) simp

lemma keeps_schedule_create [keeps_intro]:
  "keeps (\<lambda>c. outbox (cy_engine c)) (schedule_create v t i ex z input)"
  unfolding schedule_create_def Let_def by (intro keeps_intro)

lemma keeps_service_list [keeps_intro]: "keeps (\<lambda>c. outbox (cy_engine c)) (service_listByTenant t)"
  unfolding service_listByTenant_def by (intro keeps_intro)

lemma keeps_markTriggered [keeps_intro]: "keeps (\<lambda>c. outbox (cy_engine c)) (markTriggered v x)"
  unfolding markTriggered_def Let_def by (intro keeps_intro)

lemma keeps_dueSchedules [keeps_intro]: "keeps (\<lambda>c. outbox (cy_engine c)) (dueSchedules v)"
  unfolding dueSchedules_def Let_def by (intro keeps_intro)

lemma keeps_tick_all [keeps_intro]: "keeps (\<lambda>c. outbox (cy_engine c)) (tick_all e v due)"
proof (induction due)
  case (Cons x due)
  note Cons.IH [keeps_intro]
  show ?case unfolding tick_all.simps by (intro keeps_intro) simp_all
qed (simp add: keeps_def)

lemma keeps_tick [keeps_intro]: "keeps (\<lambda>c. outbox (cy_engine c)) (tick e v)"
  unfolding tick_def by (intro keeps_intro)

lemma keeps_serve_run [keeps_intro]: "keeps records (serve_run r body)"
  unfolding serve_run_def by (intro keeps_intro)

lemma keeps_start_run [keeps_intro]: "keeps records (start_run a rq i)"
  unfolding start_run_def Let_def by (intro keeps_intro) (simp_all add: records_def)

lemma keeps_register [keeps_intro]: "keeps records (register_with a schema v)"
  unfolding register_with_def by (intro keeps_intro)

lemma keeps_admin [keeps_intro]: "keeps records (admin_reply a t rq r)"
  unfolding admin_reply_def by (cases r) (auto intro!: keeps_intro)

lemma keeps_list_schedules [keeps_intro]: "keeps records (list_schedules t)"
  unfolding list_schedules_def by (intro keeps_intro keeps_in_cron)

lemma keeps_create_schedule [keeps_intro]: "keeps records (create_schedule a t rq)"
  unfolding create_schedule_def by (intro keeps_intro keeps_in_cron)

lemma keeps_create_webhook [keeps_intro]: "keeps records (create_webhook a t rq)"
  unfolding create_webhook_def by (intro keeps_intro keeps_in_cron) (simp_all add: records_def)

lemma keeps_metric_series [keeps_intro]: "keeps records (metric_series rq)"
  unfolding metric_series_def by (intro keeps_intro)

lemma keeps_instantiate [keeps_intro]: "keeps records (instantiate_template a rq i)"
  unfolding instantiate_template_def by (intro keeps_intro)

lemma keeps_import [keeps_intro]: "keeps records (import_jobs a rq)"
  unfolding import_jobs_def
  by (intro keeps_intro) (auto simp: keeps_def records_def outbox_def split: prod.splits)

lemma keeps_analytics [keeps_intro]: "keeps records (run_analytics_reply a r)"
proof -
  have "outbox (an_engine (snd (summarizeRun e r an))) = outbox (an_engine an)" for e an
    using keepsD [OF keeps_getWorkflowByRun [of outbox r]]
    by (auto simp: summarizeRun_def Let_def outbox_def split: prod.splits sum.splits)
  then show ?thesis
    by (auto simp: keeps_def run_analytics_reply_def records_def split: prod.splits) (metis analytics.select_convs(1) snd_conv)
qed

lemma keeps_hooks: "hooks a rq s = (x, s1) \<Longrightarrow> records s1 = records s"
  using hooks_meter [of a rq s x s1] by (auto simp: meter_def records_def)

lemma eng_option_records:
  assumes "\<And>en x en'. m en = Some (x, en') \<Longrightarrow> outbox en' = outbox en" and "eng_option m s = Some (r, s')"
  shows "records s' = records s"
  using assms by (auto simp: eng_option_def records_def)

lemma some_action: "keeps f m \<Longrightarrow> Some (m s) = Some (x, s') \<Longrightarrow> f s' = f s"
  using keepsD by fastforce

lemma some_bind: "keeps f (bind_a m g) \<Longrightarrow> Some (bind_a m g s) = Some (x, s') \<Longrightarrow> f s' = f s"
  using keepsD by fastforce

lemma core_reply_records:
  assumes "core_reply a rq r s = Some (x, s')" shows "records s' = records s"
proof (cases "\<exists>i. r = ExecuteRun i")
  case True
  then obtain i y s1 where e: "eng_option (executeRun (ae_env a) (ae_sim a) (ae_fuel a) i) s = Some (y, s1)"
    and d: "(case y of Inl er \<Rightarrow> (Inl er, s1) | Inr u \<Rightarrow> serve_run i PWorkflow s1) = (x, s')"
    using assms by (auto simp: core_reply_def)
  have "records s1 = records s" by (rule eng_option_records [OF executeRun_outbox e])
  moreover have "records s' = records s1" using d keepsD [OF keeps_serve_run] by (cases y) auto
  ultimately show ?thesis by simp
next
  case False
  then show ?thesis
  proof (cases r)
    case Health
    then show ?thesis using assms by (simp add: core_reply_def)
  next
    case ListJobs
    show ?thesis
      by (rule some_bind [OF _ assms [unfolded core_reply_def ListJobs core_route.case]]) (intro keeps_intro)
  next
    case RegisterJob
    show ?thesis
      by (rule some_bind [OF _ assms [unfolded core_reply_def RegisterJob core_route.case]]) (intro keeps_intro)
  next
    case (GetJob i)
    show ?thesis
      by (rule some_bind [OF _ assms [unfolded core_reply_def GetJob core_route.case]]) (intro keeps_intro)
  next
    case (StartRun i)
    show ?thesis by (rule some_action [OF keeps_start_run assms [unfolded core_reply_def StartRun core_route.case]])
  next
    case (GetRun i)
    show ?thesis by (rule some_action [OF keeps_serve_run assms [unfolded core_reply_def GetRun core_route.case]])
  next
    case (ExportRun i)
    show ?thesis by (rule some_action [OF keeps_serve_run assms [unfolded core_reply_def ExportRun core_route.case]])
  qed simp
qed

lemma v2_reply_records:
  assumes "v2_reply a rq r s = Some (x, s')" shows "records s' = records s"
proof (cases r)
  case Templates
  then show ?thesis using assms by (simp add: v2_reply_def)
next
  case (InstantiateTemplate i)
  show ?thesis
    by (rule some_action [OF keeps_instantiate assms [unfolded v2_reply_def InstantiateTemplate v2_route.case]])
next
  case RunBatch
  then show ?thesis using assms by (simp add: v2_reply_def)
next
  case (JobRuns i)
  show ?thesis
    by (rule some_bind [OF _ assms [unfolded v2_reply_def JobRuns v2_route.case]]) (intro keeps_intro)
next
  case (ReplayRun i)
  then obtain y where e: "eng_option (replay (ae_env a) (ae_sim a) (ae_fuel a) i) s = Some (y, s')"
    using assms by (auto simp: v2_reply_def)
  show ?thesis by (rule eng_option_records [OF replay_outbox e])
next
  case ImportJobs
  show ?thesis by (rule some_action [OF keeps_import assms [unfolded v2_reply_def ImportJobs v2_route.case]])
qed

lemma compileAndRegister_records:
  assumes "compileAndRegister a source jobId s = Some (y, s')" shows "records s' = records s"
proof -
  obtain n s1 where e: "env_now a s = (n, s1)" by fastforce
  have k: "records s1 = records s" by (rule keepsD [OF keeps_env_now e])
  show ?thesis
  proof (cases n)
    case (Inl er)
    then show ?thesis using assms e k by (simp add: compileAndRegister_def)
  next
    case (Inr now)
    then obtain z where z: "(case z of Inl er \<Rightarrow> (Inl er, s1)
        | Inr def \<Rightarrow> register_with a (\<lambda>v. ae_typed a def) VUndef s1) = (y, s')"
      using assms e by (auto simp: compileAndRegister_def)
    show ?thesis
    proof (cases z)
      case (Inl er)
      then show ?thesis using z k by simp
    next
      case (Inr def)
      then have "register_with a (\<lambda>v. ae_typed a def) VUndef s1 = (y, s')" using z by simp
      from keepsD [OF keeps_register this] k show ?thesis by simp
    qed
  qed
qed

lemma compile_records:
  assumes "compile_dsl a rq s = Some (x, s')" shows "records s' = records s"
proof -
  let ?body = "or_empty (rq_body rq)"
  let ?b = "bind_r (row_get ?body ''source'') (\<lambda>v. bind_r (opt_text_field ?body ''jobId'') (\<lambda>i. Inr (v, i)))"
  show ?thesis
  proof (cases ?b)
    case (Inl er)
    then show ?thesis using assms by (simp add: compile_dsl_def Let_def)
  next
    case (Inr vi)
    obtain v jobId where vi: "vi = (v, jobId)" by (cases vi)
    show ?thesis
    proof (cases "\<exists>source. v = VStr source \<and> source \<noteq> []")
      case True
      then obtain source where "v = VStr source" "source \<noteq> []" by blast
      then obtain y where "compileAndRegister a source jobId s = Some (y, s')"
        using assms Inr vi by (auto simp: compile_dsl_def Let_def)
      then show ?thesis by (rule compileAndRegister_records)
    next
      case False
      then show ?thesis using assms Inr vi by (cases v) (simp_all add: compile_dsl_def Let_def)
    qed
  qed
qed

lemma route_reply_records:
  assumes "route_reply a t rq s = Some (x, s')" shows "records s' = records s"
proof (cases "rq_route rq")
  case (Core r)
  show ?thesis by (rule core_reply_records [OF assms [unfolded route_reply_def Core route.case]])
next
  case (Admin r)
  show ?thesis by (rule some_action [OF keeps_admin assms [unfolded route_reply_def Admin route.case]])
next
  case ListSchedules
  show ?thesis
    by (rule some_action [OF keeps_list_schedules assms [unfolded route_reply_def ListSchedules route.case]])
next
  case CreateSchedule
  show ?thesis
    by (rule some_action [OF keeps_create_schedule assms [unfolded route_reply_def CreateSchedule route.case]])
next
  case CreateWebhook
  show ?thesis
    by (rule some_action [OF keeps_create_webhook assms [unfolded route_reply_def CreateWebhook route.case]])
next
  case CompileDsl
  show ?thesis by (rule compile_records [OF assms [unfolded route_reply_def CompileDsl route.case]])
next
  case (RunAnalytics r)
  show ?thesis by (rule some_action [OF keeps_analytics assms [unfolded route_reply_def RunAnalytics route.case]])
next
  case MetricSeries
  show ?thesis by (rule some_action [OF keeps_metric_series assms [unfolded route_reply_def MetricSeries route.case]])
next
  case (V2 r)
  show ?thesis by (rule v2_reply_records [OF assms [unfolded route_reply_def V2 route.case]])
qed

lemma handle_records:
  assumes "handle a rq s = Some (rep, s')" shows "records s' = records s"
proof -
  obtain x s1 where h: "hooks a rq s = (x, s1)" by fastforce
  show ?thesis
    using assms h keeps_hooks [OF h] route_reply_records by (auto simp: handle_def split: sum.splits)
qed

lemma batch_request_records:
  assumes "batch_request a rq s = (x, s')" shows "records s' = records s"
proof -
  obtain y s1 where h: "hooks a rq s = (y, s1)" by fastforce
  show ?thesis
    using assms h keeps_hooks [OF h]
    by (auto simp: batch_request_def records_def split: sum.splits prod.splits)
qed

lemma step_records:
  assumes "api_step a s h s'" and "outbox (ap_engine s) = []"
  shows "records s' = records s \<and> (\<forall>ty r. h \<noteq> Delivered ty r)"
  using assms(1)
proof (cases rule: api_step.cases)
  case (serve rq rep)
  then show ?thesis using handle_records by blast
next
  case (refuse rq rep)
  then show ?thesis using batch_request_records by blast
next
  case (batch rq manifest s1 b)
  have "records s1 = records s" by (rule batch_request_records [OF batch(4)])
  moreover have "outbox (bs_engine b) = outbox (ap_engine s1)"
    using batch_steps_outbox [OF batch(5)] by (simp add: batch_start_def Let_def)
  ultimately show ?thesis using batch by (simp add: batch_done_def records_def)
next
  case (work p r q x s1)
  have "records s1 = records s" by (rule eng_option_records [OF executeRun_outbox work(4)])
  then show ?thesis using work by (simp add: records_def)
next
  case tick
  obtain r c where t: "tick (ae_env a) (ae_sched a) (ap_cron s) = (r, c)" by fastforce
  have "outbox (cy_engine c) = outbox (ap_engine s)" using keepsD [OF keeps_tick t] .
  then show ?thesis using tick t by (simp add: tick_step_def records_def)
next
  case (deliver ty r rest)
  then show ?thesis using assms(2) by (simp add: outbox_def)
qed

lemma trace_records:
  assumes "api_trace a s hs s'" and "outbox (ap_engine s) = []"
  shows "records s' = records s \<and> (\<forall>ty r. Delivered ty r \<notin> set hs)"
  using assms
proof (induction rule: api_trace.induct)
  case (step s h s1 hs s2)
  have h: "records s1 = records s \<and> (\<forall>ty r. h \<noteq> Delivered ty r)"
    by (rule step_records [OF step.hyps(1) step.prems])
  then have "outbox (ap_engine s1) = []" using step.prems by (simp add: records_def)
  from step.IH [OF this] h show ?case by auto
qed simp

text \<open>
  C40. Whatever the server is asked, with or without authentication, and whatever runs, batches and
  schedules are executed in whatever order: no audit record is ever written, no event is delivered to a
  webhook, and no API key exists.
\<close>

theorem server_leaves_no_records:
  assumes "bootstrap e decode check path d = Inr s" and "api_trace a s hs s'"
  shows "ap_audit s' = [] \<and> ap_deliveries s' = [] \<and> ap_keys s' = [] \<and>
    (\<forall>ty r. Delivered ty r \<notin> set hs)"
proof -
  have "outbox (ap_engine s) = []"
    using bootstrap_state(1) [OF assms(1)] by (simp add: keyless_def outbox_def)
  moreover have "ap_audit s = []" "ap_deliveries s = []" "ap_keys s = []"
    using assms(1) seed_shape
    by (auto simp: bootstrap_def createContainer_def in_jobs_def in_eng_def in_cron_def in_engine_def
        engine_empty_def Let_def split: prod.splits sum.splits)
  ultimately show ?thesis using trace_records [OF assms(2)] by (simp add: records_def)
qed

theorem server_leaves_no_records_witness:
  "\<exists>s rep s1 s2. bootstrap plain_disk (\<lambda>t. Inr VUndef) (\<lambda>v. Inl []) None \<lparr>dk_files = [], dk_ops = 0, dk_reads = 0\<rparr> = Inr s \<and>
     api_trace (sample_api (Some ''1'') 9) s [Served (sample_request ''/jobs'' (Core RegisterJob)) rep, Ticked] s2 \<and>
     ap_audit s2 = []"
proof -
  let ?rq = "sample_request ''/jobs'' (Core RegisterJob)" and ?a = "sample_api (Some ''1'') 9"
  obtain s where s: "bootstrap plain_disk (\<lambda>t. Inr VUndef) (\<lambda>v. Inl []) None \<lparr>dk_files = [], dk_ops = 0, dk_reads = 0\<rparr> = Inr s"
    using bootstrap_default by blast
  have "\<exists>rep s1. handle ?a ?rq s = Some (rep, s1)"
    by (simp add: handle_def sample_request_def route_reply_def core_reply_def split: prod.splits sum.splits)
  then obtain rep s1 where h: "handle ?a ?rq s = Some (rep, s1)" by blast
  have "api_trace ?a s1 [Ticked] (tick_step ?a s1)"
    by (rule api_trace.step [OF api_step.tick api_trace.idle])
  moreover have "api_step ?a s (Served ?rq rep) s1"
    by (rule api_step.serve [OF _ h]) (simp add: sample_request_def)
  ultimately have t: "api_trace ?a s [Served ?rq rep, Ticked] (tick_step ?a s1)"
    by (rule api_trace.step [rotated])
  from server_leaves_no_records [OF s t] s t show ?thesis by blast
qed

end
