(* ===== verification/Spec2Isabelle.thy ===== *)
theory Spec2Isabelle
  imports CriticalPath Interleaving Dsl Saga Sql Http Query Cron Catalog Batch Replay Export Parallel Security Exposition Implementations Reporting Files Connectors Scripts Silence
begin

section \<open>Verification of the Jobflow engine\<close>

text \<open>
  Jobflow is a workflow service in TypeScript: clients register job definitions, directed acyclic
  graphs of tasks, start runs of them over HTTP, and the engine executes the tasks in dependency order
  with retries, constraints, locks, events and an audit of every state change. This library
  translates the program under \<^verbatim>\<open>src/src\<close> and \<^verbatim>\<open>src/scripts\<close> into executable definitions and
  proves what makes each part correct, up to the composed server. File names below are relative to
  \<^verbatim>\<open>src/src\<close>; definitions keep the names of the functions and methods they translate, with the class in
  front where a name occurs twice (\<open>job_store_save\<close>, \<open>tenant_register\<close>).

  \<^bold>\<open>How the program is put together.\<close> \<^verbatim>\<open>container.ts\<close> builds one instance of everything and
  \<^verbatim>\<open>api/server.ts\<close> puts the routes in front of it. A request passes the hooks (request context,
  rate limit, authentication) and reaches a service. The job service validates a definition, asks the
  handler registry for its handlers and stores it. The workflow service creates a run, a workflow
  instance and one record per task. The execution service takes the locks of the run and then, task by
  task, asks the scheduler for the next one, lets the task executor call the handler through the
  simulator, and drives the instance through the state machine; every transition is published on the
  event bus, on which the metrics collector and the webhook forwarder listen. Schedules, batches,
  sagas, replay, templates and the workflow language are further ways to runs; reports, exports,
  queries and analytics read them.

  \<^bold>\<open>How it is modelled.\<close> An interface or class is a record, an enum or union a datatype, a method that
  changes state an action \<open>'s \<Rightarrow> (err + 'a) \<times> 's\<close>: the result or the thrown exception, and the state
  it leaves. A \<^verbatim>\<open>throw\<close> is a left injection and keeps the changes made before it; a \<^verbatim>\<open>catch\<close> is
  \<open>catch_a\<close>. A JavaScript \<^verbatim>\<open>Map\<close> or object is an association list in insertion order, because
  the code iterates over them. Numbers are IEEE doubles (\<open>jsnum\<close>, with rounding, \<open>NaN\<close> and the
  infinities) where the code computes with them, and \<open>int\<close> or \<open>nat\<close> where they are counters or times.
  What is read from outside (clocks, \<^verbatim>\<open>Math.random\<close>, identifiers, the network's replies, failures of
  the disk) is a function of the number of reads so far, and every theorem holds for all such functions.
  An \<^verbatim>\<open>await\<close> is a step where the program lets coroutines interleave and a theorem depends on it
  (executions, batches, the parallel executor, the composed server); elsewhere an operation runs to its end. Where
  the conversions of the language are not followed, the outcome is the marked exception \<open>Unmodelled\<close>,
  which no handler of the model catches; theorems either exclude it by a hypothesis or prove that it
  does not occur.

  \<^bold>\<open>The theories\<close>, each after those it uses:
  \<^item> \<open>Prelude\<close>: actions, results and ordered maps, with the collections the component proofs simplify by.
  \<open>Steps\<close>: laws of step relations.
  \<open>Errors\<close>: \<^verbatim>\<open>domain/errors.ts\<close> and the status of an error in \<^verbatim>\<open>api/server.ts\<close>. \<open>JsValue\<close>: doubles,
  values and their conversions. \<open>Domain\<close>: \<^verbatim>\<open>domain/*.ts\<close>, retry delays, priorities. \<open>Dates\<close>: the
  language's \<^verbatim>\<open>Date\<close>. \<open>IsoOrder\<close>: ISO strings compared as text, and \<^verbatim>\<open>utils/clock.ts\<close>.
  \<^item> \<open>Graph\<close>, \<open>JobValidation\<close>: \<^verbatim>\<open>validators/job-definition-validator.ts\<close>. \<open>DagPlanner\<close>,
  \<open>CriticalPath\<close>: \<^verbatim>\<open>engine/dag-planner.ts\<close>.
  \<^item> \<open>StateMachine\<close>: \<^verbatim>\<open>validators/transition-validator.ts\<close> and state machine, guard, compensation
  planner and locks of \<^verbatim>\<open>engine\<close>. \<open>Stores\<close>: \<^verbatim>\<open>storage/memory\<close>. \<open>Workers\<close>: retry handler,
  simulator, task executor, scheduler and pool of \<^verbatim>\<open>workers\<close>.
  \<^item> \<open>Expressions\<close>, \<open>Constraints\<close>: \<^verbatim>\<open>expressions/*.ts\<close>, \<^verbatim>\<open>validators/constraint-validator.ts\<close>,
  \<^verbatim>\<open>services/rule-engine.ts\<close>. \<open>Metrics\<close>, \<open>Exposition\<close>: \<^verbatim>\<open>metrics/*.ts\<close>, \<^verbatim>\<open>services/event-bus.ts\<close>.
  \<^item> \<open>Execution\<close>: \<^verbatim>\<open>services/workflow-service.ts\<close>, \<^verbatim>\<open>engine/orchestrator.ts\<close>,
  \<^verbatim>\<open>services/execution-service.ts\<close>. \<open>Runs\<close> and \<open>Completion\<close>: the theorems about whole executions.
  \<open>Coroutines\<close>: \<^verbatim>\<open>executeRun\<close> and \<^verbatim>\<open>applyTransition\<close> cut at every \<^verbatim>\<open>await\<close>. \<open>Interleaving\<close>: any
  number of such executions on one engine.
  \<^item> \<open>Handlers\<close>, \<open>EnterprisePack\<close>, \<open>Catalog\<close>: \<^verbatim>\<open>handlers/registry.ts\<close>, \<^verbatim>\<open>handlers/resolver.ts\<close>,
  \<^verbatim>\<open>services/job-service.ts\<close>, the shipped definitions under \<^verbatim>\<open>definitions\<close> and the templates.
  \<open>Implementations\<close>: the nine handlers of \<^verbatim>\<open>handlers/implementations\<close>.
  \<^item> \<open>Batch\<close>, \<open>Parallel\<close>, \<open>Replay\<close>, \<open>Saga\<close>, \<open>Cron\<close>: \<^verbatim>\<open>batch\<close>, \<^verbatim>\<open>engine/parallel-executor.ts\<close>,
  \<^verbatim>\<open>persistence\<close> and \<^verbatim>\<open>replay\<close>, \<^verbatim>\<open>saga\<close>, \<^verbatim>\<open>utils/cron.ts\<close> with the schedule service and the ticker.
  \<^item> \<open>Dsl\<close>: \<^verbatim>\<open>dsl\<close>. \<open>Sql\<close>: \<^verbatim>\<open>storage/sql\<close>. \<open>Query\<close>: \<^verbatim>\<open>query\<close> and \<^verbatim>\<open>utils/pagination.ts\<close>.
  \<open>Export\<close>: \<^verbatim>\<open>export\<close> and \<^verbatim>\<open>lib/run-serializer.ts\<close>. \<open>Http\<close>: \<^verbatim>\<open>handlers/http\<close>, \<^verbatim>\<open>webhooks\<close>.
  \<open>Security\<close>: \<^verbatim>\<open>security\<close>, \<^verbatim>\<open>middleware\<close>, tenants. \<open>Files\<close>: \<^verbatim>\<open>storage/file\<close>, \<^verbatim>\<open>plugins\<close>,
  \<^verbatim>\<open>config\<close>, \<^verbatim>\<open>migrations\<close>, \<^verbatim>\<open>batch/loader.ts\<close>, \<^verbatim>\<open>import\<close>. \<open>Reporting\<close>: \<^verbatim>\<open>audit\<close>,
  \<^verbatim>\<open>compliance\<close>, \<^verbatim>\<open>analytics\<close>, \<^verbatim>\<open>reporting\<close>. \<open>Connectors\<close>: \<^verbatim>\<open>connectors\<close>,
  \<^verbatim>\<open>notifications\<close>, \<^verbatim>\<open>integrations\<close>, \<^verbatim>\<open>health\<close>, the logger and \<^verbatim>\<open>lib/object-diff.ts\<close>.
  \<^item> \<open>OpenApi\<close>: \<^verbatim>\<open>openapi\<close> and the table of routes. \<open>Api\<close>: \<^verbatim>\<open>container.ts\<close>, \<^verbatim>\<open>app.ts\<close>, every route of
  \<^verbatim>\<open>api\<close>, the hooks around them and the composed server. \<open>Silence\<close>: what that server never does.
  \<open>Scripts\<close>: \<^verbatim>\<open>src/scripts\<close>.

  \<^bold>\<open>What the theorems show.\<close>
  \<^item> \<^emph>\<open>Definitions.\<close> Validation accepts exactly the well-formed jobs; whatever is registered, the store
  holds well-formed definitions with known handlers and capped times; the 102 shipped definitions
  are well formed and seeding installs exactly them.
  \<^item> \<^emph>\<open>Planning.\<close> The planner answers exactly on acyclic jobs, its levels are a schedule, its critical path
  is a longest chain; the optimizer of the workflow language sorts the tasks.
  \<^item> \<^emph>\<open>Runs.\<close> A created run is ready; executing a ready run ends in one of four states, whatever the
  handlers do, with run record, instance and history consistent, dependencies respected, attempts
  bounded and the locks free; if the handlers succeed and no constraint blocks, it completes. Any
  number of executions, interleaved in any order, never have two of one run past the lock, end, and leave
  every run as one execution alone would: settled, in step with its record and unlocked. The
  history of an instance is a chain of rows of the transition table. The retry, scheduling and pool
  components are characterised one by one, the pool as a refinement of an abstract priority queue.
  \<^item> \<^emph>\<open>Around runs.\<close> Sagas compensate in reverse order; a batch counts every item once under every
  interleaving and ends; the parallel executor keeps to its bound and to the dependencies and ends; a
  checkpoint reads back; the next run of a schedule is the earliest matching minute.
  \<^item> \<^emph>\<open>Data.\<close> ISO dates, journals and CSV exports read back; retention by comparing strings is retention
  by age; a query is its template; the pages of a search partition its result; a series keeps
  the last points; an import accounts for every file.
  \<^item> \<^emph>\<open>The edge.\<close> The circuit breaker admits the calls its state allows; a webhook is delivered within its
  attempts or given up, every post signed; the rate limiter's bound; who is let in by the
  authentication; and of the composed server: that a run of a shipped job posted over HTTP is served as
  completed, that with authentication on nobody ever gets in, and that no audit record is written and
  no event reaches a webhook, in any order of requests, executions, ticks and deliveries.

  The last two, like other theorems here, are true of the code and not what its documents
  promise; such divergences have lemmas of their own beside the definitions they are about, e.g.
  \<open>stray_token_hangs_parser\<close> in \<open>Dsl\<close>, \<open>refused_lock_leaks\<close> in \<open>Runs\<close>, \<open>failed_run_counts_as_completed\<close> in \<open>Batch\<close>.

  \<^bold>\<open>Interfaces.\<close> \<open>keyed_store\<close> is what a service relies on in a store, interpreted on the stores of
  jobs, runs, schedules and webhooks and on the two SQL repositories; \<open>workflow_store\<close> is the contract of the
  store with two indices; \<open>exclusive_lock\<close> that of the lock registry; \<open>lifo\<close> that of the compensation
  stack. \<open>Steps\<close> has those of step relations: \<open>invariant_steps\<close>, \<open>measured_steps\<close> and, extending it,
  \<open>ending_steps\<close>, interpreted on the instances, the batches, the
  interleaved executions and the parallel executor. The step relations are \<open>workflow_step\<close> and \<open>reachable_instance\<close>, \<open>breaker_run\<close>,
  \<open>batch_step\<close>, \<open>call_step\<close>, \<open>parallel_step\<close>, \<open>api_step\<close> and \<open>api_trace\<close>.

  \<^bold>\<open>Bounds and fuel.\<close> The loop of an execution has \<open>exec_fuel\<close> turns, one more than the number of tasks times
  the attempts the retry policy really gives a task, \<open>max 1 (maxAttempts - 1)\<close>; \<open>execution_settles\<close> proves it enough. The longest-path recursion of
  the planner has one unit more than the graph has nodes, enough on acyclic graphs, while the level loop is
  a \<open>while_option\<close> proved to stop. The expression parser has one unit more than there are tokens and
  always answers. The parser of the workflow language has one unit per turn, enough for every source
  without constraints and, as in the code, no amount being enough for some sources with one. The
  optimizer has two units more than there are tasks. The search of the cron module covers 366 days of
  minutes, as the code does. Steps of batches, of
  interleaved executions and of the parallel executor decrease a measure, which needs no fuel.

  \<^bold>\<open>Parameters.\<close> Code outside the repository is an argument: the schema library (its checks as
  predicates or as the parsed value), JSON text, HMAC and hash functions, \<^verbatim>\<open>localeCompare\<close> with the laws of a
  comparator, the URL parser, file paths. The HTTP library's router enters through \<open>routed\<close>: a request is given to a
  route whose pattern its path matches. Witnesses instantiate every such parameter.

  \<^bold>\<open>Not modelled.\<close> Timers and listening sockets (a tick and a request are steps instead); a switch
  inside a call of the task executor in \<open>Interleaving\<close>, and between the awaits of an execution started by
  the composed server of \<open>Api\<close>, where it runs to its end; texts of log lines in
  services; object keys that are names of prototype methods; the decimal form of fractional numbers inside
  expressions; arrays of 2^32 elements; dates outside the years 0 to 9999. Tests, build and deployment
  files, the JSON data under \<^verbatim>\<open>src/config\<close>, and the Python program under
  \<^verbatim>\<open>.fieldops_engine_snapshot\<close>, which nothing uses, are not part of the library.
\<close>

end
